(* ===== verification/Prelude.thy ===== *)
theory Prelude
  imports
    Complex_Main
    "HOL-Library.Char_ord"
    "HOL-Library.List_Lexorder"
    "HOL-Library.Product_Lexorder"
    "HOL-Library.Option_ord"
    "HOL-Library.Multiset"
begin

text \<open>
  The vocabulary every component shares: Rust strings as UTF-8 byte lists with the
  string operations the code uses, the error type of the course domain, machine
  integer arithmetic (checked, saturating), the iterator methods that pick and sort
  (\<open>min_by_key\<close>, \<open>max_by_key\<close>, \<open>sort_by\<close>), hash maps built by \<open>collect\<close>,
  and the calendar and clock, which come from a third-party crate and are parameters.
  The locale \<open>comparator\<close> is the contract of Rust's stable \<open>sort_by\<close>: a client
  gives a total preorder and gets a sorted, stable permutation. The locale
  \<open>wire_enum\<close> is the contract of the \<open>as_str\<close>/\<open>parse\<close> pairs.
\<close>

named_theorems policy_rules \<open>preservation of the shift policy bounds\<close>
named_theorems shift_rules \<open>well-formedness of confirmed shifts\<close>

section \<open>Machine integers\<close>

text \<open>
  An \<open>i64\<close> or \<open>i32\<close> value is an \<open>int\<close>; where the code checks or saturates, the
  range is written out. Unchecked arithmetic wraps in a release build.
\<close>

definition i64_min :: int where "i64_min = - (2 ^ 63)"
definition i64_max :: int where "i64_max = 2 ^ 63 - 1"
definition i32_min :: int where "i32_min = - (2 ^ 31)"
definition i32_max :: int where "i32_max = 2 ^ 31 - 1"

definition in_i64 :: "int \<Rightarrow> bool" where
  "in_i64 x \<longleftrightarrow> i64_min \<le> x \<and> x \<le> i64_max"

definition in_i32 :: "int \<Rightarrow> bool" where
  "in_i32 x \<longleftrightarrow> i32_min \<le> x \<and> x \<le> i32_max"

definition checked_i64 :: "int \<Rightarrow> int option" where
  "checked_i64 x = (if in_i64 x then Some x else None)"

definition saturate_i64 :: "int \<Rightarrow> int" where
  "saturate_i64 x = max i64_min (min i64_max x)"

definition wrap_i64 :: "int \<Rightarrow> int" where
  "wrap_i64 x = (x + 2 ^ 63) mod 2 ^ 64 - 2 ^ 63"

definition wrap_i32 :: "int \<Rightarrow> int" where
  "wrap_i32 x = (x + 2 ^ 31) mod 2 ^ 32 - 2 ^ 31"

lemma wrap_i32_id [simp]: "in_i32 x \<Longrightarrow> wrap_i32 x = x"
  by (simp add: wrap_i32_def in_i32_def i32_min_def i32_max_def)

text \<open>Rust's \<open>/\<close> truncates towards zero.\<close>

definition quotient_i :: "int \<Rightarrow> int \<Rightarrow> int" where
  "quotient_i numer denom =
     (let q = \<bar>numer\<bar> div \<bar>denom\<bar> in if (numer < 0) = (denom < 0) then q else - q)"

lemma quotient_i_nonneg: "0 \<le> a \<Longrightarrow> 0 < b \<Longrightarrow> quotient_i a b = a div b"
  by (simp add: quotient_i_def)

lemma wrap_i64_id [simp]: "in_i64 x \<Longrightarrow> wrap_i64 x = x"
  by (simp add: wrap_i64_def in_i64_def i64_min_def i64_max_def)

lemma wrap_i32_add: "wrap_i32 (wrap_i32 a + b) = wrap_i32 (a + b)"
proof -
  let ?m = "2 ^ 32 :: int" and ?c = "2 ^ 31 :: int"
  have "((a + ?c) mod ?m - ?c + b + ?c) mod ?m = ((a + ?c) mod ?m + b) mod ?m" by simp
  also have "\<dots> = (a + ?c + b) mod ?m" by (rule mod_add_left_eq)
  also have "a + ?c + b = a + b + ?c" by simp
  finally show ?thesis by (simp add: wrap_i32_def)
qed

lemma wrap_i32_add_right: "wrap_i32 (a + wrap_i32 b) = wrap_i32 (a + b)"
  using wrap_i32_add [of b a] by (simp only: add.commute)

text \<open>A running total wraps, but only its value modulo \<open>2 ^ 64\<close> matters.\<close>

lemma wrap_i64_add [simp]: "wrap_i64 (wrap_i64 a + b) = wrap_i64 (a + b)"
proof -
  let ?m = "2 ^ 64 :: int" and ?c = "2 ^ 63 :: int"
  have "((a + ?c) mod ?m - ?c + b + ?c) mod ?m = ((a + ?c) mod ?m + b) mod ?m" by simp
  also have "\<dots> = (a + ?c + b) mod ?m" by (rule mod_add_left_eq)
  also have "a + ?c + b = a + b + ?c" by simp
  finally show ?thesis by (simp only: wrap_i64_def)
qed

lemma wrap_i64_add_right [simp]: "wrap_i64 (a + wrap_i64 b) = wrap_i64 (a + b)"
  using wrap_i64_add [of b a] by (simp only: add.commute)

lemma fold_wrap_i64:
  "fold (\<lambda>x acc. wrap_i64 (acc + f x)) xs (wrap_i64 a) = wrap_i64 (a + sum_list (map f xs))"
  by (induction xs arbitrary: a) (simp_all add: add.assoc)

lemma saturate_i64_id [simp]: "in_i64 x \<Longrightarrow> saturate_i64 x = x"
  by (simp add: saturate_i64_def in_i64_def)

lemma checked_i64_eq_Some [simp]: "checked_i64 x = Some y \<longleftrightarrow> in_i64 x \<and> y = x"
  by (auto simp: checked_i64_def)

lemma checked_i64_eq_None [simp]: "checked_i64 x = None \<longleftrightarrow> \<not> in_i64 x"
  by (simp add: checked_i64_def)

definition clamp :: "int \<Rightarrow> int \<Rightarrow> int \<Rightarrow> int" where
  "clamp lo hi x = (if x < lo then lo else if hi < x then hi else x)"

lemma clamp_bounds: "clamp low high v \<in> {low..high}" if "low \<le> high"
  using that by (simp add: clamp_def)

section \<open>Strings\<close>

text \<open>
  A Rust string is its UTF-8 bytes: a \<open>char\<close> here is one byte, so \<open>length\<close> is
  \<open>str::len\<close>, the list order is the order of \<open>str::cmp\<close>, and \<open>char_count\<close>, which
  skips continuation bytes, is \<open>chars().count()\<close>.
\<close>

type_synonym str = string

definition byte_of :: "char \<Rightarrow> nat" where
  "byte_of c = of_char c"

definition char_count :: "str \<Rightarrow> nat" where
  "char_count s = length (filter (\<lambda>c. \<not> (128 \<le> byte_of c \<and> byte_of c < 192)) s)"

text \<open>
  \<open>str::trim\<close> removes Unicode white space from both ends. \<open>ws_prefix\<close> is the number
  of bytes of the white-space character a byte list starts with, 0 if it starts with
  none; \<open>ws_suffix\<close> reads the reversed list.
\<close>

fun ws_bytes :: "nat list \<Rightarrow> nat" where
  "ws_bytes (a # bs) =
     (if a \<in> {9, 10, 11, 12, 13, 32} then 1
      else case bs of
        [] \<Rightarrow> 0
      | b # cs \<Rightarrow>
          if a = 194 \<and> (b = 133 \<or> b = 160) then 2
          else (case cs of
            [] \<Rightarrow> 0
          | c # _ \<Rightarrow>
              if (a = 225 \<and> b = 154 \<and> c = 128)
                \<or> (a = 226 \<and> b = 128 \<and> (128 \<le> c \<and> c \<le> 138 \<or> c = 168 \<or> c = 169 \<or> c = 175))
                \<or> (a = 226 \<and> b = 129 \<and> c = 159)
                \<or> (a = 227 \<and> b = 128 \<and> c = 128) then 3 else 0))"
| "ws_bytes [] = 0"

definition ws_prefix :: "str \<Rightarrow> nat" where
  "ws_prefix s = ws_bytes (map byte_of (take 3 s))"

definition ws_suffix :: "str \<Rightarrow> nat" where
  "ws_suffix r =
     (if ws_bytes (map byte_of (take 1 r)) = 1 then 1
      else if ws_bytes (map byte_of (rev (take 2 r))) = 2 then 2
      else if ws_bytes (map byte_of (rev (take 3 r))) = 3 then 3 else 0)"

lemma ws_bytes_le: "ws_bytes bs \<le> length bs"
  by (induction bs rule: ws_bytes.induct) (auto split: list.splits)

lemma ws_prefix_le: "ws_prefix s \<le> length s"
  using ws_bytes_le [of "map byte_of (take 3 s)"] by (simp add: ws_prefix_def)

function trim_start :: "str \<Rightarrow> str" where
  "trim_start s = (if ws_prefix s = 0 then s else trim_start (drop (ws_prefix s) s))"
  by pat_completeness auto
termination
proof (relation "measure length", goal_cases)
  case (2 s)
  then show ?case using ws_prefix_le [of s] by simp
qed simp

function trim_rev :: "str \<Rightarrow> str" where
  "trim_rev r = (if ws_suffix r = 0 \<or> r = [] then r else trim_rev (drop (ws_suffix r) r))"
  by pat_completeness auto
termination
proof (relation "measure length", goal_cases)
  case (2 r)
  then show ?case by (cases r) (auto simp: less_Suc_eq_le)
qed simp

declare trim_start.simps [simp del] trim_rev.simps [simp del]

definition trim :: "str \<Rightarrow> str" where
  "trim s = rev (trim_rev (rev (trim_start s)))"

definition ascii_lower :: "char \<Rightarrow> char" where
  "ascii_lower c =
     (if 65 \<le> byte_of c \<and> byte_of c \<le> 90 then char_of (byte_of c + 32) else c)"

definition to_ascii_lowercase :: "str \<Rightarrow> str" where
  "to_ascii_lowercase = map ascii_lower"

definition ascii_upper :: "char \<Rightarrow> char" where
  "ascii_upper c =
     (if 97 \<le> byte_of c \<and> byte_of c \<le> 122 then char_of (byte_of c - 32) else c)"

definition to_ascii_uppercase :: "str \<Rightarrow> str" where
  "to_ascii_uppercase = map ascii_upper"

definition eq_ignore_ascii_case :: "str \<Rightarrow> str \<Rightarrow> bool" where
  "eq_ignore_ascii_case a b \<longleftrightarrow> to_ascii_lowercase a = to_ascii_lowercase b"

text \<open>\<open>value.map(|v| v.trim().to_string()).filter(|v| !v.is_empty())\<close>, used on every
  optional text field.\<close>

definition trimmed :: "str option \<Rightarrow> str option" where
  "trimmed v = (case v of None \<Rightarrow> None
     | Some s \<Rightarrow> if trim s = [] then None else Some (trim s))"

lemma trimmed_nonempty: "trimmed v = Some s \<Longrightarrow> s \<noteq> []"
  by (auto simp: trimmed_def split: option.splits if_splits)

text \<open>What \<open>trim\<close> leaves has no white space at either end, so trimming again changes nothing.\<close>

lemma ws_prefix_trim_start: "ws_prefix (trim_start s) = 0"
proof (induction s rule: trim_start.induct)
  case (1 s)
  then show ?case by (subst trim_start.simps) simp
qed

lemma ws_suffix_trim_rev: "ws_suffix (trim_rev r) = 0 \<or> trim_rev r = []"
proof (induction r rule: trim_rev.induct)
  case (1 r)
  then show ?case by (subst (1 2) trim_rev.simps) simp
qed

lemma trim_rev_drop: "\<exists>k. trim_rev r = drop k r"
proof (induction r rule: trim_rev.induct)
  case (1 r)
  then show ?case by (subst trim_rev.simps) (metis drop_0 drop_drop)
qed

lemma ws_bytes_take: "ws_bytes (take k bs) \<noteq> 0 \<Longrightarrow> ws_bytes bs \<noteq> 0"
  by (cases k; cases bs; cases "tl bs"; cases "tl (tl bs)"; cases "k - 1"; cases "k - 2")
    (auto split: if_splits list.splits)

lemma ws_prefix_take:
  assumes "ws_prefix s = 0"
  shows "ws_prefix (take k s) = 0"
proof -
  have "map byte_of (take 3 (take k s)) = take k (map byte_of (take 3 s))"
    by (simp add: take_map min.commute)
  then show ?thesis
    using ws_bytes_take [of k "map byte_of (take 3 s)"] assms by (auto simp: ws_prefix_def)
qed

lemma trim_idem [simp]: "trim (trim s) = trim s"
proof -
  obtain k where k: "trim_rev (rev (trim_start s)) = drop k (rev (trim_start s))"
    using trim_rev_drop by blast
  then have "trim s = take (length (trim_start s) - k) (trim_start s)"
    by (simp add: trim_def rev_drop)
  then have "ws_prefix (trim s) = 0" by (simp add: ws_prefix_take ws_prefix_trim_start)
  then have "trim_start (trim s) = trim s" by (subst trim_start.simps) simp
  then show ?thesis
    using ws_suffix_trim_rev [of "rev (trim_start s)"]
    by (subst trim_def) (subst trim_rev.simps, auto simp: trim_def)
qed

lemma trimmed_idem [simp]: "trimmed (trimmed v) = trimmed v"
  by (auto simp: trimmed_def split: option.splits)

text \<open>\<open>str::split\<close> on one character, and \<open>join\<close> with one.\<close>

fun split_on :: "char \<Rightarrow> str \<Rightarrow> str list" where
  "split_on c [] = [[]]"
| "split_on c (x # xs) =
     (if x = c then [] # split_on c xs
      else case split_on c xs of [] \<Rightarrow> [[x]] | w # ws \<Rightarrow> (x # w) # ws)"

fun join_with :: "char \<Rightarrow> str list \<Rightarrow> str" where
  "join_with c [] = []"
| "join_with c [w] = w"
| "join_with c (w # ws) = w @ c # join_with c ws"

lemma split_on_ne [simp]: "split_on c s \<noteq> []"
  by (induction s) (auto split: list.splits)

lemma split_on_no_sep: "c \<notin> set w \<Longrightarrow> split_on c w = [w]"
  by (induction w) auto

lemma split_on_append: "c \<notin> set w \<Longrightarrow> split_on c (w @ c # s) = w # split_on c s"
  by (induction w) auto

lemma split_join:
  "ws \<noteq> [] \<Longrightarrow> \<forall>w \<in> set ws. c \<notin> set w \<Longrightarrow> split_on c (join_with c ws) = ws"
  by (induction c ws rule: join_with.induct) (auto simp: split_on_no_sep split_on_append)

section \<open>Errors\<close>

text \<open>
  \<open>CourseError\<close> of \<open>src/course/domain/error.rs\<close>; a result is \<open>course_error + 'a\<close>.
\<close>

datatype course_error =
    Unauthorized
  | Forbidden str
  | TenantForbidden
  | BadRequest str
  | Conflict str
  | UpstreamClient int str
  | ReceptionReaderFailed str
  | NotFound str
  | Provider str

type_synonym 'a result = "course_error + 'a"

definition is_ok :: "'a result \<Rightarrow> bool" where
  "is_ok r = (case r of Inl _ \<Rightarrow> False | Inr _ \<Rightarrow> True)"

lemma is_ok_simps [simp]: "\<not> is_ok (Inl e)" "is_ok (Inr x)"
  by (simp_all add: is_ok_def)

section \<open>Iterator methods that pick\<close>

text \<open>\<open>Iterator::min_by_key\<close> keeps the first of equal minima,
  \<open>Iterator::max_by_key\<close> the last of equal maxima.\<close>

fun min_by_key :: "('a \<Rightarrow> 'k::linorder) \<Rightarrow> 'a list \<Rightarrow> 'a option" where
  "min_by_key f [] = None"
| "min_by_key f (x # xs) =
     (case min_by_key f xs of None \<Rightarrow> Some x
      | Some y \<Rightarrow> if f y < f x then Some y else Some x)"

fun max_by_key :: "('a \<Rightarrow> 'k::linorder) \<Rightarrow> 'a list \<Rightarrow> 'a option" where
  "max_by_key f [] = None"
| "max_by_key f (x # xs) =
     (case max_by_key f xs of None \<Rightarrow> Some x
      | Some y \<Rightarrow> if f x \<le> f y then Some y else Some x)"

lemma min_by_key_None [simp]: "min_by_key f xs = None \<longleftrightarrow> xs = []"
  by (cases xs) (auto split: option.splits)

lemma min_by_key_in: "min_by_key f xs = Some x \<Longrightarrow> x \<in> set xs"
  by (induction xs arbitrary: x) (auto split: option.splits if_splits)

lemma min_by_key_le: "min_by_key f xs = Some x \<Longrightarrow> y \<in> set xs \<Longrightarrow> f x \<le> f y"
  by (induction xs arbitrary: x) (fastforce split: option.splits if_splits)+

lemma max_by_key_in: "max_by_key f xs = Some x \<Longrightarrow> x \<in> set xs"
  by (induction xs arbitrary: x) (auto split: option.splits if_splits)

lemma max_by_key_None [simp]: "max_by_key f xs = None \<longleftrightarrow> xs = []"
  by (cases xs) (auto split: option.splits)

lemma max_by_key_ge: "max_by_key f xs = Some x \<Longrightarrow> y \<in> set xs \<Longrightarrow> f y \<le> f x"
  by (induction xs arbitrary: x)
    (auto split: option.splits if_splits intro: order.trans less_imp_le)

lemma length_filter_mono:
  "(\<And>x. x \<in> set xs \<Longrightarrow> P x \<Longrightarrow> Q x) \<Longrightarrow> length (filter P xs) \<le> length (filter Q xs)"
  by (induction xs) (auto simp: le_Suc_eq)

text \<open>\<open>Iterator::position\<close>: the index of the first element that satisfies the test.\<close>

fun position :: "('a \<Rightarrow> bool) \<Rightarrow> 'a list \<Rightarrow> nat option" where
  "position p [] = None"
| "position p (x # xs) = (if p x then Some 0 else map_option Suc (position p xs))"

lemma position_Some:
  "position p xs = Some i \<Longrightarrow> i < length xs \<and> p (xs ! i) \<and> (\<forall>j < i. \<not> p (xs ! j))"
proof (induction xs arbitrary: i)
  case (Cons x xs)
  then show ?case by (auto simp: less_Suc_eq_0_disj split: if_splits)
qed simp

lemma position_None [simp]: "position p xs = None \<longleftrightarrow> (\<forall>x \<in> set xs. \<not> p x)"
  by (induction xs) auto

section \<open>Stable sorting\<close>

text \<open>
  \<open>slice::sort_by\<close> with a comparator: \<open>le a b\<close> is \<open>cmp a b != Greater\<close>. The
  result of a stable sort is determined by the comparator, whatever the algorithm.
\<close>

fun insert_by :: "('a \<Rightarrow> 'a \<Rightarrow> bool) \<Rightarrow> 'a \<Rightarrow> 'a list \<Rightarrow> 'a list" where
  "insert_by le x [] = [x]"
| "insert_by le x (y # ys) = (if le x y then x # y # ys else y # insert_by le x ys)"

fun sort_by :: "('a \<Rightarrow> 'a \<Rightarrow> bool) \<Rightarrow> 'a list \<Rightarrow> 'a list" where
  "sort_by le [] = []"
| "sort_by le (x # xs) = insert_by le x (sort_by le xs)"

lemma mset_insert_by [simp]: "mset (insert_by le x xs) = add_mset x (mset xs)"
  by (induction xs) auto

lemma mset_sort_by [simp]: "mset (sort_by le xs) = mset xs"
  by (induction xs) auto

lemma set_sort_by [simp]: "set (sort_by le xs) = set xs"
  by (metis mset_sort_by set_mset_mset)

lemma length_sort_by [simp]: "length (sort_by le xs) = length xs"
  by (metis mset_sort_by size_mset)

lemma distinct_sort_by [simp]: "distinct (sort_by le xs) = distinct xs"
  by (metis mset_sort_by mset_eq_imp_distinct_iff)

lemma sort_by_empty [simp]: "sort_by le xs = [] \<longleftrightarrow> xs = []"
  using length_sort_by [of le xs] by (metis length_0_conv)

lemma insert_by_map: "insert_by le (f x) (map f xs) = map f (insert_by (\<lambda>a b. le (f a) (f b)) x xs)"
  by (induction xs) auto

lemma sort_by_map: "sort_by le (map f xs) = map f (sort_by (\<lambda>a b. le (f a) (f b)) xs)"
  by (induction xs) (simp_all add: insert_by_map)

text \<open>The pages of a list, read one after the other, are the list.\<close>

lemma pages_join: "concat (map (\<lambda>i. take n (drop (i * n) xs)) [0..<k]) = take (k * n) xs"
  by (induction k) (simp_all add: take_add add.commute [of n])

text \<open>\<open>slice::chunks\<close>.\<close>

definition chunks :: "nat \<Rightarrow> 'a list \<Rightarrow> 'a list list" where
  "chunks n xs = map (\<lambda>i. take n (drop (i * n) xs)) [0..<(length xs + n - 1) div n]"

lemma chunks_join: "0 < n \<Longrightarrow> concat (chunks n xs) = xs"
proof -
  assume "0 < n"
  have "length xs \<le> (length xs + n - 1) div n * n"
    using div_mult_mod_eq [of "length xs + n - 1" n] mod_less_divisor [OF \<open>0 < n\<close>, of "length xs + n - 1"] by linarith
  then show ?thesis by (simp add: chunks_def pages_join)
qed

locale comparator =
  fixes le :: "'a \<Rightarrow> 'a \<Rightarrow> bool"
  assumes total: "le x y \<or> le y x"
    and trans: "le x y \<Longrightarrow> le y z \<Longrightarrow> le x z"
begin

lemma refl: "le x x"
  using total by blast

lemma sorted_insert_by: "sorted_wrt le xs \<Longrightarrow> sorted_wrt le (insert_by le x xs)"
proof (induction xs)
  case (Cons y ys)
  have "set (insert_by le x ys) = insert x (set ys)"
    by (metis mset_insert_by set_mset_add_mset_insert set_mset_mset)
  with Cons show ?case using total by (auto intro: trans)
qed simp

lemma sorted_sort_by: "sorted_wrt le (sort_by le xs)"
  by (induction xs) (simp_all add: sorted_insert_by)

lemma head_least: "sort_by le xs = y # ys \<Longrightarrow> x \<in> set xs \<Longrightarrow> le y x"
  using sorted_sort_by [of xs] set_sort_by [of le xs] refl by (metis sorted_wrt.simps(2) set_ConsD)

text \<open>Elements the comparator cannot tell apart keep their order.\<close>

lemma insert_by_filter_other:
  "\<not> P x \<Longrightarrow> filter P (insert_by le x xs) = filter P xs"
  by (induction xs) auto

lemma insert_by_filter_same:
  assumes "\<forall>y. P y \<longrightarrow> le x y" and "P x"
  shows "filter P (insert_by le x xs) = x # filter P xs"
  using assms by (induction xs) auto

lemma stable_sort_by:
  assumes eq: "\<And>y z. P y \<Longrightarrow> P z \<Longrightarrow> le y z"
  shows "filter P (sort_by le xs) = filter P xs"
proof (induction xs)
  case (Cons x xs)
  then show ?case
    using eq by (cases "P x") (simp_all add: insert_by_filter_same insert_by_filter_other)
qed simp

text \<open>An antisymmetric comparator leaves no choice: the result depends only on the
  multiset of elements.\<close>

lemma sorted_unique:
  assumes anti: "\<And>x y. x \<in> set xs \<Longrightarrow> y \<in> set xs \<Longrightarrow> le x y \<Longrightarrow> le y x \<Longrightarrow> x = y"
    and "mset xs = mset ys" "sorted_wrt le xs" "sorted_wrt le ys"
  shows "xs = ys"
  using assms
proof (induction xs arbitrary: ys)
  case (Cons x xs)
  from Cons.prems(2) obtain z zs where ys: "ys = z # zs" by (cases ys) auto
  have sets: "set ys = set (x # xs)" using Cons.prems(2) by (metis set_mset_mset)
  have "z \<in> set (x # xs)" "x \<in> set (z # zs)" using sets ys by auto
  then have "le x z" "le z x" using Cons.prems(3,4) ys refl by auto
  then have "x = z" using Cons.prems(1) \<open>z \<in> set (x # xs)\<close> by simp
  with Cons.prems ys have "xs = zs" by (intro Cons.IH) auto
  with ys \<open>x = z\<close> show ?case by simp
qed simp

lemma sort_by_order_irrelevant:
  assumes "\<And>x y. x \<in> set xs \<Longrightarrow> y \<in> set xs \<Longrightarrow> le x y \<Longrightarrow> le y x \<Longrightarrow> x = y"
    and "mset xs = mset ys"
  shows "sort_by le xs = sort_by le ys"
  by (rule sorted_unique) (use assms sorted_sort_by in auto)

text \<open>Pages read one by one are the sorted selection, though the rows may be stored in another
  order each time one is read.\<close>

lemma pages_complete:
  assumes "\<And>x y. x \<in> set rows \<Longrightarrow> y \<in> set rows \<Longrightarrow> le x y \<Longrightarrow> le y x \<Longrightarrow> x = y"
    and "\<And>i. mset (storage i) = mset rows" "length (filter P rows) \<le> k * n"
  shows "concat (map (\<lambda>i. take n (drop (i * n) (sort_by le (filter P (storage i))))) [0..<k])
    = sort_by le (filter P rows)"
proof -
  have "sort_by le (filter P (storage i)) = sort_by le (filter P rows)" for i
  proof (rule sort_by_order_irrelevant)
    show "mset (filter P (storage i)) = mset (filter P rows)" using assms(2) by simp
    fix x y
    assume "x \<in> set (filter P (storage i))" "y \<in> set (filter P (storage i))" and le: "le x y" "le y x"
    then have "x \<in> set rows" "y \<in> set rows" using mset_eq_setD [OF assms(2)] by auto
    then show "x = y" using le by (rule assms(1))
  qed
  then show ?thesis using assms(3) by (simp add: pages_join)
qed

end

text \<open>\<open>sort_by_key\<close> is \<open>sort_by\<close> with the comparison of the keys.\<close>

definition key_le :: "('a \<Rightarrow> 'k::linorder) \<Rightarrow> 'a \<Rightarrow> 'a \<Rightarrow> bool" where
  "key_le f a b \<longleftrightarrow> f a \<le> f b"

interpretation by_key: comparator "key_le f" for f :: "'a \<Rightarrow> 'k::linorder"
  by unfold_locales (auto simp: key_le_def)

text \<open>\<open>sort(); dedup()\<close> leaves each value once.\<close>

lemma sorted_distinct_adj: "sorted xs \<Longrightarrow> distinct_adj xs \<Longrightarrow> distinct (xs :: 'a::linorder list)"
  by (induction xs rule: induct_list012) auto

section \<open>Hash maps\<close>

text \<open>
  \<open>collect\<close> into a \<open>HashMap\<close> keeps the last value of a repeated key;
  \<open>*m.entry(k).or_insert(0) += 1\<close> is \<open>bump_count\<close>.
\<close>

definition collect_map :: "('k \<times> 'v) list \<Rightarrow> ('k \<rightharpoonup> 'v)" where
  "collect_map kvs = map_of (rev kvs)"

definition count_of :: "('k \<rightharpoonup> nat) \<Rightarrow> 'k \<Rightarrow> nat" where
  "count_of m k = (case m k of None \<Rightarrow> 0 | Some n \<Rightarrow> n)"

definition bump_count :: "('key \<rightharpoonup> nat) \<Rightarrow> 'key \<Rightarrow> 'key \<rightharpoonup> nat" where
  "bump_count m k = m(k \<mapsto> Suc (count_of m k))"

lemma count_of_bump [simp]:
  "count_of (bump_count m k) j = (if j = k then Suc (count_of m k) else count_of m j)"
  by (simp add: count_of_def bump_count_def)

lemma count_of_empty [simp]: "count_of Map.empty k = 0"
  by (simp add: count_of_def)

lemma collect_map_Some: "collect_map kvs k = Some v \<Longrightarrow> (k, v) \<in> set kvs"
  unfolding collect_map_def by (drule map_of_SomeD) simp

lemma collect_map_None [simp]: "collect_map kvs k = None \<longleftrightarrow> k \<notin> fst ` set kvs"
  by (simp add: collect_map_def map_of_eq_None_iff)

section \<open>Running totals\<close>

text \<open>
  A loop that adds records to a total may take them in any order when adding two of them
  commutes: the contract of every sum the program makes over a list an upstream service sends.
\<close>

locale running_total =
  fixes add :: "'r \<Rightarrow> 't \<Rightarrow> 't"
  assumes commute: "add x (add y t) = add y (add x t)"
begin

lemma fold_shuffle: "mset xs = mset ys \<Longrightarrow> fold add xs = fold add ys"
  by (rule fold_multiset_equiv) (auto simp: commute fun_eq_iff)

lemma fold_filter_shuffle:
  "mset xs = mset ys \<Longrightarrow> fold add (filter P xs) = fold add (filter P ys)"
  by (rule fold_shuffle) simp

end

section \<open>Wire tokens\<close>

text \<open>
  Enumerations travel as stable text tokens: \<open>as_str\<close> prints one, \<open>parse\<close> reads it
  back, and reading is lenient about case and surrounding space. The contract is that
  what was printed is read back; then two values never share a token.
\<close>

definition wire_key :: "str \<Rightarrow> str" where
  "wire_key raw = to_ascii_lowercase (trim raw)"

locale wire_enum =
  fixes as_str :: "'e \<Rightarrow> str" and parse :: "str \<Rightarrow> 'e"
  assumes parse_as_str: "parse (as_str x) = x"
begin

lemma as_str_inj: "as_str x = as_str y \<longleftrightarrow> x = y"
  by (metis parse_as_str)

lemma parse_surj: "\<exists>s. parse s = x"
  using parse_as_str by blast

lemma parse_canonical: "parse (as_str (parse s)) = parse s"
  by (rule parse_as_str)

end

text \<open>
  Some of them refuse a token they do not know; a reader of stored rows then falls back to a
  fixed value, and read that way they keep the lenient contract.
\<close>

definition result_or :: "'a result \<Rightarrow> 'a \<Rightarrow> 'a" where
  "result_or r fallback = (case r of Inl _ \<Rightarrow> fallback | Inr x \<Rightarrow> x)"

lemma result_or_simps [simp]: "result_or (Inl e) d = d" "result_or (Inr x) d = x"
  by (simp_all add: result_or_def)

locale wire_code =
  fixes as_str :: "'e \<Rightarrow> str" and parse :: "str \<Rightarrow> 'e result" and fallback :: 'e
  assumes parse_token: "parse (as_str x) = Inr x"
begin

lemma refused_not_token: "parse s = Inl e \<Longrightarrow> s \<noteq> as_str x"
  using parse_token [of x] by auto

end

sublocale wire_code \<subseteq> lenient: wire_enum as_str "\<lambda>s. result_or (parse s) fallback"
  by unfold_locales (simp add: parse_token)

section \<open>Calendar and clock\<close>

text \<open>
  Dates and times come from the \<open>chrono\<close> and \<open>chrono_tz\<close> crates, which are not part
  of the repository. A \<open>NaiveDate\<close> is its day number and a \<open>DateTime<Utc>\<close> its
  nanoseconds since the epoch, which is how the crate orders them; everything else the
  code asks of the crate is a field of the parameter \<open>calendar\<close> or \<open>clock\<close>.
\<close>

datatype weekday = Mon | Tue | Wed | Thu | Fri | Sat | Sun

type_synonym date = int
type_synonym instant = int

record calendar =
  cal_weekday :: "date \<Rightarrow> weekday"
  cal_pred :: "date \<Rightarrow> date option"
  cal_succ :: "date \<Rightarrow> date option"
  cal_ymd :: "int \<Rightarrow> int \<Rightarrow> int \<Rightarrow> date option"

record clock =
  clk_minute_of_day :: "instant \<Rightarrow> int"
  clk_local_date :: "instant \<Rightarrow> date"
  clk_midnight :: "date \<Rightarrow> instant option"

definition minutes :: "int \<Rightarrow> int" where
  "minutes m = m * 60000000000"

lemma minutes_mono [simp]: "minutes a < minutes b \<longleftrightarrow> a < b" "minutes a \<le> minutes b \<longleftrightarrow> a \<le> b"
  by (simp_all add: minutes_def)

lemma minutes_pos [simp]: "0 < minutes a \<longleftrightarrow> 0 < a"
  by (simp add: minutes_def)

text \<open>A clock in UTC and the first days of the months of 2026, for concrete instances.\<close>

definition utc_calendar :: calendar where
  "utc_calendar = \<lparr>cal_weekday = (\<lambda>_. Mon), cal_pred = (\<lambda>d. Some (d - 1)), cal_succ = (\<lambda>d. Some (d + 1)),
     cal_ymd = (\<lambda>y m d. if y = 2026 \<and> 1 \<le> m \<and> m \<le> 12 \<and> d = 1
       then Some (20454 + [0, 31, 59, 90, 120, 151, 181, 212, 243, 273, 304, 334] ! nat (m - 1)) else None)\<rparr>"

definition utc_clock :: clock where
  "utc_clock = \<lparr>clk_minute_of_day = (\<lambda>t. (t div minutes 1) mod 1440),
     clk_local_date = (\<lambda>t. t div minutes 1440), clk_midnight = (\<lambda>d. Some (d * minutes 1440))\<rparr>"

end
