(* ===== verification/Float64.thy ===== *)
theory Float64
  imports Prelude
begin

text \<open>
  Rust's \<open>f64\<close> as far as the course domain uses it: a finite value is the rational it
  denotes, every operation rounds its exact result to the nearest double, ties to
  even, overflow is infinite. The sign of zero is not kept (nothing in the domain
  divides by a zero or prints one). \<open>round\<close> is half away from zero and the casts to
  integers saturate and send NaN to 0, as \<open>as i32\<close> and \<open>as i64\<close> do.
\<close>

datatype f64 = Fin rat | PosInf | NegInf | NaN

definition round_half_even :: "rat \<Rightarrow> int" where
  "round_half_even q =
     (let f = \<lfloor>q\<rfloor>; r = q - of_int f
      in if r < 1/2 then f else if 1/2 < r then f + 1 else if even f then f else f + 1)"

fun bit_len :: "int \<Rightarrow> int" where
  "bit_len n = (if n \<le> 0 then 0 else 1 + bit_len (n div 2))"

declare bit_len.simps [simp del]

text \<open>The exponent of the leading binary digit of a positive rational.\<close>

definition binary_exponent :: "rat \<Rightarrow> int" where
  "binary_exponent q =
     (let (n, d) = quotient_of q; e = bit_len n - bit_len d
      in if q < 2 powi e then e - 1 else e)"

definition f64_of_rat :: "rat \<Rightarrow> f64" where
  "f64_of_rat q =
     (if q = 0 then Fin 0
      else let u = max (binary_exponent \<bar>q\<bar> - 52) (-1074);
               n = round_half_even (\<bar>q\<bar> / 2 powi u)
           in if 971 < u \<or> u = 971 \<and> n = 9007199254740992
              then (if 0 < q then PosInf else NegInf)
              else Fin (sgn q * of_int n * 2 powi u))"

text \<open>
  A double has 53 significant bits (\<open>9007199254740992 = 2 ^ 53\<close>) and its last place is at
  least \<open>2 powi -1074\<close> and at most \<open>2 powi 971\<close>.
\<close>

definition f64_of_int :: "int \<Rightarrow> f64" where
  "f64_of_int n = f64_of_rat (of_int n)"

fun f64_is_finite :: "f64 \<Rightarrow> bool" where
  "f64_is_finite (Fin _) = True"
| "f64_is_finite _ = False"

fun f64_le :: "f64 \<Rightarrow> f64 \<Rightarrow> bool" where
  "f64_le NaN _ = False"
| "f64_le _ NaN = False"
| "f64_le NegInf _ = True"
| "f64_le _ PosInf = True"
| "f64_le (Fin a) (Fin b) = (a \<le> b)"
| "f64_le _ _ = False"

definition f64_lt :: "f64 \<Rightarrow> f64 \<Rightarrow> bool" where
  "f64_lt a b \<longleftrightarrow> f64_le a b \<and> \<not> f64_le b a"

definition round_away :: "rat \<Rightarrow> int" where
  "round_away q = (if 0 \<le> q then \<lfloor>q + 1/2\<rfloor> else - \<lfloor>1/2 - q\<rfloor>)"

fun f64_round :: "f64 \<Rightarrow> f64" where
  "f64_round (Fin q) = Fin (of_int (round_away q))"
| "f64_round x = x"

text \<open>\<open>value as i32\<close>/\<open>value as i64\<close>: truncate towards zero and saturate.\<close>

definition trunc_rat :: "rat \<Rightarrow> int" where
  "trunc_rat q = (if 0 \<le> q then \<lfloor>q\<rfloor> else - \<lfloor>- q\<rfloor>)"

fun f64_cast :: "int \<Rightarrow> int \<Rightarrow> f64 \<Rightarrow> int" where
  "f64_cast lo hi (Fin q) = clamp lo hi (trunc_rat q)"
| "f64_cast lo hi PosInf = hi"
| "f64_cast lo hi NegInf = lo"
| "f64_cast lo hi NaN = 0"

definition f64_as_i32 :: "f64 \<Rightarrow> int" where
  "f64_as_i32 = f64_cast i32_min i32_max"

definition f64_as_i64 :: "f64 \<Rightarrow> int" where
  "f64_as_i64 = f64_cast i64_min i64_max"

text \<open>Products and quotients; only finite divisors that are not zero are divided by.\<close>

definition rat_sign :: "f64 \<Rightarrow> int" where
  "rat_sign x = (case x of Fin q \<Rightarrow> (if q < 0 then -1 else if q = 0 then 0 else 1)
     | PosInf \<Rightarrow> 1 | NegInf \<Rightarrow> -1 | NaN \<Rightarrow> 0)"

definition f64_inf :: "int \<Rightarrow> f64" where
  "f64_inf s = (if s = 0 then NaN else if 0 < s then PosInf else NegInf)"

definition f64_mul :: "f64 \<Rightarrow> f64 \<Rightarrow> f64" where
  "f64_mul a b = (case (a, b) of (Fin p, Fin q) \<Rightarrow> f64_of_rat (p * q)
     | (NaN, _) \<Rightarrow> NaN | (_, NaN) \<Rightarrow> NaN
     | _ \<Rightarrow> f64_inf (rat_sign a * rat_sign b))"

definition f64_div :: "f64 \<Rightarrow> f64 \<Rightarrow> f64" where
  "f64_div a b = (case (a, b) of
       (Fin p, Fin q) \<Rightarrow> if q = 0 then (if p = 0 then NaN else f64_inf (rat_sign a))
                         else f64_of_rat (p / q)
     | (NaN, _) \<Rightarrow> NaN | (_, NaN) \<Rightarrow> NaN
     | (Fin _, _) \<Rightarrow> Fin 0
     | (_, Fin q) \<Rightarrow> f64_inf (rat_sign a * (if q < 0 then -1 else 1))
     | _ \<Rightarrow> NaN)"

lemma round_away_nonneg: "0 \<le> q \<Longrightarrow> 0 \<le> round_away q"
  by (simp add: round_away_def)

lemma round_away_nonpos: "q \<le> 0 \<Longrightarrow> round_away q \<le> 0"
  by (cases "q = 0") (auto simp: round_away_def le_floor_iff)

lemma round_away_mono: "p \<le> q \<Longrightarrow> round_away p \<le> round_away q"
proof -
  assume le: "p \<le> q"
  show ?thesis
  proof (cases "0 \<le> p \<or> q < 0")
    case True
    with le show ?thesis by (auto simp: round_away_def intro!: floor_mono)
  next
    case False
    then show ?thesis using round_away_nonpos [of p] round_away_nonneg [of q] by simp
  qed
qed

lemma round_away_of_int [simp]: "round_away (of_int n) = n"
proof (cases "0 \<le> n")
  case True
  have "\<lfloor>of_int n + (1/2 :: rat)\<rfloor> = n" by (simp add: floor_eq_iff)
  with True show ?thesis by (simp add: round_away_def)
next
  case False
  have "\<lfloor>(1/2 :: rat) - of_int n\<rfloor> = - n" by (simp add: floor_eq_iff)
  with False show ?thesis by (simp add: round_away_def)
qed

lemma f64_cast_bounds: "lo \<le> 0 \<Longrightarrow> 0 \<le> hi \<Longrightarrow> lo \<le> f64_cast lo hi x \<and> f64_cast lo hi x \<le> hi"
  using clamp_bounds [of lo hi] by (cases x) auto

end
