(* ===== verification/CaddieModel.thy ===== *)
theory CaddieModel
  imports Float64
begin

text \<open>
  The roster's data (\<open>src/course/domain/caddie.rs\<close>, \<open>ids.rs\<close> and the profile and
  availability parts of \<open>caddie_ops.rs\<close>): identifiers, the enumerations with their wire
  tokens, the caddie profile and its assignment rows with the normalisation every
  constructor applies, and the profile update (\<open>UpsertCaddie\<close>, \<open>CaddiePatch\<close>).
\<close>

section \<open>Identifiers\<close>

text \<open>The identifier newtypes of \<open>ids.rs\<close> are all made by one macro over \<open>String\<close>.\<close>

type_synonym caddie_id = str
type_synonym course_id = str
type_synonym reservation_id = str
type_synonym assignment_id = str

definition id_try_new :: "str \<Rightarrow> str \<Rightarrow> str result" where
  "id_try_new label value =
     (let trimmed = trim value in
      if trimmed = [] then Inl (BadRequest (label @ '' is required''))
      else if length trimmed = length value \<and> trimmed = value then Inr value
      else Inr trimmed)"

definition id_from_optional :: "str option \<Rightarrow> str option" where
  "id_from_optional value = trimmed value"

section \<open>Enumerations\<close>

datatype skill_level = Junior | Regular | Veteran

fun skill_as_str :: "skill_level \<Rightarrow> str" where
  "skill_as_str Junior = ''rookie''"
| "skill_as_str Regular = ''regular''"
| "skill_as_str Veteran = ''veteran''"

definition skill_parse :: "str \<Rightarrow> skill_level" where
  "skill_parse raw = (let k = wire_key raw in
     if k = ''veteran'' then Veteran
     else if k = ''regular'' then Regular
     else if k = ''junior'' \<or> k = ''rookie'' then Junior
     else Regular)"

datatype caddie_rank = RankA | RankB | RankC | RankD

definition all_ranks :: "caddie_rank list" where
  "all_ranks = [RankA, RankB, RankC, RankD]"

fun rank_as_str :: "caddie_rank \<Rightarrow> str" where
  "rank_as_str RankA = ''A''"
| "rank_as_str RankB = ''B''"
| "rank_as_str RankC = ''C''"
| "rank_as_str RankD = ''D''"

definition rank_parse :: "str \<Rightarrow> caddie_rank" where
  "rank_parse raw = (let k = to_ascii_uppercase (trim raw) in
     if k = ''A'' then RankA else if k = ''B'' then RankB
     else if k = ''C'' then RankC else if k = ''D'' then RankD else RankC)"

datatype assignment_role = PrimaryRole | AssistantRole | OtherRole

fun role_as_str :: "assignment_role \<Rightarrow> str" where
  "role_as_str PrimaryRole = ''primary''"
| "role_as_str AssistantRole = ''assistant''"
| "role_as_str OtherRole = ''other''"

definition role_parse :: "str \<Rightarrow> assignment_role" where
  "role_parse raw = (let k = wire_key raw in
     if k = ''primary'' \<or> k = ''lead'' then PrimaryRole
     else if k = ''assistant'' then AssistantRole else OtherRole)"

datatype assignment_status = Assigned | InProgress | Completed | Cancelled | OtherStatus

fun status_as_str :: "assignment_status \<Rightarrow> str" where
  "status_as_str Assigned = ''assigned''"
| "status_as_str InProgress = ''in_progress''"
| "status_as_str Completed = ''completed''"
| "status_as_str Cancelled = ''cancelled''"
| "status_as_str OtherStatus = ''other''"

definition status_parse :: "str \<Rightarrow> assignment_status" where
  "status_parse raw = (let k = wire_key raw in
     if k = ''assigned'' then Assigned
     else if k = ''in_progress'' \<or> k = ''checked_in'' \<or> k = ''on_course'' then InProgress
     else if k = ''completed'' then Completed
     else if k = ''cancelled'' \<or> k = ''canceled'' then Cancelled
     else OtherStatus)"

fun status_is_active :: "assignment_status \<Rightarrow> bool" where
  "status_is_active Assigned = True"
| "status_is_active InProgress = True"
| "status_is_active _ = False"

datatype availability_status = Available | Unavailable | MorningOnly | AfternoonOnly | LightDuty

fun availability_as_str :: "availability_status \<Rightarrow> str" where
  "availability_as_str Available = ''available''"
| "availability_as_str Unavailable = ''unavailable''"
| "availability_as_str MorningOnly = ''morning_only''"
| "availability_as_str AfternoonOnly = ''afternoon_only''"
| "availability_as_str LightDuty = ''light_duty''"

definition availability_parse :: "str \<Rightarrow> availability_status" where
  "availability_parse raw = (let k = wire_key raw in
     if k = ''unavailable'' then Unavailable
     else if k = ''morning_only'' then MorningOnly
     else if k = ''afternoon_only'' then AfternoonOnly
     else if k = ''light_duty'' then LightDuty
     else Available)"

definition is_workable :: "availability_status \<Rightarrow> bool" where
  "is_workable s \<longleftrightarrow> s \<noteq> Unavailable"

interpretation skill: wire_enum skill_as_str skill_parse
proof
  show "skill_parse (skill_as_str x) = x" for x by (cases x; hypsubst; code_simp)
qed

interpretation rank: wire_enum rank_as_str rank_parse
proof
  show "rank_parse (rank_as_str x) = x" for x by (cases x; hypsubst; code_simp)
qed

interpretation role: wire_enum role_as_str role_parse
proof
  show "role_parse (role_as_str x) = x" for x by (cases x; hypsubst; code_simp)
qed

interpretation status: wire_enum status_as_str status_parse
proof
  show "status_parse (status_as_str x) = x" for x by (cases x; hypsubst; code_simp)
qed

interpretation availability: wire_enum availability_as_str availability_parse
proof
  show "availability_parse (availability_as_str x) = x" for x by (cases x; hypsubst; code_simp)
qed

section \<open>The caddie profile\<close>

record upstream_identity =
  up_display_name :: "str option"
  up_staff_id :: "str option"
  up_reference_type :: "str option"
  up_reference_id :: "str option"

definition default_identity :: upstream_identity where
  "default_identity = \<lparr>up_display_name = None, up_staff_id = None,
     up_reference_type = None, up_reference_id = None\<rparr>"

record caddie =
  cd_id :: caddie_id
  cd_display_name :: str
  cd_staff_id :: "str option"
  cd_upstream :: upstream_identity
  cd_active :: bool
  cd_skill :: skill_level
  cd_rank :: caddie_rank
  cd_employment :: str
  cd_base_fee :: int
  cd_currency :: str
  cd_max_rounds :: int
  cd_can_two_rounds :: bool
  cd_contract_rounds :: int
  cd_desired_income :: int
  cd_rating_average :: "f64 option"
  cd_rating_count :: int

definition or_jpy :: "str \<Rightarrow> str" where
  "or_jpy value = (if trim value = [] then ''JPY'' else value)"

definition caddie_reconstitute ::
  "caddie_id \<Rightarrow> str \<Rightarrow> str option \<Rightarrow> bool \<Rightarrow> skill_level \<Rightarrow> caddie_rank \<Rightarrow> str \<Rightarrow> int \<Rightarrow> str
    \<Rightarrow> int \<Rightarrow> bool \<Rightarrow> int \<Rightarrow> int \<Rightarrow> f64 option \<Rightarrow> int \<Rightarrow> caddie" where
  "caddie_reconstitute cid name staff active skill rank employment fee currency max_rounds
     two contract income rating ratings =
     \<lparr>cd_id = cid, cd_display_name = name, cd_staff_id = trimmed staff,
      cd_upstream = default_identity, cd_active = active, cd_skill = skill, cd_rank = rank,
      cd_employment = employment, cd_base_fee = max fee 0, cd_currency = or_jpy currency,
      cd_max_rounds = max max_rounds 1, cd_can_two_rounds = two,
      cd_contract_rounds = max contract 0, cd_desired_income = max income 0,
      cd_rating_average = rating, cd_rating_count = max ratings 0\<rparr>"

definition with_upstream_identity :: "caddie \<Rightarrow> upstream_identity \<Rightarrow> caddie" where
  "with_upstream_identity c u = c\<lparr>cd_upstream := u\<rparr>"

definition is_assignable :: "caddie \<Rightarrow> bool" where
  "is_assignable c \<longleftrightarrow> cd_active c \<and> eq_ignore_ascii_case (cd_employment c) ''active''"

definition remaining_round_capacity :: "caddie \<Rightarrow> int \<Rightarrow> int" where
  "remaining_round_capacity c assigned_today = max (cd_max_rounds c - assigned_today) 0"

section \<open>Assignment rows\<close>

record assignment =
  as_id :: assignment_id
  as_caddie :: caddie_id
  as_reservation :: "reservation_id option"
  as_round_reference :: "str option"
  as_scheduled_at :: instant
  as_duration :: "int option"
  as_status :: assignment_status
  as_status_label :: str
  as_role :: assignment_role
  as_role_label :: str
  as_fee :: int
  as_currency :: str
  as_notes :: "str option"

definition positive :: "int option \<Rightarrow> int option" where
  "positive v = (case v of None \<Rightarrow> None | Some n \<Rightarrow> if 0 < n then Some n else None)"

definition assignment_reconstitute ::
  "assignment_id \<Rightarrow> str \<Rightarrow> str option \<Rightarrow> str option \<Rightarrow> instant \<Rightarrow> int option \<Rightarrow> str \<Rightarrow> str
    \<Rightarrow> int \<Rightarrow> str \<Rightarrow> str option \<Rightarrow> assignment result" where
  "assignment_reconstitute aid cid reservation reference sched duration status role fee currency notes =
     (case id_try_new ''caddie id'' cid of Inl e \<Rightarrow> Inl e
      | Inr cid' \<Rightarrow> Inr
        \<lparr>as_id = aid, as_caddie = cid', as_reservation = id_from_optional reservation,
         as_round_reference = trimmed reference, as_scheduled_at = sched,
         as_duration = positive duration, as_status = status_parse status,
         as_status_label = status, as_role = role_parse role, as_role_label = role,
         as_fee = max fee 0, as_currency = or_jpy currency, as_notes = notes\<rparr>)"

definition holds_the_round :: "assignment \<Rightarrow> bool" where
  "holds_the_round a \<longleftrightarrow> as_status a \<noteq> Cancelled"

definition covers_reservation :: "assignment \<Rightarrow> reservation_id \<Rightarrow> bool" where
  "covers_reservation a r \<longleftrightarrow> as_reservation a = Some r"

definition default_assignment_minutes :: int where
  "default_assignment_minutes = 270"

definition occupied_minutes :: "assignment \<Rightarrow> int" where
  "occupied_minutes a =
     (case positive (as_duration a) of None \<Rightarrow> default_assignment_minutes | Some n \<Rightarrow> n)"

lemma occupied_minutes_pos: "0 < occupied_minutes a"
  by (auto simp: occupied_minutes_def positive_def default_assignment_minutes_def
      split: option.splits)


section \<open>Profile updates\<close>

record upsert_caddie =
  uc_display_name :: str
  uc_skill :: skill_level
  uc_rank :: caddie_rank
  uc_base_fee :: int
  uc_currency :: str
  uc_staff_id :: "str option"
  uc_reference_type :: "str option"
  uc_reference_id :: "str option"
  uc_active :: bool
  uc_employment :: str
  uc_max_rounds :: int
  uc_contract_rounds :: "int option"
  uc_can_two_rounds :: "bool option"
  uc_desired_income :: "int option"

definition unwrap_or :: "'a option \<Rightarrow> 'a \<Rightarrow> 'a" where
  "unwrap_or v d = (case v of None \<Rightarrow> d | Some x \<Rightarrow> x)"

definition or_else :: "'a option \<Rightarrow> 'a option \<Rightarrow> 'a option" where
  "or_else v w = (case v of None \<Rightarrow> w | Some x \<Rightarrow> Some x)"

lemma unwrap_or_simps [simp]: "unwrap_or None d = d" "unwrap_or (Some x) d = x"
  by (simp_all add: unwrap_or_def)

lemma or_else_simps [simp]: "or_else None w = w" "or_else (Some x) w = Some x"
  by (simp_all add: or_else_def)

definition upsert_try_new ::
  "str \<Rightarrow> str \<Rightarrow> str \<Rightarrow> int \<Rightarrow> str option \<Rightarrow> str option \<Rightarrow> str option \<Rightarrow> str option \<Rightarrow> bool
    \<Rightarrow> str option \<Rightarrow> int option \<Rightarrow> int option \<Rightarrow> bool option \<Rightarrow> int option \<Rightarrow> upsert_caddie result"
where
  "upsert_try_new name skill rank fee currency staff ref_type ref_id active employment
     max_rounds contract two income =
     (let name' = trim name in
      if name' = [] then Inl (BadRequest ''display name is required'')
      else if fee < 0 then Inl (BadRequest ''base fee amount must be >= 0'')
      else Inr
        \<lparr>uc_display_name = name', uc_skill = skill_parse skill, uc_rank = rank_parse rank,
         uc_base_fee = fee, uc_currency = unwrap_or (trimmed currency) ''JPY'',
         uc_staff_id = trimmed staff, uc_reference_type = trimmed ref_type,
         uc_reference_id = trimmed ref_id, uc_active = active,
         uc_employment = unwrap_or (trimmed employment) ''active'',
         uc_max_rounds = max (unwrap_or max_rounds 1) 1, uc_contract_rounds = contract,
         uc_can_two_rounds = two, uc_desired_income = income\<rparr>)"

definition has_staff_link :: "upsert_caddie \<Rightarrow> bool" where
  "has_staff_link u \<longleftrightarrow> uc_staff_id u \<noteq> None \<or> uc_reference_id u \<noteq> None"

definition link_staff :: "upsert_caddie \<Rightarrow> str \<Rightarrow> upsert_caddie" where
  "link_staff u staff =
     (let s = trim staff in
      if s = [] then u
      else u\<lparr>uc_reference_type := Some ''staff_member'', uc_reference_id := Some s,
             uc_staff_id := Some s\<rparr>)"

record caddie_patch =
  cp_display_name :: "str option"
  cp_skill :: "str option"
  cp_rank :: "str option"
  cp_base_fee :: "int option"
  cp_currency :: "str option"
  cp_staff_id :: "str option"
  cp_reference_type :: "str option"
  cp_reference_id :: "str option"
  cp_active :: "bool option"
  cp_employment :: "str option"
  cp_max_rounds :: "int option"
  cp_contract_rounds :: "int option"
  cp_can_two_rounds :: "bool option"
  cp_desired_income :: "int option"

definition empty_patch :: caddie_patch where
  "empty_patch = \<lparr>cp_display_name = None, cp_skill = None, cp_rank = None, cp_base_fee = None,
     cp_currency = None, cp_staff_id = None, cp_reference_type = None, cp_reference_id = None,
     cp_active = None, cp_employment = None, cp_max_rounds = None, cp_contract_rounds = None,
     cp_can_two_rounds = None, cp_desired_income = None\<rparr>"

definition patch_is_complete :: "caddie_patch \<Rightarrow> bool" where
  "patch_is_complete p \<longleftrightarrow>
     cp_display_name p \<noteq> None \<and> cp_skill p \<noteq> None \<and> cp_rank p \<noteq> None
     \<and> cp_base_fee p \<noteq> None \<and> cp_currency p \<noteq> None \<and> cp_active p \<noteq> None
     \<and> cp_employment p \<noteq> None \<and> cp_max_rounds p \<noteq> None \<and> cp_contract_rounds p \<noteq> None
     \<and> cp_can_two_rounds p \<noteq> None \<and> cp_desired_income p \<noteq> None
     \<and> (cp_staff_id p \<noteq> None \<or> cp_reference_id p \<noteq> None)"

definition patch_into_upsert :: "caddie_patch \<Rightarrow> upsert_caddie result" where
  "patch_into_upsert p =
     upsert_try_new (unwrap_or (cp_display_name p) []) (unwrap_or (cp_skill p) [])
       (unwrap_or (cp_rank p) []) (unwrap_or (cp_base_fee p) 0) (cp_currency p)
       (cp_staff_id p) (cp_reference_type p) (cp_reference_id p)
       (unwrap_or (cp_active p) False) (cp_employment p) (cp_max_rounds p)
       (cp_contract_rounds p) (cp_can_two_rounds p) (cp_desired_income p)"

definition patch_apply_to :: "caddie_patch \<Rightarrow> caddie \<Rightarrow> upsert_caddie result" where
  "patch_apply_to p c =
     (let up = cd_upstream c;
          staff = or_else (cp_staff_id p) (up_staff_id up);
          ref_id = or_else (cp_reference_id p) (up_reference_id up);
          ref_type = or_else (cp_reference_type p) (up_reference_type up);
          employment = unwrap_or (cp_employment p) (cd_employment c);
          active = unwrap_or (cp_active p) (eq_ignore_ascii_case employment ''active'')
      in upsert_try_new
           (unwrap_or (cp_display_name p) (unwrap_or (up_display_name up) (cd_display_name c)))
           (unwrap_or (cp_skill p) (skill_as_str (cd_skill c)))
           (unwrap_or (cp_rank p) (rank_as_str (cd_rank c)))
           (unwrap_or (cp_base_fee p) (cd_base_fee c))
           (Some (unwrap_or (cp_currency p) (cd_currency c)))
           staff ref_type ref_id active (Some employment)
           (Some (unwrap_or (cp_max_rounds p) (cd_max_rounds c)))
           (Some (unwrap_or (cp_contract_rounds p) (cd_contract_rounds c)))
           (Some (unwrap_or (cp_can_two_rounds p) (cd_can_two_rounds c)))
           (Some (unwrap_or (cp_desired_income p) (cd_desired_income c))))"

text \<open>
  An accepted profile is within its bounds, and each field the patch leaves unset is the
  stored one.
\<close>

lemma upsert_try_new_ok:
  assumes "upsert_try_new n s r f cu st rt ri a e m c t i = Inr u"
  shows "uc_display_name u \<noteq> [] \<and> 0 \<le> uc_base_fee u \<and> 1 \<le> uc_max_rounds u
    \<and> uc_currency u \<noteq> [] \<and> uc_employment u \<noteq> []"
  using assms trimmed_nonempty
  by (auto simp: upsert_try_new_def Let_def unwrap_or_def split: if_splits option.splits)

lemma upsert_try_new_Inl:
  "(\<exists>e. upsert_try_new n s r f cu st rt ri a em m c t i = Inl e) \<longleftrightarrow> trim n = [] \<or> f < 0"
  by (simp add: upsert_try_new_def Let_def)

lemma patch_apply_to_keeps:
  assumes "patch_apply_to p c = Inr u"
  shows "cp_skill p = None \<Longrightarrow> uc_skill u = cd_skill c"
    and "cp_rank p = None \<Longrightarrow> uc_rank u = cd_rank c"
    and "cp_base_fee p = None \<Longrightarrow> uc_base_fee u = cd_base_fee c"
    and "cp_contract_rounds p = None \<Longrightarrow> uc_contract_rounds u = Some (cd_contract_rounds c)"
    and "cp_can_two_rounds p = None \<Longrightarrow> uc_can_two_rounds u = Some (cd_can_two_rounds c)"
    and "cp_desired_income p = None \<Longrightarrow> uc_desired_income u = Some (cd_desired_income c)"
  using assms
  by (auto simp: patch_apply_to_def upsert_try_new_def Let_def skill.parse_as_str
      rank.parse_as_str split: if_splits)

section \<open>The fast path of an update\<close>

text \<open>
  \<open>UpdateCaddieUseCase\<close> sends a patch that \<open>patch_is_complete\<close> accepts without reading the
  stored profile. The three identity fields are where that path can differ.
\<close>

definition update_caddie_input :: "caddie list \<Rightarrow> caddie_id \<Rightarrow> caddie_patch \<Rightarrow> upsert_caddie result" where
  "update_caddie_input roster cid p =
     (if patch_is_complete p then patch_into_upsert p
      else case find (\<lambda>c. cd_id c = cid) roster of
          None \<Rightarrow> Inl (NotFound ''caddie profile was not found'')
        | Some c \<Rightarrow> patch_apply_to p c)"

definition identity_kept :: "caddie_patch \<Rightarrow> caddie \<Rightarrow> bool" where
  "identity_kept p c \<longleftrightarrow>
     (cp_staff_id p = None \<longrightarrow> trimmed (up_staff_id (cd_upstream c)) = None)
   \<and> (cp_reference_type p = None \<longrightarrow> trimmed (up_reference_type (cd_upstream c)) = None)
   \<and> (cp_reference_id p = None \<longrightarrow> trimmed (up_reference_id (cd_upstream c)) = None)"

lemma trimmed_None [simp]: "trimmed None = None"
  by (simp add: trimmed_def)

lemma unwrap_or_Some: "v \<noteq> None \<Longrightarrow> unwrap_or v d = the v"
  by auto

text \<open>
  The update path that skips reading the stored profile gives what the merge with it
  would have given, for a patch with a valid name and fee, exactly when the patch names every
  identity field the stored profile has a value for.
\<close>

theorem fast_update_agrees_exactly:
  assumes "patch_is_complete p" "find (\<lambda>c. cd_id c = cid) roster = Some c"
    and "trim (the (cp_display_name p)) \<noteq> []" "0 \<le> the (cp_base_fee p)"
  shows "update_caddie_input roster cid p = patch_apply_to p c \<longleftrightarrow> identity_kept p c"
  using assms
  by (cases "cp_staff_id p"; cases "cp_reference_type p"; cases "cp_reference_id p")
    (auto simp: update_caddie_input_def patch_is_complete_def patch_into_upsert_def
      patch_apply_to_def upsert_try_new_def Let_def identity_kept_def)

definition sample_stored :: caddie where
  "sample_stored = with_upstream_identity
     (caddie_reconstitute ''c1'' ''Hanako'' None True Regular RankB ''active'' 9000 ''JPY'' 2 True 20 0 None 0)
     \<lparr>up_display_name = Some ''Hanako'', up_staff_id = None,
      up_reference_type = Some ''staff_member'', up_reference_id = Some ''s-7''\<rparr>"

definition sample_patch :: caddie_patch where
  "sample_patch = \<lparr>cp_display_name = Some ''Hanako'', cp_skill = Some ''veteran'', cp_rank = Some ''A'',
     cp_base_fee = Some 9500, cp_currency = Some ''JPY'', cp_staff_id = Some ''s-7'',
     cp_reference_type = None, cp_reference_id = None, cp_active = Some True,
     cp_employment = Some ''active'', cp_max_rounds = Some 2, cp_contract_rounds = Some 20,
     cp_can_two_rounds = Some True, cp_desired_income = Some 0\<rparr>"

theorem fast_update_agrees_exactly_witness:
  "update_caddie_input [sample_stored] ''c1'' sample_patch \<noteq> patch_apply_to sample_patch sample_stored
   \<and> update_caddie_input [sample_stored] ''c1''
       (sample_patch\<lparr>cp_reference_type := Some ''staff_member'', cp_reference_id := Some ''s-8''\<rparr>)
     = patch_apply_to (sample_patch\<lparr>cp_reference_type := Some ''staff_member'',
         cp_reference_id := Some ''s-8''\<rparr>) sample_stored"
proof -
  have f: "find (\<lambda>c. cd_id c = ''c1'') [sample_stored] = Some sample_stored" by code_simp
  have "\<not> identity_kept sample_patch sample_stored" by code_simp
  moreover have "patch_is_complete sample_patch" by code_simp
  moreover have "trim (the (cp_display_name sample_patch)) \<noteq> []" by code_simp
  moreover have "0 \<le> the (cp_base_fee sample_patch)" by code_simp
  ultimately have 1: "update_caddie_input [sample_stored] ''c1'' sample_patch
      \<noteq> patch_apply_to sample_patch sample_stored"
    using fast_update_agrees_exactly [of sample_patch, OF _ f] by simp
  let ?p = "sample_patch\<lparr>cp_reference_type := Some ''staff_member'', cp_reference_id := Some ''s-8''\<rparr>"
  have "identity_kept ?p sample_stored" by code_simp
  moreover have "patch_is_complete ?p" by code_simp
  moreover have "trim (the (cp_display_name ?p)) \<noteq> []" by code_simp
  moreover have "0 \<le> the (cp_base_fee ?p)" by code_simp
  ultimately have "update_caddie_input [sample_stored] ''c1'' ?p = patch_apply_to ?p sample_stored"
    using fast_update_agrees_exactly [where p = ?p, OF _ f] by simp
  with 1 show ?thesis by simp
qed

end
