(* ===== verification/CaddieShift.thy ===== *)
theory CaddieShift
  imports CaddieModel
begin

text \<open>
  Confirmed caddie shifts (\<open>src/course/domain/caddie_shift.rs\<close>): the club's shift policy,
  the confirmed day \<open>caddie_shift\<close>, and the desk's edit of one day (\<open>ShiftEdit::apply\<close>).
  The monthly run \<open>plan_month_shifts\<close> of the same file is in the theory ShiftPlan.
\<close>

section \<open>The shift policy\<close>

definition MAX_ROUNDS_PER_SHIFT :: int where
  "MAX_ROUNDS_PER_SHIFT = 2"

definition MAX_CONSECUTIVE_WORK_DAYS :: int where
  "MAX_CONSECUTIVE_WORK_DAYS = 6"

datatype unfiled_request = UnfiledWorking | UnfiledOff

fun unfiled_as_str :: "unfiled_request \<Rightarrow> str" where
  "unfiled_as_str UnfiledWorking = ''working''"
| "unfiled_as_str UnfiledOff = ''off''"

definition unfiled_parse :: "str \<Rightarrow> unfiled_request" where
  "unfiled_parse raw = (if wire_key raw = ''off'' then UnfiledOff else UnfiledWorking)"

interpretation unfiled: wire_enum unfiled_as_str unfiled_parse
proof
  show "unfiled_parse (unfiled_as_str x) = x" for x by (cases x; hypsubst; code_simp)
qed

record shift_policy =
  sp_avoided :: "weekday set"
  sp_max_consecutive :: int
  sp_max_rounds :: int
  sp_min_rest :: int
  sp_unfiled :: unfiled_request

definition default_policy :: shift_policy where
  "default_policy = \<lparr>sp_avoided = {Sat, Sun}, sp_max_consecutive = MAX_CONSECUTIVE_WORK_DAYS,
     sp_max_rounds = MAX_ROUNDS_PER_SHIFT, sp_min_rest = 0, sp_unfiled = UnfiledWorking\<rparr>"

definition policy_new :: "weekday list \<Rightarrow> shift_policy" where
  "policy_new days = default_policy\<lparr>sp_avoided := set days\<rparr>"

definition unrestricted_policy :: shift_policy where
  "unrestricted_policy = default_policy\<lparr>sp_avoided := {}\<rparr>"

definition with_max_consecutive_work_days :: "shift_policy \<Rightarrow> int \<Rightarrow> shift_policy" where
  "with_max_consecutive_work_days p days =
     p\<lparr>sp_max_consecutive := clamp 1 MAX_CONSECUTIVE_WORK_DAYS days\<rparr>"

definition with_max_rounds_per_day :: "shift_policy \<Rightarrow> int \<Rightarrow> shift_policy" where
  "with_max_rounds_per_day p rounds =
     p\<lparr>sp_max_rounds := clamp 1 MAX_ROUNDS_PER_SHIFT rounds\<rparr>"

definition with_min_rest_days_per_month :: "shift_policy \<Rightarrow> int \<Rightarrow> shift_policy" where
  "with_min_rest_days_per_month p days = p\<lparr>sp_min_rest := max days 0\<rparr>"

definition with_unfiled_request :: "shift_policy \<Rightarrow> unfiled_request \<Rightarrow> shift_policy" where
  "with_unfiled_request p u = p\<lparr>sp_unfiled := u\<rparr>"

definition policy_avoids :: "calendar \<Rightarrow> shift_policy \<Rightarrow> date \<Rightarrow> bool" where
  "policy_avoids cal p d \<longleftrightarrow> cal_weekday cal d \<in> sp_avoided p"

definition WEEK :: "weekday list" where
  "WEEK = [Mon, Tue, Wed, Thu, Fri, Sat, Sun]"

fun weekday_key :: "weekday \<Rightarrow> str" where
  "weekday_key Mon = ''mon''"
| "weekday_key Tue = ''tue''"
| "weekday_key Wed = ''wed''"
| "weekday_key Thu = ''thu''"
| "weekday_key Fri = ''fri''"
| "weekday_key Sat = ''sat''"
| "weekday_key Sun = ''sun''"

definition parse_weekday :: "str \<Rightarrow> weekday option" where
  "parse_weekday raw = (let k = to_ascii_lowercase raw in
     if k = ''mon'' \<or> k = ''monday'' then Some Mon
     else if k = ''tue'' \<or> k = ''tuesday'' then Some Tue
     else if k = ''wed'' \<or> k = ''wednesday'' then Some Wed
     else if k = ''thu'' \<or> k = ''thursday'' then Some Thu
     else if k = ''fri'' \<or> k = ''friday'' then Some Fri
     else if k = ''sat'' \<or> k = ''saturday'' then Some Sat
     else if k = ''sun'' \<or> k = ''sunday'' then Some Sun
     else None)"

definition policy_weekdays :: "shift_policy \<Rightarrow> weekday list" where
  "policy_weekdays p = filter (\<lambda>w. w \<in> sp_avoided p) WEEK"

definition policy_as_csv :: "shift_policy \<Rightarrow> str" where
  "policy_as_csv p = join_with (CHR '','') (map weekday_key (policy_weekdays p))"

definition policy_parse_csv :: "str \<Rightarrow> shift_policy" where
  "policy_parse_csv raw =
     policy_new (List.map_filter (\<lambda>e. parse_weekday (trim e)) (split_on (CHR '','') raw))"

lemma set_WEEK: "set WEEK = UNIV"
proof -
  have "w \<in> set WEEK" for w by (cases w) (simp_all add: WEEK_def)
  then show ?thesis by auto
qed

lemma parse_weekday_key: "parse_weekday (trim (weekday_key w)) = Some w"
  by (cases w; hypsubst; code_simp)

lemma weekday_key_no_comma: "(CHR '','') \<notin> set (weekday_key w)"
  by (cases w) simp_all

text \<open>What the builders keep: a policy is never laxer than the law.\<close>

definition policy_ok :: "shift_policy \<Rightarrow> bool" where
  "policy_ok p \<longleftrightarrow> 1 \<le> sp_max_consecutive p \<and> sp_max_consecutive p \<le> MAX_CONSECUTIVE_WORK_DAYS
     \<and> 1 \<le> sp_max_rounds p \<and> sp_max_rounds p \<le> MAX_ROUNDS_PER_SHIFT \<and> 0 \<le> sp_min_rest p"

lemma policy_ok_default [policy_rules]: "policy_ok default_policy"
  by (simp add: policy_ok_def default_policy_def MAX_CONSECUTIVE_WORK_DAYS_def
      MAX_ROUNDS_PER_SHIFT_def)

lemma policy_ok_new [policy_rules]: "policy_ok (policy_new ds)" "policy_ok unrestricted_policy"
  using policy_ok_default by (simp_all add: policy_ok_def policy_new_def unrestricted_policy_def)

lemma policy_ok_with [policy_rules]:
  assumes "policy_ok p"
  shows "policy_ok (with_max_consecutive_work_days p n)"
    and "policy_ok (with_max_rounds_per_day p m)"
    and "policy_ok (with_min_rest_days_per_month p n)"
    and "policy_ok (with_unfiled_request p u)"
  using assms clamp_bounds [of 1 6 n] clamp_bounds [of 1 2 m]
  by (simp_all add: policy_ok_def with_max_consecutive_work_days_def with_max_rounds_per_day_def
      with_min_rest_days_per_month_def with_unfiled_request_def MAX_CONSECUTIVE_WORK_DAYS_def
      MAX_ROUNDS_PER_SHIFT_def)

section \<open>Confirmed days\<close>

datatype shift_span = FullDay | Morning | Afternoon

fun span_as_str :: "shift_span \<Rightarrow> str" where
  "span_as_str FullDay = ''full_day''"
| "span_as_str Morning = ''morning''"
| "span_as_str Afternoon = ''afternoon''"

definition span_parse :: "str \<Rightarrow> shift_span" where
  "span_parse raw = (let k = wire_key raw in
     if k = ''morning'' then Morning else if k = ''afternoon'' then Afternoon else FullDay)"

fun is_half_day :: "shift_span \<Rightarrow> bool" where
  "is_half_day FullDay = False"
| "is_half_day Morning = True"
| "is_half_day Afternoon = True"

fun span_from_request :: "availability_status \<Rightarrow> shift_span option" where
  "span_from_request Unavailable = None"
| "span_from_request MorningOnly = Some Morning"
| "span_from_request AfternoonOnly = Some Afternoon"
| "span_from_request Available = Some FullDay"
| "span_from_request LightDuty = Some FullDay"

datatype shift_origin = Generated | Edited | Pinned

fun origin_as_str :: "shift_origin \<Rightarrow> str" where
  "origin_as_str Generated = ''generated''"
| "origin_as_str Edited = ''edited''"
| "origin_as_str Pinned = ''pinned''"

definition origin_parse :: "str \<Rightarrow> shift_origin" where
  "origin_parse raw = (let k = wire_key raw in
     if k = ''edited'' then Edited else if k = ''pinned'' then Pinned else Generated)"

definition survives_regeneration :: "shift_origin \<Rightarrow> bool" where
  "survives_regeneration ori \<longleftrightarrow> ori = Pinned"

definition is_movable :: "shift_origin \<Rightarrow> bool" where
  "is_movable ori \<longleftrightarrow> ori \<noteq> Pinned"

interpretation span: wire_enum span_as_str span_parse
proof
  show "span_parse (span_as_str x) = x" for x by (cases x; hypsubst; code_simp)
qed

interpretation origin: wire_enum origin_as_str origin_parse
proof
  show "origin_parse (origin_as_str x) = x" for x by (cases x; hypsubst; code_simp)
qed

record caddie_shift =
  sh_caddie :: caddie_id
  sh_date :: date
  sh_course :: "course_id option"
  sh_working :: bool
  sh_span :: shift_span
  sh_rounds :: int
  sh_origin :: shift_origin
  sh_note :: "str option"
  sh_updated_by :: "str option"
  sh_updated_at :: "instant option"

definition shift_reconstitute ::
  "caddie_id \<Rightarrow> date \<Rightarrow> course_id option \<Rightarrow> bool \<Rightarrow> shift_span \<Rightarrow> int \<Rightarrow> shift_origin
    \<Rightarrow> str option \<Rightarrow> str option \<Rightarrow> instant option \<Rightarrow> caddie_shift" where
  "shift_reconstitute cid d course working sspan rounds ori note by_whom at_time =
     \<lparr>sh_caddie = cid, sh_date = d, sh_course = course, sh_working = working, sh_span = sspan,
      sh_rounds = max rounds 0, sh_origin = ori, sh_note = trimmed note,
      sh_updated_by = trimmed by_whom, sh_updated_at = at_time\<rparr>"

definition shift_off :: "caddie_id \<Rightarrow> date \<Rightarrow> shift_origin \<Rightarrow> caddie_shift" where
  "shift_off cid d ori =
     \<lparr>sh_caddie = cid, sh_date = d, sh_course = None, sh_working = False, sh_span = FullDay,
      sh_rounds = 0, sh_origin = ori, sh_note = None, sh_updated_by = None,
      sh_updated_at = None\<rparr>"

definition supplies :: "caddie_shift \<Rightarrow> course_id \<Rightarrow> int" where
  "supplies s course =
     (case sh_course s of
        Some placed \<Rightarrow> if placed = course \<and> sh_working s then sh_rounds s else 0
      | None \<Rightarrow> 0)"

text \<open>
  A confirmed day: off means placed nowhere with nothing to give; at work means one or two
  rounds, and half a day is one round.
\<close>

definition shift_ok :: "caddie_shift \<Rightarrow> bool" where
  "shift_ok s \<longleftrightarrow>
     (if sh_working s
      then 1 \<le> sh_rounds s \<and> sh_rounds s \<le> MAX_ROUNDS_PER_SHIFT
        \<and> (is_half_day (sh_span s) \<longrightarrow> sh_rounds s = 1)
      else sh_course s = None \<and> sh_rounds s = 0)"

lemma shift_ok_off [shift_rules]: "shift_ok (shift_off cid d ori)"
  by (simp add: shift_ok_def shift_off_def)

lemma shift_off_sel [simp]:
  "sh_caddie (shift_off cid d ori) = cid" "sh_date (shift_off cid d ori) = d"
  "\<not> sh_working (shift_off cid d ori)" "sh_course (shift_off cid d ori) = None"
  "sh_rounds (shift_off cid d ori) = 0"  "sh_origin (shift_off cid d ori) = ori"
  by (simp_all add: shift_off_def)

section \<open>The desk's edit of one day\<close>

record shift_edit =
  se_working :: bool
  se_span :: shift_span
  se_rounds :: int
  se_course :: "course_id option"
  se_pinned :: bool
  se_note :: "str option"

definition shift_edit_apply ::
  "shift_edit \<Rightarrow> caddie_id \<Rightarrow> date \<Rightarrow> course_id list \<Rightarrow> availability_status option
    \<Rightarrow> str option \<Rightarrow> caddie_shift result" where
  "shift_edit_apply e cid d workable filed updated_by =
     (let note = trimmed (se_note e);
          ori = (if se_pinned e then Pinned else Edited) in
      if \<not> se_working e then
        Inr \<lparr>sh_caddie = cid, sh_date = d, sh_course = None, sh_working = False,
             sh_span = FullDay, sh_rounds = 0, sh_origin = ori, sh_note = note,
             sh_updated_by = trimmed updated_by, sh_updated_at = None\<rparr>
      else if (case se_course e of None \<Rightarrow> False | Some c \<Rightarrow> c \<notin> set workable) then
        Inl (BadRequest ''the caddie has no membership for that course'')
      else if filed = Some Unavailable \<and> note = None then
        Inl (BadRequest ''working a day filed off needs a reason'')
      else if se_rounds e < 1 \<or> MAX_ROUNDS_PER_SHIFT < se_rounds e then
        Inl (BadRequest ''a working day is one or two rounds'')
      else if is_half_day (se_span e) \<and> 1 < se_rounds e then
        Inl (BadRequest ''half a day is one round'')
      else
        Inr \<lparr>sh_caddie = cid, sh_date = d, sh_course = se_course e, sh_working = True,
             sh_span = se_span e, sh_rounds = se_rounds e, sh_origin = ori, sh_note = note,
             sh_updated_by = trimmed updated_by, sh_updated_at = None\<rparr>)"

text \<open>The write-through bookkeeping that travels beside a shift.\<close>

record field_shift_link =
  fl_caddie :: caddie_id
  fl_date :: date
  fl_field_shift :: "str option"

definition field_shift_link_new :: "caddie_id \<Rightarrow> date \<Rightarrow> str option \<Rightarrow> field_shift_link" where
  "field_shift_link_new cid d fid =
     \<lparr>fl_caddie = cid, fl_date = d, fl_field_shift = trimmed fid\<rparr>"

record unsynced_shift =
  us_shift :: caddie_shift
  us_field_shift :: "str option"

lemma shift_edit_ok [shift_rules]: "shift_edit_apply e cid d ws f u = Inr s \<Longrightarrow> shift_ok s"
  by (auto simp: shift_edit_apply_def shift_ok_def Let_def split: if_splits option.splits)

lemma shift_edit_given:
  assumes "shift_edit_apply e cid d ws filed who = Inr s"
  shows "s = \<lparr>sh_caddie = cid, sh_date = d, sh_course = (if se_working e then se_course e else None),
     sh_working = se_working e, sh_span = (if se_working e then se_span e else FullDay),
     sh_rounds = (if se_working e then se_rounds e else 0), sh_origin = (if se_pinned e then Pinned else Edited),
     sh_note = trimmed (se_note e), sh_updated_by = trimmed who, sh_updated_at = None\<rparr>"
  using assms unfolding shift_edit_apply_def Let_def by (simp split: if_splits)

section \<open>Properties\<close>

text \<open>
  C37. An edit is accepted exactly when it turns the day off, or names a course the caddie may work (or none),
  gives a reason when the day was filed off, and asks for one round or for two of a full day. The day it gives
  is the edited one: at work on the course, over the span and for the rounds of the edit, or off, on no course
  and with no round; pinned exactly when asked for, with the trimmed note and editor and no time of its own yet.
  Sending an accepted day back as an edit gives the same day.
\<close>

theorem shift_edit_accepts_exactly:
  "(\<exists>s. shift_edit_apply e cid d ws filed who = Inr s) =
     (\<not> se_working e
      \<or> (se_course e = None \<or> (\<exists>c. c \<in> set ws \<and> se_course e = Some c))
        \<and> (filed \<noteq> Some Unavailable \<or> trimmed (se_note e) \<noteq> None)
        \<and> (se_rounds e = 1 \<or> se_rounds e = 2 \<and> se_span e = FullDay))
   \<and> (shift_edit_apply e cid d ws filed who = Inr s \<longrightarrow>
        sh_caddie s = cid \<and> sh_date s = d \<and> sh_working s = se_working e
        \<and> sh_course s = (if se_working e then se_course e else None)
        \<and> sh_span s = (if se_working e then se_span e else FullDay)
        \<and> sh_rounds s = (if se_working e then se_rounds e else 0)
        \<and> sh_origin s = (if se_pinned e then Pinned else Edited)
        \<and> sh_note s = trimmed (se_note e) \<and> sh_updated_by s = trimmed who \<and> sh_updated_at s = None
        \<and> shift_ok s
        \<and> shift_edit_apply \<lparr>se_working = sh_working s, se_span = sh_span s, se_rounds = sh_rounds s,
             se_course = sh_course s, se_pinned = (sh_origin s = Pinned), se_note = sh_note s\<rparr>
             (sh_caddie s) (sh_date s) ws filed (sh_updated_by s) = Inr s)"
proof (intro conjI impI)
  have half: "is_half_day (se_span e) \<longleftrightarrow> se_span e \<noteq> FullDay" by (cases "se_span e") simp_all
  show "(\<exists>s. shift_edit_apply e cid d ws filed who = Inr s) =
     (\<not> se_working e
      \<or> (se_course e = None \<or> (\<exists>c. c \<in> set ws \<and> se_course e = Some c))
        \<and> (filed \<noteq> Some Unavailable \<or> trimmed (se_note e) \<noteq> None)
        \<and> (se_rounds e = 1 \<or> se_rounds e = 2 \<and> se_span e = FullDay))"
    by (cases "se_course e") (auto simp: shift_edit_apply_def Let_def MAX_ROUNDS_PER_SHIFT_def half)
next
  assume run: "shift_edit_apply e cid d ws filed who = Inr s"
  note shift_is = shift_edit_given [OF run]
  show "shift_ok s" by (rule shift_edit_ok [OF run])
  show "sh_caddie s = cid" "sh_date s = d" "sh_working s = se_working e"
    "sh_course s = (if se_working e then se_course e else None)"
    "sh_span s = (if se_working e then se_span e else FullDay)"
    "sh_rounds s = (if se_working e then se_rounds e else 0)"
    "sh_origin s = (if se_pinned e then Pinned else Edited)"
    "sh_note s = trimmed (se_note e)" "sh_updated_by s = trimmed who" "sh_updated_at s = None"
    unfolding shift_is by (simp_all only: caddie_shift.simps)
  show "shift_edit_apply \<lparr>se_working = sh_working s, se_span = sh_span s, se_rounds = sh_rounds s,
      se_course = sh_course s, se_pinned = (sh_origin s = Pinned), se_note = sh_note s\<rparr>
      (sh_caddie s) (sh_date s) ws filed (sh_updated_by s) = Inr s"
  proof (cases "se_working e")
    case True
    then show ?thesis using run unfolding shift_is shift_edit_apply_def Let_def
      by (simp split: if_splits cong: option.case_cong) auto
  next
    case False
    then show ?thesis unfolding shift_is shift_edit_apply_def Let_def by simp
  qed
qed

text \<open>At the desk: a full day of two rounds, with the reason for working a day filed off.\<close>

definition desk_edit :: shift_edit where
  "desk_edit = \<lparr>se_working = True, se_span = FullDay, se_rounds = 2, se_course = Some ''east'',
     se_pinned = True, se_note = Some '' swapped with b ''\<rparr>"

theorem shift_edit_accepts_exactly_witness:
  "\<exists>s. shift_edit_apply desk_edit ''a'' 5 [''east''] (Some Unavailable) None = Inr s
     \<and> sh_rounds s = 2 \<and> sh_origin s = Pinned \<and> sh_note s = Some ''swapped with b''"
proof -
  note exact = shift_edit_accepts_exactly [of desk_edit "''a''" 5 "[''east'']" "Some Unavailable" None]
  have why: "trimmed (se_note desk_edit) = Some ''swapped with b''" by code_simp
  obtain s where s: "shift_edit_apply desk_edit ''a'' 5 [''east''] (Some Unavailable) None = Inr s"
    using exact why by (auto simp: desk_edit_def)
  then show ?thesis using exact [of s] why by (auto simp: desk_edit_def)
qed

text \<open>
  The protected weekdays survive storage: the text a policy is stored as is read back
  as the same set of weekdays, for every set.
\<close>

theorem policy_csv_roundtrip:
  "sp_avoided (policy_parse_csv (policy_as_csv p)) = sp_avoided p"
proof (cases "policy_weekdays p = []")
  case True
  then have "sp_avoided p = {}"
    using set_WEEK by (auto simp: policy_weekdays_def filter_empty_conv)
  moreover have "parse_weekday (trim []) = None" by code_simp
  ultimately show ?thesis using True
    by (simp add: policy_as_csv_def policy_parse_csv_def policy_new_def map_filter_simps)
next
  case False
  then have "split_on (CHR '','') (policy_as_csv p) = map weekday_key (policy_weekdays p)"
    by (simp add: policy_as_csv_def split_join weekday_key_no_comma)
  then show ?thesis using set_WEEK
    by (auto simp: policy_parse_csv_def policy_new_def policy_weekdays_def
        parse_weekday_key comp_def List.map_filter_def)
qed

end
