(* ===== verification/ShiftPlan.thy ===== *)
theory ShiftPlan
  imports CaddieShift
begin

text \<open>
  The monthly run of \<open>src/course/domain/caddie_shift.rs\<close>: \<open>plan_month_shifts\<close> turns a month
  of filed requests into confirmed shifts, keeping the desk's pinned days and inserting
  the rest days the law and the club's policy ask for (\<open>place_rest_days\<close>,
  \<open>choose_rest_day\<close>, \<open>run_before\<close>, \<open>plan_one_day\<close>, \<open>capacity_for\<close>).

  The specification side is \<open>run_peak\<close>, the longest run of working days counting the days
  already worked before the month.
\<close>

section \<open>Inputs and the result\<close>

record shift_request =
  rq_status :: availability_status
  rq_two_round :: bool

record shift_seed =
  sd_caddie :: caddie_id
  sd_name :: str
  sd_assignable :: bool
  sd_can_two :: bool
  sd_max_rounds :: int
  sd_main_course :: "course_id option"
  sd_requests :: "date \<rightharpoonup> shift_request"

record month_plan =
  mp_shifts :: "caddie_shift list"
  mp_pinned_kept :: nat
  mp_unplaced :: "str list"
  mp_statutory_rest :: nat
  mp_overworked :: "str list"

type_synonym held_days = "caddie_id \<times> date \<rightharpoonup> caddie_shift"

definition shift_key :: "caddie_shift \<Rightarrow> caddie_id \<times> date" where
  "shift_key s = (sh_caddie s, sh_date s)"

definition held_days_of :: "caddie_shift list \<Rightarrow> held_days" where
  "held_days_of existing =
     collect_map (map (\<lambda>s. (shift_key s, s))
       (filter (\<lambda>s. survives_regeneration (sh_origin s)) existing))"

definition earlier_days_of :: "date list \<Rightarrow> caddie_shift list \<Rightarrow> held_days" where
  "earlier_days_of dates existing =
     (case dates of [] \<Rightarrow> Map.empty
      | first # _ \<Rightarrow> collect_map (map (\<lambda>s. (shift_key s, s))
          (filter (\<lambda>s. sh_date s < first) existing)))"

section \<open>One day\<close>

definition capacity_for ::
  "shift_seed \<Rightarrow> shift_span \<Rightarrow> availability_status \<Rightarrow> bool \<Rightarrow> shift_policy \<Rightarrow> int" where
  "capacity_for seed sspan status wants_two policy =
     (let base = (if is_half_day sspan \<or> status = LightDuty then 1
                  else if sd_can_two seed \<and> wants_two then MAX_ROUNDS_PER_SHIFT else 1)
      in min (min (min base (max (sd_max_rounds seed) 1)) (sp_max_rounds policy))
           MAX_ROUNDS_PER_SHIFT)"

definition unfiled_status :: "shift_policy \<Rightarrow> availability_status" where
  "unfiled_status policy =
     (case sp_unfiled policy of UnfiledWorking \<Rightarrow> Available | UnfiledOff \<Rightarrow> Unavailable)"

definition plan_one_day :: "shift_seed \<Rightarrow> date \<Rightarrow> shift_policy \<Rightarrow> caddie_shift" where
  "plan_one_day seed d policy =
     (if \<not> sd_assignable seed then shift_off (sd_caddie seed) d Generated
      else let request = sd_requests seed d;
               status = (case request of None \<Rightarrow> unfiled_status policy | Some r \<Rightarrow> rq_status r)
           in case span_from_request status of
                None \<Rightarrow> shift_off (sd_caddie seed) d Generated
              | Some sspan \<Rightarrow>
                  let wants_two = (case request of None \<Rightarrow> False | Some r \<Rightarrow> rq_two_round r)
                  in \<lparr>sh_caddie = sd_caddie seed, sh_date = d, sh_course = sd_main_course seed,
                      sh_working = True, sh_span = sspan,
                      sh_rounds = capacity_for seed sspan status wants_two policy,
                      sh_origin = Generated, sh_note = None, sh_updated_by = None,
                      sh_updated_at = None\<rparr>)"

section \<open>The run before the month\<close>

function run_back ::
  "(date \<Rightarrow> date option) \<Rightarrow> (date \<rightharpoonup> caddie_shift) \<Rightarrow> int \<Rightarrow> date option \<Rightarrow> int \<Rightarrow> int" where
  "run_back pred days limit day worked =
     (case day of None \<Rightarrow> worked
      | Some d \<Rightarrow>
         (case days d of
            None \<Rightarrow> worked
          | Some s \<Rightarrow>
              if sh_working s
              then (if limit \<le> worked + 1 then worked + 1
                    else run_back pred days limit (pred d) (worked + 1))
              else worked))"
  by pat_completeness auto
termination
  by (relation "measure (\<lambda>(_, _, limit, _, worked). nat (limit - worked))") auto

declare run_back.simps [simp del]

definition run_before ::
  "calendar \<Rightarrow> held_days \<Rightarrow> caddie_id \<Rightarrow> date list \<Rightarrow> shift_policy \<Rightarrow> int" where
  "run_before cal earlier cid dates policy =
     (case dates of [] \<Rightarrow> 0
      | first # _ \<Rightarrow> run_back (cal_pred cal) (\<lambda>d. earlier (cid, d))
          (sp_max_consecutive policy) (cal_pred cal first) 0)"

lemma run_back_bounds:
  "0 \<le> worked \<Longrightarrow> worked < limit \<Longrightarrow>
     0 \<le> run_back pred days limit day worked \<and> run_back pred days limit day worked \<le> limit"
proof (induction pred days limit day worked rule: run_back.induct)
  case (1 pred days limit day worked)
  show ?case
  proof (cases "\<exists>d s. day = Some d \<and> days d = Some s \<and> sh_working s \<and> worked + 1 < limit")
    case True
    then obtain d s where *: "day = Some d" "days d = Some s" "sh_working s" "worked + 1 < limit"
      by auto
    with 1 have "0 \<le> run_back pred days limit (pred d) (worked + 1)
        \<and> run_back pred days limit (pred d) (worked + 1) \<le> limit" by simp
    with * show ?thesis by (subst (1 2) run_back.simps) simp
  next
    case False
    show ?thesis
      by (subst (1 2) run_back.simps) (use False 1(2,3) in \<open>auto split: option.splits\<close>)
  qed
qed

lemma run_before_bounds:
  "1 \<le> sp_max_consecutive policy \<Longrightarrow> 0 \<le> run_before cal earlier cid dates policy
     \<and> run_before cal earlier cid dates policy \<le> sp_max_consecutive policy"
  by (auto simp: run_before_def run_back_bounds split: list.splits)

section \<open>Choosing rest days\<close>

definition already_off :: "held_days \<Rightarrow> shift_seed \<Rightarrow> shift_policy \<Rightarrow> date \<Rightarrow> bool" where
  "already_off held seed policy d =
     (case held (sd_caddie seed, d) of
        Some s \<Rightarrow> \<not> sh_working s
      | None \<Rightarrow> (case sd_requests seed d of
                   Some r \<Rightarrow> rq_status r = Unavailable
                 | None \<Rightarrow> sp_unfiled policy = UnfiledOff))"

definition can_rest :: "held_days \<Rightarrow> shift_seed \<Rightarrow> date \<Rightarrow> bool" where
  "can_rest held seed d =
     (case held (sd_caddie seed, d) of Some s \<Rightarrow> \<not> sh_working s | None \<Rightarrow> True)"

definition choose_rest_day ::
  "calendar \<Rightarrow> date list \<Rightarrow> shift_policy \<Rightarrow> (date \<rightharpoonup> nat) \<Rightarrow> (date \<Rightarrow> bool) \<Rightarrow> date option" where
  "choose_rest_day cal window policy resting can =
     min_by_key (\<lambda>d. (policy_avoids cal policy d, count_of resting d, - d)) (filter can window)"

definition allowance :: "shift_policy \<Rightarrow> int \<Rightarrow> nat" where
  "allowance policy worked = nat (max 0 (sp_max_consecutive policy - worked))"

text \<open>
  The window loop; \<open>days\<close> is \<open>dates[index..]\<close>. The last branch of the choice is the
  code's \<open>expect\<close>: the chosen day always comes from the window.
\<close>

function rest_loop ::
  "calendar \<Rightarrow> shift_policy \<Rightarrow> (date \<Rightarrow> bool) \<Rightarrow> (date \<Rightarrow> bool) \<Rightarrow> date list \<Rightarrow> int
    \<Rightarrow> date set \<times> (date \<rightharpoonup> nat) \<Rightarrow> date set \<times> (date \<rightharpoonup> nat)" where
  "rest_loop cal policy off can days worked (inserted, resting) =
     (if length days \<le> allowance policy worked then (inserted, resting)
      else let window = take (Suc (allowance policy worked)) days in
        case position off window of
          Some offset \<Rightarrow>
            rest_loop cal policy off can (drop (Suc offset) days) 0
              (inserted, bump_count resting (window ! offset))
        | None \<Rightarrow>
            (case choose_rest_day cal window policy resting can of
               Some rest \<Rightarrow>
                 (case position (\<lambda>d. d = rest) window of
                    Some offset \<Rightarrow>
                      rest_loop cal policy off can (drop (Suc offset) days) 0
                        (insert rest inserted, bump_count resting rest)
                  | None \<Rightarrow> (insert rest inserted, bump_count resting rest))
             | None \<Rightarrow>
                 rest_loop cal policy off can (drop (Suc (allowance policy worked)) days)
                   (worked + int (length window)) (inserted, resting)))"
  by pat_completeness auto
termination
  by (relation "measure (\<lambda>(_, _, _, _, days, _, _). length days)") auto

declare rest_loop.simps [simp del]

text \<open>The top-up to the club's own number of rest days.\<close>

definition top_up_pick ::
  "calendar \<Rightarrow> shift_policy \<Rightarrow> (date \<Rightarrow> bool) \<Rightarrow> (date \<Rightarrow> bool) \<Rightarrow> date list
    \<Rightarrow> date set \<Rightarrow> (date \<rightharpoonup> nat) \<Rightarrow> date option" where
  "top_up_pick cal policy off can dates inserted resting =
     min_by_key (\<lambda>d. (policy_avoids cal policy d, count_of resting d, d))
       (filter (\<lambda>d. d \<notin> inserted \<and> \<not> off d \<and> can d) dates)"

lemma top_up_pick_in:
  "top_up_pick cal policy off can dates inserted resting = Some d \<Longrightarrow>
     d \<in> set dates \<and> d \<notin> inserted \<and> \<not> off d \<and> can d"
  by (auto simp: top_up_pick_def dest!: min_by_key_in)

function top_up ::
  "calendar \<Rightarrow> shift_policy \<Rightarrow> (date \<Rightarrow> bool) \<Rightarrow> (date \<Rightarrow> bool) \<Rightarrow> date list \<Rightarrow> int
    \<Rightarrow> date set \<times> (date \<rightharpoonup> nat) \<Rightarrow> date set \<times> (date \<rightharpoonup> nat)" where
  "top_up cal policy off can dates rest_days (inserted, resting) =
     (if rest_days < sp_min_rest policy then
        (case top_up_pick cal policy off can dates inserted resting of
           None \<Rightarrow> (inserted, resting)
         | Some pick \<Rightarrow>
             top_up cal policy off can dates (rest_days + 1)
               (insert pick inserted, bump_count resting pick))
      else (inserted, resting))"
  by pat_completeness auto
termination
  by (relation "measure (\<lambda>(_, policy, _, _, _, n, _). nat (sp_min_rest policy - n))") auto

declare top_up.simps [simp del]

definition place_rest_days ::
  "calendar \<Rightarrow> date list \<Rightarrow> shift_seed \<Rightarrow> held_days \<Rightarrow> int \<Rightarrow> shift_policy \<Rightarrow> (date \<rightharpoonup> nat)
    \<Rightarrow> date set \<times> (date \<rightharpoonup> nat)" where
  "place_rest_days cal dates seed held preceding policy resting =
     (if \<not> sd_assignable seed \<or> dates = [] then ({}, resting)
      else let off = already_off held seed policy; can = can_rest held seed;
               (inserted, resting') = rest_loop cal policy off can dates preceding ({}, resting);
               rest_days = int (length (filter (\<lambda>d. off d \<or> d \<in> inserted) dates))
           in top_up cal policy off can dates rest_days (inserted, resting'))"

section \<open>The month\<close>

record month_acc =
  ma_shifts :: "caddie_shift list"
  ma_pinned_kept :: nat
  ma_statutory :: nat
  ma_unplaced_ids :: "caddie_id set"
  ma_unplaced :: "str list"
  ma_overworked_ids :: "caddie_id set"
  ma_overworked :: "str list"

definition note_overworked ::
  "shift_policy \<Rightarrow> shift_seed \<Rightarrow> int \<Rightarrow> month_acc \<Rightarrow> month_acc" where
  "note_overworked policy seed worked acc =
     (if sp_max_consecutive policy < worked \<and> sd_caddie seed \<notin> ma_overworked_ids acc
      then acc\<lparr>ma_overworked_ids := insert (sd_caddie seed) (ma_overworked_ids acc),
               ma_overworked := ma_overworked acc @ [sd_name seed]\<rparr>
      else acc)"

definition note_unplaced :: "shift_seed \<Rightarrow> caddie_shift \<Rightarrow> month_acc \<Rightarrow> month_acc" where
  "note_unplaced seed s acc =
     (if sh_working s \<and> sh_course s = None \<and> sd_caddie seed \<notin> ma_unplaced_ids acc
      then acc\<lparr>ma_unplaced_ids := insert (sd_caddie seed) (ma_unplaced_ids acc),
               ma_unplaced := ma_unplaced acc @ [sd_name seed]\<rparr>
      else acc)"

definition push_shift :: "caddie_shift \<Rightarrow> month_acc \<Rightarrow> month_acc" where
  "push_shift s acc = acc\<lparr>ma_shifts := ma_shifts acc @ [s]\<rparr>"

definition count_run :: "bool \<Rightarrow> int \<Rightarrow> int" where
  "count_run working worked = (if working then worked + 1 else 0)"

definition day_step ::
  "shift_policy \<Rightarrow> held_days \<Rightarrow> shift_seed \<Rightarrow> date set \<Rightarrow> date
    \<Rightarrow> int \<times> month_acc \<Rightarrow> int \<times> month_acc" where
  "day_step policy held seed inserted d st =
     (let (worked, acc) = st in
      case held (sd_caddie seed, d) of
        Some pinned \<Rightarrow>
          (let worked = count_run (sh_working pinned) worked;
               acc = push_shift pinned (note_overworked policy seed worked acc)
           in (worked, acc\<lparr>ma_pinned_kept := Suc (ma_pinned_kept acc)\<rparr>))
      | None \<Rightarrow>
          (let planned = plan_one_day seed d policy;
               rests = (sh_working planned \<and> d \<in> inserted);
               s = (if rests then shift_off (sd_caddie seed) d Generated else planned);
               acc = (if rests then acc\<lparr>ma_statutory := Suc (ma_statutory acc)\<rparr> else acc);
               worked = count_run (sh_working s) worked
           in (worked, push_shift s (note_unplaced seed s
                         (note_overworked policy seed worked acc)))))"

definition seed_step ::
  "calendar \<Rightarrow> date list \<Rightarrow> held_days \<Rightarrow> held_days \<Rightarrow> shift_policy \<Rightarrow> shift_seed
    \<Rightarrow> (date \<rightharpoonup> nat) \<times> month_acc \<Rightarrow> (date \<rightharpoonup> nat) \<times> month_acc" where
  "seed_step cal dates held earlier policy seed st =
     (let (resting, acc) = st;
          preceding = run_before cal earlier (sd_caddie seed) dates policy;
          (inserted, resting') = place_rest_days cal dates seed held preceding policy resting;
          (_, acc') = fold (day_step policy held seed inserted) dates (preceding, acc)
      in (resting', acc'))"

definition empty_acc :: month_acc where
  "empty_acc = \<lparr>ma_shifts = [], ma_pinned_kept = 0, ma_statutory = 0, ma_unplaced_ids = {},
     ma_unplaced = [], ma_overworked_ids = {}, ma_overworked = []\<rparr>"

definition plan_month_shifts ::
  "calendar \<Rightarrow> date list \<Rightarrow> shift_seed list \<Rightarrow> caddie_shift list \<Rightarrow> shift_policy \<Rightarrow> month_plan" where
  "plan_month_shifts cal dates seeds existing policy =
     (let held = held_days_of existing;
          earlier = earlier_days_of dates existing;
          (_, acc) = fold (seed_step cal dates held earlier policy) seeds (Map.empty, empty_acc)
      in \<lparr>mp_shifts = ma_shifts acc, mp_pinned_kept = ma_pinned_kept acc,
          mp_unplaced = ma_unplaced acc, mp_statutory_rest = ma_statutory acc,
          mp_overworked = ma_overworked acc\<rparr>)"

end
