(* ===== verification/ShiftPlanCorrect.thy ===== *)
theory ShiftPlanCorrect
  imports ShiftPlan
begin

text \<open>
  Correctness of the monthly run: the rows it writes (one per caddie, one day per date),
  what it keeps, the limit on consecutive working days, the club's rest days, and the
  report of the caddies the pins push past the limit.
\<close>

section \<open>Runs of working days\<close>

text \<open>\<open>run_peak w bs\<close>: the longest run of working days in \<open>bs\<close>, the first run continuing
  one of length \<open>w\<close>.\<close>

fun run_peak :: "int \<Rightarrow> bool list \<Rightarrow> int" where
  "run_peak w [] = 0"
| "run_peak w (b # bs) = max (count_run b w) (run_peak (count_run b w) bs)"

lemma count_run_simps [simp]: "count_run True w = w + 1" "count_run False w = 0"
  by (simp_all add: count_run_def)

lemma count_run_nonneg: "0 \<le> w \<Longrightarrow> 0 \<le> count_run b w"
  by (simp add: count_run_def)

lemma run_peak_le_length: "0 \<le> w \<Longrightarrow> run_peak w bs \<le> w + int (length bs)"
proof (induction bs arbitrary: w)
  case (Cons b bs)
  from Cons.prems have "run_peak (count_run b w) bs \<le> count_run b w + int (length bs)"
    by (intro Cons.IH count_run_nonneg)
  with Cons.prems show ?case by (cases b) auto
qed simp

lemma run_peak_nonneg: "0 \<le> run_peak w bs"
  by (induction bs arbitrary: w) (simp_all add: le_max_iff_disj)

lemma run_peak_never: "run_peak w (map (\<lambda>_. False) xs) = 0"
  by (induction xs arbitrary: w) simp_all

text \<open>A day off splits the month: before it at most \<open>w\<close> plus the days passed, after it a
  fresh count.\<close>

lemma run_peak_split:
  assumes "0 \<le> w"
  shows "run_peak w (xs @ False # ys) \<le> max (w + int (length xs)) (run_peak 0 ys)"
  using assms
proof (induction xs arbitrary: w)
  case Nil
  then show ?case by simp
next
  case (Cons x xs)
  have "run_peak (count_run x w) (xs @ False # ys)
      \<le> max (count_run x w + int (length xs)) (run_peak 0 ys)"
    by (rule Cons.IH) (simp add: Cons.prems count_run_nonneg)
  with Cons.prems show ?case by (cases x) auto
qed

text \<open>Taking more days off never lengthens a run.\<close>

lemma run_peak_mono:
  assumes "list_all2 (\<longrightarrow>) bs cs" "0 \<le> v" "v \<le> w"
  shows "run_peak v bs \<le> run_peak w cs"
  using assms
proof (induction bs cs arbitrary: v w rule: list_all2_induct)
  case (Cons b bs c cs)
  have "count_run b v \<le> count_run c w" using Cons.hyps(1) Cons.prems
    by (cases b; cases c) auto
  then have "run_peak (count_run b v) bs \<le> run_peak (count_run c w) cs"
    by (intro Cons.IH count_run_nonneg Cons.prems)
  with \<open>count_run b v \<le> count_run c w\<close> show ?case by auto
qed simp

lemma run_peak_replicate: "0 \<le> w \<Longrightarrow> int n \<le> run_peak w (replicate n True @ ys)"
proof -
  have "0 \<le> w \<Longrightarrow> 0 < n \<Longrightarrow> w + int n \<le> run_peak w (replicate n True @ ys)" for w
  proof (induction n arbitrary: w)
    case (Suc n)
    show ?case
    proof (cases "n = 0")
      case False
      with Suc have "w + 1 + int n \<le> run_peak (w + 1) (replicate n True @ ys)" by simp
      then show ?thesis by simp
    qed simp
  qed simp
  from this [of w] show "0 \<le> w \<Longrightarrow> int n \<le> run_peak w (replicate n True @ ys)"
    using run_peak_nonneg [of w] by (cases "n = 0") auto
qed

text \<open>The peak bounds every block of consecutive working days.\<close>

lemma run_peak_block: "0 \<le> w \<Longrightarrow> int n \<le> run_peak w (xs @ replicate n True @ ys)"
proof (induction xs arbitrary: w)
  case (Cons x xs)
  then have "int n \<le> run_peak (count_run x w) (xs @ replicate n True @ ys)"
    by (intro Cons.IH count_run_nonneg)
  then show ?case by simp
qed (simp add: run_peak_replicate)

section \<open>The window loop\<close>

lemma choose_rest_day_in:
  "choose_rest_day cal window policy resting can = Some d \<Longrightarrow> d \<in> set window \<and> can d"
  by (auto simp: choose_rest_day_def dest!: min_by_key_in)

lemma choose_rest_day_None:
  "choose_rest_day cal window policy resting can = None \<longleftrightarrow> (\<forall>d \<in> set window. \<not> can d)"
  by (auto simp: choose_rest_day_def filter_empty_conv)

text \<open>
  Reasoning about the loop: one premise per way a round of it goes. \<open>P\<close> relates the days
  left, the run so far, the rest days inserted so far and those inserted in the end.
\<close>

lemma rest_loop_rule [case_names stop filed chosen pinned]:
  fixes P :: "date list \<Rightarrow> int \<Rightarrow> date set \<Rightarrow> date set \<Rightarrow> bool"
  assumes stop: "\<And>days w ins. length days \<le> allowance policy w \<Longrightarrow> P days w ins ins"
    and filed: "\<And>days w ins i out. i \<le> allowance policy w \<Longrightarrow> i < length days \<Longrightarrow> off (days ! i) \<Longrightarrow>
      P (drop (Suc i) days) 0 ins out \<Longrightarrow> P days w ins out"
    and chosen: "\<And>days w ins i out. i \<le> allowance policy w \<Longrightarrow> i < length days \<Longrightarrow>
      can (days ! i) \<Longrightarrow> \<not> off (days ! i) \<Longrightarrow>
      P (drop (Suc i) days) 0 (insert (days ! i) ins) out \<Longrightarrow> P days w ins out"
    and pinned: "\<And>days w ins out. allowance policy w < length days \<Longrightarrow>
      \<forall>i \<le> allowance policy w. \<not> can (days ! i) \<Longrightarrow>
      P (drop (Suc (allowance policy w)) days) (w + int (Suc (allowance policy w))) ins out \<Longrightarrow>
      P days w ins out"
  shows "P days w ins (fst (rest_loop cal policy off can days w (ins, resting)))"
proof (induction "length days" arbitrary: days w ins resting rule: less_induct)
  case less
  let ?a = "allowance policy w"
  let ?window = "take (Suc ?a) days"
  let ?loop = "rest_loop cal policy off can"
  have unfold: "?loop days w (ins, resting) =
     (if length days \<le> ?a then (ins, resting)
      else case position off ?window of
          Some i \<Rightarrow> ?loop (drop (Suc i) days) 0 (ins, bump_count resting (?window ! i))
        | None \<Rightarrow> (case choose_rest_day cal ?window policy resting can of
            Some rest \<Rightarrow> (case position (\<lambda>d. d = rest) ?window of
                Some i \<Rightarrow> ?loop (drop (Suc i) days) 0 (insert rest ins, bump_count resting rest)
              | None \<Rightarrow> (insert rest ins, bump_count resting rest))
          | None \<Rightarrow> ?loop (drop (Suc ?a) days) (w + int (length ?window)) (ins, resting)))"
    by (subst rest_loop.simps) (simp only: Let_def)
  show ?case
  proof (cases "length days \<le> ?a")
    case True
    then show ?thesis by (simp add: unfold stop)
  next
    case long: False
    then have len: "length ?window = Suc ?a" by simp
    show ?thesis
    proof (cases "position off ?window")
      case (Some i)
      with len have i: "i \<le> ?a" "off (days ! i)" by (auto dest!: position_Some)
      have "?loop days w (ins, resting)
          = ?loop (drop (Suc i) days) 0 (ins, bump_count resting (?window ! i))"
        by (simp only: unfold long Some if_False option.case)
      with i long show ?thesis by (simp del: drop_Suc) (rule filed, auto intro: less)
    next
      case none: None
      show ?thesis
      proof (cases "choose_rest_day cal ?window policy resting can")
        case (Some rest)
        from choose_rest_day_in [OF Some] have rest: "rest \<in> set ?window" "can rest" by auto
        with none have "\<not> off rest" by auto
        from rest(1) obtain i where i: "position (\<lambda>d. d = rest) ?window = Some i"
          by (cases "position (\<lambda>d. d = rest) ?window") auto
        with len have "i \<le> ?a" "days ! i = rest" by (auto dest!: position_Some)
        moreover have "?loop days w (ins, resting)
          = ?loop (drop (Suc i) days) 0 (insert rest ins, bump_count resting rest)"
          by (simp only: unfold long none Some i if_False option.case)
        ultimately show ?thesis using long rest(2) \<open>\<not> off rest\<close>
          by (simp del: drop_Suc) (rule chosen, auto intro: less)
      next
        case None
        then have "\<forall>d \<in> set ?window. \<not> can d" by (simp add: choose_rest_day_None del: set_take_subset)
        moreover have "days ! i \<in> set ?window" if "i \<le> ?a" for i
          using that long by (metis in_set_conv_nth len le_imp_less_Suc nth_take)
        ultimately have "\<forall>i \<le> ?a. \<not> can (days ! i)" by blast
        moreover have "?loop days w (ins, resting)
          = ?loop (drop (Suc ?a) days) (w + int (Suc ?a)) (ins, resting)"
          by (simp only: unfold long none None if_False option.case len)
        ultimately show ?thesis using long
          by (simp del: drop_Suc) (rule pinned, auto intro: less)
      qed
    qed
  qed
qed

text \<open>What the loop inserts can rest and was not already off.\<close>

lemma rest_loop_inserted:
  "ins \<subseteq> fst (rest_loop cal policy off can days w (ins, resting))
   \<and> (\<forall>d \<in> fst (rest_loop cal policy off can days w (ins, resting)).
        d \<in> ins \<or> d \<in> set days \<and> can d \<and> \<not> off d)"
proof (rule rest_loop_rule [where P = "\<lambda>days _ ins out. ins \<subseteq> out
    \<and> (\<forall>d \<in> out. d \<in> ins \<or> d \<in> set days \<and> can d \<and> \<not> off d)"], goal_cases)
  case (3 days w ins i out)
  then show ?case by (auto dest: in_set_dropD)
qed (auto dest: in_set_dropD)

text \<open>
  The point of the loop: when every day may be turned into a rest day, what is off at the
  end leaves no run longer than the limit.
\<close>

lemma rest_loop_peak:
  assumes limit: "1 \<le> sp_max_consecutive policy" and free: "\<forall>d \<in> set days. can d"
    and w: "0 \<le> w" "w \<le> sp_max_consecutive policy"
  shows "run_peak w (map (\<lambda>d. \<not> (off d \<or> d \<in> fst (rest_loop cal policy off can days w (ins, resting)))) days)
    \<le> sp_max_consecutive policy"
proof -
  let ?M = "sp_max_consecutive policy"
  define work where "work = (\<lambda>out d. \<not> (off d \<or> d \<in> out))"
  define P where "P = (\<lambda>days w ins out. ins \<subseteq> out \<and> ((\<forall>d \<in> set days. can d) \<longrightarrow> 0 \<le> w \<longrightarrow> w \<le> ?M \<longrightarrow>
    run_peak w (map (work out) days) \<le> ?M))"
  have step: "run_peak w (map (work out) days) \<le> ?M"
    if "i \<le> allowance policy w" "i < length days" "\<not> work out (days ! i)" "0 \<le> w" "w \<le> ?M"
      and rec: "run_peak 0 (map (work out) (drop (Suc i) days)) \<le> ?M" for days w i out
  proof -
    have f: "work out (days ! i) = False" using that(3) by blast
    have "map (work out) days = map (work out) (take i days) @ work out (days ! i)
        # map (work out) (drop (Suc i) days)"
      by (subst id_take_nth_drop [OF that(2)]) simp
    moreover have "w + int i \<le> ?M" using that(1,4,5) by (simp add: allowance_def)
    moreover have "length (map (work out) (take i days)) = i" using that(2) by simp
    ultimately show ?thesis unfolding f
      using run_peak_split [OF that(4), of "map (work out) (take i days)"
          "map (work out) (drop (Suc i) days)"] rec
      by (metis (no_types, lifting) max.bounded_iff max_def order.trans)
  qed
  have "P days w ins (fst (rest_loop cal policy off can days w (ins, resting)))"
  proof (rule rest_loop_rule [where P = P], goal_cases stop filed chosen pinned)
    case (stop days w ins)
    have "w + int (length days) \<le> ?M" if "w \<le> ?M" using stop that by (auto simp: allowance_def)
    then show ?case using run_peak_le_length [of w "map (work ins) days"]
      by (auto simp: P_def intro: order.trans)
  next
    case (filed days w ins i out)
    then show ?case using limit
      by (auto simp: P_def dest: in_set_dropD intro!: step [of i w days out])
        (simp add: work_def)
  next
    case (chosen days w ins i out)
    then show ?case using limit
      by (auto simp: P_def dest: in_set_dropD intro!: step [of i w days out])
        (auto simp add: work_def)
  next
    case (pinned days w ins out)
    then have "\<not> (\<forall>d \<in> set days. can d)" by (metis le0 nth_mem order.strict_trans1)
    then show ?case using pinned(3) unfolding P_def by blast
  qed
  with free w show ?thesis by (simp add: P_def work_def)
qed


section \<open>The top-up\<close>

lemma top_up_unfold:
  "top_up cal policy off can dates n (ins, resting) =
     (if n < sp_min_rest policy then
        (case top_up_pick cal policy off can dates ins resting of
           None \<Rightarrow> (ins, resting)
         | Some pick \<Rightarrow> top_up cal policy off can dates (n + 1)
             (insert pick ins, bump_count resting pick))
      else (ins, resting))"
  by (subst top_up.simps) simp

lemma top_up_inserted:
  "ins \<subseteq> fst (top_up cal policy off can dates n (ins, resting))
   \<and> (\<forall>d \<in> fst (top_up cal policy off can dates n (ins, resting)).
        d \<in> ins \<or> d \<in> set dates \<and> can d \<and> \<not> off d)"
proof (induction "nat (sp_min_rest policy - n)" arbitrary: n ins resting rule: less_induct)
  case less
  show ?case
  proof (cases "n < sp_min_rest policy")
    case n: True
    show ?thesis
    proof (cases "top_up_pick cal policy off can dates ins resting")
      case None
      then show ?thesis by (subst (1 2) top_up_unfold) simp
    next
      case (Some pick)
      let ?r = "top_up cal policy off can dates (n + 1) (insert pick ins, bump_count resting pick)"
      have "insert pick ins \<subseteq> fst ?r \<and> (\<forall>d \<in> fst ?r.
          d \<in> insert pick ins \<or> d \<in> set dates \<and> can d \<and> \<not> off d)"
        by (rule less) (use n in simp)
      with n Some top_up_pick_in [OF Some] show ?thesis by (subst (1 2) top_up_unfold) auto
    qed
  next
    case False
    then show ?thesis by (subst (1 2) top_up_unfold) simp
  qed
qed

definition days_off :: "(date \<Rightarrow> bool) \<Rightarrow> date list \<Rightarrow> date set \<Rightarrow> nat" where
  "days_off off dates ins = length (filter (\<lambda>d. off d \<or> d \<in> ins) dates)"

lemma days_off_insert:
  assumes "distinct dates" "d \<in> set dates" "d \<notin> ins" "\<not> off d"
  shows "days_off off dates (insert d ins) = Suc (days_off off dates ins)"
  using assms
proof (induction dates)
  case (Cons x xs)
  show ?case
  proof (cases "x = d")
    case True
    with Cons.prems have "filter (\<lambda>y. off y \<or> y \<in> insert d ins) xs = filter (\<lambda>y. off y \<or> y \<in> ins) xs"
      by (intro filter_cong) auto
    with True Cons.prems show ?thesis by (simp add: days_off_def)
  next
    case False
    with Cons show ?thesis by (auto simp: days_off_def)
  qed
qed simp

text \<open>The club's figure is reached unless no day is left that could be given.\<close>

lemma top_up_reaches:
  assumes "distinct dates" "n = int (days_off off dates ins)"
  shows "sp_min_rest policy
      \<le> int (days_off off dates (fst (top_up cal policy off can dates n (ins, resting))))
    \<or> (\<forall>d \<in> set dates. off d \<or> \<not> can d
         \<or> d \<in> fst (top_up cal policy off can dates n (ins, resting)))"
  using assms(2)
proof (induction "nat (sp_min_rest policy - n)" arbitrary: n ins resting rule: less_induct)
  case less
  show ?case
  proof (cases "n < sp_min_rest policy")
    case n: True
    show ?thesis
    proof (cases "top_up_pick cal policy off can dates ins resting")
      case None
      then have "\<forall>d \<in> set dates. d \<in> ins \<or> off d \<or> \<not> can d"
        by (auto simp: top_up_pick_def filter_empty_conv)
      with None show ?thesis by (subst (1 2) top_up_unfold) auto
    next
      case (Some pick)
      let ?r = "top_up cal policy off can dates (n + 1) (insert pick ins, bump_count resting pick)"
      have "sp_min_rest policy \<le> int (days_off off dates (fst ?r))
          \<or> (\<forall>d \<in> set dates. off d \<or> \<not> can d \<or> d \<in> fst ?r)"
        by (rule less(1))
          (use n top_up_pick_in [OF Some] days_off_insert [OF assms(1), of pick ins off] less(2) in auto)
      with n Some show ?thesis by (subst (1 2) top_up_unfold) simp
    qed
  next
    case False
    with less(2) show ?thesis by (subst (1 2) top_up_unfold) simp
  qed
qed

section \<open>One caddie's row\<close>

definition day_shift ::
  "shift_policy \<Rightarrow> held_days \<Rightarrow> shift_seed \<Rightarrow> date set \<Rightarrow> date \<Rightarrow> caddie_shift" where
  "day_shift policy held seed ins d =
     (case held (sd_caddie seed, d) of
        Some pinned \<Rightarrow> pinned
      | None \<Rightarrow> if sh_working (plan_one_day seed d policy) \<and> d \<in> ins
                then shift_off (sd_caddie seed) d Generated else plan_one_day seed d policy)"

lemma plan_one_day_sel [simp]:
  "sh_caddie (plan_one_day seed d policy) = sd_caddie seed"
  "sh_date (plan_one_day seed d policy) = d"
  "sh_origin (plan_one_day seed d policy) = Generated"
  by (auto simp: plan_one_day_def shift_off_def Let_def split: option.splits)

lemma span_from_request_None [simp]: "span_from_request s = None \<longleftrightarrow> s = Unavailable"
  by (cases s) simp_all

lemma plan_one_day_working:
  assumes "held (sd_caddie seed, d) = None"
  shows "sh_working (plan_one_day seed d policy)
    \<longleftrightarrow> sd_assignable seed \<and> \<not> already_off held seed policy d"
  using assms
  by (auto simp: plan_one_day_def already_off_def shift_off_def Let_def unfiled_status_def
      split: option.splits unfiled_request.splits)

lemma capacity_for_bounds:
  assumes "policy_ok policy"
  shows "1 \<le> capacity_for seed sspan status w policy"
    and "capacity_for seed sspan status w policy \<le> sp_max_rounds policy"
    and "capacity_for seed sspan status w policy \<le> MAX_ROUNDS_PER_SHIFT"
    and "is_half_day sspan \<Longrightarrow> capacity_for seed sspan status w policy = 1"
    and "status = LightDuty \<Longrightarrow> capacity_for seed sspan status w policy = 1"
  using assms by (auto simp: capacity_for_def policy_ok_def MAX_ROUNDS_PER_SHIFT_def)

lemma plan_one_day_ok [shift_rules]:
  assumes "policy_ok policy"
  shows "shift_ok (plan_one_day seed d policy)"
    and "sh_rounds (plan_one_day seed d policy) \<le> sp_max_rounds policy"
  using assms capacity_for_bounds [OF assms]
  by (auto simp: plan_one_day_def shift_ok_def shift_off_def Let_def policy_ok_def
      split: option.splits)

text \<open>The day loop writes exactly \<open>day_shift\<close> for each date, and reports the caddie once if
  the run ever passes the limit.\<close>

lemma note_sel [simp]:
  "ma_shifts (note_overworked policy seed w acc) = ma_shifts acc"
  "ma_shifts (note_unplaced seed s acc) = ma_shifts acc"
  "ma_overworked (note_unplaced seed s acc) = ma_overworked acc"
  "ma_overworked_ids (note_unplaced seed s acc) = ma_overworked_ids acc"
  "ma_shifts (push_shift s acc) = ma_shifts acc @ [s]"
  "ma_overworked (push_shift s acc) = ma_overworked acc"
  "ma_overworked_ids (push_shift s acc) = ma_overworked_ids acc"
  by (simp_all add: note_overworked_def note_unplaced_def push_shift_def)

definition reported ::
  "shift_policy \<Rightarrow> shift_seed \<Rightarrow> int \<Rightarrow> caddie_id set \<times> str list \<Rightarrow> caddie_id set \<times> str list" where
  "reported policy seed peak st =
     (if sp_max_consecutive policy < peak \<and> sd_caddie seed \<notin> fst st
      then (insert (sd_caddie seed) (fst st), snd st @ [sd_name seed]) else st)"

lemma reported_join:
  "reported policy seed q (reported policy seed p st) = reported policy seed (max p q) st"
  by (auto simp: reported_def max_def)

lemma day_step_effect:
  assumes "day_step policy held seed ins d (w, acc) = (w', acc')"
  shows "w' = count_run (sh_working (day_shift policy held seed ins d)) w"
    and "ma_shifts acc' = ma_shifts acc @ [day_shift policy held seed ins d]"
    and "(ma_overworked_ids acc', ma_overworked acc')
      = reported policy seed w' (ma_overworked_ids acc, ma_overworked acc)"
  using assms
  by (auto simp: day_step_def day_shift_def Let_def note_overworked_def reported_def
      split: option.splits if_splits)

lemma day_loop_effect:
  assumes "0 \<le> w" and "1 \<le> sp_max_consecutive policy"
    and "fold (day_step policy held seed ins) dates (w, acc) = (w', acc')"
  shows "ma_shifts acc' = ma_shifts acc @ map (day_shift policy held seed ins) dates
    \<and> (ma_overworked_ids acc', ma_overworked acc')
      = reported policy seed (run_peak w (map (sh_working \<circ> day_shift policy held seed ins) dates))
          (ma_overworked_ids acc, ma_overworked acc)"
  using assms(1,3)
proof (induction dates arbitrary: w acc)
  case Nil
  then show ?case using assms(2) by (simp add: reported_def)
next
  case (Cons d ds)
  obtain w1 acc1 where s: "day_step policy held seed ins d (w, acc) = (w1, acc1)"
    by (cases "day_step policy held seed ins d (w, acc)")
  note e = day_step_effect [OF s]
  from e(1) Cons.prems(1) have "0 \<le> w1" by (simp add: count_run_nonneg)
  from Cons.IH [OF this] Cons.prems(2) s e show ?case
    by (simp add: reported_join)
qed


lemma held_days_of_key: "held_days_of existing k = Some s \<Longrightarrow> shift_key s = k \<and> sh_origin s = Pinned"
  by (auto simp: held_days_of_def survives_regeneration_def dest!: collect_map_Some)

text \<open>The rest days one caddie was given, for whatever the colleagues had before.\<close>

definition rests_for ::
  "calendar \<Rightarrow> date list \<Rightarrow> held_days \<Rightarrow> held_days \<Rightarrow> shift_policy \<Rightarrow> shift_seed \<Rightarrow> date set \<Rightarrow> bool"
where
  "rests_for cal dates held earlier policy seed ins \<longleftrightarrow>
     (\<exists>resting. ins = fst (place_rest_days cal dates seed held
        (run_before cal earlier (sd_caddie seed) dates policy) policy resting))"

definition day_row ::
  "shift_policy \<Rightarrow> held_days \<Rightarrow> date list \<Rightarrow> shift_seed \<times> date set \<Rightarrow> caddie_shift list" where
  "day_row policy held dates si = map (day_shift policy held (fst si) (snd si)) dates"

lemma place_rest_days_eq:
  assumes "sd_assignable seed"
  obtains resting' where
    "fst (place_rest_days cal dates seed held w policy resting) =
       fst (top_up cal policy (already_off held seed policy) (can_rest held seed) dates
         (int (days_off (already_off held seed policy) dates
           (fst (rest_loop cal policy (already_off held seed policy) (can_rest held seed) dates w
             ({}, resting)))))
         (fst (rest_loop cal policy (already_off held seed policy) (can_rest held seed) dates w
             ({}, resting)), resting'))"
proof (cases "dates = []")
  case True
  have "rest_loop cal policy (already_off held seed policy) (can_rest held seed) [] w ({}, resting)
      = ({}, resting)" by (subst rest_loop.simps) simp
  moreover have "fst (top_up cal policy (already_off held seed policy) (can_rest held seed) [] n
      ({}, resting)) = {}" for n
    by (subst top_up_unfold) (simp add: top_up_pick_def)
  ultimately show ?thesis using True that [of resting] by (simp add: place_rest_days_def)
next
  case False
  with assms show ?thesis
    using that [of "snd (rest_loop cal policy (already_off held seed policy) (can_rest held seed)
        dates w ({}, resting))"]
    by (simp add: place_rest_days_def Let_def case_prod_unfold days_off_def)
qed

lemma place_rest_days_bounds:
  "d \<in> fst (place_rest_days cal dates seed held w policy resting) \<Longrightarrow>
     d \<in> set dates \<and> can_rest held seed d \<and> \<not> already_off held seed policy d"
proof (cases "sd_assignable seed")
  case True
  assume d: "d \<in> fst (place_rest_days cal dates seed held w policy resting)"
  from True obtain resting' where eq: "fst (place_rest_days cal dates seed held w policy resting) =
       fst (top_up cal policy (already_off held seed policy) (can_rest held seed) dates
         (int (days_off (already_off held seed policy) dates
           (fst (rest_loop cal policy (already_off held seed policy) (can_rest held seed) dates w
             ({}, resting)))))
         (fst (rest_loop cal policy (already_off held seed policy) (can_rest held seed) dates w
             ({}, resting)), resting'))" by (rule place_rest_days_eq)
  let ?loop = "fst (rest_loop cal policy (already_off held seed policy) (can_rest held seed) dates w
      ({}, resting))"
  have "d \<in> ?loop \<or> d \<in> set dates \<and> can_rest held seed d \<and> \<not> already_off held seed policy d"
    using d unfolding eq by (rule top_up_inserted [THEN conjunct2, rule_format])
  moreover have "d \<in> {} \<or> d \<in> set dates \<and> can_rest held seed d \<and> \<not> already_off held seed policy d"
    if "d \<in> ?loop"
    using that by (rule rest_loop_inserted [THEN conjunct2, rule_format])
  ultimately show ?thesis by blast
qed (simp add: place_rest_days_def)

lemma day_shift_working:
  assumes "ins \<subseteq> {d. can_rest held seed d \<and> \<not> already_off held seed policy d}"
  shows "sh_working (day_shift policy held seed ins d) \<longleftrightarrow>
    (case held (sd_caddie seed, d) of Some p \<Rightarrow> sh_working p
     | None \<Rightarrow> sd_assignable seed \<and> \<not> (already_off held seed policy d \<or> d \<in> ins))"
  using plan_one_day_working [of held seed d policy]
  by (auto simp: day_shift_def split: option.splits)

lemma off_day_row:
  assumes "rests_for cal dates held earlier policy seed ins" "d \<in> set dates"
    and "already_off held seed policy d \<or> d \<in> ins"
  shows "\<not> sh_working (day_shift policy held seed ins d)"
proof -
  have sub: "ins \<subseteq> {d. can_rest held seed d \<and> \<not> already_off held seed policy d}"
    using assms(1) place_rest_days_bounds by (force simp: rests_for_def)
  then show ?thesis using assms(3)
    by (auto simp: day_shift_working [OF sub] already_off_def can_rest_def split: option.splits)
qed

text \<open>The law, for a caddie with no day pinned as working.\<close>

lemma row_peak:
  assumes ok: "1 \<le> sp_max_consecutive policy"
    and rf: "rests_for cal dates held earlier policy seed ins"
    and free: "\<forall>d \<in> set dates. \<forall>p. held (sd_caddie seed, d) = Some p \<longrightarrow> \<not> sh_working p"
  shows "run_peak (run_before cal earlier (sd_caddie seed) dates policy)
      (map sh_working (day_row policy held dates (seed, ins))) \<le> sp_max_consecutive policy"
proof -
  let ?w = "run_before cal earlier (sd_caddie seed) dates policy"
  let ?off = "already_off held seed policy"  and ?can = "can_rest held seed"
  let ?M = "sp_max_consecutive policy"
  note w = run_before_bounds [OF ok, of cal earlier "sd_caddie seed" dates]
  have sub: "ins \<subseteq> {d. ?can d \<and> \<not> ?off d}"
    using rf place_rest_days_bounds by (force simp: rests_for_def)
  have work: "sh_working (day_shift policy held seed ins d)
      \<longrightarrow> sd_assignable seed \<and> \<not> (?off d \<or> d \<in> ins)" if "d \<in> set dates" for d
    using free that by (auto simp: day_shift_working [OF sub] split: option.splits)
  show ?thesis
  proof (cases "sd_assignable seed")
    case True
    from rf obtain resting where ins: "ins = fst (place_rest_days cal dates seed held ?w policy resting)"
      by (auto simp: rests_for_def)
    let ?loop = "fst (rest_loop cal policy ?off ?can dates ?w ({}, resting))"
    from True obtain resting' where "ins = fst (top_up cal policy ?off ?can dates
        (int (days_off ?off dates ?loop)) (?loop, resting'))"
      unfolding ins by (rule place_rest_days_eq)
    then have grow: "?loop \<subseteq> ins" using top_up_inserted by blast
    have can: "\<forall>d \<in> set dates. ?can d"
      using free by (auto simp: can_rest_def split: option.splits)
    have "run_peak ?w (map sh_working (day_row policy held dates (seed, ins)))
        \<le> run_peak ?w (map (\<lambda>d. \<not> (?off d \<or> d \<in> ?loop)) dates)"
      using work grow w
      by (intro run_peak_mono) (auto simp: day_row_def list_all2_conv_all_nth)
    also have "\<dots> \<le> ?M" using rest_loop_peak [OF ok can] w by blast
    finally show ?thesis .
  next
    case False
    have "run_peak ?w (map sh_working (day_row policy held dates (seed, ins)))
        \<le> run_peak ?w (map (\<lambda>_. False) dates)"
      using work False w by (intro run_peak_mono) (auto simp: day_row_def list_all2_conv_all_nth)
    also have "\<dots> = 0" by (rule run_peak_never)
    finally show ?thesis using ok by simp
  qed
qed

text \<open>The club's figure, unless every working day left is pinned.\<close>

lemma row_rest_quota:
  assumes "distinct dates" and rf: "rests_for cal dates held earlier policy seed ins"
  shows "sp_min_rest policy
      \<le> int (length (filter (\<lambda>s. \<not> sh_working s) (day_row policy held dates (seed, ins))))
    \<or> (\<forall>d \<in> set dates. sh_working (day_shift policy held seed ins d) \<longrightarrow>
          held (sd_caddie seed, d) = Some (day_shift policy held seed ins d))"
proof (cases "sd_assignable seed")
  case True
  let ?off = "already_off held seed policy"  and ?can = "can_rest held seed"
  from rf obtain w resting where "ins = fst (place_rest_days cal dates seed held w policy resting)"
    by (auto simp: rests_for_def)
  with True obtain loop resting' where "ins = fst (top_up cal policy ?off ?can dates
      (int (days_off ?off dates loop)) (loop, resting'))"
    using place_rest_days_eq by metis
  then have "sp_min_rest policy \<le> int (days_off ?off dates ins)
      \<or> (\<forall>d \<in> set dates. ?off d \<or> \<not> ?can d \<or> d \<in> ins)"
    using top_up_reaches [OF assms(1) refl] by blast
  then show ?thesis
  proof
    assume "sp_min_rest policy \<le> int (days_off ?off dates ins)"
    moreover have "days_off ?off dates ins
        \<le> length (filter (\<lambda>d. \<not> sh_working (day_shift policy held seed ins d)) dates)"
      unfolding days_off_def by (rule length_filter_mono) (rule off_day_row [OF rf])
    ultimately show ?thesis by (simp add: day_row_def filter_map comp_def)
  next
    assume *: "\<forall>d \<in> set dates. ?off d \<or> \<not> ?can d \<or> d \<in> ins"
    have "held (sd_caddie seed, d) = Some (day_shift policy held seed ins d)"
      if "d \<in> set dates" "sh_working (day_shift policy held seed ins d)" for d
      using * that off_day_row [OF rf that(1)]
      by (auto simp: can_rest_def day_shift_def split: option.splits)
    then show ?thesis by blast
  qed
next
  case False
  then show ?thesis
    by (auto simp: day_shift_def plan_one_day_def split: option.splits)
qed


section \<open>The whole roster\<close>

lemma seed_step_effect:
  assumes ok: "1 \<le> sp_max_consecutive policy"
    and "seed_step cal dates held earlier policy seed (resting, acc) = (resting', acc')"
  obtains ins where "rests_for cal dates held earlier policy seed ins"
    and "ma_shifts acc' = ma_shifts acc @ day_row policy held dates (seed, ins)"
    and "(ma_overworked_ids acc', ma_overworked acc')
      = reported policy seed (run_peak (run_before cal earlier (sd_caddie seed) dates policy)
          (map sh_working (day_row policy held dates (seed, ins))))
          (ma_overworked_ids acc, ma_overworked acc)"
proof -
  let ?w = "run_before cal earlier (sd_caddie seed) dates policy"
  let ?ins = "fst (place_rest_days cal dates seed held ?w policy resting)"
  obtain w' where fold: "fold (day_step policy held seed ?ins) dates (?w, acc) = (w', acc')"
    using assms(2) by (auto simp: seed_step_def Let_def split: prod.splits)
  show ?thesis
    using that [of ?ins] day_loop_effect [OF _ ok fold] run_before_bounds [OF ok]
    by (auto simp: rests_for_def day_row_def comp_def)
qed

lemma month_loop_effect:
  assumes ok: "1 \<le> sp_max_consecutive policy"
    and "fold (seed_step cal dates held earlier policy) seeds (resting, acc) = (resting', acc')"
  shows "\<exists>rests. list_all2 (rests_for cal dates held earlier policy) seeds rests
    \<and> ma_shifts acc' = ma_shifts acc @ concat (map (day_row policy held dates) (zip seeds rests))
    \<and> (ma_overworked_ids acc', ma_overworked acc')
      = fold (\<lambda>(seed, ins). reported policy seed
          (run_peak (run_before cal earlier (sd_caddie seed) dates policy)
             (map sh_working (day_row policy held dates (seed, ins))))) (zip seeds rests)
          (ma_overworked_ids acc, ma_overworked acc)"
  using assms(2)
proof (induction seeds arbitrary: resting acc)
  case (Cons seed seeds)
  obtain r1 acc1 where step: "seed_step cal dates held earlier policy seed (resting, acc) = (r1, acc1)"
    by (cases "seed_step cal dates held earlier policy seed (resting, acc)")
  from seed_step_effect [OF ok step] obtain ins where
    ins: "rests_for cal dates held earlier policy seed ins"
      "ma_shifts acc1 = ma_shifts acc @ day_row policy held dates (seed, ins)"
      "(ma_overworked_ids acc1, ma_overworked acc1)
        = reported policy seed (run_peak (run_before cal earlier (sd_caddie seed) dates policy)
          (map sh_working (day_row policy held dates (seed, ins))))
          (ma_overworked_ids acc, ma_overworked acc)" by blast
  from Cons.prems step have "fold (seed_step cal dates held earlier policy) seeds (r1, acc1)
      = (resting', acc')" by simp
  from Cons.IH [OF this] obtain rests where rests:
    "list_all2 (rests_for cal dates held earlier policy) seeds rests"
    "ma_shifts acc' = ma_shifts acc1 @ concat (map (day_row policy held dates) (zip seeds rests))"
    "(ma_overworked_ids acc', ma_overworked acc')
      = fold (\<lambda>(seed, ins). reported policy seed
          (run_peak (run_before cal earlier (sd_caddie seed) dates policy)
             (map sh_working (day_row policy held dates (seed, ins))))) (zip seeds rests)
          (ma_overworked_ids acc1, ma_overworked acc1)" by blast
  show ?case
    by (rule exI [of _ "ins # rests"]) (simp add: ins rests)
qed simp

text \<open>The plan as rows, one per caddie, with the rest days each was given.\<close>

lemma plan_rows:
  assumes "1 \<le> sp_max_consecutive policy"
  obtains rests where
    "list_all2 (rests_for cal dates (held_days_of existing) (earlier_days_of dates existing) policy)
       seeds rests"
    and "mp_shifts (plan_month_shifts cal dates seeds existing policy)
      = concat (map (day_row policy (held_days_of existing) dates) (zip seeds rests))"
    and "mp_overworked (plan_month_shifts cal dates seeds existing policy)
      = snd (fold (\<lambda>(seed, ins). reported policy seed
          (run_peak (run_before cal (earlier_days_of dates existing) (sd_caddie seed) dates policy)
             (map sh_working (day_row policy (held_days_of existing) dates (seed, ins)))))
          (zip seeds rests) ({}, []))"
proof -
  obtain r acc where "fold (seed_step cal dates (held_days_of existing)
      (earlier_days_of dates existing) policy) seeds (Map.empty, empty_acc) = (r, acc)"
    by fastforce
  then have plan: "plan_month_shifts cal dates seeds existing policy =
      \<lparr>mp_shifts = ma_shifts acc, mp_pinned_kept = ma_pinned_kept acc,
        mp_unplaced = ma_unplaced acc, mp_statutory_rest = ma_statutory acc,
        mp_overworked = ma_overworked acc\<rparr>"
    by (simp add: plan_month_shifts_def)
  from month_loop_effect [OF assms \<open>fold _ seeds _ = (r, acc)\<close>] obtain rests where
    *: "list_all2 (rests_for cal dates (held_days_of existing) (earlier_days_of dates existing) policy)
       seeds rests"
    and rows: "ma_shifts acc = ma_shifts empty_acc
      @ concat (map (day_row policy (held_days_of existing) dates) (zip seeds rests))"
    and over: "(ma_overworked_ids acc, ma_overworked acc)
      = fold (\<lambda>(seed, ins). reported policy seed
          (run_peak (run_before cal (earlier_days_of dates existing) (sd_caddie seed) dates policy)
             (map sh_working (day_row policy (held_days_of existing) dates (seed, ins)))))
          (zip seeds rests) (ma_overworked_ids empty_acc, ma_overworked empty_acc)" by blast
  show ?thesis
    by (rule that [OF *]) (simp_all add: plan rows over [symmetric] empty_acc_def
        flip: over [unfolded empty_acc_def month_acc.simps])
qed

lemma day_row_caddie:
  "s \<in> set (day_row policy (held_days_of existing) dates (seed, ins)) \<Longrightarrow> sh_caddie s = sd_caddie seed"
  by (auto simp: day_row_def day_shift_def shift_key_def dest!: held_days_of_key split: option.splits)

lemma filter_rows:
  assumes "distinct (map sd_caddie seeds)" "length rests = length seeds" "(seed, ins) \<in> set (zip seeds rests)"
  shows "filter (\<lambda>s. sh_caddie s = sd_caddie seed)
      (concat (map (day_row policy (held_days_of existing) dates) (zip seeds rests)))
    = day_row policy (held_days_of existing) dates (seed, ins)"
  using assms
proof (induction seeds arbitrary: rests)
  case (Cons x xs)
  then obtain i is' where r: "rests = i # is'" by (cases rests) auto
  have other: "filter (\<lambda>s. sh_caddie s = c)
      (concat (map (day_row policy (held_days_of existing) dates) (zip ys js))) = []"
    if "c \<notin> sd_caddie ` set ys" for c ys js
    using that by (auto simp: filter_empty_conv dest: day_row_caddie set_zip_leftD)
  have self: "filter (\<lambda>s. sh_caddie s = c) (day_row policy (held_days_of existing) dates (y, j))
      = (if sd_caddie y = c then day_row policy (held_days_of existing) dates (y, j) else [])" for c y j
    by (auto simp: filter_empty_conv filter_id_conv dest: day_row_caddie)
  show ?case
  proof (cases "seed = x")
    case True
    with Cons.prems r have "seed \<notin> set xs" by auto
    with Cons.prems r True have "ins = i" by (auto dest: set_zip_leftD)
    with True r Cons.prems show ?thesis by (simp add: self other)
  next
    case False
    with Cons.prems r have *: "(seed, ins) \<in> set (zip xs is')" by auto
    then have "sd_caddie x \<noteq> sd_caddie seed" using Cons.prems by (auto dest: set_zip_leftD)
    with Cons r * show ?thesis by (simp add: self)
  qed
qed simp

lemma reported_fold:
  assumes "distinct (map sd_caddie (map fst sis))" "fst st \<inter> sd_caddie ` fst ` set sis = {}"
  shows "snd (fold (\<lambda>(seed, ins). reported policy seed (peak seed ins)) sis st)
    = snd st @ map (sd_name \<circ> fst) (filter (\<lambda>(seed, ins). sp_max_consecutive policy < peak seed ins) sis)"
  using assms
proof (induction sis arbitrary: st)
  case (Cons si sis)
  obtain seed ins where si: "si = (seed, ins)" by (cases si)
  let ?st = "reported policy seed (peak seed ins) st"
  have "snd (fold (\<lambda>(seed, ins). reported policy seed (peak seed ins)) sis ?st)
    = snd ?st @ map (sd_name \<circ> fst) (filter (\<lambda>(seed, ins). sp_max_consecutive policy < peak seed ins) sis)"
    by (rule Cons.IH) (use Cons.prems si in \<open>auto simp: reported_def\<close>)
  moreover have "snd ?st = (if sp_max_consecutive policy < peak seed ins
      then snd st @ [sd_name seed] else snd st)"
    using Cons.prems si by (auto simp: reported_def)
  ultimately show ?case using si by simp
qed simp

section \<open>Properties\<close>

definition caddie_days :: "caddie_id \<Rightarrow> month_plan \<Rightarrow> caddie_shift list" where
  "caddie_days cid plan = filter (\<lambda>s. sh_caddie s = cid) (mp_shifts plan)"

lemma caddie_days_row:
  assumes "1 \<le> sp_max_consecutive policy" "distinct (map sd_caddie seeds)" "seed \<in> set seeds"
  obtains ins where
    "rests_for cal dates (held_days_of existing) (earlier_days_of dates existing) policy seed ins"
    "caddie_days (sd_caddie seed) (plan_month_shifts cal dates seeds existing policy)
      = day_row policy (held_days_of existing) dates (seed, ins)"
proof -
  obtain rests where rests:
    "list_all2 (rests_for cal dates (held_days_of existing) (earlier_days_of dates existing) policy)
       seeds rests"
    "mp_shifts (plan_month_shifts cal dates seeds existing policy)
      = concat (map (day_row policy (held_days_of existing) dates) (zip seeds rests))"
    using plan_rows [OF assms(1)] by blast
  from rests(1) assms(3) obtain ins where ins: "(seed, ins) \<in> set (zip seeds rests)"
    by (metis in_set_conv_nth in_set_zip list_all2_lengthD fst_conv snd_conv)
  with rests(1) have "rests_for cal dates (held_days_of existing)
      (earlier_days_of dates existing) policy seed ins"
    by (auto simp: list_all2_iff)
  moreover have "caddie_days (sd_caddie seed) (plan_month_shifts cal dates seeds existing policy)
      = day_row policy (held_days_of existing) dates (seed, ins)"
    unfolding caddie_days_def rests(2)
    by (rule filter_rows [OF assms(2) _ ins]) (use rests(1) in \<open>simp add: list_all2_lengthD\<close>)
  ultimately show ?thesis by (rule that)
qed


lemma day_shift_facts:
  assumes "policy_ok policy"
  shows "shift_key (day_shift policy (held_days_of existing) seed ins d) = (sd_caddie seed, d)"
    and "case held_days_of existing (sd_caddie seed, d) of
       Some p \<Rightarrow> day_shift policy (held_days_of existing) seed ins d = p
     | None \<Rightarrow> shift_ok (day_shift policy (held_days_of existing) seed ins d)
         \<and> sh_origin (day_shift policy (held_days_of existing) seed ins d) = Generated
         \<and> sh_rounds (day_shift policy (held_days_of existing) seed ins d) \<le> sp_max_rounds policy"
  using plan_one_day_ok [OF assms, of seed d] shift_ok_off [of "sd_caddie seed" d Generated] assms
  by (auto simp: day_shift_def shift_key_def policy_ok_def dest!: held_days_of_key
      split: option.splits)

text \<open>A small roster for the witnesses: nine days, one caddie who filed nothing.\<close>

definition sample_calendar :: calendar where
  "sample_calendar = \<lparr>cal_weekday = (\<lambda>d. if d mod 7 = 6 then Sat else if d mod 7 = 0 then Sun
     else Mon), cal_pred = (\<lambda>d. Some (d - 1)), cal_succ = (\<lambda>d. Some (d + 1)),
     cal_ymd = (\<lambda>_ _ _. None)\<rparr>"

definition sample_seed :: shift_seed where
  "sample_seed = \<lparr>sd_caddie = ''a'', sd_name = ''Aoi'', sd_assignable = True, sd_can_two = False,
     sd_max_rounds = 1, sd_main_course = Some ''east'', sd_requests = Map.empty\<rparr>"

definition sample_dates :: "date list" where
  "sample_dates = [1, 2, 3, 4, 5, 6, 7, 8, 9]"

definition sample_pinned :: "caddie_shift list" where
  "sample_pinned = map (\<lambda>d. \<lparr>sh_caddie = ''a'', sh_date = d, sh_course = Some ''east'',
     sh_working = True, sh_span = FullDay, sh_rounds = 1, sh_origin = Pinned, sh_note = None,
     sh_updated_by = None, sh_updated_at = None\<rparr>) [1, 2, 3, 4, 5, 6, 7]"

text \<open>
  A month is planned exactly once per caddie and date, in roster order and date
  order; a day the desk pinned is kept as it stands, and every other day is a generated,
  well-formed shift within the club's round limit.
\<close>

theorem month_covers_roster:
  assumes "policy_ok policy"
  shows "map shift_key (mp_shifts (plan_month_shifts cal dates seeds existing policy))
      = concat (map (\<lambda>seed. map (Pair (sd_caddie seed)) dates) seeds)
    \<and> (\<forall>s \<in> set (mp_shifts (plan_month_shifts cal dates seeds existing policy)).
        case held_days_of existing (shift_key s) of
          Some p \<Rightarrow> s = p
        | None \<Rightarrow> shift_ok s \<and> sh_origin s = Generated \<and> sh_rounds s \<le> sp_max_rounds policy)"
proof -
  have max: "1 \<le> sp_max_consecutive policy" using assms by (simp add: policy_ok_def)
  obtain rests where len: "length seeds = length rests"
    and rows: "mp_shifts (plan_month_shifts cal dates seeds existing policy)
      = concat (map (day_row policy (held_days_of existing) dates) (zip seeds rests))"
    using plan_rows [OF max] by (metis list_all2_lengthD)
  have keys: "map shift_key (day_row policy (held_days_of existing) dates si)
      = map (Pair (sd_caddie (fst si))) dates" for si
    by (simp add: day_row_def day_shift_facts(1) [OF assms] comp_def)
  have "map shift_key (concat (map (day_row policy (held_days_of existing) dates) (zip seeds rests)))
      = concat (map (\<lambda>seed. map (Pair (sd_caddie seed)) dates) (map fst (zip seeds rests)))"
    by (simp add: map_concat comp_def keys)
  moreover have "case held_days_of existing (shift_key s) of
          Some p \<Rightarrow> s = p
        | None \<Rightarrow> shift_ok s \<and> sh_origin s = Generated \<and> sh_rounds s \<le> sp_max_rounds policy"
    if "s \<in> set (day_row policy (held_days_of existing) dates si)" for s si
    using that day_shift_facts [OF assms, of existing "fst si" "snd si"]
    by (auto simp: day_row_def)
  ultimately show ?thesis unfolding rows using len by auto
qed

theorem month_covers_roster_witness:
  "policy_ok default_policy
   \<and> length (mp_shifts (plan_month_shifts sample_calendar sample_dates [sample_seed] [] default_policy)) = 9"
proof -
  from month_covers_roster [OF policy_ok_default, of sample_calendar sample_dates "[sample_seed]" "[]"]
  have "length (map shift_key (mp_shifts (plan_month_shifts sample_calendar sample_dates
      [sample_seed] [] default_policy))) = 9"
    by (simp only: sample_dates_def) simp
  then show ?thesis by (simp add: policy_ok_default)
qed

text \<open>
  C3. The law. For a caddie none of whose days is pinned as working, the planned month
  never holds more consecutive working days than the policy allows (six at most),
  counting the days worked just before the month; so no block of consecutive days in the
  caddie's row is longer than that.
\<close>

theorem month_respects_work_limit:
  assumes "policy_ok policy" "distinct (map sd_caddie seeds)" "seed \<in> set seeds"
    and "\<forall>d \<in> set dates. \<forall>p. held_days_of existing (sd_caddie seed, d) = Some p \<longrightarrow> \<not> sh_working p"
  shows "run_peak (run_before cal (earlier_days_of dates existing) (sd_caddie seed) dates policy)
      (map sh_working (caddie_days (sd_caddie seed)
         (plan_month_shifts cal dates seeds existing policy)))
      \<le> sp_max_consecutive policy
    \<and> (\<forall>xs n ys. map sh_working (caddie_days (sd_caddie seed)
         (plan_month_shifts cal dates seeds existing policy)) = xs @ replicate n True @ ys
       \<longrightarrow> n \<le> 6)"
proof -
  let ?row = "map sh_working (caddie_days (sd_caddie seed)
      (plan_month_shifts cal dates seeds existing policy))"
  have max: "1 \<le> sp_max_consecutive policy" "sp_max_consecutive policy \<le> 6"
    using assms(1) by (simp_all add: policy_ok_def MAX_CONSECUTIVE_WORK_DAYS_def)
  let ?w = "run_before cal (earlier_days_of dates existing) (sd_caddie seed) dates policy"
  obtain ins where "rests_for cal dates (held_days_of existing) (earlier_days_of dates existing) policy seed ins"
    "?row = map sh_working (day_row policy (held_days_of existing) dates (seed, ins))"
    using caddie_days_row [OF max(1) assms(2,3)] by metis
  then have peak: "run_peak ?w ?row \<le> sp_max_consecutive policy"
    using row_peak [OF max(1) _ assms(4)] by metis
  moreover have "n \<le> 6" if "?row = xs @ replicate n True @ ys" for xs n ys
  proof -
    have "int n \<le> run_peak ?w ?row"
      unfolding that by (rule run_peak_block) (use run_before_bounds [OF max(1)] in blast)
    with peak max(2) show ?thesis by linarith
  qed
  ultimately show ?thesis by blast
qed

theorem month_respects_work_limit_witness:
  "run_peak (run_before sample_calendar (earlier_days_of sample_dates []) ''a'' sample_dates default_policy)
     (map sh_working (caddie_days ''a''
       (plan_month_shifts sample_calendar sample_dates [sample_seed] [] default_policy))) \<le> 6"
  using month_respects_work_limit [OF policy_ok_default, of "[sample_seed]" sample_seed sample_dates
      "[]" sample_calendar]
  by (simp add: held_days_of_def collect_map_def sample_seed_def default_policy_def
      MAX_CONSECUTIVE_WORK_DAYS_def)

text \<open>
  C32. The club's promise. Each caddie's planned month holds at least the promised number
  of rest days, unless every day it works was pinned by the desk.
\<close>

theorem month_gives_rest_days:
  assumes "policy_ok policy" "distinct (map sd_caddie seeds)" "seed \<in> set seeds" "distinct dates"
  shows "sp_min_rest policy \<le> int (length (filter (\<lambda>s. \<not> sh_working s)
        (caddie_days (sd_caddie seed) (plan_month_shifts cal dates seeds existing policy))))
    \<or> (\<forall>s \<in> set (caddie_days (sd_caddie seed) (plan_month_shifts cal dates seeds existing policy)).
         sh_working s \<longrightarrow> sh_origin s = Pinned)"
proof -
  have max: "1 \<le> sp_max_consecutive policy" using assms(1) by (simp add: policy_ok_def)
  obtain ins where rf: "rests_for cal dates (held_days_of existing) (earlier_days_of dates existing)
      policy seed ins"
    and row: "caddie_days (sd_caddie seed) (plan_month_shifts cal dates seeds existing policy)
      = day_row policy (held_days_of existing) dates (seed, ins)"
    using caddie_days_row [OF max assms(2,3)] by metis
  from row_rest_quota [OF assms(4) rf] show ?thesis
    unfolding row by (auto simp: day_row_def dest: held_days_of_key)
qed

theorem month_gives_rest_days_witness:
  "3 \<le> length (filter (\<lambda>s. \<not> sh_working s) (caddie_days ''a'' (plan_month_shifts sample_calendar
      sample_dates [sample_seed] [] (with_min_rest_days_per_month default_policy 3))))
   \<or> (\<forall>s \<in> set (caddie_days ''a'' (plan_month_shifts sample_calendar sample_dates [sample_seed] []
        (with_min_rest_days_per_month default_policy 3))). sh_working s \<longrightarrow> sh_origin s = Pinned)"
  using month_gives_rest_days [OF policy_ok_with(3) [OF policy_ok_default, of 3],
      of "[sample_seed]" sample_seed sample_dates sample_calendar "[]"]
  by (simp add: sample_seed_def sample_dates_def with_min_rest_days_per_month_def)

text \<open>
  The report of overworked caddies is exact: it names, in roster order and once each,
  the caddies whose planned month runs past the policy's limit.
\<close>

theorem overworked_report_exact:
  assumes "policy_ok policy" "distinct (map sd_caddie seeds)"
  shows "mp_overworked (plan_month_shifts cal dates seeds existing policy)
    = map sd_name (filter (\<lambda>seed. sp_max_consecutive policy
        < run_peak (run_before cal (earlier_days_of dates existing) (sd_caddie seed) dates policy)
            (map sh_working (caddie_days (sd_caddie seed)
               (plan_month_shifts cal dates seeds existing policy)))) seeds)"
proof -
  have max: "1 \<le> sp_max_consecutive policy" using assms(1) by (simp add: policy_ok_def)
  let ?held = "held_days_of existing" and ?plan = "plan_month_shifts cal dates seeds existing policy"
  let ?w = "\<lambda>seed. run_before cal (earlier_days_of dates existing) (sd_caddie seed) dates policy"
  let ?peak = "\<lambda>seed ins. run_peak (?w seed) (map sh_working (day_row policy ?held dates (seed, ins)))"
  obtain rests where rests: "list_all2 (rests_for cal dates ?held (earlier_days_of dates existing) policy)
       seeds rests"
    and rows: "mp_shifts ?plan = concat (map (day_row policy ?held dates) (zip seeds rests))"
    and over: "mp_overworked ?plan
      = snd (fold (\<lambda>(seed, ins). reported policy seed (?peak seed ins)) (zip seeds rests) ({}, []))"
    using plan_rows [OF max, of cal dates existing seeds] by blast
  have len: "length rests = length seeds" using rests by (simp add: list_all2_lengthD)
  have fst: "map fst (zip seeds rests) = seeds" using len by simp
  have "mp_overworked ?plan = map (sd_name \<circ> fst)
      (filter (\<lambda>(seed, ins). sp_max_consecutive policy < ?peak seed ins) (zip seeds rests))"
    unfolding over by (subst reported_fold) (use assms(2) fst in simp_all)
  also have "filter (\<lambda>(seed, ins). sp_max_consecutive policy < ?peak seed ins) (zip seeds rests)
      = filter ((\<lambda>seed. sp_max_consecutive policy < run_peak (?w seed)
          (map sh_working (caddie_days (sd_caddie seed) ?plan))) \<circ> fst) (zip seeds rests)"
    by (rule filter_cong) (auto simp: caddie_days_def rows filter_rows [OF assms(2) len])
  also have "map (sd_name \<circ> fst) \<dots> = map sd_name (filter (\<lambda>seed. sp_max_consecutive policy
      < run_peak (?w seed) (map sh_working (caddie_days (sd_caddie seed) ?plan)))
        (map fst (zip seeds rests)))"
    by (simp add: filter_map comp_def)
  finally show ?thesis by (simp only: fst)
qed

theorem overworked_report_exact_witness:
  "[''Aoi''] = map sd_name (filter (\<lambda>seed. 1
        < run_peak (run_before sample_calendar (earlier_days_of [1, 2] (take 2 sample_pinned))
              (sd_caddie seed) [1, 2] (with_max_consecutive_work_days default_policy 1))
            (map sh_working (caddie_days (sd_caddie seed)
               (plan_month_shifts sample_calendar [1, 2] [sample_seed] (take 2 sample_pinned)
                 (with_max_consecutive_work_days default_policy 1))))) [sample_seed])"
proof -
  have "mp_overworked (plan_month_shifts sample_calendar [1, 2] [sample_seed] (take 2 sample_pinned)
     (with_max_consecutive_work_days default_policy 1)) = [''Aoi'']" by code_simp
  moreover have "sp_max_consecutive (with_max_consecutive_work_days default_policy 1) = 1"
    by code_simp
  ultimately show ?thesis
    using overworked_report_exact [OF policy_ok_with(1) [OF policy_ok_default, of 1],
        of "[sample_seed]" sample_calendar "[1, 2]" "take 2 sample_pinned"] by simp
qed

end
