(* ===== verification/Ranking.thy ===== *)
theory Ranking
  imports CaddieModel
begin

text \<open>
  Who to put on the next round (\<open>src/course/domain/caddie_ranking.rs\<close>): the score of a
  candidate and \<open>rank_caddies\<close>, which orders the day's candidates best first.
\<close>

section \<open>Scores\<close>

datatype attendance_state = Working | NotClocked | ClockedOut | NotLinked

fun attendance_as_str :: "attendance_state \<Rightarrow> str" where
  "attendance_as_str Working = ''working''"
| "attendance_as_str NotClocked = ''not_clocked''"
| "attendance_as_str ClockedOut = ''clocked_out''"
| "attendance_as_str NotLinked = ''not_linked''"

definition attendance_parse :: "str \<Rightarrow> attendance_state" where
  "attendance_parse raw = (let k = wire_key raw in
     if k = ''working'' then Working
     else if k = ''clocked_out'' then ClockedOut
     else if k = ''not_linked'' then NotLinked
     else NotClocked)"

interpretation attendance: wire_enum attendance_as_str attendance_parse
proof
  show "attendance_parse (attendance_as_str x) = x" for x by (cases x; hypsubst; code_simp)
qed

definition UNRATED_SCORE :: int where "UNRATED_SCORE = 70"
definition RATING_WEIGHT :: f64 where "RATING_WEIGHT = Fin 20"
definition REMAINING_ROUND_BONUS :: int where "REMAINING_ROUND_BONUS = 5"
definition ROOKIE_PAIRING_BONUS :: int where "ROOKIE_PAIRING_BONUS = 12"
definition FOURSOME_VETERAN_BONUS :: int where "FOURSOME_VETERAN_BONUS = 5"
definition ON_DUTY_BONUS :: int where "ON_DUTY_BONUS = 40"
definition MAX_RESULTS :: nat where "MAX_RESULTS = 50"
definition DEFAULT_RESULTS :: nat where "DEFAULT_RESULTS = 10"

record ranking_candidate =
  rc_caddie :: caddie_id
  rc_name :: str
  rc_skill :: skill_level
  rc_rating :: "f64 option"
  rc_rating_count :: int
  rc_assigned_today :: int
  rc_max_rounds :: int
  rc_attendance :: attendance_state

record ranking_options =
  ro_player_count :: "int option"
  ro_rookie_pairing :: bool
  ro_limit :: "nat option"

record ranked_caddie =
  rk_caddie :: caddie_id
  rk_name :: str
  rk_skill :: skill_level
  rk_rating :: "f64 option"
  rk_rating_count :: int
  rk_rounds_assigned :: int
  rk_remaining :: int
  rk_attendance :: attendance_state
  rk_score :: int
  rk_role :: str
  rk_pairing_name :: "str option"
  rk_reasons :: "str list"

definition rating_component :: "ranking_candidate \<Rightarrow> int" where
  "rating_component c =
     (case rc_rating c of None \<Rightarrow> UNRATED_SCORE
      | Some v \<Rightarrow> f64_as_i32 (f64_round (f64_mul v RATING_WEIGHT)))"

fun experience_component :: "skill_level \<Rightarrow> int" where
  "experience_component Junior = 0"
| "experience_component Regular = 6"
| "experience_component Veteran = 10"

definition remaining_rounds :: "ranking_candidate \<Rightarrow> int" where
  "remaining_rounds c = max (wrap_i64 (rc_max_rounds c - rc_assigned_today c)) 0"

fun attendance_component :: "attendance_state \<Rightarrow> int \<times> str" where
  "attendance_component Working = (ON_DUTY_BONUS, ''on_duty'')"
| "attendance_component NotClocked = (0, ''not_clocked_in'')"
| "attendance_component ClockedOut = (0, ''clocked_out'')"
| "attendance_component NotLinked = (0, ''no_staff_link'')"

definition base_score :: "ranking_candidate \<Rightarrow> int" where
  "base_score c =
     wrap_i32 (wrap_i32 (rating_component c + experience_component (rc_skill c))
       + wrap_i32 (wrap_i64 (remaining_rounds c * REMAINING_ROUND_BONUS)))"

section \<open>The ranking\<close>

definition veteran_pair :: "ranking_candidate list \<Rightarrow> (caddie_id \<times> str) option" where
  "veteran_pair candidates =
     map_option (\<lambda>c. (rc_caddie c, rc_name c))
       (max_by_key (\<lambda>c. (base_score c, rc_caddie c))
         (filter (\<lambda>c. rc_skill c = Veteran) candidates))"

definition rookie_pair ::
  "ranking_options \<Rightarrow> (caddie_id \<times> str) option \<Rightarrow> ranking_candidate \<Rightarrow> str option" where
  "rookie_pair opts pair c =
     (if ro_rookie_pairing opts \<and> rc_skill c = Junior then
        (case pair of
           Some (pid, pname) \<Rightarrow> if pid \<noteq> rc_caddie c then Some pname else None
         | None \<Rightarrow> None)
      else None)"

definition suits_foursome :: "ranking_options \<Rightarrow> ranking_candidate \<Rightarrow> bool" where
  "suits_foursome opts c \<longleftrightarrow>
     (case ro_player_count opts of None \<Rightarrow> False | Some n \<Rightarrow> 4 \<le> n) \<and> rc_skill c = Veteran"

definition rank_one ::
  "ranking_options \<Rightarrow> (caddie_id \<times> str) option \<Rightarrow> ranking_candidate \<Rightarrow> ranked_caddie" where
  "rank_one opts pair c =
     (let (bonus, attendance_reason) = attendance_component (rc_attendance c);
          remaining = remaining_rounds c;
          reasons = [attendance_reason]
            @ (if rc_rating_count c = 0 then [''no_ratings''] else [])
            @ (if remaining = 0 then [''at_daily_limit''] else []);
          score = wrap_i32 (base_score c + bonus);
          paired = rookie_pair opts pair c;
          score = (if paired = None then score else wrap_i32 (score + ROOKIE_PAIRING_BONUS));
          reasons = reasons @ (if paired = None then [] else [''rookie_paired_with_veteran'']);
          foursome = suits_foursome opts c;
          score = (if foursome then wrap_i32 (score + FOURSOME_VETERAN_BONUS) else score);
          reasons = reasons @ (if foursome then [''veteran_for_foursome''] else [])
      in \<lparr>rk_caddie = rc_caddie c, rk_name = rc_name c, rk_skill = rc_skill c,
          rk_rating = rc_rating c, rk_rating_count = rc_rating_count c,
          rk_rounds_assigned = max (rc_assigned_today c) 0, rk_remaining = remaining,
          rk_attendance = rc_attendance c, rk_score = score,
          rk_role = (if paired = None then ''primary'' else ''trainee''),
          rk_pairing_name = paired, rk_reasons = reasons\<rparr>)"

text \<open>Ties break on the number of ratings, then on the identifier.\<close>

definition rank_key :: "ranked_caddie \<Rightarrow> int \<times> int \<times> str" where
  "rank_key r = (- rk_score r, - rk_rating_count r, rk_caddie r)"

definition result_limit :: "ranking_options \<Rightarrow> nat" where
  "result_limit opts =
     min (case ro_limit opts of None \<Rightarrow> DEFAULT_RESULTS | Some n \<Rightarrow> n) MAX_RESULTS"

definition rank_caddies :: "ranking_candidate list \<Rightarrow> ranking_options \<Rightarrow> ranked_caddie list" where
  "rank_caddies candidates opts =
     take (result_limit opts)
       (sort_by (key_le rank_key) (map (rank_one opts (veteran_pair candidates)) candidates))"

lemma rank_one_sel [simp]:
  "rk_caddie (rank_one opts pair c) = rc_caddie c"
  "rk_name (rank_one opts pair c) = rc_name c"
  "rk_rating_count (rank_one opts pair c) = rc_rating_count c"
  by (simp_all add: rank_one_def Let_def split: prod.splits)

lemma rank_caddies_from:
  "r \<in> set (rank_caddies candidates opts) \<Longrightarrow>
     \<exists>c \<in> set candidates. r = rank_one opts (veteran_pair candidates) c"
  by (auto simp: rank_caddies_def dest!: in_set_takeD)

lemma rank_caddies_nonempty:
  "candidates \<noteq> [] \<Longrightarrow> 0 < result_limit opts \<Longrightarrow> rank_caddies candidates opts \<noteq> []"
  by (simp add: rank_caddies_def)

text \<open>Two candidates of different identity never tie, so the order is determined.\<close>

lemma rank_key_inj: "rank_key r = rank_key r' \<Longrightarrow> rk_caddie r = rk_caddie r'"
  by (simp add: rank_key_def)

lemma max_by_key_unique:
  assumes "inj_on f (set xs)" "mset xs = mset ys"
  shows "max_by_key f xs = max_by_key f ys"
proof (cases "max_by_key f xs")
  case None
  with assms show ?thesis by simp
next
  case (Some x)
  then have "ys \<noteq> []" using assms(2) by auto
  then obtain y where y: "max_by_key f ys = Some y" by fastforce
  have sets: "set xs = set ys" using assms(2) by (metis set_mset_mset)
  have "f x = f y" using Some y sets
    by (intro order.antisym) (auto intro: max_by_key_ge dest: max_by_key_in)
  with assms(1) Some y sets have "x = y"
    by (metis inj_onD max_by_key_in)
  with Some y show ?thesis by simp
qed

section \<open>Properties\<close>

definition sample_candidate :: "caddie_id \<Rightarrow> attendance_state \<Rightarrow> ranking_candidate" where
  "sample_candidate cid att = \<lparr>rc_caddie = cid, rc_name = cid, rc_skill = Regular,
     rc_rating = None, rc_rating_count = 0, rc_assigned_today = 0, rc_max_rounds = 1,
     rc_attendance = att\<rparr>"

text \<open>The score as one sum of its components, wrapped once.\<close>

lemma rank_one_score:
  "rk_score (rank_one opts pair c) =
     wrap_i32 (rating_component c + experience_component (rc_skill c)
       + wrap_i64 (remaining_rounds c * REMAINING_ROUND_BONUS)
       + fst (attendance_component (rc_attendance c))
       + (if rookie_pair opts pair c = None then 0 else ROOKIE_PAIRING_BONUS)
       + (if suits_foursome opts c then FOURSOME_VETERAN_BONUS else 0))"
proof -
  have base: "base_score c = wrap_i32 (rating_component c + experience_component (rc_skill c)
      + wrap_i64 (remaining_rounds c * REMAINING_ROUND_BONUS))"
    by (simp only: base_score_def wrap_i32_add wrap_i32_add_right)
  show ?thesis
    unfolding rank_one_def base Let_def case_prod_beta
    by (cases "rookie_pair opts pair c"; cases "suits_foursome opts c") (simp_all add: wrap_i32_add)
qed

text \<open>The score and the order an operator is told of, over the candidates themselves.\<close>

definition best_score :: "ranking_options \<Rightarrow> ranking_candidate list \<Rightarrow> ranking_candidate \<Rightarrow> int" where
  "best_score opts cs c =
     wrap_i32 ((case rc_rating c of None \<Rightarrow> 70 | Some v \<Rightarrow> f64_as_i32 (f64_round (f64_mul v (Fin 20))))
       + (if rc_skill c = Veteran then 10 else if rc_skill c = Regular then 6 else 0)
       + wrap_i64 (5 * max 0 (wrap_i64 (rc_max_rounds c - rc_assigned_today c)))
       + (if rc_attendance c = Working then 40 else 0)
       + (if ro_rookie_pairing opts \<and> rc_skill c = Junior
             \<and> (\<exists>v name. veteran_pair cs = Some (v, name) \<and> v \<noteq> rc_caddie c) then 12 else 0)
       + (if rc_skill c = Veteran \<and> (\<exists>n. ro_player_count opts = Some n \<and> 4 \<le> n) then 5 else 0))"

definition comes_before :: "ranking_options \<Rightarrow> ranking_candidate list \<Rightarrow> ranking_candidate \<Rightarrow> ranking_candidate \<Rightarrow> bool" where
  "comes_before opts cs c d \<longleftrightarrow>
     best_score opts cs d < best_score opts cs c
     \<or> best_score opts cs c = best_score opts cs d \<and> rc_rating_count d < rc_rating_count c
     \<or> best_score opts cs c = best_score opts cs d \<and> rc_rating_count c = rc_rating_count d
       \<and> rc_caddie c \<le> rc_caddie d"

lemma rank_one_best_score: "rk_score (rank_one opts (veteran_pair cs) c) = best_score opts cs c"
proof -
  have rating: "rating_component c = (case rc_rating c of None \<Rightarrow> 70 | Some v \<Rightarrow> f64_as_i32 (f64_round (f64_mul v (Fin 20))))"
    unfolding rating_component_def UNRATED_SCORE_def RATING_WEIGHT_def ..
  have experience: "experience_component (rc_skill c)
      = (if rc_skill c = Veteran then 10 else if rc_skill c = Regular then 6 else 0)"
    by (cases "rc_skill c") simp_all
  have on_duty: "fst (attendance_component (rc_attendance c)) = (if rc_attendance c = Working then 40 else 0)"
    by (cases "rc_attendance c") (simp_all add: ON_DUTY_BONUS_def)
  have paired: "(if rookie_pair opts (veteran_pair cs) c = None then 0 else ROOKIE_PAIRING_BONUS) =
      (if ro_rookie_pairing opts \<and> rc_skill c = Junior
          \<and> (\<exists>v name. veteran_pair cs = Some (v, name) \<and> v \<noteq> rc_caddie c) then 12 else 0)"
    unfolding ROOKIE_PAIRING_BONUS_def by (auto simp: rookie_pair_def split: option.splits)
  have foursome: "(if suits_foursome opts c then FOURSOME_VETERAN_BONUS else 0) =
      (if rc_skill c = Veteran \<and> (\<exists>n. ro_player_count opts = Some n \<and> 4 \<le> n) then 5 else 0)"
    unfolding FOURSOME_VETERAN_BONUS_def by (auto simp: suits_foursome_def split: option.splits)
  have remaining: "remaining_rounds c * REMAINING_ROUND_BONUS = 5 * max 0 (wrap_i64 (rc_max_rounds c - rc_assigned_today c))"
    by (simp add: remaining_rounds_def REMAINING_ROUND_BONUS_def max.commute)
  show ?thesis
    unfolding rank_one_score best_score_def rating experience on_duty paired foursome remaining ..
qed

lemma rank_key_before:
  "key_le rank_key (rank_one opts (veteran_pair cs) c) (rank_one opts (veteran_pair cs) d) \<longleftrightarrow> comes_before opts cs c d"
  unfolding key_le_def rank_key_def rank_one_best_score rank_one_sel comes_before_def by (auto simp: less_eq_prod_def)

text \<open>
  C36. The ranking returns the best candidates and only those, best first. A candidate comes before another with
  the higher score; on equal scores with more ratings; on equal ratings with the smaller identifier. The score is
  twenty points for each point of the rating (seventy unrated), six or ten for a regular or a veteran, five for
  each round still free, forty when on duty, twelve for a junior beside the best veteran when pairing is asked
  for, five for a veteran when four or more play. There are as many entries as the limit (ten unless asked, fifty
  at most) and the candidates allow, each with its score, and none left out comes before one returned.
\<close>

theorem ranking_returns_the_best:
  "\<exists>order. mset order = mset cs \<and> sorted_wrt (comes_before opts cs) order
     \<and> map (\<lambda>r. (rk_caddie r, rk_name r, rk_score r)) (rank_caddies cs opts)
       = map (\<lambda>c. (rc_caddie c, rc_name c, best_score opts cs c))
           (take (min (case ro_limit opts of None \<Rightarrow> 10 | Some n \<Rightarrow> n) 50) order)"
proof -
  let ?one = "rank_one opts (veteran_pair cs)"
  let ?before = "\<lambda>c d. key_le rank_key (?one c) (?one d)"
  have sorted: "sorted_wrt (comes_before opts cs) (sort_by ?before cs)"
    using by_key.sorted_sort_by [of rank_key "map ?one cs"] unfolding sort_by_map
    by (simp add: sorted_wrt_map rank_key_before)
  have board: "rank_caddies cs opts
      = map ?one (take (min (case ro_limit opts of None \<Rightarrow> 10 | Some n \<Rightarrow> n) 50) (sort_by ?before cs))"
    unfolding rank_caddies_def sort_by_map result_limit_def DEFAULT_RESULTS_def MAX_RESULTS_def take_map ..
  show ?thesis
    by (rule exI [of _ "sort_by ?before cs"]) (simp add: sorted board comp_def rank_one_best_score)
qed

text \<open>At the desk: the caddie on duty is offered before the veteran who is not.\<close>

definition two_candidates :: "ranking_candidate list" where
  "two_candidates = [(sample_candidate ''a'' NotClocked)\<lparr>rc_skill := Veteran\<rparr>, sample_candidate ''b'' Working]"

theorem ranking_returns_the_best_witness:
  "map rk_caddie (rank_caddies two_candidates \<lparr>ro_player_count = None, ro_rookie_pairing = False, ro_limit = Some 1\<rparr>)
   = [''b'']"
proof -
  let ?opts = "\<lparr>ro_player_count = None, ro_rookie_pairing = False, ro_limit = Some 1\<rparr>"
  let ?a = "(sample_candidate ''a'' NotClocked)\<lparr>rc_skill := Veteran\<rparr>" and ?b = "sample_candidate ''b'' Working"
  obtain order where order: "mset order = mset two_candidates"
      "sorted_wrt (comes_before ?opts two_candidates) order"
      "map (\<lambda>r. (rk_caddie r, rk_name r, rk_score r)) (rank_caddies two_candidates ?opts)
       = map (\<lambda>c. (rc_caddie c, rc_name c, best_score ?opts two_candidates c)) (take 1 order)"
    using ranking_returns_the_best [of two_candidates ?opts] by auto
  have apart: "best_score ?opts two_candidates ?a = 85" "best_score ?opts two_candidates ?b = 121"
    by (simp_all add: best_score_def sample_candidate_def in_i32_def i32_min_def i32_max_def
        in_i64_def i64_min_def i64_max_def)
  have "order = [?a, ?b] \<or> order = [?b, ?a]"
    using order(1) unfolding two_candidates_def
    by (cases order rule: remdups_adj.cases) (auto simp: add_eq_conv_ex)
  then have "order = [?b, ?a]" using order(2) apart by (auto simp: comes_before_def)
  then show ?thesis using arg_cong [OF order(3), of "map fst"] by (simp add: comp_def sample_candidate_def)
qed

text \<open>
  The same day always produces the same order: the ranking depends on which
  candidates there are (with distinct identifiers), not on the order they are listed in.
\<close>

theorem ranking_order_independent:
  assumes "mset cs = mset cs'" "distinct (map rc_caddie cs)"
  shows "rank_caddies cs opts = rank_caddies cs' opts"
proof -
  have inj: "inj_on rc_caddie (set cs)" using assms(2) by (simp add: distinct_map)
  let ?vets = "filter (\<lambda>c. rc_skill c = Veteran)" and ?key = "\<lambda>c. (base_score c, rc_caddie c)"
  have "max_by_key ?key (?vets cs) = max_by_key ?key (?vets cs')"
  proof (rule max_by_key_unique)
    show "inj_on ?key (set (?vets cs))" using inj by (auto simp: inj_on_def)
    show "mset (?vets cs) = mset (?vets cs')" using assms(1) by simp
  qed
  then have pair: "veteran_pair cs = veteran_pair cs'"
    by (simp only: veteran_pair_def)
  let ?f = "rank_one opts (veteran_pair cs)"
  have "sort_by (key_le rank_key) (map ?f cs) = sort_by (key_le rank_key) (map ?f cs')"
  proof (rule by_key.sort_by_order_irrelevant)
    show "mset (map ?f cs) = mset (map ?f cs')" using assms(1) by simp
    fix x y
    assume "x \<in> set (map ?f cs)" "y \<in> set (map ?f cs)"
      and "key_le rank_key x y" "key_le rank_key y x"
    then obtain c d where cd: "c \<in> set cs" "d \<in> set cs" "x = ?f c" "y = ?f d"
      and "rank_key x = rank_key y" by (auto simp: key_le_def)
    from rank_key_inj [OF this(5)] cd have "rc_caddie c = rc_caddie d" by simp
    with inj cd(1,2) have "c = d" by (simp add: inj_on_eq_iff)
    with cd show "x = y" by simp
  qed
  then show ?thesis by (simp add: rank_caddies_def pair)
qed

theorem ranking_order_independent_witness:
  "rank_caddies [sample_candidate ''a'' Working, sample_candidate ''b'' NotClocked]
      \<lparr>ro_player_count = None, ro_rookie_pairing = True, ro_limit = None\<rparr>
   = rank_caddies [sample_candidate ''b'' NotClocked, sample_candidate ''a'' Working]
      \<lparr>ro_player_count = None, ro_rookie_pairing = True, ro_limit = None\<rparr>"
  by (rule ranking_order_independent) (simp_all add: sample_candidate_def add_mset_commute)

text \<open>
  Being on duty decides between equals: of two candidates that differ only in
  identity and attendance, the one clocked in is ranked strictly first, by the on-duty
  bonus (for scores away from the 32-bit limits).
\<close>

theorem on_duty_outranks_equal:
  assumes "rc_attendance c = Working" "att \<noteq> Working"
    and "ro_rookie_pairing opts = False"
    and "- 1000000 \<le> base_score c" "base_score c \<le> 1000000"
  shows "key_le rank_key (rank_one opts pair c) (rank_one opts pair (c\<lparr>rc_attendance := att, rc_caddie := other\<rparr>))
    \<and> rk_score (rank_one opts pair c)
      = rk_score (rank_one opts pair (c\<lparr>rc_attendance := att, rc_caddie := other\<rparr>)) + ON_DUTY_BONUS"
proof -
  let ?c' = "c\<lparr>rc_attendance := att, rc_caddie := other\<rparr>"
  have same: "base_score ?c' = base_score c"
    by (simp add: base_score_def rating_component_def remaining_rounds_def)
  have foursome: "suits_foursome opts ?c' = suits_foursome opts c"
    by (simp add: suits_foursome_def)
  obtain why where comp: "attendance_component att = (0, why)" using assms(2) by (cases att) simp_all
  have pairs: "rookie_pair opts pair x = None" for x using assms(3) by (simp add: rookie_pair_def)
  have "rk_score (rank_one opts pair c)
      = rk_score (rank_one opts pair ?c') + ON_DUTY_BONUS"
    using assms(1,4,5) comp
    by (simp add: rank_one_def Let_def pairs same foursome ON_DUTY_BONUS_def
        FOURSOME_VETERAN_BONUS_def in_i32_def i32_min_def i32_max_def split: prod.splits)
  then show ?thesis
    by (simp add: key_le_def rank_key_def ON_DUTY_BONUS_def less_eq_prod_def)
qed

theorem on_duty_outranks_equal_witness:
  "base_score (sample_candidate ''a'' Working) = 81
   \<and> rk_score (rank_one \<lparr>ro_player_count = None, ro_rookie_pairing = False, ro_limit = None\<rparr> None
       (sample_candidate ''a'' Working))
     = rk_score (rank_one \<lparr>ro_player_count = None, ro_rookie_pairing = False, ro_limit = None\<rparr> None
       ((sample_candidate ''a'' Working)\<lparr>rc_attendance := NotClocked, rc_caddie := ''b''\<rparr>)) + 40"
proof -
  have b: "base_score (sample_candidate ''a'' Working) = 81" by code_simp
  show ?thesis
    using b on_duty_outranks_equal [of "sample_candidate ''a'' Working" NotClocked
        "\<lparr>ro_player_count = None, ro_rookie_pairing = False, ro_limit = None\<rparr>" None "''b''"]
    by (simp add: sample_candidate_def ON_DUTY_BONUS_def)
qed

end
