(* ===== verification/DayPlan.thy ===== *)
theory DayPlan
  imports Ranking CaddieShift
begin

text \<open>
  Which caddie takes which round (\<open>src/course/domain/caddie_plan.rs\<close> and the result types
  of \<open>caddie_ops.rs\<close>): \<open>plan_caddie_assignments\<close> walks the day in tee-time order and
  remembers what it already promised. The locale \<open>bookable\<close> is the contract between the
  planner and the people it books: a choice it makes accepts the round, and booking keeps
  who they are. Its lemma \<open>greedy_run_serves\<close> says that whoever the planner books could
  take every round it gave them, at the moment it gave it.
\<close>

section \<open>Placement and shift requests\<close>

definition DEFAULT_ROUND_MINUTES :: int where "DEFAULT_ROUND_MINUTES = 270"
definition MIDDAY_MINUTES :: int where "MIDDAY_MINUTES = 12 * 60"

datatype caddie_placement = Unconfirmed | OnCourse course_id | Unplaced

fun placement_status :: "caddie_placement \<Rightarrow> str" where
  "placement_status Unconfirmed = ''unconfirmed''"
| "placement_status Unplaced = ''unplaced''"
| "placement_status (OnCourse _) = ''on_course''"

fun placement_covers :: "caddie_placement \<Rightarrow> course_id option \<Rightarrow> bool" where
  "placement_covers (OnCourse placed) (Some course) = (placed = course)"
| "placement_covers (OnCourse placed) None = True"
| "placement_covers _ _ = True"

definition placement_for_shift :: "caddie_shift option \<Rightarrow> caddie_placement" where
  "placement_for_shift s =
     (case s of
        Some sh \<Rightarrow> (case sh_course sh of Some c \<Rightarrow> OnCourse c | None \<Rightarrow> Unplaced)
      | None \<Rightarrow> Unconfirmed)"

definition shift_covers_tee_time ::
  "availability_status option \<Rightarrow> instant option \<Rightarrow> clock \<Rightarrow> bool" where
  "shift_covers_tee_time status starts_at clk =
     (case status of None \<Rightarrow> True
      | Some st \<Rightarrow>
          if \<not> is_workable st then False
          else case starts_at of None \<Rightarrow> True
            | Some t \<Rightarrow>
                let local_minutes = clk_minute_of_day clk t in
                (case st of
                   MorningOnly \<Rightarrow> local_minutes < MIDDAY_MINUTES
                 | AfternoonOnly \<Rightarrow> MIDDAY_MINUTES \<le> local_minutes
                 | _ \<Rightarrow> True))"

section \<open>Rounds and caddies\<close>

record plannable_round =
  pr_reservation :: reservation_id
  pr_starts_at :: instant
  pr_duration :: "int option"
  pr_players :: int
  pr_course :: "course_id option"

definition round_ends_at :: "plannable_round \<Rightarrow> instant" where
  "round_ends_at r = pr_starts_at r +
     minutes (case positive (pr_duration r) of None \<Rightarrow> DEFAULT_ROUND_MINUTES | Some m \<Rightarrow> m)"

definition round_overlaps :: "plannable_round \<Rightarrow> instant \<Rightarrow> instant \<Rightarrow> bool" where
  "round_overlaps r start end = (pr_starts_at r < end \<and> start < round_ends_at r)"

lemma round_ends_after: "pr_starts_at r < round_ends_at r"
  by (auto simp: round_ends_at_def positive_def DEFAULT_ROUND_MINUTES_def split: option.splits)

record plannable_caddie =
  pc_caddie :: caddie_id
  pc_name :: str
  pc_skill :: skill_level
  pc_rating :: "f64 option"
  pc_rating_count :: int
  pc_max_rounds :: int
  pc_assigned_today :: int
  pc_attendance :: attendance_state
  pc_availability :: "availability_status option"
  pc_busy :: "(instant \<times> instant) list"
  pc_placement :: caddie_placement
  pc_wants_two :: bool

definition is_free_for :: "plannable_caddie \<Rightarrow> plannable_round \<Rightarrow> bool" where
  "is_free_for c r \<longleftrightarrow> \<not> (\<exists>b \<in> set (pc_busy c). round_overlaps r (fst b) (snd b))"

definition has_capacity :: "plannable_caddie \<Rightarrow> bool" where
  "has_capacity c \<longleftrightarrow> pc_assigned_today c < pc_max_rounds c"

definition shift_covers :: "plannable_caddie \<Rightarrow> plannable_round \<Rightarrow> clock \<Rightarrow> bool" where
  "shift_covers c r clk = shift_covers_tee_time (pc_availability c) (Some (pr_starts_at r)) clk"

definition stands_on :: "plannable_caddie \<Rightarrow> plannable_round \<Rightarrow> bool" where
  "stands_on c r = placement_covers (pc_placement c) (pr_course r)"

definition needs_this_round_for_two :: "plannable_caddie \<Rightarrow> bool \<Rightarrow> bool" where
  "needs_this_round_for_two c another_round_follows =
     (if \<not> pc_wants_two c then False
      else let remaining = pc_max_rounds c - pc_assigned_today c in
        if pc_assigned_today c = 0 then another_round_follows \<and> 2 \<le> remaining
        else 1 \<le> remaining)"

section \<open>The result\<close>

record plan_item =
  pi_reservation :: reservation_id
  pi_scheduled_at :: instant
  pi_caddie :: caddie_id
  pi_name :: str
  pi_rationale :: "str list"
  pi_placement :: caddie_placement

record unavailable_caddie =
  ua_caddie :: caddie_id
  ua_name :: str
  ua_reasons :: "str list"

record skipped_item =
  sk_reservation :: reservation_id
  sk_reason :: str
  sk_scheduled_at :: "instant option"
  sk_unavailable :: "unavailable_caddie list"

record deadline_warning =
  dw_deadline :: date
  dw_unsubmitted :: "str list"

record assign_result =
  ar_dry_run :: bool
  ar_assigned :: "plan_item list"
  ar_skipped :: "skipped_item list"
  ar_deadline_warning :: "deadline_warning option"

definition skipped_new :: "reservation_id \<Rightarrow> str \<Rightarrow> skipped_item" where
  "skipped_new rid why =
     \<lparr>sk_reservation = rid, sk_reason = why, sk_scheduled_at = None, sk_unavailable = []\<rparr>"

definition assign_result_new ::
  "bool \<Rightarrow> plan_item list \<Rightarrow> skipped_item list \<Rightarrow> assign_result" where
  "assign_result_new dry assigned skipped =
     \<lparr>ar_dry_run = dry, ar_assigned = assigned, ar_skipped = skipped, ar_deadline_warning = None\<rparr>"

section \<open>Planning one round\<close>

definition eligible_for :: "clock \<Rightarrow> plannable_caddie \<Rightarrow> plannable_round \<Rightarrow> bool" where
  "eligible_for clk c r \<longleftrightarrow>
     has_capacity c \<and> stands_on c r \<and> shift_covers c r clk \<and> is_free_for c r"

definition eligible_indices :: "clock \<Rightarrow> plannable_caddie list \<Rightarrow> plannable_round \<Rightarrow> nat list" where
  "eligible_indices clk pool r = filter (\<lambda>i. eligible_for clk (pool ! i) r) [0..<length pool]"

definition unavailable_reasons :: "clock \<Rightarrow> plannable_round \<Rightarrow> plannable_caddie \<Rightarrow> str list" where
  "unavailable_reasons clk r c =
     (if \<not> stands_on c r then [''other_course''] else [])
     @ (if \<not> shift_covers c r clk then [''outside_shift''] else [])
     @ (if \<not> has_capacity c then [''daily_limit''] else [])
     @ (if \<not> is_free_for c r then [''busy''] else [])"

definition skip_reason :: "clock \<Rightarrow> plannable_caddie list \<Rightarrow> plannable_round \<Rightarrow> str" where
  "skip_reason clk pool r =
     (if \<exists>c \<in> set pool. stands_on c r \<and> shift_covers c r clk \<and> is_free_for c r
      then ''all_caddies_at_daily_limit''
      else if \<not> (\<exists>c \<in> set pool. stands_on c r) then ''no_caddie_on_the_course''
      else ''no_caddie_available'')"

definition skip_round :: "clock \<Rightarrow> plannable_caddie list \<Rightarrow> plannable_round \<Rightarrow> skipped_item" where
  "skip_round clk pool r =
     (skipped_new (pr_reservation r) (skip_reason clk pool r))
       \<lparr>sk_scheduled_at := Some (pr_starts_at r),
        sk_unavailable := map (\<lambda>c. \<lparr>ua_caddie = pc_caddie c, ua_name = pc_name c,
          ua_reasons = unavailable_reasons clk r c\<rparr>) pool\<rparr>"

definition candidate_of :: "plannable_caddie \<Rightarrow> ranking_candidate" where
  "candidate_of c = \<lparr>rc_caddie = pc_caddie c, rc_name = pc_name c, rc_skill = pc_skill c,
     rc_rating = pc_rating c, rc_rating_count = pc_rating_count c,
     rc_assigned_today = pc_assigned_today c, rc_max_rounds = pc_max_rounds c,
     rc_attendance = pc_attendance c\<rparr>"

definition keen_indices ::
  "instant option \<Rightarrow> plannable_caddie list \<Rightarrow> plannable_round \<Rightarrow> nat list \<Rightarrow> nat list" where
  "keen_indices last_start pool r eligible =
     (let another = (case last_start of None \<Rightarrow> False | Some final \<Rightarrow> round_ends_at r \<le> final)
      in filter (\<lambda>i. needs_this_round_for_two (pool ! i) another) eligible)"

definition pick_best :: "plannable_caddie list \<Rightarrow> plannable_round \<Rightarrow> nat list \<Rightarrow> ranked_caddie option" where
  "pick_best pool r shortlist =
     (case rank_caddies (map (\<lambda>i. candidate_of (pool ! i)) shortlist)
        \<lparr>ro_player_count = Some (pr_players r), ro_rookie_pairing = False, ro_limit = Some 1\<rparr> of
        [] \<Rightarrow> None | pick # _ \<Rightarrow> Some pick)"

definition take_round :: "plannable_round \<Rightarrow> plannable_caddie \<Rightarrow> plannable_caddie" where
  "take_round r c = c\<lparr>pc_assigned_today := pc_assigned_today c + 1,
     pc_busy := pc_busy c @ [(pr_starts_at r, round_ends_at r)]\<rparr>"

type_synonym plan_state = "plannable_caddie list \<times> plan_item list \<times> skipped_item list"

definition plan_round ::
  "clock \<Rightarrow> instant option \<Rightarrow> plannable_round \<Rightarrow> plan_state \<Rightarrow> plan_state" where
  "plan_round clk last_start r st =
     (let (pool, assigned, skipped) = st;
          eligible = eligible_indices clk pool r in
      if eligible = [] then (pool, assigned, skipped @ [skip_round clk pool r])
      else
        let keen = keen_indices last_start pool r eligible;
            shortlist = (if keen = [] then eligible else keen) in
        case pick_best pool r shortlist of
          None \<Rightarrow> (pool, assigned,
            skipped @ [skipped_new (pr_reservation r) ''no_caddie_available''])
        | Some pick \<Rightarrow>
            (case position (\<lambda>c. pc_caddie c = rk_caddie pick) pool of
               None \<Rightarrow> (pool, assigned, skipped)
             | Some i \<Rightarrow>
                 (pool[i := take_round r (pool ! i)],
                  assigned @ [\<lparr>pi_reservation = pr_reservation r, pi_scheduled_at = pr_starts_at r,
                    pi_caddie = rk_caddie pick, pi_name = rk_name pick,
                    pi_rationale = rk_reasons pick
                      @ (if keen = [] then [] else [''two_round_request'']),
                    pi_placement = pc_placement (pool ! i)\<rparr>],
                  skipped)))"

definition tee_order :: "plannable_round \<Rightarrow> instant \<times> str" where
  "tee_order r = (pr_starts_at r, pr_reservation r)"

definition plan_caddie_assignments ::
  "clock \<Rightarrow> bool \<Rightarrow> plannable_round list \<Rightarrow> plannable_caddie list \<Rightarrow> assign_result" where
  "plan_caddie_assignments clk dry_run rounds caddies =
     (let ordered = sort_by (key_le tee_order) rounds;
          last_start = (if ordered = [] then None else Some (pr_starts_at (last ordered)));
          (_, assigned, skipped) = fold (plan_round clk last_start) ordered (caddies, [], [])
      in assign_result_new dry_run assigned skipped)"

section \<open>Booking people greedily\<close>

text \<open>\<open>serves\<close>: a person accepts each of the rounds given to them, one after the other.\<close>

fun serves :: "('c \<Rightarrow> 'r \<Rightarrow> bool) \<Rightarrow> ('r \<Rightarrow> 'c \<Rightarrow> 'c) \<Rightarrow> 'c \<Rightarrow> 'r list \<Rightarrow> bool" where
  "serves acc bk c [] = True"
| "serves acc bk c (r # rs) = (acc c r \<and> serves acc bk (bk r c) rs)"

fun greedy_run ::
  "('c list \<Rightarrow> 'r \<Rightarrow> nat option) \<Rightarrow> ('r \<Rightarrow> 'c \<Rightarrow> 'c) \<Rightarrow> 'c list \<Rightarrow> 'r list \<Rightarrow> ('r \<times> nat option) list"
where
  "greedy_run ch bk pool [] = []"
| "greedy_run ch bk pool (r # rs) =
     (case ch pool r of
        None \<Rightarrow> (r, None) # greedy_run ch bk pool rs
      | Some i \<Rightarrow> (r, Some i) # greedy_run ch bk (pool[i := bk r (pool ! i)]) rs)"

definition given_to :: "nat \<Rightarrow> ('r \<times> nat option) list \<Rightarrow> 'r list" where
  "given_to i run = map fst (filter (\<lambda>p. snd p = Some i) run)"

lemma map_fst_greedy_run [simp]: "map fst (greedy_run ch bk pool rs) = rs"
  by (induction rs arbitrary: pool) (auto split: option.splits)

locale bookable =
  fixes accepts :: "'c \<Rightarrow> 'r \<Rightarrow> bool"
    and book :: "'r \<Rightarrow> 'c \<Rightarrow> 'c"
    and ident :: "'c \<Rightarrow> str"
    and pick :: "'c list \<Rightarrow> 'r \<Rightarrow> nat option"
  assumes pick_accepts: "distinct (map ident pool) \<Longrightarrow> pick pool r = Some i \<Longrightarrow>
      i < length pool \<and> accepts (pool ! i) r"
    and pick_none: "pick pool r = None \<longleftrightarrow> (\<forall>c \<in> set pool. \<not> accepts c r)"
    and book_ident: "ident (book r c) = ident c"
begin

lemma idents_after_booking:
  "map ident (pool[i := book r (pool ! i)]) = map ident pool"
proof (cases "i < length pool")
  case True
  then show ?thesis by (simp add: map_update book_ident) (metis list_update_id nth_map)
qed (simp add: list_update_beyond)

lemma greedy_run_serves:
  assumes "distinct (map ident pool)" "i < length pool"
  shows "serves accepts book (pool ! i) (given_to i (greedy_run pick book pool rs))"
  using assms
proof (induction rs arbitrary: pool)
  case (Cons r rs)
  show ?case
  proof (cases "pick pool r")
    case None
    with Cons show ?thesis by (simp add: given_to_def)
  next
    case (Some j)
    let ?pool = "pool[j := book r (pool ! j)]"
    from Cons.prems have "serves accepts book (?pool ! i) (given_to i (greedy_run pick book ?pool rs))"
      by (intro Cons.IH) (simp_all add: idents_after_booking)
    with Some pick_accepts [OF Cons.prems(1) Some] show ?thesis
      by (cases "j = i") (simp_all add: given_to_def)
  qed
qed (simp add: given_to_def)

lemma greedy_run_index:
  assumes "distinct (map ident pool)" "(r, Some i) \<in> set (greedy_run pick book pool rs)"
  shows "i < length pool"
  using assms
proof (induction rs arbitrary: pool)
  case (Cons x rs)
  show ?case
  proof (cases "pick pool x")
    case None
    with Cons show ?thesis by auto
  next
    case (Some j)
    let ?pool = "pool[j := book x (pool ! j)]"
    from Cons.prems Some consider "r = x" "i = j"
      | "(r, Some i) \<in> set (greedy_run pick book ?pool rs)" by auto
    then show ?thesis
    proof cases
      case 1
      with pick_accepts [OF Cons.prems(1) Some] show ?thesis by simp
    next
      case 2
      then have "i < length ?pool" by (intro Cons.IH) (simp_all add: idents_after_booking Cons.prems)
      then show ?thesis by simp
    qed
  qed
qed simp

end

end
