(* ===== verification/DayPlanCorrect.thy ===== *)
theory DayPlanCorrect
  imports DayPlan
begin

text \<open>
  Correctness of the day's plan: the planner's choice is an instance of \<open>bookable\<close>, every
  round is settled exactly once, nobody is booked twice at the same time, past their
  daily limit, off their shift or on another course, and a skipped round says why for
  every caddie.
\<close>

section \<open>The choice\<close>

definition choose_index ::
  "clock \<Rightarrow> instant option \<Rightarrow> plannable_caddie list \<Rightarrow> plannable_round \<Rightarrow> nat option" where
  "choose_index clk last_start pool r =
     (let eligible = eligible_indices clk pool r;
          keen = keen_indices last_start pool r eligible in
      if eligible = [] then None
      else case pick_best pool r (if keen = [] then eligible else keen) of
          None \<Rightarrow> None
        | Some pick \<Rightarrow> position (\<lambda>c. pc_caddie c = rk_caddie pick) pool)"

definition shortlist_of ::
  "clock \<Rightarrow> instant option \<Rightarrow> plannable_caddie list \<Rightarrow> plannable_round \<Rightarrow> nat list" where
  "shortlist_of clk last_start pool r =
     (let eligible = eligible_indices clk pool r;
          keen = keen_indices last_start pool r eligible
      in if keen = [] then eligible else keen)"

lemma shortlist_eligible:
  "i \<in> set (shortlist_of clk last_start pool r) \<Longrightarrow>
     i < length pool \<and> eligible_for clk (pool ! i) r"
  by (auto simp: shortlist_of_def Let_def eligible_indices_def keen_indices_def split: if_splits)

lemma shortlist_empty:
  "shortlist_of clk last_start pool r = [] \<longleftrightarrow> eligible_indices clk pool r = []"
  by (auto simp: shortlist_of_def Let_def keen_indices_def)

lemma pick_best_some:
  assumes "is \<noteq> []"
  obtains pick i where "pick_best pool r is = Some pick" "i \<in> set is"
    "rk_caddie pick = pc_caddie (pool ! i)"
proof -
  let ?o = "\<lparr>ro_player_count = Some (pr_players r), ro_rookie_pairing = False, ro_limit = Some 1\<rparr>"
  let ?cs = "map (\<lambda>i. candidate_of (pool ! i)) is"
  have "rank_caddies ?cs ?o \<noteq> []"
    using assms by (intro rank_caddies_nonempty) (simp_all add: result_limit_def MAX_RESULTS_def)
  then obtain pick rest where ranked: "rank_caddies ?cs ?o = pick # rest"
    by (cases "rank_caddies ?cs ?o") auto
  then have "pick \<in> set (rank_caddies ?cs ?o)" by simp
  from rank_caddies_from [OF this] obtain i where "i \<in> set is"
    "pick = rank_one ?o (veteran_pair ?cs) (candidate_of (pool ! i))" by auto
  then show ?thesis using that [of pick i] ranked
    by (simp add: pick_best_def candidate_of_def)
qed

lemma choose_index_None:
  "choose_index clk last_start pool r = None \<longleftrightarrow> eligible_indices clk pool r = []"
proof (cases "eligible_indices clk pool r = []")
  case False
  then have "shortlist_of clk last_start pool r \<noteq> []" by (simp add: shortlist_empty)
  then obtain pick i where p: "pick_best pool r (shortlist_of clk last_start pool r) = Some pick"
    "i \<in> set (shortlist_of clk last_start pool r)" "rk_caddie pick = pc_caddie (pool ! i)"
    by (rule pick_best_some)
  from shortlist_eligible [OF p(2)] p(3)
  have "\<exists>c \<in> set pool. pc_caddie c = rk_caddie pick" by auto
  then have "position (\<lambda>c. pc_caddie c = rk_caddie pick) pool \<noteq> None" by simp
  with p(1) False show ?thesis by (simp add: choose_index_def shortlist_of_def Let_def)
qed (simp add: choose_index_def)

lemma choose_index_eligible:
  assumes "distinct (map pc_caddie pool)" "choose_index clk last_start pool r = Some i"
  shows "i < length pool \<and> eligible_for clk (pool ! i) r"
proof -
  have "shortlist_of clk last_start pool r \<noteq> []"
    using assms(2) by (auto simp: shortlist_empty choose_index_def)
  then obtain pick k where p: "pick_best pool r (shortlist_of clk last_start pool r) = Some pick"
    "k \<in> set (shortlist_of clk last_start pool r)" "rk_caddie pick = pc_caddie (pool ! k)"
    by (rule pick_best_some)
  with assms(2) have "position (\<lambda>c. pc_caddie c = rk_caddie pick) pool = Some i"
    by (auto simp: choose_index_def shortlist_of_def Let_def split: if_splits)
  then have i: "i < length pool" "pc_caddie (pool ! i) = pc_caddie (pool ! k)"
    using p(3) by (auto dest: position_Some)
  with shortlist_eligible [OF p(2)] assms(1) have "i = k"
    by (metis length_map nth_eq_iff_index_eq nth_map)
  with shortlist_eligible [OF p(2)] show ?thesis by simp
qed

interpretation planner: bookable "eligible_for clk" take_round pc_caddie "choose_index clk last_start"
  for clk last_start
proof
  show "pc_caddie (take_round r c) = pc_caddie c" for r c by (simp add: take_round_def)
  show "choose_index clk last_start pool r = None \<longleftrightarrow> (\<forall>c \<in> set pool. \<not> eligible_for clk c r)" for pool r
    by (auto simp: choose_index_None eligible_indices_def filter_empty_conv all_set_conv_all_nth)
  show "distinct (map pc_caddie pool) \<Longrightarrow> choose_index clk last_start pool r = Some i \<Longrightarrow>
      i < length pool \<and> eligible_for clk (pool ! i) r" for pool r i
    by (rule choose_index_eligible)
qed

section \<open>The loop is the greedy run\<close>

definition item_key :: "plan_item \<Rightarrow> reservation_id \<times> caddie_id" where
  "item_key it = (pi_reservation it, pi_caddie it)"

lemma plan_round_effect:
  assumes "plan_round clk last_start r (pool, assigned, skipped) = (pool', assigned', skipped')"
  shows "case choose_index clk last_start pool r of
      None \<Rightarrow> pool' = pool \<and> assigned' = assigned \<and> skipped' = skipped @ [skip_round clk pool r]
    | Some i \<Rightarrow> pool' = pool[i := take_round r (pool ! i)] \<and> skipped' = skipped
        \<and> map item_key assigned' = map item_key assigned @ [(pr_reservation r, pc_caddie (pool ! i))]"
proof (cases "choose_index clk last_start pool r")
  case None
  then have "eligible_indices clk pool r = []" by (simp add: choose_index_None)
  with assms None show ?thesis by (auto simp: plan_round_def)
next
  case (Some i)
  then have ne: "eligible_indices clk pool r \<noteq> []" by (auto simp: choose_index_def)
  from Some ne obtain pick where "pick_best pool r (shortlist_of clk last_start pool r) = Some pick"
    "position (\<lambda>c. pc_caddie c = rk_caddie pick) pool = Some i"
    by (auto simp: choose_index_def shortlist_of_def Let_def split: option.splits if_splits)
  with assms Some ne show ?thesis
    by (auto simp: plan_round_def shortlist_of_def Let_def item_key_def dest: position_Some)
qed

lemma plan_loop_effect:
  assumes "fold (plan_round clk last_start) rs (pool, assigned, skipped) = (pool', assigned', skipped')"
    and "distinct (map pc_caddie pool)"
  shows "map item_key assigned' = map item_key assigned
      @ concat (map (\<lambda>(r, ch). case ch of None \<Rightarrow> [] | Some i \<Rightarrow> [(pr_reservation r, map pc_caddie pool ! i)])
          (greedy_run (choose_index clk last_start) take_round pool rs))
    \<and> map sk_reservation skipped' = map sk_reservation skipped
      @ concat (map (\<lambda>(r, ch). if ch = None then [pr_reservation r] else [])
          (greedy_run (choose_index clk last_start) take_round pool rs))"
  using assms
proof (induction rs arbitrary: pool assigned skipped)
  case (Cons r rs)
  obtain p1 a1 s1 where step: "plan_round clk last_start r (pool, assigned, skipped) = (p1, a1, s1)"
    by (metis prod_cases3)
  with Cons.prems(1) have rest: "fold (plan_round clk last_start) rs (p1, a1, s1) = (pool', assigned', skipped')"
    by simp
  note eff = plan_round_effect [OF step]
  show ?case
  proof (cases "choose_index clk last_start pool r")
    case None
    with eff Cons.IH [OF rest] Cons.prems(2) show ?thesis
      by (simp add: skip_round_def skipped_new_def)
  next
    case (Some i)
    have ids: "map pc_caddie p1 = map pc_caddie pool"
      using eff Some planner.idents_after_booking by simp
    have i: "i < length pool" using planner.pick_accepts [OF Cons.prems(2) Some] by simp
    from Cons.IH [OF rest] Cons.prems(2) ids eff Some i show ?thesis by simp
  qed
qed simp

text \<open>The settled rounds, each with the index of the caddie it was given to.\<close>

definition day_run ::
  "clock \<Rightarrow> plannable_round list \<Rightarrow> plannable_caddie list \<Rightarrow> (plannable_round \<times> nat option) list" where
  "day_run clk rounds caddies =
     (let ordered = sort_by (key_le tee_order) rounds;
          last_start = (if ordered = [] then None else Some (pr_starts_at (last ordered)))
      in greedy_run (choose_index clk last_start) take_round caddies ordered)"

lemma map_fst_day_run: "map fst (day_run clk rounds caddies) = sort_by (key_le tee_order) rounds"
  by (simp add: day_run_def Let_def)

lemma plan_result:
  assumes "distinct (map pc_caddie caddies)"
  shows "map item_key (ar_assigned (plan_caddie_assignments clk dry rounds caddies))
      = concat (map (\<lambda>(r, ch). case ch of None \<Rightarrow> [] | Some i \<Rightarrow> [(pr_reservation r, map pc_caddie caddies ! i)])
          (day_run clk rounds caddies))
    \<and> map sk_reservation (ar_skipped (plan_caddie_assignments clk dry rounds caddies))
      = concat (map (\<lambda>(r, ch). if ch = None then [pr_reservation r] else []) (day_run clk rounds caddies))"
proof -
  let ?ordered = "sort_by (key_le tee_order) rounds"
  let ?last = "if ?ordered = [] then None else Some (pr_starts_at (last ?ordered))"
  obtain pool a s where "fold (plan_round clk ?last) ?ordered (caddies, [], []) = (pool, a, s)"
    by (metis prod_cases3)
  from plan_loop_effect [OF this assms] this show ?thesis
    by (simp add: plan_caddie_assignments_def assign_result_new_def day_run_def Let_def)
qed

section \<open>What serving a list of rounds means\<close>

lemma take_round_keeps [simp]:
  "stands_on (take_round r c) x = stands_on c x"
  "shift_covers (take_round r c) x clk = shift_covers c x clk"
  "pc_assigned_today (take_round r c) = pc_assigned_today c + 1"
  "pc_max_rounds (take_round r c) = pc_max_rounds c"
  by (simp_all add: take_round_def stands_on_def shift_covers_def)

lemma is_free_for_take_round:
  "is_free_for (take_round r c) x \<longleftrightarrow>
     is_free_for c x \<and> \<not> round_overlaps x (pr_starts_at r) (round_ends_at r)"
  by (auto simp: is_free_for_def take_round_def)

lemma serves_facts:
  assumes "serves (eligible_for clk) take_round c rs"
  shows "(rs \<noteq> [] \<longrightarrow> pc_assigned_today c + int (length rs) \<le> pc_max_rounds c)
    \<and> (\<forall>r \<in> set rs. stands_on c r \<and> shift_covers c r clk \<and> is_free_for c r)
    \<and> sorted_wrt (\<lambda>r1 r2. \<not> round_overlaps r2 (pr_starts_at r1) (round_ends_at r1)) rs"
  using assms
proof (induction rs arbitrary: c)
  case (Cons r rs)
  then have e: "eligible_for clk c r" and "serves (eligible_for clk) take_round (take_round r c) rs"
    by simp_all
  from Cons.IH [OF this(2)] e show ?case
    by (auto simp: eligible_for_def has_capacity_def is_free_for_take_round)
qed simp

section \<open>A sample day\<close>

definition sample_clock :: clock where
  "sample_clock = \<lparr>clk_minute_of_day = (\<lambda>t. (t div minutes 1) mod 1440),
     clk_local_date = (\<lambda>t. t div minutes 1440), clk_midnight = (\<lambda>d. Some (d * minutes 1440))\<rparr>"

definition sample_round :: "str \<Rightarrow> int \<Rightarrow> plannable_round" where
  "sample_round rid m = \<lparr>pr_reservation = rid, pr_starts_at = minutes m, pr_duration = None,
     pr_players = 4, pr_course = None\<rparr>"

definition sample_walker :: "str \<Rightarrow> int \<Rightarrow> plannable_caddie" where
  "sample_walker cid limit = \<lparr>pc_caddie = cid, pc_name = cid, pc_skill = Regular, pc_rating = None,
     pc_rating_count = 0, pc_max_rounds = limit, pc_assigned_today = 0, pc_attendance = Working,
     pc_availability = Some Available, pc_busy = [], pc_placement = Unconfirmed, pc_wants_two = False\<rparr>"

definition sample_rounds :: "plannable_round list" where
  "sample_rounds = [sample_round ''r2'' 800, sample_round ''r1'' 480, sample_round ''r3'' 490]"

definition sample_walkers :: "plannable_caddie list" where
  "sample_walkers = [sample_walker ''a'' 2]"

lemma sample_day_distinct:
  "distinct (map pc_caddie sample_walkers)" "distinct (map pr_reservation sample_rounds)"
  "sample_walker ''a'' 2 \<in> set sample_walkers"
  by (simp_all add: sample_walkers_def sample_walker_def sample_rounds_def sample_round_def)

section \<open>The day as a whole\<close>

lemma mset_settled:
  "mset (concat (map (\<lambda>(r, ch). case ch of None \<Rightarrow> [] | Some i \<Rightarrow> [f r]) run))
   + mset (concat (map (\<lambda>(r, ch). if ch = None then [f r] else []) run))
   = mset (map (\<lambda>p. f (fst p)) run)"
  by (induction run) (auto split: option.splits)

lemma map_fst_item_key: "map pi_reservation xs = map fst (map item_key xs)"
  by (simp add: item_key_def)

lemma settled_mset:
  assumes "distinct (map pc_caddie caddies)"
  shows "mset (map pi_reservation (ar_assigned (plan_caddie_assignments clk dry rounds caddies)))
       + mset (map sk_reservation (ar_skipped (plan_caddie_assignments clk dry rounds caddies)))
       = mset (map pr_reservation rounds)"
proof -
  let ?run = "day_run clk rounds caddies"
  have "map fst (concat (map (\<lambda>(r, ch). case ch of None \<Rightarrow> []
        | Some i \<Rightarrow> [(pr_reservation r, map pc_caddie caddies ! i)]) ?run))
      = concat (map (\<lambda>(r, ch). case ch of None \<Rightarrow> [] | Some i \<Rightarrow> [pr_reservation r]) ?run)"
    by (induction ?run) (auto simp: map_concat split: option.splits intro!: arg_cong [where f = concat])
  moreover have "mset (map (\<lambda>p. pr_reservation (fst p)) ?run) = mset (map pr_reservation rounds)"
    using arg_cong [OF map_fst_day_run [of clk rounds caddies], of "\<lambda>rs. mset (map pr_reservation rs)"]
    by (simp add: comp_def)
  ultimately show ?thesis
    using plan_result [OF assms, of clk dry rounds] mset_settled [of pr_reservation ?run]
    by (simp add: map_fst_item_key)
qed

text \<open>
  C2. Every reservation of the day is settled exactly once: it is either on the plan or in
  the skipped list, with the multiplicity it has in the input, and none is invented or lost.
\<close>

theorem every_round_settled_once:
  assumes "distinct (map pc_caddie caddies)"
  shows "mset (map pi_reservation (ar_assigned (plan_caddie_assignments clk dry rounds caddies)))
       + mset (map sk_reservation (ar_skipped (plan_caddie_assignments clk dry rounds caddies)))
       = mset (map pr_reservation rounds)"
  by (rule settled_mset [OF assms])

theorem every_round_settled_once_witness:
  "ar_assigned (plan_caddie_assignments sample_clock True sample_rounds sample_walkers) \<noteq> []
   \<and> mset (map pi_reservation (ar_assigned (plan_caddie_assignments sample_clock True sample_rounds sample_walkers)))
     + mset (map sk_reservation (ar_skipped (plan_caddie_assignments sample_clock True sample_rounds sample_walkers)))
     = {#''r1'', ''r2'', ''r3''#}"
  unfolding every_round_settled_once [OF sample_day_distinct(1)]
  by (rule conjI, code_simp) (simp add: sample_rounds_def sample_round_def)

definition rounds_given ::
  "assign_result \<Rightarrow> plannable_round list \<Rightarrow> plannable_caddie \<Rightarrow> plannable_round list" where
  "rounds_given res rounds c =
     filter (\<lambda>r. \<exists>it \<in> set (ar_assigned res).
         pi_reservation it = pr_reservation r \<and> pi_caddie it = pc_caddie c)
       (sort_by (key_le tee_order) rounds)"

lemma given_filter:
  assumes "distinct (map pr_reservation (map fst run))" "distinct ids" "i < length ids"
    and "\<And>r j. (r, Some j) \<in> set run \<Longrightarrow> j < length ids"
  shows "filter (\<lambda>r. (pr_reservation r, ids ! i) \<in> set (concat (map (\<lambda>(r, ch).
        case ch of None \<Rightarrow> [] | Some j \<Rightarrow> [(pr_reservation r, ids ! j)]) run))) (map fst run)
    = given_to i run"
proof -
  have "(pr_reservation (fst p), ids ! i) \<in> set (concat (map (\<lambda>(r, ch).
        case ch of None \<Rightarrow> [] | Some j \<Rightarrow> [(pr_reservation r, ids ! j)]) run)) \<longleftrightarrow> snd p = Some i"
    (is "?in \<longleftrightarrow> _") if p: "p \<in> set run" for p
  proof
    assume ?in
    then obtain r' j where q: "(r', Some j) \<in> set run" "pr_reservation r' = pr_reservation (fst p)"
      "ids ! j = ids ! i" by (auto split: option.splits)
    from q(2) p q(1) assms(1) have "(r', Some j) = p"
      by (metis (no_types, lifting) distinct_map fst_conv inj_on_def list.map_comp o_apply)
    moreover have "j = i" using assms q by (metis nth_eq_iff_index_eq)
    ultimately show "snd p = Some i" by auto
  next
    assume "snd p = Some i"
    with p have "(fst p, Some i) \<in> set run" by (metis prod.collapse)
    then show ?in by (force intro!: bexI [of _ "(fst p, Some i)"])
  qed
  then show ?thesis
    by (simp add: given_to_def filter_map comp_def cong: filter_cong)
qed

lemma rounds_given_run:
  assumes "distinct (map pc_caddie caddies)" "distinct (map pr_reservation rounds)"
    and "i < length caddies"
  shows "rounds_given (plan_caddie_assignments clk dry rounds caddies) rounds (caddies ! i)
    = given_to i (day_run clk rounds caddies)"
proof -
  let ?res = "plan_caddie_assignments clk dry rounds caddies"
  let ?run = "day_run clk rounds caddies"
  have "distinct (map pr_reservation (map fst ?run))"
    using assms(2) by (simp add: map_fst_day_run) (metis mset_eq_imp_distinct_iff mset_map mset_sort_by)
  moreover have "j < length (map pc_caddie caddies)" if "(r, Some j) \<in> set ?run" for r j
    using that planner.greedy_run_index [OF assms(1)] by (auto simp: day_run_def Let_def split: if_splits)
  moreover have "rounds_given ?res rounds (caddies ! i)
      = filter (\<lambda>r. (pr_reservation r, map pc_caddie caddies ! i) \<in> set (map item_key (ar_assigned ?res)))
        (map fst ?run)"
    using assms(3) by (force simp: rounds_given_def map_fst_day_run item_key_def intro!: filter_cong)
  ultimately show ?thesis
    using plan_result [OF assms(1), of clk dry rounds] assms given_filter [of ?run "map pc_caddie caddies" i]
    by simp
qed

lemma rounds_given_facts:
  assumes "distinct (map pc_caddie caddies)" "distinct (map pr_reservation rounds)" "c \<in> set caddies"
    and given_def: "given = rounds_given (plan_caddie_assignments clk dry rounds caddies) rounds c"
  shows "given \<noteq> [] \<Longrightarrow> pc_assigned_today c + int (length given) \<le> pc_max_rounds c"
    and "r \<in> set given \<Longrightarrow> stands_on c r \<and> shift_covers c r clk \<and> is_free_for c r"
    and "sorted_wrt (\<lambda>r1 r2. \<not> round_overlaps r2 (pr_starts_at r1) (round_ends_at r1)) given"
proof -
  from assms(3) obtain i where i: "i < length caddies" "c = caddies ! i" by (metis in_set_conv_nth)
  have "serves (eligible_for clk) take_round c (given_to i (day_run clk rounds caddies))"
    using planner.greedy_run_serves [OF assms(1) i(1)] by (simp add: day_run_def Let_def i)
  moreover have "given = given_to i (day_run clk rounds caddies)"
    using rounds_given_run [OF assms(1,2) i(1)] i(2) by (simp add: given_def)
  ultimately have facts: "(given \<noteq> [] \<longrightarrow> pc_assigned_today c + int (length given) \<le> pc_max_rounds c)
    \<and> (\<forall>r \<in> set given. stands_on c r \<and> shift_covers c r clk \<and> is_free_for c r)
    \<and> sorted_wrt (\<lambda>r1 r2. \<not> round_overlaps r2 (pr_starts_at r1) (round_ends_at r1)) given"
    by (simp add: serves_facts)
  from facts show "given \<noteq> [] \<Longrightarrow> pc_assigned_today c + int (length given) \<le> pc_max_rounds c" by blast
  from facts show "r \<in> set given \<Longrightarrow> stands_on c r \<and> shift_covers c r clk \<and> is_free_for c r" by blast
  from facts show "sorted_wrt (\<lambda>r1 r2. \<not> round_overlaps r2 (pr_starts_at r1) (round_ends_at r1)) given" by blast
qed

text \<open>Every line of the plan is a round of the input, given to a caddie of the input.\<close>

definition planned_for :: "plannable_round list \<Rightarrow> plannable_caddie list \<Rightarrow> plan_item \<Rightarrow> bool" where
  "planned_for rounds caddies it \<longleftrightarrow>
     (\<exists>r \<in> set rounds. pi_reservation it = pr_reservation r \<and> pi_scheduled_at it = pr_starts_at r)
     \<and> pi_caddie it \<in> pc_caddie ` set caddies"

lemma plan_round_planned_for:
  assumes "plan_round clk last_start r (pool, assigned, skipped) = (pool', assigned', skipped')"
    and "r \<in> set rounds" "map pc_caddie pool = map pc_caddie caddies" "\<forall>it \<in> set assigned. planned_for rounds caddies it"
  shows "map pc_caddie pool' = map pc_caddie caddies \<and> (\<forall>it \<in> set assigned'. planned_for rounds caddies it)"
proof -
  have ids: "pc_caddie ` set caddies = pc_caddie ` set pool"
    using arg_cong [OF assms(3), of set] by simp
  have kept: "map pc_caddie (pool[i := take_round r (pool ! i)]) = map pc_caddie pool" for i
    by (rule planner.idents_after_booking)
  have who: "rk_caddie p \<in> pc_caddie ` set caddies" if "position (\<lambda>c. pc_caddie c = rk_caddie p) pool = Some i" for p i
    unfolding ids using position_Some [OF that] by (metis image_eqI nth_mem)
  have new: "planned_for rounds caddies \<lparr>pi_reservation = pr_reservation r, pi_scheduled_at = pr_starts_at r,
      pi_caddie = rk_caddie p, pi_name = n, pi_rationale = w, pi_placement = q\<rparr>"
    if "position (\<lambda>c. pc_caddie c = rk_caddie p) pool = Some i" for p i n w q
    using who [OF that] assms(2) unfolding planned_for_def by auto
  show ?thesis
    using assms new
    by (auto simp: plan_round_def Let_def kept split: if_splits option.splits)
qed

lemma plan_loop_planned_for:
  assumes "fold (plan_round clk last_start) rs (pool, assigned, skipped) = (pool', assigned', skipped')"
    and "set rs \<subseteq> set rounds" "map pc_caddie pool = map pc_caddie caddies" "\<forall>it \<in> set assigned. planned_for rounds caddies it"
  shows "\<forall>it \<in> set assigned'. planned_for rounds caddies it"
  using assms
proof (induction rs arbitrary: pool assigned skipped)
  case (Cons r rs)
  obtain p1 a1 s1 where step: "plan_round clk last_start r (pool, assigned, skipped) = (p1, a1, s1)"
    by (metis prod_cases3)
  then have rest: "fold (plan_round clk last_start) rs (p1, a1, s1) = (pool', assigned', skipped')"
    using Cons.prems(1) by simp
  show ?case
    using Cons.IH [OF rest] plan_round_planned_for [OF step _ Cons.prems(3,4)] Cons.prems(2) by simp
qed simp

lemma plan_planned_for:
  assumes "it \<in> set (ar_assigned (plan_caddie_assignments clk dry rounds caddies))"
  shows "planned_for rounds caddies it"
proof -
  let ?ordered = "sort_by (key_le tee_order) rounds"
  let ?last = "if ?ordered = [] then None else Some (pr_starts_at (last ?ordered))"
  obtain pool a s where run: "fold (plan_round clk ?last) ?ordered (caddies, [], []) = (pool, a, s)"
    by (metis prod_cases3)
  then have "\<forall>it \<in> set a. planned_for rounds caddies it"
    by (rule plan_loop_planned_for) simp_all
  then show ?thesis
    using assms run by (simp add: plan_caddie_assignments_def assign_result_new_def Let_def)
qed

text \<open>
  C1. Nobody on the plan is double-booked: the rounds a caddie is given do not overlap each
  other nor a round the caddie already had, all fit the daily limit on top of what is
  already assigned, and each is inside the shift and on the course the caddie stands on.
\<close>

theorem plan_never_overbooks:
  assumes "distinct (map pc_caddie caddies)" "distinct (map pr_reservation rounds)"
    and "c \<in> set caddies"
  shows "let given = rounds_given (plan_caddie_assignments clk dry rounds caddies) rounds c in
      (given \<noteq> [] \<longrightarrow> pc_assigned_today c + int (length given) \<le> pc_max_rounds c)
    \<and> (\<forall>r \<in> set given. stands_on c r \<and> shift_covers c r clk \<and> is_free_for c r)
    \<and> sorted_wrt (\<lambda>r1 r2. \<not> round_overlaps r2 (pr_starts_at r1) (round_ends_at r1)) given"
  using rounds_given_facts [OF assms refl] by (simp add: Let_def)

theorem plan_never_overbooks_witness:
  "let given = rounds_given (plan_caddie_assignments sample_clock True sample_rounds sample_walkers)
       sample_rounds (sample_walker ''a'' 2) in
     map pr_reservation given = [''r1'', ''r2'']
   \<and> 0 + int (length given) \<le> pc_max_rounds (sample_walker ''a'' 2)
   \<and> sorted_wrt (\<lambda>r1 r2. \<not> round_overlaps r2 (pr_starts_at r1) (round_ends_at r1)) given"
proof -
  let ?given = "rounds_given (plan_caddie_assignments sample_clock True sample_rounds sample_walkers)
       sample_rounds (sample_walker ''a'' 2)"
  have "map pr_reservation ?given = [''r1'', ''r2'']" by code_simp
  with plan_never_overbooks [OF sample_day_distinct, where clk = sample_clock and dry = True]
  show ?thesis by (auto simp: Let_def sample_walker_def)
qed

section \<open>The skipped rounds\<close>

definition skip_explained :: "plannable_caddie list \<Rightarrow> skipped_item \<Rightarrow> bool" where
  "skip_explained caddies s \<longleftrightarrow>
     map ua_caddie (sk_unavailable s) = map pc_caddie caddies
   \<and> (\<forall>u \<in> set (sk_unavailable s). ua_reasons u \<noteq> [])
   \<and> (sk_reason s = ''all_caddies_at_daily_limit''
        \<longleftrightarrow> (\<exists>u \<in> set (sk_unavailable s). ua_reasons u = [''daily_limit'']))
   \<and> (sk_reason s = ''no_caddie_on_the_course''
        \<longleftrightarrow> (\<forall>u \<in> set (sk_unavailable s). ''other_course'' \<in> set (ua_reasons u)))"

lemma reasons_empty: "unavailable_reasons clk r c = [] \<longleftrightarrow> eligible_for clk c r"
  by (simp add: unavailable_reasons_def eligible_for_def)

lemma reasons_other_course: "''other_course'' \<in> set (unavailable_reasons clk r c) \<longleftrightarrow> \<not> stands_on c r"
  by (simp add: unavailable_reasons_def)

lemma reasons_only_limit:
  "unavailable_reasons clk r c = [''daily_limit''] \<longleftrightarrow>
     \<not> has_capacity c \<and> stands_on c r \<and> shift_covers c r clk \<and> is_free_for c r"
  by (auto simp: unavailable_reasons_def)

lemma skip_round_explained:
  assumes none: "\<forall>c \<in> set pool. \<not> eligible_for clk c r"
    and ids: "map pc_caddie pool = map pc_caddie caddies"
  shows "skip_explained caddies (skip_round clk pool r)"
proof -
  let ?s = "skip_round clk pool r"
  have un: "sk_unavailable ?s = map (\<lambda>c. \<lparr>ua_caddie = pc_caddie c, ua_name = pc_name c,
      ua_reasons = unavailable_reasons clk r c\<rparr>) pool"
    and why: "sk_reason ?s = skip_reason clk pool r" by (simp_all add: skip_round_def skipped_new_def)
  have limit: "(\<exists>c \<in> set pool. stands_on c r \<and> shift_covers c r clk \<and> is_free_for c r)
      \<longleftrightarrow> (\<exists>c \<in> set pool. unavailable_reasons clk r c = [''daily_limit''])"
    using none by (auto simp: reasons_only_limit eligible_for_def)
  show ?thesis unfolding skip_explained_def
    using none ids limit
    by (auto simp: un why comp_def reasons_empty reasons_other_course skip_reason_def)
qed

lemma plan_loop_skips:
  assumes "fold (plan_round clk last_start) rs (pool, assigned, skipped) = (pool', assigned', skipped')"
    and "distinct (map pc_caddie pool)" "map pc_caddie pool = map pc_caddie caddies"
    and "\<forall>s \<in> set skipped. skip_explained caddies s"
  shows "\<forall>s \<in> set skipped'. skip_explained caddies s"
  using assms
proof (induction rs arbitrary: pool assigned skipped)
  case (Cons r rs)
  obtain p1 a1 s1 where step: "plan_round clk last_start r (pool, assigned, skipped) = (p1, a1, s1)"
    by (metis prod_cases3)
  note eff = plan_round_effect [OF step]
  have "map pc_caddie p1 = map pc_caddie pool"
    using eff planner.idents_after_booking by (auto split: option.splits)
  moreover have "\<forall>s \<in> set s1. skip_explained caddies s"
    using eff Cons.prems planner.pick_none [of clk last_start pool r]
    by (cases "choose_index clk last_start pool r") (auto intro: skip_round_explained)
  ultimately show ?case
    using Cons.IH [of p1 a1 s1] Cons.prems step by simp
qed simp

text \<open>
  C35. A skipped round explains itself: it lists every caddie with at least one reason, says
  \<open>all_caddies_at_daily_limit\<close> exactly when some caddie was stopped by the limit alone, and
  \<open>no_caddie_on_the_course\<close> exactly when every caddie stands elsewhere.
\<close>

theorem skipped_rounds_explained:
  assumes "distinct (map pc_caddie caddies)"
  shows "\<forall>s \<in> set (ar_skipped (plan_caddie_assignments clk dry rounds caddies)). skip_explained caddies s"
proof -
  let ?ordered = "sort_by (key_le tee_order) rounds"
  let ?last = "if ?ordered = [] then None else Some (pr_starts_at (last ?ordered))"
  obtain pool a s where run: "fold (plan_round clk ?last) ?ordered (caddies, [], []) = (pool, a, s)"
    by (metis prod_cases3)
  from plan_loop_skips [OF run assms, of caddies] run show ?thesis
    by (simp add: plan_caddie_assignments_def assign_result_new_def Let_def)
qed

theorem skipped_rounds_explained_witness:
  "map sk_reservation (ar_skipped (plan_caddie_assignments sample_clock True sample_rounds sample_walkers)) = [''r3'']
   \<and> skip_explained sample_walkers
        (hd (ar_skipped (plan_caddie_assignments sample_clock True sample_rounds sample_walkers)))"
proof
  let ?skipped = "ar_skipped (plan_caddie_assignments sample_clock True sample_rounds sample_walkers)"
  show one: "map sk_reservation ?skipped = [''r3'']" by code_simp
  then have "hd ?skipped \<in> set ?skipped" by (intro hd_in_set) auto
  with skipped_rounds_explained [OF sample_day_distinct(1)]
  show "skip_explained sample_walkers (hd ?skipped)" by (rule bspec)
qed

end
