(* ===== verification/CaddieDuty.thy ===== *)
theory CaddieDuty
  imports DayPlanCorrect
begin

text \<open>
  Other work a caddie is put on (\<open>src/course/domain/caddie_duty.rs\<close>): the list of jobs, the
  half-open window of a job, and what it takes from the day. The specification is the set
  of minutes a caddie's windows cover; \<open>duty_blocks_round\<close> and \<open>free_halves\<close> are shown to
  read exactly that set.
\<close>

section \<open>The list of jobs\<close>

definition MINUTES_IN_DAY :: int where "MINUTES_IN_DAY = 24 * 60"
definition MAX_CADDIE_DUTIES :: nat where "MAX_CADDIE_DUTIES = 30"
definition MAX_CADDIE_DUTY_LENGTH :: nat where "MAX_CADDIE_DUTY_LENGTH = 40"
definition MAX_CADDIE_DUTY_NOTE_LENGTH :: nat where "MAX_CADDIE_DUTY_NOTE_LENGTH = 255"

text \<open>The loop that keeps the labels it has seen and stops at the first repeated one.\<close>

fun repeats_from :: "str list \<Rightarrow> str list \<Rightarrow> bool" where
  "repeats_from seen [] = False"
| "repeats_from seen (x # xs) = (if x \<in> set seen then True else repeats_from (seen @ [x]) xs)"

lemma repeats_from_iff: "repeats_from seen xs \<longleftrightarrow> \<not> distinct xs \<or> set seen \<inter> set xs \<noteq> {}"
  by (induction xs arbitrary: seen) auto

definition duty_options_try_new :: "str list \<Rightarrow> str list result" where
  "duty_options_try_new values =
     (let options = filter (\<lambda>v. v \<noteq> []) (map trim values) in
      if length options > MAX_CADDIE_DUTIES then Inl (BadRequest ''too many caddie duties'')
      else if \<exists>v \<in> set options. char_count v > MAX_CADDIE_DUTY_LENGTH
      then Inl (BadRequest ''a caddie duty name is too long'')
      else if repeats_from [] options then Inl (BadRequest ''the same caddie duty appears twice'')
      else Inr options)"

definition duty_offers :: "str list \<Rightarrow> str \<Rightarrow> bool" where
  "duty_offers options label \<longleftrightarrow> (\<exists>x \<in> set options. x = label)"

definition duty_list_ok :: "str list \<Rightarrow> bool" where
  "duty_list_ok xs \<longleftrightarrow> length xs \<le> MAX_CADDIE_DUTIES \<and> distinct xs
     \<and> (\<forall>x \<in> set xs. x \<noteq> [] \<and> trim x = x \<and> char_count x \<le> MAX_CADDIE_DUTY_LENGTH)"

section \<open>Windows\<close>

record duty_window =
  dw_start :: int
  dw_end :: int

definition window_all_day :: duty_window where
  "window_all_day = \<lparr>dw_start = 0, dw_end = MINUTES_IN_DAY\<rparr>"

definition window_try_new :: "int \<Rightarrow> int \<Rightarrow> duty_window result" where
  "window_try_new s e =
     (if \<not> (0 \<le> s \<and> s \<le> MINUTES_IN_DAY) \<or> \<not> (0 \<le> e \<and> e \<le> MINUTES_IN_DAY)
      then Inl (BadRequest ''that time is not in the day'')
      else if e \<le> s then Inl (BadRequest ''the work ends before it starts'')
      else Inr \<lparr>dw_start = s, dw_end = e\<rparr>)"

definition is_all_day :: "duty_window \<Rightarrow> bool" where
  "is_all_day w \<longleftrightarrow> dw_start w = 0 \<and> dw_end w = MINUTES_IN_DAY"

definition overlaps_minutes :: "duty_window \<Rightarrow> int \<Rightarrow> int \<Rightarrow> bool" where
  "overlaps_minutes w s e \<longleftrightarrow> dw_start w < e \<and> s < dw_end w"

definition window_overlaps :: "duty_window \<Rightarrow> duty_window \<Rightarrow> bool" where
  "window_overlaps w v \<longleftrightarrow> dw_start w < dw_end v \<and> dw_start v < dw_end w"

definition blocks_morning :: "duty_window \<Rightarrow> bool" where
  "blocks_morning w = overlaps_minutes w 0 MIDDAY_MINUTES"

definition blocks_afternoon :: "duty_window \<Rightarrow> bool" where
  "blocks_afternoon w = overlaps_minutes w MIDDAY_MINUTES MINUTES_IN_DAY"

section \<open>Duties on a day\<close>

record duty_assignment =
  da_id :: "int option"
  da_caddie :: caddie_id
  da_date :: date
  da_window :: duty_window
  da_label :: str
  da_note :: "str option"
  da_updated_by :: "str option"

definition duty_assignment_try_new ::
  "caddie_id \<Rightarrow> date \<Rightarrow> duty_window \<Rightarrow> str \<Rightarrow> str option \<Rightarrow> str option \<Rightarrow> duty_assignment result"
where
  "duty_assignment_try_new cid d w label note by_whom =
     (let label' = trim label; note' = trimmed note in
      if label' = [] then Inl (BadRequest ''name the work to be done'')
      else if char_count label' > MAX_CADDIE_DUTY_LENGTH
      then Inl (BadRequest ''a caddie duty name is too long'')
      else if (case note' of None \<Rightarrow> False | Some n \<Rightarrow> char_count n > MAX_CADDIE_DUTY_NOTE_LENGTH)
      then Inl (BadRequest ''the note is too long'')
      else Inr \<lparr>da_id = None, da_caddie = cid, da_date = d, da_window = w, da_label = label',
             da_note = note', da_updated_by = trimmed by_whom\<rparr>)"

definition duty_windows_for :: "duty_assignment list \<Rightarrow> str \<Rightarrow> date \<Rightarrow> duty_window list" where
  "duty_windows_for as cid d =
     map da_window (filter (\<lambda>a. da_caddie a = cid) (filter (\<lambda>a. da_date a = d) as))"

definition round_minutes :: "clock \<Rightarrow> instant \<Rightarrow> int \<Rightarrow> int \<times> int" where
  "round_minutes clk starts_at occupied =
     (let start = clk_minute_of_day clk starts_at;
          e = wrap_i64 (start + max occupied 1)
      in (start, min (if in_i32 e then e else MINUTES_IN_DAY) MINUTES_IN_DAY))"

definition duty_blocks_round ::
  "clock \<Rightarrow> duty_assignment list \<Rightarrow> str \<Rightarrow> date \<Rightarrow> instant \<Rightarrow> int \<Rightarrow> bool" where
  "duty_blocks_round clk as cid d starts_at occupied =
     (let (s, e) = round_minutes clk starts_at occupied
      in \<exists>w \<in> set (duty_windows_for as cid d). overlaps_minutes w s e)"

definition free_halves :: "duty_assignment list \<Rightarrow> str \<Rightarrow> date \<Rightarrow> bool \<times> bool" where
  "free_halves as cid d =
     (let ws = duty_windows_for as cid d
      in (\<not> (\<exists>w \<in> set ws. blocks_morning w), \<not> (\<exists>w \<in> set ws. blocks_afternoon w)))"

definition free_rounds :: "duty_assignment list \<Rightarrow> str \<Rightarrow> date \<Rightarrow> int" where
  "free_rounds as cid d =
     (let (morning, afternoon) = free_halves as cid d in of_bool morning + of_bool afternoon)"

definition caddies_off_the_day :: "duty_assignment list \<Rightarrow> date \<Rightarrow> str list" where
  "caddies_off_the_day as d =
     filter (\<lambda>cid. free_rounds as cid d = 0) (map da_caddie (filter (\<lambda>a. da_date a = d) as))"

section \<open>The minutes a duty covers\<close>

definition window_ok :: "duty_window \<Rightarrow> bool" where
  "window_ok w \<longleftrightarrow> 0 \<le> dw_start w \<and> dw_start w < dw_end w \<and> dw_end w \<le> MINUTES_IN_DAY"

definition minutes_of :: "duty_window \<Rightarrow> int set" where
  "minutes_of w = {dw_start w ..< dw_end w}"

definition covered_minutes :: "duty_assignment list \<Rightarrow> str \<Rightarrow> date \<Rightarrow> int set" where
  "covered_minutes as cid d =
     (\<Union>a \<in> {a \<in> set as. da_caddie a = cid \<and> da_date a = d}. minutes_of (da_window a))"

lemma window_try_new_ok: "window_try_new s e = Inr w \<Longrightarrow> window_ok w"
  by (auto simp: window_try_new_def window_ok_def split: if_splits)

lemma window_ok_all_day: "window_ok window_all_day"
  by (simp add: window_ok_def window_all_day_def MINUTES_IN_DAY_def)

text \<open>Two non-empty half-open stretches overlap when they share a minute.\<close>

lemma overlap_iff_shared_minute:
  fixes a b s e :: int
  assumes "a < b" "s < e"
  shows "a < e \<and> s < b \<longleftrightarrow> {a..<b} \<inter> {s..<e} \<noteq> {}"
proof
  assume "a < e \<and> s < b"
  with assms have "max a s \<in> {a..<b} \<inter> {s..<e}" by auto
  then show "{a..<b} \<inter> {s..<e} \<noteq> {}" by blast
qed auto

lemma overlaps_minutes_iff:
  "window_ok w \<Longrightarrow> s < e \<Longrightarrow> overlaps_minutes w s e \<longleftrightarrow> minutes_of w \<inter> {s..<e} \<noteq> {}"
  unfolding overlaps_minutes_def minutes_of_def
  by (rule overlap_iff_shared_minute) (auto simp: window_ok_def)

lemma covered_meets:
  "covered_minutes as cid d \<inter> M \<noteq> {} \<longleftrightarrow>
     (\<exists>w \<in> set (duty_windows_for as cid d). minutes_of w \<inter> M \<noteq> {})"
  by (auto simp: covered_minutes_def duty_windows_for_def)

lemma round_minutes_in_day:
  assumes "0 \<le> clk_minute_of_day clk t" "clk_minute_of_day clk t < MINUTES_IN_DAY" "in_i64 n"
  shows "fst (round_minutes clk t n) < snd (round_minutes clk t n)
    \<and> snd (round_minutes clk t n) \<le> MINUTES_IN_DAY"
proof -
  let ?m = "clk_minute_of_day clk t"
  let ?x = "?m + max n 1"
  have "wrap_i64 ?x = ?x" if "in_i32 (wrap_i64 ?x)"
  proof (cases "?x \<le> i64_max")
    case True
    with assms(1) have "in_i64 ?x" by (simp add: in_i64_def i64_min_def)
    then show ?thesis by simp
  next
    case False
    define y where "y = ?x + 2 ^ 63"
    from False assms have y: "0 \<le> y - 2 ^ 64" "y - 2 ^ 64 < 1440"
      by (auto simp: y_def in_i64_def i64_max_def MINUTES_IN_DAY_def)
    then have "(y - 2 ^ 64) mod 2 ^ 64 = y - 2 ^ 64" by (intro mod_pos_pos_trivial) auto
    then have "y mod 2 ^ 64 = y - 2 ^ 64" by (simp only: minus_mod_self2)
    then have "wrap_i64 ?x = y - 2 ^ 64 - 2 ^ 63" by (simp add: wrap_i64_def y_def)
    with that y show ?thesis by (simp add: in_i32_def i32_min_def)
  qed
  with assms(1,2) show ?thesis by (auto simp: round_minutes_def Let_def)
qed

section \<open>Properties\<close>

lemma free_halves_iff:
  assumes "\<forall>a \<in> set as. window_ok (da_window a)"
  shows "fst (free_halves as cid d) \<longleftrightarrow> covered_minutes as cid d \<inter> {0..<MIDDAY_MINUTES} = {}"
    and "snd (free_halves as cid d) \<longleftrightarrow>
      covered_minutes as cid d \<inter> {MIDDAY_MINUTES..<MINUTES_IN_DAY} = {}"
proof -
  have ok: "\<forall>w \<in> set (duty_windows_for as cid d). window_ok w"
    using assms by (auto simp: duty_windows_for_def)
  have noon: "0 < MIDDAY_MINUTES" "MIDDAY_MINUTES < MINUTES_IN_DAY"
    by (simp_all add: MIDDAY_MINUTES_def MINUTES_IN_DAY_def)
  show "fst (free_halves as cid d) \<longleftrightarrow> covered_minutes as cid d \<inter> {0..<MIDDAY_MINUTES} = {}"
    using ok overlaps_minutes_iff [OF _ noon(1)]
    unfolding free_halves_def blocks_morning_def Let_def fst_conv
    by (subst iff_conv_conj_imp) (use covered_meets [of as cid d "{0..<MIDDAY_MINUTES}"] in blast)
  show "snd (free_halves as cid d) \<longleftrightarrow>
      covered_minutes as cid d \<inter> {MIDDAY_MINUTES..<MINUTES_IN_DAY} = {}"
    using ok overlaps_minutes_iff [OF _ noon(2)]
    unfolding free_halves_def blocks_afternoon_def Let_def snd_conv
    by (subst iff_conv_conj_imp)
      (use covered_meets [of as cid d "{MIDDAY_MINUTES..<MINUTES_IN_DAY}"] in blast)
qed

text \<open>
  The three questions asked of a caddie's other work read the same set of minutes: a
  round is blocked exactly when it shares a minute with a window, a half of the day is free
  exactly when no minute of it is covered, and a caddie is dropped from the day exactly when
  both halves are touched.
\<close>

theorem duty_questions_read_the_minutes:
  assumes "\<forall>a \<in> set as. window_ok (da_window a)" "in_i64 n"
    and "0 \<le> clk_minute_of_day clk t" "clk_minute_of_day clk t < MINUTES_IN_DAY"
  shows "(duty_blocks_round clk as cid d t n \<longleftrightarrow>
        covered_minutes as cid d \<inter> {fst (round_minutes clk t n)..<snd (round_minutes clk t n)} \<noteq> {})
    \<and> (free_halves as cid d =
        (covered_minutes as cid d \<inter> {0..<MIDDAY_MINUTES} = {},
         covered_minutes as cid d \<inter> {MIDDAY_MINUTES..<MINUTES_IN_DAY} = {}))
    \<and> (cid \<in> set (caddies_off_the_day as d) \<longleftrightarrow>
        covered_minutes as cid d \<inter> {0..<MIDDAY_MINUTES} \<noteq> {}
      \<and> covered_minutes as cid d \<inter> {MIDDAY_MINUTES..<MINUTES_IN_DAY} \<noteq> {})"
proof (intro conjI)
  have ok: "\<forall>w \<in> set (duty_windows_for as cid d). window_ok w"
    using assms by (auto simp: duty_windows_for_def)
  show "duty_blocks_round clk as cid d t n \<longleftrightarrow>
        covered_minutes as cid d \<inter> {fst (round_minutes clk t n)..<snd (round_minutes clk t n)} \<noteq> {}"
  proof -
    obtain s e where se: "round_minutes clk t n = (s, e)" by force
    then have "s < e" using round_minutes_in_day [OF assms(3,4,2)] by simp
    then show ?thesis unfolding covered_meets duty_blocks_round_def
      using ok overlaps_minutes_iff by (auto simp: se)
  qed
  show halves: "free_halves as cid d =
        (covered_minutes as cid d \<inter> {0..<MIDDAY_MINUTES} = {},
         covered_minutes as cid d \<inter> {MIDDAY_MINUTES..<MINUTES_IN_DAY} = {})"
    using free_halves_iff [OF assms(1), of cid d] by (simp add: prod_eq_iff)
  have "cid \<in> da_caddie ` {a \<in> set as. da_date a = d}" if "covered_minutes as cid d \<noteq> {}"
    using that by (auto simp: covered_minutes_def)
  then show "cid \<in> set (caddies_off_the_day as d) \<longleftrightarrow>
        covered_minutes as cid d \<inter> {0..<MIDDAY_MINUTES} \<noteq> {}
      \<and> covered_minutes as cid d \<inter> {MIDDAY_MINUTES..<MINUTES_IN_DAY} \<noteq> {}"
    by (auto simp: caddies_off_the_day_def free_rounds_def halves)
qed

definition sample_duty :: "str \<Rightarrow> int \<Rightarrow> int \<Rightarrow> duty_assignment" where
  "sample_duty cid s e = \<lparr>da_id = None, da_caddie = cid, da_date = 3,
     da_window = \<lparr>dw_start = s, dw_end = e\<rparr>, da_label = ''range'', da_note = None,
     da_updated_by = None\<rparr>"

theorem duty_questions_read_the_minutes_witness:
  "free_halves [sample_duty ''a'' 480 720] ''a'' 3 = (False, True)
   \<and> (duty_blocks_round sample_clock [sample_duty ''a'' 480 720] ''a'' 3 (minutes 700) 270 \<longleftrightarrow>
       covered_minutes [sample_duty ''a'' 480 720] ''a'' 3 \<inter> {700..<970} \<noteq> {})"
proof -
  have "round_minutes sample_clock (minutes 700) 270 = (700, 970)" by code_simp
  moreover have "free_halves [sample_duty ''a'' 480 720] ''a'' 3 = (False, True)" by code_simp
  ultimately show ?thesis
    using duty_questions_read_the_minutes [where as = "[sample_duty ''a'' 480 720]" and n = 270
        and clk = sample_clock and t = "minutes 700" and cid = "''a''" and d = 3]
    by (simp add: sample_duty_def window_ok_def MINUTES_IN_DAY_def in_i64_def i64_min_def
        i64_max_def sample_clock_def minutes_def)
qed

text \<open>
  The list of jobs is accepted exactly when the trimmed, non-blank labels are at most 30,
  at most 40 characters each and all different; what is stored is those labels in the order
  they were arranged, and saving the stored list again gives the same list.
\<close>

theorem duty_list_saved_as_arranged:
  "(duty_options_try_new values = Inr opts \<longleftrightarrow>
     opts = filter (\<lambda>v. v \<noteq> []) (map trim values) \<and> duty_list_ok opts)
   \<and> (duty_options_try_new values = Inr opts \<longrightarrow> duty_options_try_new opts = Inr opts)"
proof -
  have accept: "duty_options_try_new vs = Inr opts \<longleftrightarrow>
      opts = filter (\<lambda>v. v \<noteq> []) (map trim vs) \<and> duty_list_ok opts" for vs
    by (auto simp: duty_options_try_new_def duty_list_ok_def Let_def repeats_from_iff not_less)
  moreover have "filter (\<lambda>v. v \<noteq> []) (map trim opts) = opts" if "duty_list_ok opts"
  proof -
    have "map trim opts = opts" using that by (simp add: duty_list_ok_def map_idI)
    with that show ?thesis by (simp add: duty_list_ok_def filter_id_conv)
  qed
  ultimately show ?thesis by metis
qed

theorem duty_list_saved_as_arranged_witness:
  "duty_options_try_new [''range '', [], ''front''] = Inr [''range'', ''front'']
   \<and> duty_options_try_new [''range'', ''front''] = Inr [''range'', ''front'']"
proof -
  have "duty_options_try_new [''range '', [], ''front''] = Inr [''range'', ''front'']" by code_simp
  from this duty_list_saved_as_arranged [THEN conjunct2, rule_format, OF this]
  show ?thesis by (rule conjI)
qed

end
