(* ===== verification/Supply.thy ===== *)
theory Supply
  imports CaddieDuty
begin

text \<open>
  The day's caddie supply (\<open>compute_caddie_supply\<close> of \<open>src/course/domain/caddie_ops.rs\<close> and
  the counting part of \<open>src/course/usecase/get_caddie_supply.rs\<close>): how a declared availability
  is narrowed by other work, and how many caddie-attached groups can be sold.
\<close>

section \<open>One day's declaration\<close>

type_synonym availability_id = str

record availability =
  av_id :: availability_id
  av_caddie :: caddie_id
  av_date :: date
  av_status :: availability_status
  av_two_round_request :: bool
  av_health_note :: "str option"
  av_updated_at :: "instant option"

definition availability_reconstitute ::
  "availability_id \<Rightarrow> caddie_id \<Rightarrow> date \<Rightarrow> availability_status \<Rightarrow> bool \<Rightarrow> str option
    \<Rightarrow> instant option \<Rightarrow> availability" where
  "availability_reconstitute aid cid d st two note upd =
     \<lparr>av_id = aid, av_caddie = cid, av_date = d, av_status = st, av_two_round_request = two,
      av_health_note = trimmed note, av_updated_at = upd\<rparr>"

record day_capacity =
  dc_active :: bool
  dc_status :: "availability_status option"
  dc_can_two_rounds :: bool
  dc_two_round_request :: bool

record caddie_supply =
  cs_date :: date
  cs_available :: int
  cs_two_round_capable :: int
  cs_supply :: int
  cs_morning :: int
  cs_afternoon :: int
  cs_safety_buffer :: int
  cs_attached_cap :: int
  cs_current_attached :: int
  cs_remaining :: int

definition supply_reconstitute ::
  "date \<Rightarrow> int \<Rightarrow> int \<Rightarrow> int \<Rightarrow> int \<Rightarrow> int \<Rightarrow> int \<Rightarrow> int \<Rightarrow> int \<Rightarrow> int \<Rightarrow> caddie_supply" where
  "supply_reconstitute d available two supply morning afternoon buffer cap current remaining =
     \<lparr>cs_date = d, cs_available = available, cs_two_round_capable = two, cs_supply = supply,
      cs_morning = morning, cs_afternoon = afternoon, cs_safety_buffer = max buffer 0,
      cs_attached_cap = cap, cs_current_attached = current, cs_remaining = remaining\<rparr>"

definition is_over_capacity :: "caddie_supply \<Rightarrow> bool" where
  "is_over_capacity s \<longleftrightarrow> cs_remaining s < 0"

text \<open>\<open>(works, morning, afternoon, light_duty)\<close>\<close>

fun availability_flags :: "availability_status option \<Rightarrow> bool \<times> bool \<times> bool \<times> bool" where
  "availability_flags (Some Unavailable) = (False, False, False, False)"
| "availability_flags (Some MorningOnly) = (True, True, False, False)"
| "availability_flags (Some AfternoonOnly) = (True, False, True, False)"
| "availability_flags (Some LightDuty) = (True, True, True, True)"
| "availability_flags (Some Available) = (True, True, True, False)"
| "availability_flags None = (True, True, True, False)"

section \<open>The count\<close>

text \<open>The five counters of the loop: caddies, two-round caddies, groups, mornings, afternoons.\<close>

type_synonym tally = "int \<times> int \<times> int \<times> int \<times> int"

definition count_capacity :: "day_capacity \<Rightarrow> tally \<Rightarrow> tally" where
  "count_capacity c t =
     (if \<not> dc_active c then t
      else
        let (works, morning, afternoon, light_duty) = availability_flags (dc_status c) in
        if \<not> works then t
        else
          let (available, two, supply, mornings, afternoons) = t;
              two_rounds = (dc_can_two_rounds c \<and> dc_two_round_request c \<and> \<not> light_duty)
          in (available + 1, if two_rounds then two + 1 else two,
              supply + (if two_rounds then 2 else 1),
              if morning then mornings + 1 else mornings,
              if afternoon then afternoons + 1 else afternoons))"

definition compute_caddie_supply :: "date \<Rightarrow> day_capacity list \<Rightarrow> int \<Rightarrow> int \<Rightarrow> caddie_supply" where
  "compute_caddie_supply d capacities safety_buffer current =
     (let buffer = max safety_buffer 0;
          (available, two, supply, mornings, afternoons) = fold count_capacity capacities (0, 0, 0, 0, 0);
          cap = max (supply - buffer) 0
      in supply_reconstitute d available two supply mornings afternoons buffer cap current (cap - current))"

section \<open>Other work narrows the day\<close>

definition narrowed_by_duty ::
  "availability_status option \<Rightarrow> bool \<times> bool \<Rightarrow> availability_status option option" where
  "narrowed_by_duty filed free =
     (let (morning, afternoon) = free in
      if \<not> morning \<and> \<not> afternoon then None
      else if morning \<and> afternoon then Some filed
      else
        let half = (if morning then MorningOnly else AfternoonOnly) in
        case filed of
          Some Unavailable \<Rightarrow> Some filed
        | Some MorningOnly \<Rightarrow> if \<not> morning then None else Some filed
        | Some AfternoonOnly \<Rightarrow> if \<not> afternoon then None else Some filed
        | _ \<Rightarrow> Some (Some half))"

definition day_capacity_of ::
  "(str \<rightharpoonup> availability) \<Rightarrow> duty_assignment list \<Rightarrow> date \<Rightarrow> caddie \<Rightarrow> day_capacity option" where
  "day_capacity_of filed duties d c =
     (case narrowed_by_duty (map_option av_status (filed (cd_id c))) (free_halves duties (cd_id c) d) of
        None \<Rightarrow> None
      | Some st \<Rightarrow> Some
          \<lparr>dc_active = cd_active c, dc_status = st, dc_can_two_rounds = cd_can_two_rounds c,
           dc_two_round_request =
             (case filed (cd_id c) of None \<Rightarrow> False | Some a \<Rightarrow> av_two_round_request a)\<rparr>)"

text \<open>\<open>execute\<close> of the use case once everything is read; the bookings already counted are
  \<open>current\<close>.\<close>

definition day_supply ::
  "caddie list \<Rightarrow> availability list \<Rightarrow> duty_assignment list \<Rightarrow> date \<Rightarrow> int option \<Rightarrow> int \<Rightarrow> caddie_supply"
where
  "day_supply roster filed duties d buffer current =
     (let by_caddie = collect_map (map (\<lambda>a. (av_caddie a, a)) filed)
      in compute_caddie_supply d (List.map_filter (day_capacity_of by_caddie duties d) roster)
           (unwrap_or buffer 0) current)"

section \<open>What the count says\<close>

definition works_that_day :: "day_capacity \<Rightarrow> bool" where
  "works_that_day c \<longleftrightarrow> dc_active c \<and> dc_status c \<noteq> Some Unavailable"

definition works_morning :: "day_capacity \<Rightarrow> bool" where
  "works_morning c \<longleftrightarrow> works_that_day c \<and> dc_status c \<noteq> Some AfternoonOnly"

definition works_afternoon :: "day_capacity \<Rightarrow> bool" where
  "works_afternoon c \<longleftrightarrow> works_that_day c \<and> dc_status c \<noteq> Some MorningOnly"

definition walks_two :: "day_capacity \<Rightarrow> bool" where
  "walks_two c \<longleftrightarrow> works_that_day c \<and> dc_can_two_rounds c \<and> dc_two_round_request c
     \<and> dc_status c \<noteq> Some LightDuty"

definition tally_of :: "day_capacity list \<Rightarrow> tally" where
  "tally_of cs =
     (let n = (\<lambda>P. int (length (filter P cs)))
      in (n works_that_day, n walks_two, n works_that_day + n walks_two,
          n works_morning, n works_afternoon))"

lemma status_cases:
  obtains "st = None" | "st = Some Available" | "st = Some Unavailable" | "st = Some MorningOnly"
  | "st = Some AfternoonOnly" | "st = Some LightDuty"
  by (metis availability_status.exhaust option.exhaust)

lemma count_capacity_tally:
  "count_capacity c (a, b, s, m, n) =
     (a + of_bool (works_that_day c), b + of_bool (walks_two c),
      s + of_bool (works_that_day c) + of_bool (walks_two c),
      m + of_bool (works_morning c), n + of_bool (works_afternoon c))"
  by (cases "dc_status c" rule: status_cases)
    (auto simp: count_capacity_def works_that_day_def walks_two_def works_morning_def
      works_afternoon_def Let_def)

lemma fold_tally:
  "fold count_capacity cs (a, b, s, m, n) =
     (case tally_of cs of (a', b', s', m', n') \<Rightarrow> (a + a', b + b', s + s', m + m', n + n'))"
proof (induction cs arbitrary: a b s m n)
  case (Cons c cs)
  show ?case
    by (simp add: count_capacity_tally Cons.IH) (simp add: tally_of_def Let_def)
qed (simp add: tally_of_def)

lemma length_filter_le_add:
  assumes "\<And>x. x \<in> set xs \<Longrightarrow> of_bool (P x) + of_bool (Q x) \<le> (of_bool (R x) + of_bool (S x) :: int)"
  shows "int (length (filter P xs)) + int (length (filter Q xs))
    \<le> int (length (filter R xs)) + int (length (filter S xs))"
  using assms
proof (induction xs)
  case (Cons x xs)
  from Cons.IH Cons.prems have "int (length (filter P xs)) + int (length (filter Q xs))
    \<le> int (length (filter R xs)) + int (length (filter S xs))" by simp
  with Cons.prems [of x] show ?case by (auto split: if_splits)
qed simp

text \<open>
  The day's supply counts each working caddie once and each two-round caddie twice, the
  number that may still be sold is what is left after the buffer, never below zero before the
  bookings, and while nobody who works half a day is counted for two rounds the groups on sale
  never exceed the morning and afternoon groups the caddies can walk.
\<close>

theorem supply_counts_the_day:
  assumes "\<forall>c \<in> set caps. walks_two c \<longrightarrow> works_morning c \<and> works_afternoon c"
  shows "let s = compute_caddie_supply d caps buffer current in
      cs_available s = int (length (filter works_that_day caps))
    \<and> cs_supply s = cs_available s + int (length (filter walks_two caps))
    \<and> cs_supply s \<le> cs_morning s + cs_afternoon s
    \<and> cs_morning s \<le> cs_available s \<and> cs_afternoon s \<le> cs_available s
    \<and> cs_attached_cap s = max (cs_supply s - max buffer 0) 0
    \<and> cs_remaining s = cs_attached_cap s - current
    \<and> (is_over_capacity s \<longleftrightarrow> cs_attached_cap s < current)"
proof -
  have "int (length (filter works_that_day caps)) + int (length (filter walks_two caps))
      \<le> int (length (filter works_morning caps)) + int (length (filter works_afternoon caps))"
  proof (rule length_filter_le_add)
    fix c assume "c \<in> set caps"
    with assms show "of_bool (works_that_day c) + of_bool (walks_two c)
        \<le> (of_bool (works_morning c) + of_bool (works_afternoon c) :: int)"
      by (cases "dc_status c" rule: status_cases)
        (auto simp: works_morning_def works_afternoon_def works_that_day_def walks_two_def)
  qed
  moreover have "length (filter works_morning caps) \<le> length (filter works_that_day caps)"
    "length (filter works_afternoon caps) \<le> length (filter works_that_day caps)"
    by (rule length_filter_mono, simp add: works_morning_def works_afternoon_def)+
  ultimately show ?thesis
    by (simp add: compute_caddie_supply_def fold_tally tally_of_def Let_def
        supply_reconstitute_def is_over_capacity_def)
qed

definition sample_capacity :: "availability_status option \<Rightarrow> bool \<Rightarrow> day_capacity" where
  "sample_capacity st two =
     \<lparr>dc_active = True, dc_status = st, dc_can_two_rounds = two, dc_two_round_request = two\<rparr>"

theorem supply_counts_the_day_witness:
  "cs_supply (compute_caddie_supply 0
      [sample_capacity None True, sample_capacity (Some MorningOnly) False] 0 1) = 3
   \<and> cs_supply (compute_caddie_supply 0
      [sample_capacity None True, sample_capacity (Some MorningOnly) False] 0 1)
     \<le> cs_morning (compute_caddie_supply 0
      [sample_capacity None True, sample_capacity (Some MorningOnly) False] 0 1)
     + cs_afternoon (compute_caddie_supply 0
      [sample_capacity None True, sample_capacity (Some MorningOnly) False] 0 1)"
proof -
  have "\<forall>c \<in> set [sample_capacity None True, sample_capacity (Some MorningOnly) False].
      walks_two c \<longrightarrow> works_morning c \<and> works_afternoon c"
    by (simp add: sample_capacity_def walks_two_def works_morning_def works_afternoon_def
        works_that_day_def)
  from supply_counts_the_day [OF this, of 0 0 1] show ?thesis
    by (simp add: Let_def sample_capacity_def walks_two_def works_that_day_def)
qed

section \<open>What narrowing keeps\<close>

definition morning_free :: "availability_status option \<Rightarrow> bool" where
  "morning_free st \<longleftrightarrow> fst (snd (availability_flags st))"

definition afternoon_free :: "availability_status option \<Rightarrow> bool" where
  "afternoon_free st \<longleftrightarrow> fst (snd (snd (availability_flags st)))"

text \<open>
  Other work takes exactly the halves it covers from a declared day: a caddie who is
  still counted has the declared halves that are free of it, and one who is dropped had none.
\<close>

theorem duty_narrows_the_halves:
  "case narrowed_by_duty filed free of
     None \<Rightarrow> \<not> (morning_free filed \<and> fst free) \<and> \<not> (afternoon_free filed \<and> snd free)
   | Some st \<Rightarrow> (morning_free st \<longleftrightarrow> morning_free filed \<and> fst free)
       \<and> (afternoon_free st \<longleftrightarrow> afternoon_free filed \<and> snd free)"
  by (cases filed rule: status_cases; cases free)
    (auto simp: narrowed_by_duty_def morning_free_def afternoon_free_def)

text \<open>
  Two declarations the count reads for more than they can give: light duty with a job in the
  morning is narrowed to an afternoon, which forgets that it was light, and a full day with a
  job in the morning is sold as two rounds.
\<close>

lemma narrowed_light_duty_walks_two:
  "\<not> walks_two (sample_capacity (Some LightDuty) True)
   \<and> narrowed_by_duty (Some LightDuty) (False, True) = Some (Some AfternoonOnly)
   \<and> walks_two (sample_capacity (Some AfternoonOnly) True)"
  by (simp add: narrowed_by_duty_def walks_two_def sample_capacity_def works_that_day_def)

lemma narrowed_full_day_sells_two:
  "narrowed_by_duty (Some Available) (False, True) = Some (Some AfternoonOnly)
   \<and> cs_supply (compute_caddie_supply 0 [sample_capacity (Some AfternoonOnly) True] 0 0) = 2
   \<and> cs_morning (compute_caddie_supply 0 [sample_capacity (Some AfternoonOnly) True] 0 0) = 0
   \<and> cs_afternoon (compute_caddie_supply 0 [sample_capacity (Some AfternoonOnly) True] 0 0) = 1"
  by (simp add: narrowed_by_duty_def compute_caddie_supply_def count_capacity_def
      sample_capacity_def supply_reconstitute_def)

end
