(* ===== verification/CourseSupply.thy ===== *)
theory CourseSupply
  imports Supply
begin

text \<open>
  The day counted course by course (\<open>src/course/domain/course_supply.rs\<close>, with the shift cap
  of \<open>src/course/usecase/get_course_caddie_supply.rs\<close>): what each course can staff, what is
  already assigned, and who could be sent over. The state of the loop over the assigned
  reservations is the list of courses and the map from a caddie to what is left of their
  shifts; the specification of \<open>effective_rounds_capacity\<close> is the sum of what is left.
\<close>

section \<open>Data\<close>

record coverage =
  cv_reservation :: reservation_id
  cv_demand_course :: course_id
  cv_caddie :: caddie_id
  cv_assignment :: assignment_id
  cv_tee_time :: "instant option"

definition coverage_new ::
  "reservation_id \<Rightarrow> course_id \<Rightarrow> caddie_id \<Rightarrow> assignment_id \<Rightarrow> coverage" where
  "coverage_new r c k a = \<lparr>cv_reservation = r, cv_demand_course = c, cv_caddie = k,
     cv_assignment = a, cv_tee_time = None\<rparr>"

definition with_tee_time :: "coverage \<Rightarrow> instant \<Rightarrow> coverage" where
  "with_tee_time v t = v\<lparr>cv_tee_time := Some t\<rparr>"

record course_supply =
  co_id :: course_id
  co_name :: str
  co_working :: int
  co_capacity :: int
  co_attached :: int
  co_movable :: int
  co_assigned :: int
  co_backed :: int
  co_unbacked :: int
  co_exceeded :: int
  co_mismatch :: int
  co_eff_capacity :: int
  co_eff_attached :: int
  co_eff_shortfall :: int

record day_supply_state =
  ds_date :: date
  ds_courses :: "course_supply list"
  ds_unplaced :: int

definition course_shortfall :: "course_supply \<Rightarrow> int" where
  "course_shortfall c = co_capacity c - co_attached c"

definition course_is_short :: "course_supply \<Rightarrow> bool" where
  "course_is_short c \<longleftrightarrow> course_shortfall c < 0"

section \<open>The raw count\<close>

definition working_on :: "caddie_shift list \<Rightarrow> date \<Rightarrow> caddie_shift list" where
  "working_on shifts d = filter sh_working (filter (\<lambda>s. sh_date s = d) shifts)"

definition course_row ::
  "caddie_shift list \<Rightarrow> (course_id \<rightharpoonup> int) \<Rightarrow> course_id \<times> str \<Rightarrow> course_supply" where
  "course_row day attached c =
     (let placed = filter (\<lambda>s. sh_course s = Some (fst c)) day;
          capacity = sum_list (map sh_rounds placed);
          groups = unwrap_or (attached (fst c)) 0
      in \<lparr>co_id = fst c, co_name = snd c, co_working = int (length placed), co_capacity = capacity,
          co_attached = groups,
          co_movable = int (length (filter (\<lambda>s. is_movable (sh_origin s)) placed)),
          co_assigned = 0, co_backed = 0, co_unbacked = 0, co_exceeded = 0, co_mismatch = 0,
          co_eff_capacity = capacity, co_eff_attached = groups,
          co_eff_shortfall = capacity - groups\<rparr>)"

definition compute_course_supply ::
  "date \<Rightarrow> (course_id \<times> str) list \<Rightarrow> caddie_shift list \<Rightarrow> (course_id \<rightharpoonup> int) \<Rightarrow> day_supply_state"
where
  "compute_course_supply d courses shifts attached =
     (let day = working_on shifts d
      in \<lparr>ds_date = d, ds_courses = map (course_row day attached) courses,
          ds_unplaced = int (length (filter (\<lambda>s. sh_course s = None) day))\<rparr>)"

definition cap_rounds :: "caddie_shift \<Rightarrow> int \<Rightarrow> caddie_shift" where
  "cap_rounds s free =
     (if sh_rounds s \<le> free then s
      else shift_reconstitute (sh_caddie s) (sh_date s) (sh_course s) (sh_working s) (sh_span s)
             free (sh_origin s) (sh_note s) (sh_updated_by s) (sh_updated_at s))"

text \<open>The shifts the use case counts: known caddies, capped at what other work left.\<close>

definition counted_shifts ::
  "str set \<Rightarrow> duty_assignment list \<Rightarrow> date \<Rightarrow> caddie_shift list \<Rightarrow> caddie_shift list" where
  "counted_shifts known duties d shifts =
     List.map_filter
       (\<lambda>s. let free = free_rounds duties (sh_caddie s) d
            in if free = 0 then None else Some (cap_rounds s free))
       (filter (\<lambda>s. sh_caddie s \<in> known) shifts)"

section \<open>Assignment coverage\<close>

record shift_capacity =
  sc_working :: bool
  sc_course :: "course_id option"
  sc_remaining :: int

definition shift_capacity_order :: "shift_capacity \<Rightarrow> nat \<times> str" where
  "shift_capacity_order v =
     ((case (sc_working v, sc_course v \<noteq> None) of
         (True, True) \<Rightarrow> 0 | (True, False) \<Rightarrow> 1 | (False, True) \<Rightarrow> 2 | (False, False) \<Rightarrow> 3),
      unwrap_or (sc_course v) [])"

type_synonym capacity_map = "str \<rightharpoonup> shift_capacity list"

definition push_capacity :: "caddie_shift \<Rightarrow> capacity_map \<Rightarrow> capacity_map" where
  "push_capacity s m =
     m(sh_caddie s \<mapsto> unwrap_or (m (sh_caddie s)) []
        @ [\<lparr>sc_working = sh_working s, sc_course = sh_course s, sc_remaining = sh_rounds s\<rparr>])"

definition shift_by_caddie :: "caddie_shift list \<Rightarrow> date \<Rightarrow> capacity_map" where
  "shift_by_caddie shifts d =
     (let m = fold push_capacity (filter (\<lambda>s. sh_date s = d) shifts) Map.empty
      in (\<lambda>k. map_option (sort_by (key_le shift_capacity_order)) (m k)))"

definition is_open :: "shift_capacity \<Rightarrow> bool" where
  "is_open e \<longleftrightarrow> sc_working e \<and> sc_course e \<noteq> None \<and> 0 < sc_remaining e"

definition can_cover :: "capacity_map \<Rightarrow> coverage \<Rightarrow> bool" where
  "can_cover m v = (case m (cv_caddie v) of None \<Rightarrow> False | Some es \<Rightarrow> \<exists>e \<in> set es. is_open e)"

text \<open>
  \<open>groups.into_values()\<close> comes in the order of the hash map, here the list \<open>keys\<close> of its
  keys; the two sorts that follow fix the order of the loop.
\<close>

definition coverage_groups :: "reservation_id list \<Rightarrow> coverage list \<Rightarrow> coverage list list" where
  "coverage_groups keys coverage = map (\<lambda>r. filter (\<lambda>v. cv_reservation v = r) coverage) keys"

definition member_order :: "coverage \<Rightarrow> str \<times> str" where
  "member_order v = (cv_caddie v, cv_assignment v)"

definition group_tee_time :: "coverage list \<Rightarrow> instant option" where
  "group_tee_time g = min_by_key id (List.map_filter cv_tee_time g)"

definition group_order :: "coverage list \<Rightarrow> instant option \<times> str" where
  "group_order g = (group_tee_time g, cv_reservation (hd g))"

definition ordered_groups :: "reservation_id list \<Rightarrow> coverage list \<Rightarrow> coverage list list" where
  "ordered_groups keys coverage =
     sort_by (key_le group_order)
       (map (sort_by (key_le member_order)) (coverage_groups keys coverage))"

text \<open>Taking one round off the selected caddie's shifts: the course that provides the caddie,
  and whether a round was there to take.\<close>

definition take_capacity ::
  "capacity_map \<Rightarrow> str \<Rightarrow> capacity_map \<times> course_id option \<times> bool" where
  "take_capacity m k =
     (case m k of
        None \<Rightarrow> (m, None, False)
      | Some es \<Rightarrow>
          (case position is_open es of
             Some i \<Rightarrow> (m(k \<mapsto> es[i := (es ! i)\<lparr>sc_remaining := sc_remaining (es ! i) - 1\<rparr>]),
                        sc_course (es ! i), True)
           | None \<Rightarrow> (m, (case find (\<lambda>e. sc_working e \<and> sc_course e \<noteq> None) es of
                            None \<Rightarrow> None | Some e \<Rightarrow> sc_course e), False)))"

definition update_at :: "nat \<Rightarrow> ('a \<Rightarrow> 'a) \<Rightarrow> 'a list \<Rightarrow> 'a list" where
  "update_at i f xs = xs[i := f (xs ! i)]"

type_synonym cover_state = "course_supply list \<times> capacity_map"

definition cover_group :: "coverage list \<Rightarrow> cover_state \<Rightarrow> cover_state" where
  "cover_group rows st =
     (let (courses, m) = st in
      case rows of [] \<Rightarrow> st
      | first # _ \<Rightarrow>
        (case position (\<lambda>c. co_id c = cv_demand_course first) courses of
           None \<Rightarrow> st
         | Some target \<Rightarrow>
           let courses = update_at target (\<lambda>c. c\<lparr>co_assigned := co_assigned c + 1,
                 co_eff_attached := co_eff_attached c - 1\<rparr>) courses;
               selected = rows ! unwrap_or (position (can_cover m) rows) 0;
               (m, provider, backed) = take_capacity m (cv_caddie selected)
           in case provider of
                None \<Rightarrow> (update_at target (\<lambda>c. c\<lparr>co_unbacked := co_unbacked c + 1\<rparr>) courses, m)
              | Some provider_course \<Rightarrow>
                  let courses = (if backed
                        then update_at target (\<lambda>c. c\<lparr>co_backed := co_backed c + 1\<rparr>) courses
                        else update_at target (\<lambda>c. c\<lparr>co_exceeded := co_exceeded c + 1\<rparr>) courses);
                      courses = (if provider_course \<noteq> co_id (courses ! target)
                        then update_at target (\<lambda>c. c\<lparr>co_mismatch := co_mismatch c + 1\<rparr>) courses
                        else courses);
                      courses = (case position (\<lambda>c. co_id c = provider_course) courses of
                          None \<Rightarrow> courses
                        | Some i \<Rightarrow> update_at i (\<lambda>c. c\<lparr>co_eff_capacity :=
                            co_eff_capacity c - (if backed then 1 else 0)\<rparr>) courses)
                  in (courses, m)))"

definition reset_effective :: "course_supply \<Rightarrow> course_supply" where
  "reset_effective c = c\<lparr>co_eff_capacity := co_capacity c, co_eff_attached := co_attached c,
     co_eff_shortfall := co_capacity c - co_attached c\<rparr>"

definition settle_shortfall :: "course_supply \<Rightarrow> course_supply" where
  "settle_shortfall c = c\<lparr>co_eff_shortfall := co_eff_capacity c - co_eff_attached c\<rparr>"

definition apply_assignment_coverage ::
  "reservation_id list \<Rightarrow> caddie_shift list \<Rightarrow> coverage list \<Rightarrow> day_supply_state \<Rightarrow> day_supply_state"
where
  "apply_assignment_coverage keys shifts coverage supply =
     (let courses = map reset_effective (ds_courses supply);
          (courses, m) = fold cover_group (ordered_groups keys coverage)
            (courses, shift_by_caddie shifts (ds_date supply))
      in supply\<lparr>ds_courses := map settle_shortfall courses\<rparr>)"

section \<open>Who could be sent over\<close>

record capability =
  cb_courses :: "course_id list"
  cb_main :: "course_id option"

definition can_work :: "capability \<Rightarrow> course_id \<Rightarrow> bool" where
  "can_work c k \<longleftrightarrow> k \<in> set (cb_courses c)"

record reinforcement =
  rf_shift :: caddie_shift
  rf_returns_home :: bool

definition reinforcement_order :: "reinforcement \<Rightarrow> nat \<times> str" where
  "reinforcement_order r =
     (if sh_course (rf_shift r) = None then 0 else if rf_returns_home r then 1 else 2,
      sh_caddie (rf_shift r))"

definition reinforcements_for ::
  "course_id \<Rightarrow> date \<Rightarrow> caddie_shift list \<Rightarrow> (str \<rightharpoonup> capability) \<Rightarrow> reinforcement list" where
  "reinforcements_for target d shifts caps =
     sort_by (key_le reinforcement_order)
       (List.map_filter
          (\<lambda>s. case caps (sh_caddie s) of None \<Rightarrow> None
             | Some c \<Rightarrow> if \<not> can_work c target then None
                 else Some \<lparr>rf_shift = s, rf_returns_home = (cb_main c = Some target)\<rparr>)
          (filter (\<lambda>s. sh_course s \<noteq> Some target)
             (filter (\<lambda>s. is_movable (sh_origin s)) (working_on shifts d))))"

end
