(* ===== verification/CourseSupplyCorrect.thy ===== *)
theory CourseSupplyCorrect
  imports CourseSupply
begin

text \<open>
  Correctness of the per-course count. The invariant of the coverage loop ties a course's
  effective capacity to what is left of the shifts placed on it, and its four assignment
  counters to each other; the order in which a hash map hands out the reservations does not
  reach the result.
\<close>

section \<open>What is left of the shifts\<close>

definition left_in :: "course_id \<Rightarrow> shift_capacity list \<Rightarrow> int" where
  "left_in c es = sum_list (map (\<lambda>e. if sc_working e \<and> sc_course e = Some c then sc_remaining e else 0) es)"

definition left_on :: "course_id \<Rightarrow> capacity_map \<Rightarrow> int" where
  "left_on c m = (\<Sum>k \<in> dom m. left_in c (the (m k)))"

definition capacity_map_ok :: "course_id set \<Rightarrow> capacity_map \<Rightarrow> bool" where
  "capacity_map_ok known m \<longleftrightarrow> finite (dom m)
     \<and> (\<forall>es \<in> ran m. \<forall>e \<in> set es. 0 \<le> sc_remaining e \<and> set_option (sc_course e) \<subseteq> known)"

lemma left_in_nonneg: "\<forall>e \<in> set es. 0 \<le> sc_remaining e \<Longrightarrow> 0 \<le> left_in c es"
  by (auto simp: left_in_def intro!: sum_list_nonneg)

lemma left_on_nonneg: "capacity_map_ok K m \<Longrightarrow> 0 \<le> left_on c m"
  unfolding left_on_def capacity_map_ok_def
  by (intro sum_nonneg left_in_nonneg) (auto simp: ran_def)

lemma left_on_update:
  assumes "finite (dom m)"
  shows "left_on c (m(k \<mapsto> es)) = left_on c m - left_in c (unwrap_or (m k) []) + left_in c es"
proof -
  let ?S = "dom m - {k}"
  have "left_on c (m(k \<mapsto> es)) = left_in c es + (\<Sum>x \<in> ?S. left_in c (the (m x)))"
    unfolding left_on_def using assms by (simp add: sum.insert_remove)
  moreover have "left_on c m = left_in c (unwrap_or (m k) []) + (\<Sum>x \<in> ?S. left_in c (the (m x)))"
  proof (cases "m k")
    case None
    then have "?S = dom m" by auto
    with None show ?thesis by (simp add: left_on_def left_in_def)
  next
    case (Some x)
    then show ?thesis unfolding left_on_def using assms
      by (subst sum.remove [of _ k]) auto
  qed
  ultimately show ?thesis by simp
qed

lemma sum_list_map_mset: "mset xs = mset ys \<Longrightarrow> sum_list (map f xs) = (sum_list (map f ys) :: int)"
  using sum_mset_sum_list [of "map f xs"] sum_mset_sum_list [of "map f ys"] by simp

lemma left_in_sort: "left_in c (sort_by le es) = left_in c es"
  unfolding left_in_def by (rule sum_list_map_mset) simp

lemma left_in_append: "left_in c (es @ fs) = left_in c es + left_in c fs"
  by (simp add: left_in_def)

lemma sum_list_map_update:
  "i < length xs \<Longrightarrow> sum_list (map f (xs[i := x])) = (sum_list (map f xs) - f (xs ! i) + f x :: int)"
  by (induction xs arbitrary: i) (auto split: nat.splits)

lemma left_in_update:
  assumes "i < length es"
  shows "left_in c (es[i := e]) = left_in c es - left_in c [es ! i] + left_in c [e]"
  unfolding left_in_def sum_list_map_update [OF assms] by (simp only: list.map sum_list_simps add_0_right)

section \<open>The start of the loop\<close>

definition shift_contrib :: "course_id \<Rightarrow> caddie_shift \<Rightarrow> int" where
  "shift_contrib c s = (if sh_working s \<and> sh_course s = Some c then sh_rounds s else 0)"

lemma push_capacity_left:
  "finite (dom m) \<Longrightarrow> finite (dom (push_capacity s m))
     \<and> left_on c (push_capacity s m) = left_on c m + shift_contrib c s"
  unfolding push_capacity_def
  by (simp add: left_on_update left_in_append) (simp add: left_in_def shift_contrib_def)

lemma fold_push_left:
  "finite (dom m) \<Longrightarrow> finite (dom (fold push_capacity ss m))
     \<and> left_on c (fold push_capacity ss m) = left_on c m + sum_list (map (shift_contrib c) ss)"
  by (induction ss arbitrary: m) (simp_all add: push_capacity_left)

definition capacity_of :: "caddie_shift \<Rightarrow> shift_capacity" where
  "capacity_of s = \<lparr>sc_working = sh_working s, sc_course = sh_course s, sc_remaining = sh_rounds s\<rparr>"

lemma push_capacity_entries:
  assumes "es \<in> ran (push_capacity s m)" "e \<in> set es"
  shows "(\<exists>fs \<in> ran m. e \<in> set fs) \<or> e = capacity_of s"
  using assms
  by (cases "m (sh_caddie s)")
    (auto simp: push_capacity_def ran_def capacity_of_def split: if_splits)

lemma fold_push_entries:
  assumes "es \<in> ran (fold push_capacity ss m)" "e \<in> set es"
  shows "(\<exists>fs \<in> ran m. e \<in> set fs) \<or> e \<in> capacity_of ` set ss"
  using assms
proof (induction ss arbitrary: m)
  case (Cons s ss)
  from Cons.prems have "es \<in> ran (fold push_capacity ss (push_capacity s m))" by simp
  from Cons.IH [OF this Cons.prems(2)] show ?case
  proof
    assume "\<exists>fs \<in> ran (push_capacity s m). e \<in> set fs"
    then show ?case using push_capacity_entries by fastforce
  qed simp
qed auto

lemma left_on_cong:
  assumes "dom m = dom n" "\<And>k. k \<in> dom m \<Longrightarrow> left_in c (the (m k)) = left_in c (the (n k))"
  shows "left_on c m = left_on c n"
  unfolding left_on_def using assms by (auto intro: sum.cong)

lemma left_on_start:
  "left_on c (shift_by_caddie shifts d)
   = sum_list (map sh_rounds (filter (\<lambda>s. sh_course s = Some c) (working_on shifts d)))"
proof -
  let ?day = "filter (\<lambda>s. sh_date s = d) shifts"
  let ?m = "fold push_capacity ?day Map.empty"
  have "left_on c (shift_by_caddie shifts d) = left_on c ?m"
    by (rule left_on_cong) (auto simp: shift_by_caddie_def Let_def left_in_sort dom_def)
  also have "\<dots> = sum_list (map (shift_contrib c) ?day)"
    using fold_push_left [of Map.empty ?day c] by (simp add: left_on_def)
  also have "\<dots> = sum_list (map sh_rounds (filter (\<lambda>s. sh_course s = Some c) (working_on shifts d)))"
    unfolding working_on_def by (induction shifts) (auto simp: shift_contrib_def)
  finally show ?thesis .
qed

lemma capacity_map_ok_start:
  assumes "\<forall>s \<in> set shifts. 0 \<le> sh_rounds s \<and> set_option (sh_course s) \<subseteq> K"
  shows "capacity_map_ok K (shift_by_caddie shifts d)"
proof -
  let ?day = "filter (\<lambda>s. sh_date s = d) shifts"
  have "finite (dom (shift_by_caddie shifts d))"
    using fold_push_left [of Map.empty ?day] by (simp add: shift_by_caddie_def Let_def dom_def)
  moreover have "0 \<le> sc_remaining e \<and> set_option (sc_course e) \<subseteq> K"
    if es: "es \<in> ran (shift_by_caddie shifts d)" and e: "e \<in> set es" for es e
  proof -
    from es obtain fs where "fs \<in> ran (fold push_capacity ?day Map.empty)"
      "es = sort_by (key_le shift_capacity_order) fs"
      by (auto simp: shift_by_caddie_def Let_def ran_def)
    with e have "e \<in> set fs" by simp
    with fold_push_entries [OF \<open>fs \<in> _\<close> this] assms show ?thesis by (auto simp: capacity_of_def)
  qed
  ultimately show ?thesis by (auto simp: capacity_map_ok_def)
qed

section \<open>Taking a round\<close>

lemma take_capacity_effect:
  assumes ok: "capacity_map_ok K m" and t: "take_capacity m k = (m', provider, backed)"
  shows "capacity_map_ok K m'
    \<and> (case provider of None \<Rightarrow> \<not> backed | Some p \<Rightarrow> p \<in> K)
    \<and> (\<forall>c. left_on c m' = left_on c m - of_bool (backed \<and> provider = Some c))"
proof (cases "m k")
  case None
  with t ok show ?thesis by (auto simp: take_capacity_def)
next
  case (Some es)
  then have es: "\<forall>e \<in> set es. 0 \<le> sc_remaining e \<and> set_option (sc_course e) \<subseteq> K"
    using ok by (auto simp: capacity_map_ok_def ran_def)
  show ?thesis
  proof (cases "position is_open es")
    case None
    with t Some have "m' = m" "\<not> backed"
      "provider = (case find (\<lambda>e. sc_working e \<and> sc_course e \<noteq> None) es of None \<Rightarrow> None | Some e \<Rightarrow> sc_course e)"
      by (auto simp: take_capacity_def simp del: position_None)
    moreover from this(3) have "p \<in> K" if "provider = Some p" for p
      using that es nth_mem by (fastforce split: option.splits simp: find_Some_iff)
    ultimately show ?thesis using ok by (auto split: option.splits)
  next
    case (Some i)
    let ?e = "(es ! i)\<lparr>sc_remaining := sc_remaining (es ! i) - 1\<rparr>"
    from Some have i: "i < length es" "is_open (es ! i)" by (auto dest: position_Some)
    from t \<open>m k = Some es\<close> Some have r: "m' = m(k \<mapsto> es[i := ?e])" "provider = sc_course (es ! i)" "backed"
      by (auto simp: take_capacity_def)
    have fin: "finite (dom m)" using ok by (simp add: capacity_map_ok_def)
    have "es ! i \<in> set es" using i by simp
    have "\<forall>e \<in> set (es[i := ?e]). 0 \<le> sc_remaining e \<and> set_option (sc_course e) \<subseteq> K"
    proof
      fix e assume "e \<in> set (es[i := ?e])"
      then consider "e = ?e" | "e \<in> set es" using set_update_subset_insert [of es i ?e] by auto
      then show "0 \<le> sc_remaining e \<and> set_option (sc_course e) \<subseteq> K"
        by cases (use es i \<open>es ! i \<in> set es\<close> in \<open>simp_all add: is_open_def\<close>)
    qed
    then have "capacity_map_ok K m'"
      using ok unfolding r capacity_map_ok_def by (auto simp: ran_def)
    moreover have "left_on c m' = left_on c m - of_bool (provider = Some c)" for c
      using i \<open>m k = Some es\<close> unfolding r
      by (simp add: left_on_update [OF fin] left_in_update) (simp add: left_in_def is_open_def)
    moreover have "\<exists>p \<in> K. provider = Some p"
    proof -
      have "set_option (sc_course (es ! i)) \<subseteq> K" using es \<open>es ! i \<in> set es\<close> by blast
      with i(2) r(2) show ?thesis by (auto simp: is_open_def)
    qed
    ultimately show ?thesis using r(3) by auto
  qed
qed

section \<open>One reservation\<close>

definition settle_target :: "course_id option \<Rightarrow> bool \<Rightarrow> course_supply \<Rightarrow> course_supply" where
  "settle_target provider backed c =
     (let c = c\<lparr>co_assigned := co_assigned c + 1, co_eff_attached := co_eff_attached c - 1\<rparr> in
      case provider of
        None \<Rightarrow> c\<lparr>co_unbacked := co_unbacked c + 1\<rparr>
      | Some p \<Rightarrow>
          c\<lparr>co_backed := co_backed c + of_bool backed, co_exceeded := co_exceeded c + of_bool (\<not> backed),
            co_mismatch := co_mismatch c + of_bool (p \<noteq> co_id c)\<rparr>)"

definition spend_provider :: "course_id option \<Rightarrow> bool \<Rightarrow> course_supply list \<Rightarrow> course_supply list" where
  "spend_provider provider backed courses =
     (case position (\<lambda>c. Some (co_id c) = provider) courses of
        None \<Rightarrow> courses
      | Some i \<Rightarrow> update_at i (\<lambda>c. c\<lparr>co_eff_capacity := co_eff_capacity c - of_bool backed\<rparr>) courses)"

lemma settle_target_id [simp]: "co_id (settle_target p b c) = co_id c"
  by (simp add: settle_target_def Let_def split: option.splits)

lemma update_at_twice:
  "i < length xs \<Longrightarrow> update_at i f (update_at i g xs) = update_at i (\<lambda>x. f (g x)) xs"
  by (simp add: update_at_def)

lemma update_at_nth: "i < length xs \<Longrightarrow> update_at i f xs ! i = f (xs ! i)"
  by (simp add: update_at_def)

lemma update_at_cong: "f (xs ! i) = g (xs ! i) \<Longrightarrow> update_at i f xs = update_at i g xs"
  by (simp add: update_at_def)

lemma length_update_at [simp]: "length (update_at i f xs) = length xs"
  by (simp add: update_at_def)

lemma cover_group_net:
  assumes g: "rows = first # rest"
    and t: "position (\<lambda>c. co_id c = cv_demand_course first) courses = Some target"
    and m: "take_capacity m (cv_caddie (rows ! unwrap_or (position (can_cover m) rows) 0))
      = (m', provider, backed)"
  shows "cover_group rows (courses, m) =
    (spend_provider provider backed (update_at target (settle_target provider backed) courses), m')"
proof -
  have len: "target < length courses" using t by (auto dest: position_Some)
  show ?thesis
  proof (cases provider)
    case None
    have np: "position (\<lambda>c. False) xs = None" for xs :: "course_supply list" by simp
    have "spend_provider provider backed xs = xs" for xs by (simp add: spend_provider_def None np)
    with None g t m len show ?thesis
      by (simp add: cover_group_def Let_def update_at_twice del: position_None)
        (rule update_at_cong, simp add: settle_target_def)
  next
    case (Some p)
    have "cover_group (first # rest) (courses, m) =
      (spend_provider provider backed (update_at target (settle_target provider backed) courses), m')"
      using m t len unfolding g Some
      by (cases backed; cases "p = co_id (courses ! target)")
        (simp_all add: cover_group_def spend_provider_def settle_target_def update_at_def Let_def
          del: position_None position.simps cong: option.case_cong)
    with g show ?thesis by simp
  qed
qed

section \<open>The invariant of the loop\<close>

definition row_ok :: "course_supply \<Rightarrow> bool" where
  "row_ok c \<longleftrightarrow> co_assigned c = co_backed c + co_unbacked c + co_exceeded c
     \<and> 0 \<le> co_backed c \<and> 0 \<le> co_unbacked c \<and> 0 \<le> co_exceeded c
     \<and> 0 \<le> co_mismatch c \<and> co_mismatch c \<le> co_backed c + co_exceeded c
     \<and> co_eff_attached c = co_attached c - co_assigned c"

definition cover_inv :: "course_id list \<Rightarrow> course_id set \<Rightarrow> int \<Rightarrow> cover_state \<Rightarrow> bool" where
  "cover_inv ids K tot st \<longleftrightarrow>
     map co_id (fst st) = ids \<and> capacity_map_ok K (snd st)
   \<and> (\<forall>c \<in> set (fst st). row_ok c \<and> co_eff_capacity c = left_on (co_id c) (snd st)
        \<and> co_eff_capacity c \<le> co_capacity c)
   \<and> (K \<subseteq> set ids \<longrightarrow> sum_list (map (\<lambda>c. co_eff_capacity c + co_backed c) (fst st)) = tot)"

lemma row_ok_settle: "row_ok c \<Longrightarrow> p = None \<longrightarrow> \<not> b \<Longrightarrow> row_ok (settle_target p b c)"
  by (cases b) (auto simp: row_ok_def settle_target_def Let_def split: option.splits)

lemma settle_target_keeps [simp]:
  "co_eff_capacity (settle_target p b c) = co_eff_capacity c"
  "co_capacity (settle_target p b c) = co_capacity c"
  "co_attached (settle_target p b c) = co_attached c"
  by (simp_all add: settle_target_def Let_def split: option.splits)

lemma set_update_at: "x \<in> set (update_at i f xs) \<Longrightarrow> i < length xs \<Longrightarrow> x \<in> set xs \<or> x = f (xs ! i)"
  unfolding update_at_def using set_update_subset_insert by fastforce

lemma spend_provider_map:
  assumes "distinct (map co_id cs)"
  shows "spend_provider p b cs =
    map (\<lambda>c. c\<lparr>co_eff_capacity := co_eff_capacity c - of_bool (b \<and> p = Some (co_id c))\<rparr>) cs"
proof (cases "position (\<lambda>c. Some (co_id c) = p) cs")
  case None
  then have "\<forall>c \<in> set cs. Some (co_id c) \<noteq> p" by simp
  then have "\<forall>c \<in> set cs. p \<noteq> Some (co_id c)" by metis
  then show ?thesis unfolding spend_provider_def by (subst None) (simp add: map_idI)
next
  case (Some i)
  then have i: "i < length cs" "p = Some (co_id (cs ! i))" by (auto dest: position_Some)
  have "p = Some (co_id (cs ! j)) \<longleftrightarrow> j = i" if "j < length cs" for j
    using assms i that by (auto simp: distinct_conv_nth)
  then show ?thesis
    by (auto simp: spend_provider_def Some update_at_def nth_list_update intro!: nth_equalityI)
qed

lemma sum_one_id:
  assumes "distinct (map co_id cs)" "q \<in> co_id ` set cs"
  shows "sum_list (map (\<lambda>c. of_bool (q = co_id c)) cs) = (1 :: int)"
  using assms
proof (induction cs)
  case (Cons c cs)
  have "sum_list (map (\<lambda>c. of_bool (q = co_id c)) cs) = (0 :: int)" if "q \<notin> co_id ` set cs"
    using that by (induction cs) auto
  with Cons show ?case by (auto simp: image_iff)
qed simp

lemma sum_list_map_diff:
  "sum_list (map (\<lambda>x. f x - g x) xs) = (sum_list (map f xs) - sum_list (map g xs) :: int)"
  by (induction xs) simp_all

lemma cover_inv_settled:
  assumes inv: "cover_inv ids K tot (courses, m)" and "distinct ids" "target < length courses"
    and t: "take_capacity m k = (m', provider, backed)"
  shows "cover_inv ids K tot
    (spend_provider provider backed (update_at target (settle_target provider backed) courses), m')"
proof -
  let ?g = "settle_target provider backed"
  let ?cs = "update_at target ?g courses"
  from inv have ids: "map co_id courses = ids" and okm: "capacity_map_ok K m"
    and rows: "\<And>c. c \<in> set courses \<Longrightarrow> row_ok c \<and> co_eff_capacity c = left_on (co_id c) m
        \<and> co_eff_capacity c \<le> co_capacity c"
    by (auto simp: cover_inv_def)
  note taken = take_capacity_effect [OF okm t]
  have none: "provider = None \<longrightarrow> \<not> backed" using taken by auto
  have ids': "map co_id ?cs = ids" using ids
    by (metis assms(3) list_update_id map_update nth_map settle_target_id update_at_def)
  then have dist: "distinct (map co_id ?cs)" using assms(2) by simp
  have rows': "row_ok c \<and> co_eff_capacity c = left_on (co_id c) m \<and> co_eff_capacity c \<le> co_capacity c"
    if "c \<in> set ?cs" for c
    using set_update_at [OF that assms(3)]
  proof
    assume "c = ?g (courses ! target)"
    moreover have "courses ! target \<in> set courses" using assms(3) by simp
    ultimately show ?thesis using rows [of "courses ! target"] row_ok_settle none by simp
  qed (rule rows)
  let ?spent = "\<lambda>c. c\<lparr>co_eff_capacity := co_eff_capacity c - of_bool (backed \<and> provider = Some (co_id c))\<rparr>"
  have spent: "row_ok (?spent c) \<and> co_eff_capacity (?spent c) = left_on (co_id (?spent c)) m'
      \<and> co_eff_capacity (?spent c) \<le> co_capacity (?spent c)" if "c \<in> set ?cs" for c
    using rows' [OF that] taken by (auto simp: row_ok_def)
  have sums: "sum_list (map (\<lambda>c. co_eff_capacity (?spent c) + co_backed (?spent c)) ?cs) = tot"
    if "K \<subseteq> set ids"
  proof -
    let ?f = "\<lambda>c. co_eff_capacity c + co_backed c"
    have "sum_list (map ?f ?cs) = tot - ?f (courses ! target) + ?f (?g (courses ! target))"
      unfolding update_at_def sum_list_map_update [OF assms(3)]
      using inv that by (simp add: cover_inv_def)
    also have "\<dots> = tot + of_bool backed"
      using none by (cases provider) (simp_all add: settle_target_def Let_def)
    finally have 1: "sum_list (map ?f ?cs) = tot + of_bool backed" .
    have "sum_list (map (\<lambda>c. of_bool (backed \<and> provider = Some (co_id c))) ?cs) = (of_bool backed :: int)"
    proof (cases "provider")
      case None
      with none show ?thesis by simp
    next
      case (Some q)
      with taken that ids' have "q \<in> co_id ` set ?cs" by (metis list.set_map option.simps(5) subsetD)
      from sum_one_id [OF dist this] Some show ?thesis by (cases backed) simp_all
    qed
    with 1 sum_list_map_diff [of ?f "\<lambda>c. of_bool (backed \<and> provider = Some (co_id c))" ?cs]
    show ?thesis by (simp add: algebra_simps)
  qed
  show ?thesis
    unfolding spend_provider_map [OF dist] cover_inv_def fst_conv snd_conv
  proof (intro conjI impI)
    show "map co_id (map ?spent ?cs) = ids" using ids' by (simp add: comp_def)
    show "capacity_map_ok K m'" using taken by simp
    have "row_ok x \<and> co_eff_capacity x = left_on (co_id x) m' \<and> co_eff_capacity x \<le> co_capacity x"
      if "x \<in> ?spent ` set ?cs" for x
      using that by (rule imageE) (hypsubst, rule spent)
    then show "\<forall>x \<in> set (map ?spent ?cs). row_ok x \<and> co_eff_capacity x = left_on (co_id x) m'
        \<and> co_eff_capacity x \<le> co_capacity x" unfolding list.set_map by (rule ballI)
    show "sum_list (map (\<lambda>c. co_eff_capacity c + co_backed c) (map ?spent ?cs)) = tot"
      if "K \<subseteq> set ids" using sums [OF that] by (simp add: comp_def)
  qed
qed

lemma cover_inv_step:
  assumes "cover_inv ids K tot st" "distinct ids"
  shows "cover_inv ids K tot (cover_group rows st)"
proof -
  obtain courses m where st: "st = (courses, m)" by force
  show ?thesis
  proof (cases rows)
    case Nil
    with assms st show ?thesis by (simp add: cover_group_def)
  next
    case (Cons first rest)
    show ?thesis
    proof (cases "position (\<lambda>c. co_id c = cv_demand_course first) courses")
      case None
      with assms st Cons show ?thesis by (simp add: cover_group_def del: position_None)
    next
      case (Some target)
      obtain m' provider backed where t: "take_capacity m
          (cv_caddie (rows ! unwrap_or (position (can_cover m) rows) 0)) = (m', provider, backed)"
        by (metis prod_cases3)
      have "target < length courses" using Some by (auto dest: position_Some)
      from cover_inv_settled [OF assms(1)[unfolded st] assms(2) this t]
      show ?thesis unfolding st cover_group_net [OF Cons Some t] .
    qed
  qed
qed

lemma cover_inv_fold:
  "cover_inv ids K tot st \<Longrightarrow> distinct ids \<Longrightarrow> cover_inv ids K tot (fold cover_group gs st)"
  by (induction gs arbitrary: st) (simp_all add: cover_inv_step)

section \<open>The order of the hash map\<close>

lemma hd_sort_member:
  assumes "\<exists>v \<in> set coverage. cv_reservation v = r"
  shows "cv_reservation (hd (sort_by le (filter (\<lambda>v. cv_reservation v = r) coverage))) = r"
proof -
  let ?xs = "sort_by le (filter (\<lambda>v. cv_reservation v = r) coverage)"
  from assms obtain v where "v \<in> set ?xs" by auto
  then have "hd ?xs \<in> set ?xs" by (cases ?xs) simp_all
  then show ?thesis by simp
qed

lemma ordered_groups_cong:
  assumes "mset keys = mset keys'" "\<forall>r \<in> set keys. \<exists>v \<in> set coverage. cv_reservation v = r"
  shows "ordered_groups keys coverage = ordered_groups keys' coverage"
  unfolding ordered_groups_def
proof (rule by_key.sort_by_order_irrelevant)
  let ?row = "\<lambda>r. sort_by (key_le member_order) (filter (\<lambda>v. cv_reservation v = r) coverage)"
  show "mset (map (sort_by (key_le member_order)) (coverage_groups keys coverage))
      = mset (map (sort_by (key_le member_order)) (coverage_groups keys' coverage))"
    using assms(1) by (simp add: coverage_groups_def)
  fix x y
  assume "x \<in> set (map (sort_by (key_le member_order)) (coverage_groups keys coverage))"
    "y \<in> set (map (sort_by (key_le member_order)) (coverage_groups keys coverage))"
  then obtain r q where xy: "r \<in> set keys" "x = ?row r" "q \<in> set keys" "y = ?row q"
    by (auto simp: coverage_groups_def)
  assume "key_le group_order x y" "key_le group_order y x"
  then have "group_order x = group_order y" unfolding key_le_def by (rule order.antisym)
  then have "cv_reservation (hd x) = cv_reservation (hd y)" by (simp add: group_order_def)
  with xy assms(2) have "r = q" by (simp add: hd_sort_member)
  with xy show "x = y" by simp
qed

text \<open>
  C34. The order in which the hash map hands out the reservations does not reach the day's
  supply: whatever order its keys come in, the same courses, counters and shortfalls result.
\<close>

theorem coverage_ignores_hash_order:
  assumes "distinct keys" "distinct keys'"
    and "set keys = cv_reservation ` set coverage" "set keys' = cv_reservation ` set coverage"
  shows "apply_assignment_coverage keys shifts coverage supply
    = apply_assignment_coverage keys' shifts coverage supply"
proof -
  have "mset keys = mset keys'"
    using set_eq_iff_mset_eq_distinct [OF assms(1,2)] assms(3,4) by simp
  moreover have "\<forall>r \<in> set keys. \<exists>v \<in> set coverage. cv_reservation v = r" using assms by auto
  ultimately show ?thesis by (simp add: apply_assignment_coverage_def ordered_groups_cong)
qed

definition sample_shift :: "str \<Rightarrow> str option \<Rightarrow> int \<Rightarrow> caddie_shift" where
  "sample_shift k c n = shift_reconstitute k 3 c True FullDay n Generated None None None"

definition sample_shifts :: "caddie_shift list" where
  "sample_shifts = [sample_shift ''a'' (Some ''east'') 1, sample_shift ''b'' (Some ''west'') 2,
     sample_shift ''c'' None 2]"

definition sample_coverage :: "coverage list" where
  "sample_coverage = [coverage_new ''r1'' ''east'' ''a'' ''x1'', coverage_new ''r2'' ''east'' ''a'' ''x2'',
     coverage_new ''r3'' ''east'' ''b'' ''x3'']"

definition sample_courses :: "(course_id \<times> str) list" where
  "sample_courses = [(''east'', ''East''), (''west'', ''West'')]"

theorem coverage_ignores_hash_order_witness:
  "apply_assignment_coverage [''r1'', ''r2'', ''r3''] sample_shifts sample_coverage
     (compute_course_supply 3 sample_courses sample_shifts (\<lambda>_. Some 4))
   = apply_assignment_coverage [''r3'', ''r1'', ''r2''] sample_shifts sample_coverage
     (compute_course_supply 3 sample_courses sample_shifts (\<lambda>_. Some 4))"
  by (rule coverage_ignores_hash_order) (auto simp: sample_coverage_def coverage_new_def)

section \<open>The day's balance\<close>

lemma cover_inv_start:
  assumes rounds: "\<forall>s \<in> set shifts. 0 \<le> sh_rounds s \<and> set_option (sh_course s) \<subseteq> K"
  shows "cover_inv (map fst courses) K
    (sum_list (map co_capacity (ds_courses (compute_course_supply d courses shifts attached))))
    (map reset_effective (ds_courses (compute_course_supply d courses shifts attached)),
     shift_by_caddie shifts d)"
  unfolding cover_inv_def
  using capacity_map_ok_start [OF rounds]
  by (auto simp: compute_course_supply_def course_row_def reset_effective_def row_ok_def
      left_on_start Let_def comp_def)

definition course_balanced :: "course_supply \<Rightarrow> bool" where
  "course_balanced c \<longleftrightarrow>
     co_assigned c = co_backed c + co_unbacked c + co_exceeded c
   \<and> co_mismatch c \<le> co_backed c + co_exceeded c
   \<and> co_eff_attached c = co_attached c - co_assigned c
   \<and> 0 \<le> co_eff_capacity c \<and> co_eff_capacity c \<le> co_capacity c
   \<and> co_eff_shortfall c = co_eff_capacity c - co_eff_attached c"

text \<open>
  C33. After the assignments are applied every course balances: an assigned group is backed,
  over capacity or without a shift, and exactly one of the three; the open demand is what was
  not assigned; the capacity left lies between zero and the raw capacity; and over courses
  that include every placement, each backed group has used up exactly one round.
\<close>

theorem coverage_balances_the_day:
  assumes "distinct (map fst courses)" "\<forall>s \<in> set shifts. 0 \<le> sh_rounds s"
  shows "let res = apply_assignment_coverage keys shifts coverage
             (compute_course_supply d courses shifts attached) in
      (\<forall>c \<in> set (ds_courses res). course_balanced c)
    \<and> map co_id (ds_courses res) = map fst courses
    \<and> ((\<forall>s \<in> set shifts. set_option (sh_course s) \<subseteq> fst ` set courses) \<longrightarrow>
        sum_list (map co_eff_capacity (ds_courses res)) + sum_list (map co_backed (ds_courses res))
        = sum_list (map co_capacity (ds_courses (compute_course_supply d courses shifts attached))))"
proof -
  let ?supply = "compute_course_supply d courses shifts attached"
  let ?tot = "sum_list (map co_capacity (ds_courses ?supply))"
  let ?start = "(map reset_effective (ds_courses ?supply), shift_by_caddie shifts d)"
  obtain cs m where fin: "fold cover_group (ordered_groups keys coverage) ?start = (cs, m)" by force
  have d: "ds_date ?supply = d" by (simp add: compute_course_supply_def Let_def)
  have inv: "cover_inv (map fst courses) K ?tot (cs, m)"
    if "\<forall>s \<in> set shifts. set_option (sh_course s) \<subseteq> K" for K
  proof -
    have "\<forall>s \<in> set shifts. 0 \<le> sh_rounds s \<and> set_option (sh_course s) \<subseteq> K"
      using that assms(2) by blast
    from cover_inv_fold [OF cover_inv_start [OF this] assms(1)] fin show ?thesis by metis
  qed
  have res: "ds_courses (apply_assignment_coverage keys shifts coverage ?supply) = map settle_shortfall cs"
    using fin by (simp add: apply_assignment_coverage_def d)
  have i: "cover_inv (map fst courses) UNIV ?tot (cs, m)" by (rule inv) simp
  then have "course_balanced (settle_shortfall c)" if "c \<in> set cs" for c
    using that left_on_nonneg [of UNIV m]
    by (auto simp: cover_inv_def row_ok_def course_balanced_def settle_shortfall_def)
  moreover have "map co_id (map settle_shortfall cs) = map fst courses"
    using i by (simp add: cover_inv_def settle_shortfall_def comp_def)
  moreover have "sum_list (map co_eff_capacity (map settle_shortfall cs))
      + sum_list (map co_backed (map settle_shortfall cs)) = ?tot"
    if "\<forall>s \<in> set shifts. set_option (sh_course s) \<subseteq> fst ` set courses"
    using inv [OF that] by (simp add: cover_inv_def settle_shortfall_def comp_def sum_list_addf)
  ultimately show ?thesis unfolding Let_def res by simp
qed

theorem coverage_balances_the_day_witness:
  "let res = apply_assignment_coverage [''r1'', ''r2'', ''r3''] sample_shifts sample_coverage
       (compute_course_supply 3 sample_courses sample_shifts (\<lambda>_. Some 4)) in
     map co_backed (ds_courses res) = [2, 0] \<and> map co_exceeded (ds_courses res) = [1, 0]
   \<and> map co_mismatch (ds_courses res) = [1, 0]
   \<and> sum_list (map co_eff_capacity (ds_courses res)) + sum_list (map co_backed (ds_courses res)) = 3"
proof -
  let ?supply = "compute_course_supply 3 sample_courses sample_shifts (\<lambda>_. Some 4)"
  let ?res = "apply_assignment_coverage [''r1'', ''r2'', ''r3''] sample_shifts sample_coverage ?supply"
  have 1: "map co_backed (ds_courses ?res) = [2, 0]" "map co_exceeded (ds_courses ?res) = [1, 0]"
    "map co_mismatch (ds_courses ?res) = [1, 0]"
    by code_simp+
  have 2: "sum_list (map co_capacity (ds_courses ?supply)) = 3" by code_simp
  have 3: "distinct (map fst sample_courses)" "\<forall>s \<in> set sample_shifts. 0 \<le> sh_rounds s"
    "\<forall>s \<in> set sample_shifts. set_option (sh_course s) \<subseteq> fst ` set sample_courses"
    by code_simp+
  from coverage_balances_the_day [OF 3(1,2), of "[''r1'', ''r2'', ''r3'']" sample_coverage 3
      "\<lambda>_. Some 4"] 3(3) 1 2
  show ?thesis unfolding Let_def by simp
qed

section \<open>Reinforcements\<close>

lemma map_filter_case:
  "List.map_filter f xs = map (\<lambda>x. the (f x)) (filter (\<lambda>x. f x \<noteq> None) xs)"
  by (induction xs) (auto simp: List.map_filter_def)

definition can_reinforce :: "course_id \<Rightarrow> date \<Rightarrow> (str \<rightharpoonup> capability) \<Rightarrow> caddie_shift \<Rightarrow> bool" where
  "can_reinforce target d caps s \<longleftrightarrow>
     sh_date s = d \<and> sh_working s \<and> is_movable (sh_origin s) \<and> sh_course s \<noteq> Some target
   \<and> (\<exists>c. caps (sh_caddie s) = Some c \<and> target \<in> set (cb_courses c))"

text \<open>
  Whoever can be sent to a short course is offered exactly once per confirmed day: working,
  not pinned, not already there, with a membership for the course; and the list puts people
  placed nowhere first, then those coming home, then the rest, each by caddie id.
\<close>

theorem reinforcements_exact:
  "mset (map rf_shift (reinforcements_for target d shifts caps))
     = mset (filter (can_reinforce target d caps) shifts)
   \<and> sorted_wrt (key_le reinforcement_order) (reinforcements_for target d shifts caps)
   \<and> (\<forall>r \<in> set (reinforcements_for target d shifts caps). rf_returns_home r \<longleftrightarrow>
        cb_main (the (caps (sh_caddie (rf_shift r)))) = Some target)"
proof -
  let ?f = "\<lambda>s. case caps (sh_caddie s) of None \<Rightarrow> None
     | Some c \<Rightarrow> if \<not> can_work c target then None
         else Some \<lparr>rf_shift = s, rf_returns_home = (cb_main c = Some target)\<rparr>"
  let ?pre = "filter (\<lambda>s. sh_course s \<noteq> Some target)
     (filter (\<lambda>s. is_movable (sh_origin s)) (working_on shifts d))"
  have shift: "rf_shift (the (?f s)) = s" if "?f s \<noteq> None" for s
    using that by (auto split: option.splits if_splits)
  have "map rf_shift (List.map_filter ?f ?pre) = filter (\<lambda>s. ?f s \<noteq> None) ?pre"
    unfolding map_filter_case map_map by (rule map_idI) (use shift in auto)
  also have "\<dots> = filter (can_reinforce target d caps) shifts"
    unfolding working_on_def filter_filter
    by (rule filter_cong) (auto simp: can_reinforce_def can_work_def split: option.splits)
  finally have pre: "map rf_shift (List.map_filter ?f ?pre) = filter (can_reinforce target d caps) shifts" .
  have "mset (map rf_shift (reinforcements_for target d shifts caps))
      = mset (map rf_shift (List.map_filter ?f ?pre))"
    by (simp only: reinforcements_for_def mset_map mset_sort_by)
  then have "mset (map rf_shift (reinforcements_for target d shifts caps))
      = mset (filter (can_reinforce target d caps) shifts)" by (simp only: pre)
  moreover have "rf_returns_home r \<longleftrightarrow> cb_main (the (caps (sh_caddie (rf_shift r)))) = Some target"
    if "r \<in> set (reinforcements_for target d shifts caps)" for r
    using that by (auto simp: reinforcements_for_def map_filter_case split: option.splits if_splits)
  ultimately show ?thesis
    using by_key.sorted_sort_by unfolding reinforcements_for_def by blast
qed

theorem reinforcements_exact_witness:
  "map (\<lambda>r. sh_caddie (rf_shift r)) (reinforcements_for ''east'' 3 sample_shifts
     (\<lambda>k. Some \<lparr>cb_courses = [''east'', ''west''], cb_main = Some ''west''\<rparr>)) = [''c'', ''b'']
   \<and> sorted_wrt (key_le reinforcement_order) (reinforcements_for ''east'' 3 sample_shifts
     (\<lambda>k. Some \<lparr>cb_courses = [''east'', ''west''], cb_main = Some ''west''\<rparr>))"
  by (rule conjI, code_simp) (simp only: reinforcements_exact)

text \<open>
  The cap of the use case counts rounds, not halves: a morning caddie whose morning is taken by
  other work still counts for one round, though the tenant-wide count drops them.
\<close>

lemma morning_caddie_on_morning_work_counted:
  "let s = shift_reconstitute ''a'' 3 (Some ''east'') True Morning 1 Generated None None None;
       duty = sample_duty ''a'' 480 720 in
     counted_shifts {''a''} [duty] 3 [s] = [s]
   \<and> narrowed_by_duty (Some MorningOnly) (free_halves [duty] ''a'' 3) = None"
  unfolding Let_def by (rule conjI; code_simp)

end
