(* ===== verification/TextFormats.thy ===== *)
theory TextFormats
  imports Prelude
begin

text \<open>
  Text the program writes and reads: decimal numbers (\<open>to_string\<close>, \<open>parse\<close>) and the CSV
  fields of \<open>src/course/domain/payroll.rs\<close>. \<open>csv_rows\<close> is the specification of a CSV
  reader (quotes as RFC 4180 has them) that the exported files are checked against.
\<close>

section \<open>Decimal numbers\<close>

text \<open>\<open>str::split_once\<close> at a one-byte character.\<close>

definition split_once :: "char \<Rightarrow> str \<Rightarrow> (str \<times> str) option" where
  "split_once c s =
     (case dropWhile (\<lambda>x. x \<noteq> c) s of [] \<Rightarrow> None | _ # r \<Rightarrow> Some (takeWhile (\<lambda>x. x \<noteq> c) s, r))"

definition digit_char :: "nat \<Rightarrow> char" where
  "digit_char d = char_of (48 + d)"

definition is_digit :: "char \<Rightarrow> bool" where
  "is_digit c \<longleftrightarrow> 48 \<le> byte_of c \<and> byte_of c \<le> 57"

fun show_nat :: "nat \<Rightarrow> str" where
  "show_nat n = (if n < 10 then [digit_char n] else show_nat (n div 10) @ [digit_char (n mod 10)])"

declare show_nat.simps [simp del]

definition show_int :: "int \<Rightarrow> str" where
  "show_int i = (if i < 0 then CHR ''-'' # show_nat (nat (- i)) else show_nat (nat i))"

definition show_bool :: "bool \<Rightarrow> str" where
  "show_bool b = (if b then ''true'' else ''false'')"

definition digits_value :: "str \<Rightarrow> nat" where
  "digits_value s = foldl (\<lambda>acc c. acc * 10 + (byte_of c - 48)) 0 s"

definition parse_digits :: "str \<Rightarrow> nat option" where
  "parse_digits s = (if s \<noteq> [] \<and> list_all is_digit s then Some (digits_value s) else None)"

text \<open>\<open>str::parse\<close> of an unsigned number allows a leading \<open>+\<close>, of a signed one also \<open>-\<close>.\<close>

definition parse_unsigned :: "nat \<Rightarrow> str \<Rightarrow> nat option" where
  "parse_unsigned bits s =
     (case parse_digits (case s of c # r \<Rightarrow> if c = CHR ''+'' \<and> r \<noteq> [] then r else s | [] \<Rightarrow> s) of
        None \<Rightarrow> None
      | Some n \<Rightarrow> if int n < 2 ^ bits then Some n else None)"

definition parse_u8 :: "str \<Rightarrow> nat option" where "parse_u8 = parse_unsigned 8"
definition parse_u16 :: "str \<Rightarrow> nat option" where "parse_u16 = parse_unsigned 16"
definition parse_u32 :: "str \<Rightarrow> int option" where "parse_u32 s = map_option int (parse_unsigned 32 s)"

definition parse_i32 :: "str \<Rightarrow> int option" where
  "parse_i32 s =
     (case s of [] \<Rightarrow> None
      | c # r \<Rightarrow>
          let v = (if c = CHR ''-'' then map_option (\<lambda>n. - int n) (parse_digits r)
                   else if c = CHR ''+'' then map_option int (parse_digits r)
                   else map_option int (parse_digits s))
          in (case v of None \<Rightarrow> None | Some i \<Rightarrow> if in_i32 i then Some i else None))"

lemma byte_digit [simp]: "d < 10 \<Longrightarrow> byte_of (digit_char d) = 48 + d"
  by (simp add: byte_of_def digit_char_def)

lemma is_digit_char [simp]: "d < 10 \<Longrightarrow> is_digit (digit_char d)"
  by (simp add: is_digit_def)

lemma show_nat_digits: "list_all is_digit (show_nat n) \<and> show_nat n \<noteq> []"
proof (induction n rule: show_nat.induct)
  case (1 n)
  then show ?case by (subst (1 2) show_nat.simps) simp
qed

lemma digits_value_show: "digits_value (show_nat n) = n"
proof (induction n rule: show_nat.induct)
  case (1 n)
  then show ?case by (subst show_nat.simps) (simp add: digits_value_def)
qed

lemma parse_show_nat: "parse_digits (show_nat n) = Some n"
  using show_nat_digits [of n] by (simp add: parse_digits_def digits_value_show)

section \<open>Clock text\<close>

text \<open>\<open>{:02}\<close>, and \<open>HH:MM\<close> of a minute of the day.\<close>

definition two_digits :: "nat \<Rightarrow> str" where
  "two_digits n = (let s = show_nat n in if length s < 2 then CHR ''0'' # s else s)"

lemma show_nat_short: "n < 10 \<Longrightarrow> show_nat n = [digit_char n]"
  by (subst show_nat.simps) simp

lemma show_nat_two: "10 \<le> n \<Longrightarrow> n < 100 \<Longrightarrow> show_nat n = [digit_char (n div 10), digit_char (n mod 10)]"
  by (subst show_nat.simps) (simp add: show_nat_short)

lemma digit_zero: "digit_char 0 = CHR ''0''"
  by code_simp

lemma two_digits_digits: "n < 100 \<Longrightarrow> two_digits n = [digit_char (n div 10), digit_char (n mod 10)]"
  by (cases "n < 10") (simp_all add: two_digits_def show_nat_short show_nat_two digit_zero)

lemma digit_char_ne:
  assumes "d < 10"
  shows "digit_char d \<noteq> CHR '':'' \<and> digit_char d \<noteq> CHR ''+''"
proof -
  have "list_all (\<lambda>d. digit_char d \<noteq> CHR '':'' \<and> digit_char d \<noteq> CHR ''+'') [0..<10]" by code_simp
  with assms show ?thesis by (simp add: list_all_iff)
qed

lemma parse_two_digits:
  assumes "n < 100" "7 \<le> bits"
  shows "parse_unsigned bits (two_digits n) = Some n"
proof -
  have d: "n div 10 < 10" "n mod 10 < 10" using assms by auto
  have "digits_value [digit_char (n div 10), digit_char (n mod 10)] = n"
    using d by (simp add: digits_value_def)
  moreover have "int n < 2 ^ bits"
    using assms power_increasing [of 7 bits "2 :: int"] by (simp del: of_nat_less_numeral_power_cancel_iff of_nat_less_of_nat_power_cancel_iff)
  ultimately show ?thesis
    using d assms digit_char_ne [OF d(1)]
    by (simp add: parse_unsigned_def two_digits_digits parse_digits_def)
qed

lemma two_digits_no_colon: "n < 100 \<Longrightarrow> CHR '':'' \<notin> set (two_digits n)"
  using digit_char_ne [of "n div 10"] digit_char_ne [of "n mod 10"] by (auto simp: two_digits_digits div_less_iff_less_mult)

definition clock_text :: "nat \<Rightarrow> str" where
  "clock_text m = two_digits (m div 60) @ [CHR '':''] @ two_digits (m mod 60)"

lemma digit_char_less: "a < 10 \<Longrightarrow> b < 10 \<Longrightarrow> digit_char a < digit_char b \<longleftrightarrow> a < b"
  by (simp add: digit_char_def less_char_def)

lemma digit_char_eq: "a < 10 \<Longrightarrow> b < 10 \<Longrightarrow> digit_char a = digit_char b \<longleftrightarrow> a = b"
  by (metis digit_char_less less_irrefl linorder_neqE_nat)

lemma less_by_div_mod: "a < b \<longleftrightarrow> a div k < b div k \<or> a div k = b div k \<and> a mod k < b mod (k :: nat)"
proof
  assume less: "a < b"
  then have "a div k \<le> b div k" by (simp add: div_le_mono)
  moreover have "a mod k < b mod k" if "a div k = b div k"
    using less that mult_div_mod_eq [of k a] mult_div_mod_eq [of k b] by (metis add_less_cancel_left)
  ultimately show "a div k < b div k \<or> a div k = b div k \<and> a mod k < b mod k" by linarith
next
  assume r: "a div k < b div k \<or> a div k = b div k \<and> a mod k < b mod k"
  then show "a < b"
  proof
    assume "a div k < b div k"
    then show ?thesis using div_le_mono [of b a k] by linarith
  next
    assume "a div k = b div k \<and> a mod k < b mod k"
    then show ?thesis using mult_div_mod_eq [of k a] mult_div_mod_eq [of k b] by (metis add_less_cancel_left)
  qed
qed

lemma eq_by_div_mod: "a = b \<longleftrightarrow> a div k = b div k \<and> a mod k = b mod (k :: nat)"
  by (metis mult_div_mod_eq)

text \<open>The text order of two clock times is their order in the day.\<close>

lemma two_digits_append_less:
  assumes "a < 100" "b < 100"
  shows "two_digits a @ s < two_digits b @ t \<longleftrightarrow> a < b \<or> a = b \<and> s < t"
proof -
  have d: "a div 10 < 10" "a mod 10 < 10" "b div 10 < 10" "b mod 10 < 10" using assms by auto
  show ?thesis
    unfolding less_by_div_mod [of a b 10] eq_by_div_mod [of a b 10] two_digits_digits [OF assms(1)]
      two_digits_digits [OF assms(2)] append.simps Cons_less_Cons digit_char_less [OF d(1,3)]
      digit_char_less [OF d(2,4)] digit_char_eq [OF d(1,3)] digit_char_eq [OF d(2,4)]
    by blast
qed

lemma clock_text_less:
  assumes "a < 1440" "b < 1440"
  shows "clock_text a < clock_text b \<longleftrightarrow> a < b"
proof -
  have bounds: "a div 60 < 100" "b div 60 < 100" "a mod 60 < 100" "b mod 60 < 100" using assms by auto
  show ?thesis
    using two_digits_append_less [OF bounds(1,2)] two_digits_append_less [OF bounds(3,4), of "[]" "[]"]
      less_by_div_mod [of a b 60] by (simp add: clock_text_def)
qed

lemma clock_text_inj: "a < 1440 \<Longrightarrow> b < 1440 \<Longrightarrow> clock_text a = clock_text b \<longleftrightarrow> a = b"
  by (metis clock_text_less less_irrefl linorder_neqE_nat)

text \<open>\<open>chars().take(n)\<close>: the first \<open>n\<close> characters with their continuation bytes.\<close>

definition continues :: "char \<Rightarrow> bool" where
  "continues c \<longleftrightarrow> 128 \<le> byte_of c \<and> byte_of c < 192"

fun take_chars :: "nat \<Rightarrow> str \<Rightarrow> str" where
  "take_chars n [] = []"
| "take_chars 0 (c # s) = (if continues c then c # take_chars 0 s else [])"
| "take_chars (Suc n) (c # s) = (if continues c then c # take_chars (Suc n) s else c # take_chars n s)"

lemma take_chars_ascii: "list_all (\<lambda>c. \<not> continues c) (take (Suc n) s) \<Longrightarrow> take_chars n s = take n s"
proof (induction n arbitrary: s)
  case 0
  then show ?case by (cases s) auto
next
  case (Suc n)
  then show ?case by (cases s) auto
qed

lemma two_digits_ascii: "n < 100 \<Longrightarrow> list_all (\<lambda>c. \<not> continues c) (two_digits n)"
  using mod_less_divisor [of 10 n]
  by (simp add: two_digits_digits continues_def div_less_iff_less_mult not_le del: mod_less_divisor)

lemma clock_text_shape:
  assumes "m < 1440"
  shows "length (clock_text m) = 5" "list_all (\<lambda>c. \<not> continues c) (clock_text m)"
proof -
  have b: "m div 60 < 100" "m mod 60 < 100" using assms by auto
  show "length (clock_text m) = 5" using b by (simp add: clock_text_def two_digits_digits)
  show "list_all (\<lambda>c. \<not> continues c) (clock_text m)"
    using two_digits_ascii [OF b(1)] two_digits_ascii [OF b(2)]
    by (simp add: clock_text_def continues_def byte_of_def)
qed

section \<open>Padded numbers\<close>

text \<open>\<open>{:0w}\<close>: zeros after the sign, up to the width.\<close>

definition zeros_before :: "nat \<Rightarrow> str \<Rightarrow> str" where
  "zeros_before w s = replicate (w - length s) (CHR ''0'') @ s"

definition show_padded :: "nat \<Rightarrow> int \<Rightarrow> str" where
  "show_padded w i =
     (if i < 0 then CHR ''-'' # zeros_before (w - 1) (show_nat (nat (- i)))
      else zeros_before w (show_nat (nat i)))"

lemma length_show_nat: "n < 10 ^ k \<Longrightarrow> 0 < k \<Longrightarrow> length (show_nat n) \<le> k"
proof (induction n arbitrary: k rule: show_nat.induct)
  case (1 n)
  show ?case
  proof (cases "n < 10")
    case True
    then show ?thesis using "1.prems" by (simp add: show_nat_short)
  next
    case False
    then obtain j where j: "k = Suc j" "0 < j"
      using "1.prems" by (cases k; cases "k - 1") auto
    then have "length (show_nat (n div 10)) \<le> j"
      using "1.prems" False by (intro "1.IH") (auto simp: div_less_iff_less_mult mult.commute)
    then show ?thesis using False j by (subst show_nat.simps) simp
  qed
qed

lemma digits_value_zeros: "digits_value (replicate k (CHR ''0'') @ s) = digits_value s"
proof -
  have "byte_of (CHR ''0'') = 48" by code_simp
  then have "foldl (\<lambda>acc c. acc * 10 + (byte_of c - 48)) 0 (replicate k (CHR ''0'')) = (0 :: nat)"
    by (induction k) simp_all
  then show ?thesis by (simp add: digits_value_def)
qed

lemma parse_zeros_before: "parse_digits (zeros_before w (show_nat n)) = Some n"
proof -
  have "is_digit (CHR ''0'')" by code_simp
  then show ?thesis
    using show_nat_digits [of n]
    by (auto simp: parse_digits_def zeros_before_def digits_value_zeros digits_value_show list_all_iff)
qed

lemma is_digit_not_sign: "is_digit c \<Longrightarrow> c \<noteq> CHR ''+'' \<and> c \<noteq> CHR ''-''"
  by (auto simp: is_digit_def byte_of_def)

lemma zeros_before_facts:
  assumes "n < 10 ^ w" "0 < w"
  shows "length (zeros_before w (show_nat n)) = w" "list_all is_digit (zeros_before w (show_nat n))"
proof -
  have "is_digit (CHR ''0'')" by code_simp
  then show "list_all is_digit (zeros_before w (show_nat n))"
    using show_nat_digits [of n] by (auto simp: zeros_before_def list_all_iff)
  show "length (zeros_before w (show_nat n)) = w"
    using length_show_nat [OF assms] by (simp add: zeros_before_def)
qed

lemma parse_i32_padded:
  assumes "n < 10 ^ w" "0 < w" "n < 2 ^ 31"
  shows "parse_i32 (zeros_before w (show_nat n)) = Some (int n)"
proof -
  obtain c r where s: "zeros_before w (show_nat n) = c # r"
    using zeros_before_facts(1) [OF assms(1,2)] assms(2) by (cases "zeros_before w (show_nat n)") auto
  then have "c \<noteq> CHR ''+'' \<and> c \<noteq> CHR ''-''"
    using zeros_before_facts(2) [OF assms(1,2)] is_digit_not_sign by simp
  moreover have "in_i32 (int n)" using assms(3) by (simp add: in_i32_def i32_min_def i32_max_def)
  ultimately show ?thesis using parse_zeros_before [of w n] by (simp add: parse_i32_def s)
qed

lemma parse_u32_padded:
  assumes "n < 10 ^ w" "0 < w" "n < 2 ^ 31"
  shows "parse_u32 (zeros_before w (show_nat n)) = Some (int n)"
proof -
  obtain c r where s: "zeros_before w (show_nat n) = c # r"
    using zeros_before_facts(1) [OF assms(1,2)] assms(2) by (cases "zeros_before w (show_nat n)") auto
  then have "c \<noteq> CHR ''+''"
    using zeros_before_facts(2) [OF assms(1,2)] is_digit_not_sign by simp
  moreover have "int n < 2 ^ 32" using assms(3) by simp
  ultimately show ?thesis using parse_zeros_before [of w n] by (simp add: parse_u32_def parse_unsigned_def s)
qed

text \<open>Printable ASCII is not trimmed.\<close>

definition visible :: "char \<Rightarrow> bool" where
  "visible c \<longleftrightarrow> 33 \<le> byte_of c \<and> byte_of c < 128"

lemma ws_bytes_visible: "list_all (\<lambda>b. 33 \<le> b \<and> b < 128) bs \<Longrightarrow> ws_bytes bs = 0"
  by (cases bs) (auto split: list.splits)

lemma trim_visible:
  assumes "list_all visible s"
  shows "trim s = s"
proof -
  have v: "list_all (\<lambda>b. 33 \<le> b \<and> b < 128) (map byte_of t)" if "set t \<subseteq> set s" for t
    using that assms by (auto simp: list_all_iff visible_def)
  have "ws_prefix s = 0"
    unfolding ws_prefix_def by (rule ws_bytes_visible, rule v) (rule set_take_subset)
  then have start: "trim_start s = s" by (subst trim_start.simps) simp
  have "ws_bytes (map byte_of t) = 0" if "set t \<subseteq> set s" for t
    by (rule ws_bytes_visible [OF v [OF that]])
  moreover have "set (take k (rev s)) \<subseteq> set s" for k using set_take_subset [of k "rev s"] by simp
  ultimately have "ws_suffix (rev s) = 0" by (simp add: ws_suffix_def)
  then show ?thesis by (simp add: trim_def start) (subst trim_rev.simps, simp)
qed

lemma digit_visible: "is_digit c \<Longrightarrow> visible c"
  by (simp add: is_digit_def visible_def)

section \<open>CSV\<close>

definition csv_special :: "char \<Rightarrow> bool" where
  "csv_special c \<longleftrightarrow> c = CHR '','' \<or> c = CHR 0x22 \<or> c = CHR 0x0A \<or> c = CHR 0x0D"

definition escape_quotes :: "str \<Rightarrow> str" where
  "escape_quotes s = concat (map (\<lambda>c. if c = CHR 0x22 then [c, c] else [c]) s)"

definition csv_field :: "str \<Rightarrow> str" where
  "csv_field v =
     (if list_ex csv_special v then CHR 0x22 # escape_quotes v @ [CHR 0x22] else v)"

definition csv_line :: "str list \<Rightarrow> str" where
  "csv_line vs = join_with (CHR '','') vs"

text \<open>The reader: outside quotes, inside quotes, and after a quote seen inside quotes.\<close>

datatype csv_mode = Plain | Quoted | QuoteSeen

fun csv_rows :: "csv_mode \<Rightarrow> str \<Rightarrow> str list \<Rightarrow> str \<Rightarrow> str list list" where
  "csv_rows mode field row [] = (if field = [] \<and> row = [] \<and> mode = Plain then [] else [row @ [field]])"
| "csv_rows Quoted field row (c # cs) =
     (if c = CHR 0x22 then csv_rows QuoteSeen field row cs
      else csv_rows Quoted (field @ [c]) row cs)"
| "csv_rows mode field row (c # cs) =
     (if c = CHR '','' then csv_rows Plain [] (row @ [field]) cs
      else if c = CHR 0x0A then (row @ [field]) # csv_rows Plain [] [] cs
      else if c = CHR 0x22 \<and> mode = QuoteSeen then csv_rows Quoted (field @ [c]) row cs
      else if c = CHR 0x22 \<and> field = [] then csv_rows Quoted [] row cs
      else csv_rows Plain (field @ [c]) row cs)"

definition read_csv :: "str \<Rightarrow> str list list" where
  "read_csv = csv_rows Plain [] []"

lemma csv_rows_plain:
  assumes "\<not> list_ex csv_special v"
  shows "csv_rows Plain f row (v @ cs) = csv_rows Plain (f @ v) row cs"
  using assms
proof (induction v arbitrary: f)
  case (Cons c v)
  have "csv_rows Plain f row ((c # v) @ cs) = csv_rows Plain (f @ [c]) row (v @ cs)"
    using Cons.prems by (simp add: csv_special_def)
  with Cons show ?case by simp
qed simp

lemma csv_rows_quoted:
  "csv_rows Quoted f row (escape_quotes v @ cs) = csv_rows Quoted (f @ v) row cs"
  by (induction v arbitrary: f) (simp_all add: escape_quotes_def)

lemma csv_rows_end:
  assumes "m = Plain \<or> m = QuoteSeen"
  shows "csv_rows m f row (CHR '','' # cs) = csv_rows Plain [] (row @ [f]) cs"
    and "csv_rows m f row (CHR 0x0A # cs) = (row @ [f]) # csv_rows Plain [] [] cs"
  using assms by auto

lemma csv_field_read:
  "csv_rows Plain [] row (csv_field v @ CHR '','' # cs) = csv_rows Plain [] (row @ [v]) cs"
  "csv_rows Plain [] row (csv_field v @ CHR 0x0A # cs) = (row @ [v]) # csv_rows Plain [] [] cs"
  by (simp_all add: csv_field_def csv_rows_plain csv_rows_quoted csv_rows_end)

lemma csv_line_read:
  "vs \<noteq> [] \<Longrightarrow> csv_rows Plain [] row (csv_line (map csv_field vs) @ CHR 0x0A # cs)
     = (row @ vs) # csv_rows Plain [] [] cs"
proof (induction vs arbitrary: row)
  case (Cons v vs)
  show ?case
  proof (cases vs)
    case Nil
    then show ?thesis by (simp add: csv_line_def csv_field_read)
  next
    case (Cons w ws)
    then have "csv_line (map csv_field (v # vs)) @ CHR 0x0A # cs
        = csv_field v @ CHR '','' # (csv_line (map csv_field vs) @ CHR 0x0A # cs)"
      by (simp add: csv_line_def)
    with Cons.IH [of "row @ [v]"] Cons show ?thesis by (simp add: csv_field_read)
  qed
qed simp

text \<open>A file of such lines, each ended by a line feed, reads back as its rows.\<close>

definition csv_file :: "str list list \<Rightarrow> str" where
  "csv_file rows = concat (map (\<lambda>vs. csv_line (map csv_field vs) @ [CHR 0x0A]) rows)"

lemma read_csv_file: "\<forall>vs \<in> set rows. vs \<noteq> [] \<Longrightarrow> read_csv (csv_file rows) = rows"
proof (induction rows)
  case (Cons vs rows)
  then show ?case
    using csv_line_read [of vs "[]" "csv_file rows"] by (simp add: read_csv_def csv_file_def)
qed (simp add: read_csv_def csv_file_def)

lemma csv_field_id: "list_all (\<lambda>c. \<not> csv_special c) v \<Longrightarrow> csv_field v = v"
  by (simp add: csv_field_def list_all_iff list_ex_iff)

lemma digit_not_special: "is_digit c \<Longrightarrow> \<not> csv_special c"
  by (auto simp: is_digit_def csv_special_def byte_of_def)

lemma csv_field_numbers [simp]: "csv_field (show_int i) = show_int i"
proof (rule csv_field_id)
  have "list_all (\<lambda>c. \<not> csv_special c) (show_nat n)" for n
    using show_nat_digits [of n] digit_not_special by (auto simp: list_all_iff)
  moreover have "\<not> csv_special (CHR ''-'')" by (simp add: csv_special_def)
  ultimately show "list_all (\<lambda>c. \<not> csv_special c) (show_int i)" by (simp add: show_int_def)
qed

lemma csv_field_bool [simp]: "csv_field (show_bool b) = show_bool b"
  by (rule csv_field_id) (simp add: show_bool_def csv_special_def)

lemma csv_lines_file:
  "line @ concat (map (\<lambda>r. CHR 0x0A # f r) rs) @ [CHR 0x0A]
   = line @ CHR 0x0A # concat (map (\<lambda>r. f r @ [CHR 0x0A]) rs)"
  by (induction rs arbitrary: line) simp_all

end
