(* ===== verification/PayrollCorrect.thy ===== *)
theory PayrollCorrect
  imports Payroll
begin

text \<open>
  Correctness of the payroll sheet: its rows are the ones the specification names, each
  round of the month is paid to exactly one row, and the exported file reads back as the rows
  on the screen.
\<close>

section \<open>The loops\<close>

definition days_ok :: "day_sets \<Rightarrow> bool" where
  "days_ok m \<longleftrightarrow> (\<forall>ds \<in> ran m. distinct ds)"

definition days_at :: "day_sets \<Rightarrow> str \<Rightarrow> date set" where
  "days_at m k = set (unwrap_or (m k) [])"

lemma days_ok_add: "days_ok m \<Longrightarrow> days_ok (add_day k d m)"
  by (cases "m k") (auto simp: days_ok_def add_day_def ran_def distinct_insert)

lemma days_at_add: "days_at (add_day k d m) j = (if j = k then insert d (days_at m j) else days_at m j)"
  by (simp add: days_at_def add_day_def)

lemma days_empty [simp]: "days_ok Map.empty" "days_at Map.empty k = {}"
  by (simp_all add: days_ok_def days_at_def)

lemma days_ok_distinct: "days_ok m \<Longrightarrow> distinct (unwrap_or (m k) [])"
  by (cases "m k") (auto simp: days_ok_def ran_def)

lemma fold_count_round:
  "days_ok (snd acc) \<Longrightarrow>
     days_ok (snd (fold (count_round clk) as acc))
   \<and> (\<forall>k. count_of (fst (fold (count_round clk) as acc)) k
        = count_of (fst acc) k + length (filter (\<lambda>a. as_caddie a = k) as))
   \<and> (\<forall>k. days_at (snd (fold (count_round clk) as acc)) k = days_at (snd acc) k
      \<union> (\<lambda>a. clk_local_date clk (as_scheduled_at a)) ` {a \<in> set as. as_caddie a = k})"
proof (induction as arbitrary: acc)
  case (Cons a as)
  let ?acc = "count_round clk a acc"
  have ok: "days_ok (snd ?acc)" using Cons.prems by (simp add: count_round_def days_ok_add)
  have "count_of (fst ?acc) k = count_of (fst acc) k + of_bool (as_caddie a = k)"
    "days_at (snd ?acc) k = (if as_caddie a = k
       then insert (clk_local_date clk (as_scheduled_at a)) (days_at (snd acc) k)
       else days_at (snd acc) k)" for k
    by (simp_all add: count_round_def days_at_add)
  with Cons.IH [OF ok] show ?case by auto
qed simp

definition clocks_in :: "attendance_day \<Rightarrow> bool" where
  "clocks_in d \<longleftrightarrow> wire_key (ad_status d) = ''working'' \<or> wire_key (ad_status d) = ''clocked_out''"

lemma fold_read_attendance:
  "days_ok (fst acc) \<Longrightarrow>
     days_ok (fst (fold read_attendance ds acc))
   \<and> (\<forall>k. days_at (fst (fold read_attendance ds acc)) k = days_at (fst acc) k
      \<union> ad_date ` {d \<in> set ds. ad_caddie d = k \<and> clocks_in d})
   \<and> set (snd (fold read_attendance ds acc)) = set (snd acc)
      \<union> ad_caddie ` {d \<in> set ds. wire_key (ad_status d) = ''working''}"
proof (induction ds arbitrary: acc)
  case (Cons d ds)
  let ?acc = "read_attendance d acc"
  have ok: "days_ok (fst ?acc)" using Cons.prems by (simp add: read_attendance_def Let_def days_ok_add)
  have "days_at (fst ?acc) k = (if ad_caddie d = k \<and> clocks_in d
      then insert (ad_date d) (days_at (fst acc) k) else days_at (fst acc) k)" for k
    by (simp add: read_attendance_def Let_def days_at_add clocks_in_def)
  moreover have "set (snd ?acc) = (if wire_key (ad_status d) = ''working''
      then insert (ad_caddie d) (set (snd acc)) else set (snd acc))"
    by (simp add: read_attendance_def Let_def)
  ultimately show ?case using Cons.IH [OF ok] by auto
qed simp

section \<open>The specification of a row\<close>

definition rounds_of :: "assignment list \<Rightarrow> caddie_id \<Rightarrow> assignment list" where
  "rounds_of as cid = filter (\<lambda>a. is_billable a \<and> as_caddie a = cid) as"

definition round_dates :: "clock \<Rightarrow> assignment list \<Rightarrow> caddie_id \<Rightarrow> date set" where
  "round_dates clk as cid = (\<lambda>a. clk_local_date clk (as_scheduled_at a)) ` set (rounds_of as cid)"

definition clocked_dates :: "attendance_day list \<Rightarrow> caddie_id \<Rightarrow> date set" where
  "clocked_dates att cid = ad_date ` {d \<in> set att. ad_caddie d = cid \<and> clocks_in d}"

definition minutes_for :: "(str \<rightharpoonup> worked_minutes) \<Rightarrow> str option \<Rightarrow> worked_minutes" where
  "minutes_for worked staff = unwrap_or (Option.bind staff worked) no_minutes"

definition payroll_row_spec ::
  "clock \<Rightarrow> assignment list \<Rightarrow> attendance_day list \<Rightarrow> (str \<rightharpoonup> worked_minutes) \<Rightarrow> rank_fees
    \<Rightarrow> payroll_candidate \<Rightarrow> payroll_row" where
  "payroll_row_spec clk as att worked fees c =
     (let n = length (rounds_of as (py_caddie c));
          fee = max (round_fee_for fees (py_rank c) (py_base_fee c)) 0 in
      \<lparr>pw_caddie = py_caddie c, pw_name = py_name c, pw_staff = py_staff c,
       pw_worked = max (wm_worked (minutes_for worked (py_staff c))) 0,
       pw_shifted = max (wm_shifted (minutes_for worked (py_staff c))) 0,
       pw_rounds = int n, pw_rank = py_rank c, pw_round_fee = fee,
       pw_fee_overridden = (0 < py_base_fee c), pw_fee_total = wrap_i64 (fee * int n),
       pw_currency = (if trim (rf_currency fees) = [] then ''JPY'' else rf_currency fees),
       pw_open_clock_in =
         (\<exists>d \<in> set att. ad_caddie d = py_caddie c \<and> wire_key (ad_status d) = ''working''),
       pw_without_clock_in =
         int (card (round_dates clk as (py_caddie c) - clocked_dates att (py_caddie c)))\<rparr>)"

lemma length_filter_card:
  assumes "distinct xs"
  shows "length (filter P xs) = card {x \<in> set xs. P x}"
  using distinct_card [of "filter P xs"] assms by simp

lemma payroll_row_of_spec:
  assumes rounds: "\<And>k. count_of rounds k = length (rounds_of as k)"
    and days: "days_ok round_days" "\<And>k. days_at round_days k = round_dates clk as k"
    and clocked: "\<And>k. days_at clocked k = clocked_dates att k"
    and opens: "set open_in = ad_caddie ` {d \<in> set att. wire_key (ad_status d) = ''working''}"
  shows "payroll_row_of worked fees rounds round_days clocked open_in c
    = payroll_row_spec clk as att worked fees c"
proof -
  let ?k = "py_caddie c"
  have clocked_at: "(case clocked ?k of None \<Rightarrow> False | Some ds \<Rightarrow> d \<in> set ds) \<longleftrightarrow> d \<in> clocked_dates att ?k" for d
    unfolding clocked [symmetric] days_at_def by (cases "clocked ?k") simp_all
  have without: "(case round_days ?k of None \<Rightarrow> 0
      | Some ds \<Rightarrow> int (length (filter (\<lambda>d. d \<notin> clocked_dates att ?k) ds)))
      = int (card (round_dates clk as ?k - clocked_dates att ?k))"
  proof (cases "round_days ?k")
    case None
    with days(2) [of ?k] show ?thesis by (simp add: days_at_def)
  next
    case (Some ds)
    then have "distinct ds" "set ds = round_dates clk as ?k"
      using days_ok_distinct [OF days(1), of ?k] days(2) [of ?k] by (simp_all add: days_at_def)
    then have "length (filter (\<lambda>d. d \<notin> clocked_dates att ?k) ds)
        = card (round_dates clk as ?k - clocked_dates att ?k)"
      by (simp only: length_filter_card set_diff_eq)
    with Some show ?thesis by simp
  qed
  have mins: "(case py_staff c of None \<Rightarrow> no_minutes | Some s \<Rightarrow> unwrap_or (worked s) no_minutes)
      = minutes_for worked (py_staff c)"
    by (cases "py_staff c") (simp_all add: minutes_for_def)
  have opened: "?k \<in> set open_in \<longleftrightarrow>
      (\<exists>d \<in> set att. ad_caddie d = ?k \<and> wire_key (ad_status d) = ''working'')"
    by (force simp: opens)
  have nonneg: "max (int n) 0 = int n" for n by simp
  show ?thesis
    unfolding payroll_row_of_def payroll_row_spec_def payroll_row_reconstitute_def Let_def
      clocked_at rounds without mins opened nonneg
    by (rule refl)
qed

text \<open>
  C38. The payroll sheet has one row per caddie of the roster, in its order, and each row is
  what it should be: the rounds not cancelled, priced at the caddie's own fee or their rank's,
  the staff record's minutes, whether a clock-in was left open, and the number of days with a
  round but no clock-in.
\<close>

theorem payroll_sheet_exact:
  "summarize_payroll clk candidates assignments attendance worked fees
   = map (payroll_row_spec clk assignments attendance worked fees) candidates"
proof -
  let ?billable = "filter is_billable assignments"
  obtain rounds round_days where r: "fold (count_round clk) ?billable (Map.empty, Map.empty) = (rounds, round_days)"
    by force
  obtain clocked open_in where c: "fold read_attendance attendance (Map.empty, []) = (clocked, open_in)"
    by force
  note R = fold_count_round [of "(Map.empty, Map.empty)" clk ?billable, unfolded r]
  note C = fold_read_attendance [of "(Map.empty, [])" attendance, unfolded c]
  have "count_of rounds k = length (rounds_of assignments k)" for k
    using R by (simp add: rounds_of_def conj_commute)
  moreover have "days_ok round_days" using R by simp
  moreover have "days_at round_days k = round_dates clk assignments k" for k
    using R by (auto simp: round_dates_def rounds_of_def)
  moreover have "days_at clocked k = clocked_dates attendance k" for k
    using C by (simp add: clocked_dates_def)
  moreover have "set open_in = ad_caddie ` {d \<in> set attendance. wire_key (ad_status d) = ''working''}"
    using C by simp
  ultimately show ?thesis
    by (simp add: summarize_payroll_def r c payroll_row_of_spec)
qed

section \<open>The exported file\<close>

definition payroll_cells :: "str \<Rightarrow> payroll_row \<Rightarrow> str list" where
  "payroll_cells ym r =
     [ym, pw_caddie r, pw_name r, unwrap_or (pw_staff r) [], rank_as_str (pw_rank r),
      show_int (pw_round_fee r), show_bool (pw_fee_overridden r), show_int (pw_rounds r),
      show_int (pw_fee_total r), pw_currency r, show_int (pw_worked r), show_int (pw_shifted r),
      show_bool (pw_open_clock_in r), show_int (pw_without_clock_in r)]"

lemma csv_field_rank [simp]: "csv_field (rank_as_str r) = rank_as_str r"
  by (cases r) (simp_all add: csv_field_def csv_special_def)

lemma payroll_header_plain: "map csv_field payroll_header = payroll_header"
  by (simp add: payroll_header_def csv_field_def csv_special_def)

text \<open>
  The exported payroll file, read by a CSV reader, is the header and then the rows of the
  sheet with exactly their values, whatever commas, quotes or line breaks a name contains.
\<close>

theorem payroll_csv_roundtrip:
  "read_csv (payroll_csv s)
   = payroll_header # map (payroll_cells (pp_year_month (ps_period s))) (ps_items s)"
proof -
  let ?ym = "pp_year_month (ps_period s)"
  have "payroll_csv_line ?ym r = csv_line (map csv_field (payroll_cells ?ym r))" for r
    by (simp add: payroll_csv_line_def payroll_cells_def)
  then have "payroll_csv s = csv_file (payroll_header # map (payroll_cells ?ym) (ps_items s))"
    by (simp add: payroll_csv_def csv_lines_file csv_file_def payroll_header_plain comp_def)
  then show ?thesis
    by (simp add: read_csv_file payroll_cells_def payroll_header_def)
qed

text \<open>
  A month is accepted when its year is written with a sign and three digits, or its month with
  a sign and one digit, because the numbers are read by \<open>parse\<close>.
\<close>

lemma signed_month_accepted:
  "map_sum id (\<lambda>p. (pp_start p, pp_end p)) (payroll_period_try_new cal ''2026-+8'')
   = map_sum id (\<lambda>p. (pp_start p, pp_end p)) (payroll_period_try_new cal ''2026-08'')"
proof -
  have "parse_u32 ''+8'' = Some 8" "parse_u32 ''08'' = Some 8" by code_simp+
  then show ?thesis
    by (simp add: payroll_period_try_new_def split_once_def split: option.splits)
qed

end
