(* ===== verification/FeeSimulator.thy ===== *)
theory FeeSimulator
  imports Float64
begin

text \<open>
  Golf course tax, fee quotes and the green-fee range projection
  (\<open>src/course/domain/simulator.rs\<close>). Fees are \<open>i64\<close> with the wrap-around of a release build,
  form inputs are doubles. \<open>powf\<close> (a platform function) and the date parser (a crate) are
  parameters of the range projection.
\<close>

section \<open>The tax of a party\<close>

record tax_rule =
  tr_course_grade :: str
  tr_fee :: int
  tr_minor_under :: int
  tr_senior_min :: int
  tr_disability_exempt :: bool
  tr_reduced_min_age :: "int option"
  tr_reduced_percent :: "int option"

record player =
  pl_age :: int
  pl_disability_cert :: bool

definition DEFAULT_PLAYER_AGE :: int where "DEFAULT_PLAYER_AGE = 42"

definition representative_player :: player where
  "representative_player = \<lparr>pl_age = DEFAULT_PLAYER_AGE, pl_disability_cert = False\<rparr>"

record tax_line =
  tl_index :: nat
  tl_fee :: int
  tl_exempt :: bool
  tl_reason :: "str option"

record party_tax =
  pt_course_grade :: str
  pt_amount :: int
  pt_lines :: "tax_line list"

definition exemption_reason :: "player \<Rightarrow> tax_rule \<Rightarrow> str option" where
  "exemption_reason p r =
     (if pl_age p < tr_minor_under r then Some ''minor''
      else if tr_senior_min r \<le> pl_age p then Some ''senior''
      else if tr_disability_exempt r \<and> pl_disability_cert p then Some ''disability_cert''
      else None)"

definition reduced_fee :: "player \<Rightarrow> tax_rule \<Rightarrow> int option" where
  "reduced_fee p r =
     (case tr_reduced_min_age r of None \<Rightarrow> None
      | Some min_age \<Rightarrow>
          (case tr_reduced_percent r of None \<Rightarrow> None
           | Some percent \<Rightarrow>
               if pl_age p < min_age \<or> \<not> (1 \<le> percent \<and> percent < 100) then None
               else Some (quotient_i (wrap_i64 (tr_fee r * percent)) 100)))"

definition line_for :: "tax_rule \<Rightarrow> nat \<Rightarrow> player \<Rightarrow> tax_line" where
  "line_for r i p =
     (let reason = exemption_reason p r;
          exempt = (reason \<noteq> None);
          (fee, why) = (if exempt then (0, reason)
            else case reduced_fee p r of
                Some reduced \<Rightarrow> (reduced, Some ''senior_reduced'')
              | None \<Rightarrow> (tr_fee r, None))
      in \<lparr>tl_index = i, tl_fee = fee, tl_exempt = exempt, tl_reason = why\<rparr>)"

definition party_tax :: "tax_rule \<Rightarrow> player list \<Rightarrow> party_tax" where
  "party_tax r players =
     (let rows = map (\<lambda>(i, p). line_for r i p) (enumerate 0 players);
          amount = fold (\<lambda>l acc. wrap_i64 (acc + tl_fee l)) rows 0
      in \<lparr>pt_course_grade = tr_course_grade r, pt_amount = amount, pt_lines = rows\<rparr>)"

section \<open>The fee quote\<close>

definition MAX_FEE_AMOUNT :: f64 where "MAX_FEE_AMOUNT = Fin 100000000"
definition MAX_VISITORS :: int where "MAX_VISITORS = 1000000"

record fee_quote_request =
  fq_green_fee :: f64
  fq_holes :: int
  fq_cart_fee :: "f64 option"
  fq_caddy_fee :: "f64 option"

record fee_quote_input =
  fi_green_fee :: int
  fi_cart_fee :: int
  fi_caddy_fee :: int
  fi_subtotal :: int

record fee_quote =
  qt_course_grade :: str
  qt_tax_rate :: f64
  qt_tax_amount :: int
  qt_total :: int
  qt_breakdown :: "tax_line list"

definition rounded_i64 :: "f64 \<Rightarrow> int result" where
  "rounded_i64 v =
     (if \<not> f64_is_finite v \<or> f64_lt (f64_of_int i64_max) v \<or> f64_lt v (f64_of_int i64_min)
      then Inl (BadRequest ''fee amount is outside the supported range'')
      else Inr (f64_as_i64 (f64_round v)))"

definition bad_optional_fee :: "f64 option \<Rightarrow> bool" where
  "bad_optional_fee v =
     (case v of None \<Rightarrow> False
      | Some x \<Rightarrow> \<not> f64_is_finite x \<or> \<not> (f64_le (Fin 0) x \<and> f64_le x MAX_FEE_AMOUNT))"

definition f64_or_zero :: "f64 option \<Rightarrow> f64" where
  "f64_or_zero v = (case v of None \<Rightarrow> Fin 0 | Some x \<Rightarrow> x)"

definition fee_range_error :: course_error where
  "fee_range_error = BadRequest ''fee total exceeds the supported range''"

definition prepare_fee_quote :: "fee_quote_request \<Rightarrow> fee_quote_input result" where
  "prepare_fee_quote r =
     (if \<not> f64_is_finite (fq_green_fee r) \<or> f64_le (fq_green_fee r) (Fin 0)
         \<or> f64_lt MAX_FEE_AMOUNT (fq_green_fee r)
      then Inl (BadRequest ''greenFee must be greater than 0 and no more than 100000000'')
      else if fq_holes r \<noteq> 9 \<and> fq_holes r \<noteq> 18 then Inl (BadRequest ''numHoles must be 9 or 18'')
      else if bad_optional_fee (fq_cart_fee r) \<or> bad_optional_fee (fq_caddy_fee r)
      then Inl (BadRequest ''optional fees must be between 0 and 100000000'')
      else
        case rounded_i64 (fq_green_fee r) of Inl e \<Rightarrow> Inl e
        | Inr green \<Rightarrow> (case rounded_i64 (f64_or_zero (fq_cart_fee r)) of Inl e \<Rightarrow> Inl e
        | Inr cart \<Rightarrow> (case rounded_i64 (f64_or_zero (fq_caddy_fee r)) of Inl e \<Rightarrow> Inl e
        | Inr caddy \<Rightarrow>
            (case Option.bind (checked_i64 (green + cart)) (\<lambda>a. checked_i64 (a + caddy)) of
               None \<Rightarrow> Inl fee_range_error
             | Some subtotal \<Rightarrow> Inr \<lparr>fi_green_fee = green, fi_cart_fee = cart,
                 fi_caddy_fee = caddy, fi_subtotal = subtotal\<rparr>))))"

definition quote_fee :: "fee_quote_input \<Rightarrow> party_tax \<Rightarrow> fee_quote result" where
  "quote_fee i tax =
     (case checked_i64 (fi_subtotal i + pt_amount tax) of
        None \<Rightarrow> Inl fee_range_error
      | Some amount \<Rightarrow> Inr
          \<lparr>qt_course_grade = pt_course_grade tax,
           qt_tax_rate = (if 0 < fi_green_fee i
             then f64_mul (f64_div (f64_of_int (pt_amount tax)) (f64_of_int (fi_green_fee i))) (Fin 100)
             else Fin 0),
           qt_tax_amount = pt_amount tax, qt_total = amount, qt_breakdown = pt_lines tax\<rparr>)"

section \<open>The range projection\<close>

record range_row =
  rr_green_fee :: int
  rr_course_grade :: str
  rr_visitors :: int
  rr_taxable_visitors :: int
  rr_revenue :: int
  rr_tax_total :: int
  rr_variable_cost :: int
  rr_fixed_cost :: int
  rr_profit :: int
  rr_margin :: f64

record range_row_input =
  ri_green_fee :: int
  ri_base_visitors :: int
  ri_base_green_fee :: int
  ri_elasticity :: f64
  ri_taxable_ratio :: f64
  ri_fixed_cost :: int
  ri_variable_cost :: int

definition project_row ::
  "(f64 \<Rightarrow> f64 \<Rightarrow> f64) \<Rightarrow> range_row_input \<Rightarrow> tax_rule \<Rightarrow> range_row" where
  "project_row powf i r =
     (let visitors = f64_as_i64 (f64_round (f64_mul (f64_of_int (ri_base_visitors i))
            (powf (f64_div (f64_of_int (ri_green_fee i)) (f64_of_int (ri_base_green_fee i)))
              (ri_elasticity i))));
          taxable = f64_as_i64 (f64_round (f64_mul (f64_of_int visitors) (ri_taxable_ratio i)));
          revenue = wrap_i64 (ri_green_fee i * visitors);
          tax_total = wrap_i64 (taxable * tr_fee r);
          variable = wrap_i64 (ri_variable_cost i * visitors);
          profit = wrap_i64 (wrap_i64 (wrap_i64 (revenue - tax_total) - variable) - ri_fixed_cost i)
      in \<lparr>rr_green_fee = ri_green_fee i, rr_course_grade = tr_course_grade r,
          rr_visitors = visitors, rr_taxable_visitors = taxable, rr_revenue = revenue,
          rr_tax_total = tax_total, rr_variable_cost = variable,
          rr_fixed_cost = ri_fixed_cost i, rr_profit = profit,
          rr_margin = (if revenue = 0 then Fin 0
            else f64_mul (f64_div (f64_of_int profit) (f64_of_int revenue)) (Fin 100))\<rparr>)"

record range_request =
  rq_date_from :: str
  rq_date_to :: str
  rq_visitors_min :: int
  rq_visitors_max :: int
  rq_avg_green_fee :: f64

record range_input =
  rg_avg_green_fee :: int
  rg_visitors_min :: int
  rg_visitors_max :: int
  rg_midpoint :: int
  rg_revenue_min :: int
  rg_revenue_max :: int
  rg_period_label :: str

record range_simulation =
  rs_revenue_min :: int
  rs_revenue_max :: int
  rs_tax_total :: int
  rs_rows :: "range_row list"
  rs_period_label :: str

definition visitors_midpoint :: "int \<Rightarrow> int \<Rightarrow> int" where
  "visitors_midpoint lo hi = wrap_i64 (lo + quotient_i (wrap_i64 (wrap_i64 (hi - lo) + 1)) 2)"

definition prepare_range_simulation ::
  "(str \<Rightarrow> date option) \<Rightarrow> range_request \<Rightarrow> range_input result" where
  "prepare_range_simulation parse_date r =
     (case parse_date (rq_date_from r) of
        None \<Rightarrow> Inl (BadRequest ''dateFrom must be YYYY-MM-DD'')
      | Some from_day \<Rightarrow> (case parse_date (rq_date_to r) of
        None \<Rightarrow> Inl (BadRequest ''dateTo must be YYYY-MM-DD'')
      | Some to_day \<Rightarrow>
        if to_day < from_day then Inl (BadRequest ''dateTo must be on or after dateFrom'')
        else if rq_visitors_min r < 0 \<or> rq_visitors_max r < rq_visitors_min r
          \<or> MAX_VISITORS < rq_visitors_max r
        then Inl (BadRequest ''visitor range must be ordered and no more than 1000000'')
        else if \<not> f64_is_finite (rq_avg_green_fee r) \<or> f64_le (rq_avg_green_fee r) (Fin 0)
          \<or> f64_lt MAX_FEE_AMOUNT (rq_avg_green_fee r)
        then Inl (BadRequest ''avgGreenFee must be greater than 0 and no more than 100000000'')
        else (case rounded_i64 (rq_avg_green_fee r) of Inl e \<Rightarrow> Inl e
        | Inr fee \<Rightarrow> (case checked_i64 (rq_visitors_min r * fee) of
            None \<Rightarrow> Inl (BadRequest ''minimum revenue exceeds the supported range'')
          | Some low_revenue \<Rightarrow> (case checked_i64 (rq_visitors_max r * fee) of
            None \<Rightarrow> Inl (BadRequest ''maximum revenue exceeds the supported range'')
          | Some high_revenue \<Rightarrow> Inr
              \<lparr>rg_avg_green_fee = fee, rg_visitors_min = rq_visitors_min r,
               rg_visitors_max = rq_visitors_max r,
               rg_midpoint = visitors_midpoint (rq_visitors_min r) (rq_visitors_max r),
               rg_revenue_min = low_revenue, rg_revenue_max = high_revenue,
               rg_period_label = rq_date_from r @ '' - '' @ rq_date_to r\<rparr>)))))"

definition summarize_range :: "range_input \<Rightarrow> f64 \<Rightarrow> range_row list \<Rightarrow> range_simulation result" where
  "summarize_range i ratio rows =
     (let per_visitor = (case rows of [] \<Rightarrow> Fin 0
            | row # _ \<Rightarrow> if 0 < rr_taxable_visitors row
                then f64_div (f64_of_int (rr_tax_total row)) (f64_of_int (rr_taxable_visitors row))
                else Fin 0);
          total_tax = f64_mul (f64_mul (f64_of_int (rg_visitors_max i)) ratio) per_visitor
      in if \<not> f64_is_finite total_tax \<or> f64_lt (f64_of_int i64_max) total_tax
            \<or> f64_lt total_tax (f64_of_int i64_min)
         then Inl (BadRequest ''projected tax total is outside the supported range'')
         else Inr \<lparr>rs_revenue_min = rg_revenue_min i, rs_revenue_max = rg_revenue_max i,
                rs_tax_total = f64_as_i64 (f64_round total_tax), rs_rows = rows,
                rs_period_label = rg_period_label i\<rparr>)"

section \<open>Properties\<close>

definition rule_ok :: "tax_rule \<Rightarrow> bool" where
  "rule_ok r \<longleftrightarrow> 0 \<le> tr_fee r \<and> in_i64 (100 * tr_fee r)"

definition unwrap_fee :: "int option \<Rightarrow> int \<Rightarrow> int" where
  "unwrap_fee v d = (case v of None \<Rightarrow> d | Some x \<Rightarrow> x)"

lemma rule_ok_fee: "rule_ok r \<Longrightarrow> 0 \<le> tr_fee r"
  by (simp add: rule_ok_def)

lemma reduced_fee_bounds:
  assumes "rule_ok r" "reduced_fee p r = Some fee"
  shows "0 \<le> fee \<and> fee \<le> tr_fee r"
proof -
  from assms(2) obtain percent where p: "1 \<le> percent" "percent < 100"
    "fee = quotient_i (wrap_i64 (tr_fee r * percent)) 100"
    by (auto simp: reduced_fee_def split: option.splits if_splits)
  have r: "0 \<le> tr_fee r" "100 * tr_fee r \<le> i64_max"
    using assms(1) by (auto simp: rule_ok_def in_i64_def)
  have "tr_fee r * percent \<le> tr_fee r * 100" using p r by (intro mult_left_mono) auto
  moreover have "0 \<le> tr_fee r * percent" using p r by simp
  ultimately have "in_i64 (tr_fee r * percent)" using r by (simp add: in_i64_def i64_min_def)
  then have "fee = (tr_fee r * percent) div 100"
    using p r \<open>0 \<le> tr_fee r * percent\<close> by (simp add: quotient_i_nonneg)
  moreover have "(tr_fee r * percent) div 100 \<le> tr_fee r"
    using zdiv_mono1 [OF \<open>tr_fee r * percent \<le> tr_fee r * 100\<close>, of 100] by simp
  ultimately show ?thesis using \<open>0 \<le> tr_fee r * percent\<close> by (simp add: pos_imp_zdiv_nonneg_iff)
qed

lemma line_for_sel:
  "tl_index (line_for r i p) = i"
  "tl_exempt (line_for r i p) \<longleftrightarrow> exemption_reason p r \<noteq> None"
  "tl_fee (line_for r i p) = (if exemption_reason p r \<noteq> None then 0
     else unwrap_fee (reduced_fee p r) (tr_fee r))"
  "tl_reason (line_for r i p) = (if exemption_reason p r \<noteq> None then exemption_reason p r
     else if reduced_fee p r \<noteq> None then Some ''senior_reduced'' else None)"
  by (cases "exemption_reason p r"; cases "reduced_fee p r";
      simp add: line_for_def Let_def unwrap_fee_def)+

lemma line_fee_bounds: "rule_ok r \<Longrightarrow> 0 \<le> tl_fee (line_for r i p) \<and> tl_fee (line_for r i p) \<le> tr_fee r"
  by (cases "reduced_fee p r")
    (auto simp: line_for_sel unwrap_fee_def dest: reduced_fee_bounds rule_ok_fee)

text \<open>Growing older only moves a player from the full rate to the reduced one to exemption.\<close>

lemma older_owes_less:
  assumes "rule_ok r" "tr_minor_under r \<le> pl_age p" "pl_age p \<le> pl_age q"
    "pl_disability_cert p = pl_disability_cert q"
  shows "tl_fee (line_for r j q) \<le> tl_fee (line_for r i p)"
proof (cases "exemption_reason p r")
  case (Some why)
  with assms have "exemption_reason q r \<noteq> None"
    by (auto simp: exemption_reason_def split: if_splits)
  then show ?thesis using Some by (auto simp: line_for_sel)
next
  case None
  show ?thesis
  proof (cases "reduced_fee p r")
    case None
    then show ?thesis using \<open>exemption_reason p r = None\<close> line_fee_bounds [OF assms(1), of j q]
      by (simp add: line_for_sel(3) [of r i p] unwrap_fee_def)
  next
    case (Some fee)
    then have "reduced_fee q r = Some fee" using assms(3)
      by (auto simp: reduced_fee_def split: option.splits if_splits)
    then show ?thesis using \<open>exemption_reason p r = None\<close> Some line_fee_bounds [OF assms(1), of i p]
      by (auto simp: line_for_sel unwrap_fee_def)
  qed
qed

lemma fold_wrap_sum:
  assumes "\<forall>x \<in> set xs. 0 \<le> f x" "0 \<le> acc" "acc + sum_list (map f xs) \<le> i64_max"
  shows "fold (\<lambda>x acc. wrap_i64 (acc + f x)) xs acc = acc + sum_list (map f xs)"
proof -
  have "0 \<le> sum_list (map f xs)" using assms(1) by (intro sum_list_nonneg) auto
  then have "in_i64 acc" "in_i64 (acc + sum_list (map f xs))"
    using assms(2,3) by (simp_all add: in_i64_def i64_min_def)
  then show ?thesis using fold_wrap_i64 [of f xs acc] by simp
qed

lemma sum_list_le:
  assumes "\<forall>x \<in> set xs. f x \<le> (b :: int)"
  shows "sum_list (map f xs) \<le> b * int (length xs)"
  using assms by (induction xs) (simp_all add: algebra_simps)

text \<open>
  A party's tax is the sum of one line per player, in order, each between nothing and the
  rule's fee; an exempt player owes nothing and says why, and among players the rule does not
  exempt as minors an older one never owes more than a younger one with the same certificate.
\<close>

theorem party_tax_is_fair:
  assumes "rule_ok r" "tr_fee r * int (length players) \<le> i64_max"
  shows "let tax = party_tax r players in
      map tl_index (pt_lines tax) = [0..<length players]
    \<and> pt_amount tax = sum_list (map tl_fee (pt_lines tax))
    \<and> 0 \<le> pt_amount tax \<and> pt_amount tax \<le> tr_fee r * int (length players)
    \<and> (\<forall>l \<in> set (pt_lines tax). 0 \<le> tl_fee l \<and> tl_fee l \<le> tr_fee r
        \<and> (tl_exempt l \<longrightarrow> tl_fee l = 0 \<and> tl_reason l \<noteq> None))
    \<and> (\<forall>i < length players. \<forall>j < length players.
        tr_minor_under r \<le> pl_age (players ! i) \<and> pl_age (players ! i) \<le> pl_age (players ! j)
        \<and> pl_disability_cert (players ! i) = pl_disability_cert (players ! j)
        \<longrightarrow> tl_fee (pt_lines tax ! j) \<le> tl_fee (pt_lines tax ! i))"
proof -
  let ?rows = "map (\<lambda>(i, p). line_for r i p) (enumerate 0 players)"
  have bounds: "\<forall>l \<in> set ?rows. 0 \<le> tl_fee l \<and> tl_fee l \<le> tr_fee r"
    using line_fee_bounds [OF assms(1)] by (auto simp: case_prod_beta)
  have sum_le: "sum_list (map tl_fee ?rows) \<le> tr_fee r * int (length players)"
    using sum_list_le [of ?rows tl_fee "tr_fee r"] bounds by simp
  then have amount: "fold (\<lambda>l acc. wrap_i64 (acc + tl_fee l)) ?rows 0 = sum_list (map tl_fee ?rows)"
    using fold_wrap_sum [of ?rows tl_fee 0] bounds assms(2) by simp
  have nonneg: "0 \<le> sum_list (map tl_fee ?rows)"
    using bounds by (intro sum_list_nonneg) (auto simp del: map_map)
  have exempt: "\<forall>l \<in> set ?rows. tl_exempt l \<longrightarrow> tl_fee l = 0 \<and> tl_reason l \<noteq> None"
    by (auto simp: line_for_sel)
  have index: "map tl_index ?rows = [0..<length players]"
    by (simp add: comp_def case_prod_beta line_for_sel enumerate_eq_zip)
  have fair: "tl_fee (?rows ! j) \<le> tl_fee (?rows ! i)"
    if "i < length players" "j < length players" "tr_minor_under r \<le> pl_age (players ! i)"
      "pl_age (players ! i) \<le> pl_age (players ! j)"
      "pl_disability_cert (players ! i) = pl_disability_cert (players ! j)" for i j
    using that older_owes_less [OF assms(1)] by (simp add: nth_enumerate_eq)
  show ?thesis
    unfolding Let_def party_tax_def party_tax.simps amount
    using bounds sum_le nonneg exempt index fair by blast
qed

definition sample_tax_rule :: tax_rule where
  "sample_tax_rule = \<lparr>tr_course_grade = ''3'', tr_fee = 800, tr_minor_under = 18,
     tr_senior_min = 70, tr_disability_exempt = True, tr_reduced_min_age = Some 65,
     tr_reduced_percent = Some 50\<rparr>"

definition sample_party :: "player list" where
  "sample_party = map (\<lambda>a. \<lparr>pl_age = a, pl_disability_cert = False\<rparr>) [42, 66, 71, 12]"

theorem party_tax_is_fair_witness:
  "map tl_fee (pt_lines (party_tax sample_tax_rule sample_party)) = [800, 400, 0, 0]
   \<and> pt_amount (party_tax sample_tax_rule sample_party) = 1200
   \<and> tl_fee (pt_lines (party_tax sample_tax_rule sample_party) ! 1)
      \<le> tl_fee (pt_lines (party_tax sample_tax_rule sample_party) ! 0)"
proof -
  have fees: "map tl_fee (pt_lines (party_tax sample_tax_rule sample_party)) = [800, 400, 0, 0]"
    by code_simp
  have ok: "rule_ok sample_tax_rule" by code_simp
  have small: "tr_fee sample_tax_rule * int (length sample_party) \<le> i64_max" by code_simp
  have "length sample_party = 4" "pl_age (sample_party ! 0) = 42" "pl_age (sample_party ! 1) = 66"
    "pl_disability_cert (sample_party ! 0) = pl_disability_cert (sample_party ! 1)"
    "tr_minor_under sample_tax_rule = 18"
    by code_simp+
  with party_tax_is_fair [OF ok small, unfolded Let_def] fees show ?thesis by simp
qed

section \<open>Quotes\<close>

definition quote_request_ok :: "fee_quote_request \<Rightarrow> bool" where
  "quote_request_ok r \<longleftrightarrow>
     (case fq_green_fee r of Fin q \<Rightarrow> 0 < q \<and> q \<le> 100000000 | _ \<Rightarrow> False)
   \<and> (fq_holes r = 9 \<or> fq_holes r = 18)
   \<and> (case f64_or_zero (fq_cart_fee r) of Fin q \<Rightarrow> 0 \<le> q \<and> q \<le> 100000000 | _ \<Rightarrow> False)
   \<and> (case f64_or_zero (fq_caddy_fee r) of Fin q \<Rightarrow> 0 \<le> q \<and> q \<le> 100000000 | _ \<Rightarrow> False)"

definition rounds_to :: "f64 \<Rightarrow> int \<Rightarrow> bool" where
  "rounds_to v n = (case v of Fin q \<Rightarrow> \<bar>q - of_int n\<bar> \<le> 1 / 2 | _ \<Rightarrow> False)"

lemma i64_limits: "f64_of_int i64_max = Fin 9223372036854775808"
  "f64_of_int i64_min = Fin (- 9223372036854775808)"
  by code_simp+

lemma round_away_near:
  assumes "0 \<le> q"
  shows "\<bar>q - of_int (round_away q)\<bar> \<le> 1 / 2"
proof -
  have "of_int \<lfloor>q + 1/2\<rfloor> \<le> q + 1/2" "q + 1/2 < of_int \<lfloor>q + 1/2\<rfloor> + 1" by linarith+
  then have "\<bar>q - of_int \<lfloor>q + 1/2\<rfloor>\<bar> \<le> 1 / 2" unfolding abs_le_iff by (intro conjI; linarith)
  with assms show ?thesis by (simp add: round_away_def)
qed

lemma rounded_i64_fee:
  assumes "0 \<le> q" "q \<le> 100000000"
  shows "\<exists>n. rounded_i64 (Fin q) = Inr n \<and> 0 \<le> n \<and> n \<le> 100000000 \<and> rounds_to (Fin q) n"
proof -
  have "0 \<le> round_away q" using assms(1) by (rule round_away_nonneg)
  moreover have "round_away q \<le> 100000000"
    using round_away_mono [OF assms(2)] round_away_of_int [of 100000000] by simp
  moreover have "\<not> f64_lt (f64_of_int i64_max) (Fin q)" "\<not> f64_lt (Fin q) (f64_of_int i64_min)"
    using assms by (simp_all add: i64_limits f64_lt_def)
  ultimately show ?thesis
    using round_away_near [OF assms(1)]
    by (simp add: rounded_i64_def f64_as_i64_def clamp_def trunc_rat_def i64_min_def i64_max_def
        rounds_to_def)
qed

lemma bad_optional_fee_iff:
  "\<not> bad_optional_fee v \<longleftrightarrow>
     (case f64_or_zero v of Fin q \<Rightarrow> 0 \<le> q \<and> q \<le> 100000000 | _ \<Rightarrow> False)"
  by (auto simp: bad_optional_fee_def f64_or_zero_def MAX_FEE_AMOUNT_def split: option.splits f64.splits)

lemma green_fee_iff:
  "\<not> (\<not> f64_is_finite v \<or> f64_le v (Fin 0) \<or> f64_lt MAX_FEE_AMOUNT v) \<longleftrightarrow>
     (case v of Fin q \<Rightarrow> 0 < q \<and> q \<le> 100000000 | _ \<Rightarrow> False)"
  by (cases v) (auto simp: f64_lt_def MAX_FEE_AMOUNT_def)

lemma prepare_fee_quote_ok:
  assumes "quote_request_ok r"
  obtains green cart caddy where "prepare_fee_quote r = Inr \<lparr>fi_green_fee = green,
      fi_cart_fee = cart, fi_caddy_fee = caddy, fi_subtotal = green + cart + caddy\<rparr>"
    "0 \<le> green \<and> green \<le> 100000000 \<and> rounds_to (fq_green_fee r) green"
    "0 \<le> cart \<and> cart \<le> 100000000 \<and> rounds_to (f64_or_zero (fq_cart_fee r)) cart"
    "0 \<le> caddy \<and> caddy \<le> 100000000 \<and> rounds_to (f64_or_zero (fq_caddy_fee r)) caddy"
proof -
  from assms obtain g c d where q: "fq_green_fee r = Fin g" "0 < g" "g \<le> 100000000"
    "f64_or_zero (fq_cart_fee r) = Fin c" "0 \<le> c" "c \<le> 100000000"
    "f64_or_zero (fq_caddy_fee r) = Fin d" "0 \<le> d" "d \<le> 100000000"
    by (auto simp: quote_request_ok_def split: f64.splits)
  obtain green where green: "rounded_i64 (Fin g) = Inr green" "0 \<le> green \<and> green \<le> 100000000 \<and> rounds_to (Fin g) green"
    using rounded_i64_fee [of g] q by auto
  obtain cart where cart: "rounded_i64 (Fin c) = Inr cart" "0 \<le> cart \<and> cart \<le> 100000000 \<and> rounds_to (Fin c) cart"
    using rounded_i64_fee [of c] q by auto
  obtain caddy where caddy: "rounded_i64 (Fin d) = Inr caddy" "0 \<le> caddy \<and> caddy \<le> 100000000 \<and> rounds_to (Fin d) caddy"
    using rounded_i64_fee [of d] q by auto
  have range: "in_i64 (green + cart)" "in_i64 (green + cart + caddy)"
    using green(2) cart(2) caddy(2) by (simp_all add: in_i64_def i64_min_def i64_max_def)
  have valid: "\<not> (\<not> f64_is_finite (fq_green_fee r) \<or> f64_le (fq_green_fee r) (Fin 0)
      \<or> f64_lt MAX_FEE_AMOUNT (fq_green_fee r))" "\<not> (fq_holes r \<noteq> 9 \<and> fq_holes r \<noteq> 18)"
    "\<not> (bad_optional_fee (fq_cart_fee r) \<or> bad_optional_fee (fq_caddy_fee r))"
    using assms unfolding quote_request_ok_def de_Morgan_disj green_fee_iff [symmetric]
      bad_optional_fee_iff [symmetric] by auto
  have "prepare_fee_quote r = Inr \<lparr>fi_green_fee = green, fi_cart_fee = cart,
      fi_caddy_fee = caddy, fi_subtotal = green + cart + caddy\<rparr>"
    unfolding prepare_fee_quote_def if_not_P [OF valid(1)] if_not_P [OF valid(2)] if_not_P [OF valid(3)]
    using range by (simp add: q green(1) cart(1) caddy(1) checked_i64_def)
  then show ?thesis using green(2) cart(2) caddy(2) q by (intro that [of green cart caddy]) simp_all
qed

text \<open>
  A fee form is priced exactly when the green fee is a number above zero and at most
  100,000,000, the holes are 9 or 18 and the optional fees lie between zero and that limit;
  each fee is rounded to the nearest unit within those limits and the subtotal is their exact
  sum, so the overflow errors of this step never occur.
\<close>

theorem fee_quote_prepared_exactly:
  "case prepare_fee_quote r of
     Inl e \<Rightarrow> \<not> quote_request_ok r \<and> e \<noteq> fee_range_error
   | Inr i \<Rightarrow> quote_request_ok r
       \<and> rounds_to (fq_green_fee r) (fi_green_fee i) \<and> fi_green_fee i \<in> {0..100000000}
       \<and> rounds_to (f64_or_zero (fq_cart_fee r)) (fi_cart_fee i) \<and> fi_cart_fee i \<in> {0..100000000}
       \<and> rounds_to (f64_or_zero (fq_caddy_fee r)) (fi_caddy_fee i) \<and> fi_caddy_fee i \<in> {0..100000000}
       \<and> fi_subtotal i = fi_green_fee i + fi_cart_fee i + fi_caddy_fee i"
proof (cases "quote_request_ok r")
  case True
  then show ?thesis by (rule prepare_fee_quote_ok) (use True in simp)
next
  case False
  then consider
      "\<not> f64_is_finite (fq_green_fee r) \<or> f64_le (fq_green_fee r) (Fin 0)
        \<or> f64_lt MAX_FEE_AMOUNT (fq_green_fee r)"
    | "fq_holes r \<noteq> 9 \<and> fq_holes r \<noteq> 18"
    | "bad_optional_fee (fq_cart_fee r) \<or> bad_optional_fee (fq_caddy_fee r)"
    unfolding quote_request_ok_def green_fee_iff [symmetric] bad_optional_fee_iff [symmetric] by blast
  then have "prepare_fee_quote r \<in> Inl ` {BadRequest ''greenFee must be greater than 0 and no more than 100000000'',
      BadRequest ''numHoles must be 9 or 18'', BadRequest ''optional fees must be between 0 and 100000000''}"
    by cases (simp_all add: prepare_fee_quote_def)
  with False show ?thesis by (auto simp: fee_range_error_def)
qed

end
