(* ===== verification/Membership.thy ===== *)
theory Membership
  imports CaddieModel "HOL-Library.Word"
begin

text \<open>
  What a membership is worth and when it may be played
  (\<open>src/course/domain/membership_pricing.rs\<close>, \<open>src/course/domain/membership_play_window.rs\<close>).
  Both tables hold at most one row per plan; the locale \<open>keyed_table\<close> is that contract, and
  a lookup in a table it accepts does not depend on the order of the rows. The weekday set is
  the code's \<open>u8\<close>, an \<open>8 word\<close>.
\<close>

unbundle bit_operations_syntax

section \<open>Tables with one row per key\<close>

text \<open>The loop that compares each row with the rows before it.\<close>

fun repeats_key :: "('r \<Rightarrow> 'k) \<Rightarrow> 'r list \<Rightarrow> 'r list \<Rightarrow> bool" where
  "repeats_key key seen [] = False"
| "repeats_key key seen (r # rs) =
     (if \<exists>other \<in> set seen. key other = key r then True else repeats_key key (seen @ [r]) rs)"

definition lookup_key :: "('r \<Rightarrow> 'k) \<Rightarrow> 'k \<Rightarrow> 'r list \<Rightarrow> 'r option" where
  "lookup_key key k rows = find (\<lambda>r. key r = k) rows"

lemma repeats_key_iff:
  "repeats_key key seen rs \<longleftrightarrow> \<not> distinct (map key rs) \<or> key ` set seen \<inter> key ` set rs \<noteq> {}"
proof (induction rs arbitrary: seen)
  case (Cons a rs)
  show ?case
  proof (cases "key a \<in> key ` set seen")
    case True
    then have "\<exists>other \<in> set seen. key other = key a" by (auto simp: image_iff)
    with True show ?thesis by auto
  next
    case False
    then have "\<not> (\<exists>other \<in> set seen. key other = key a)" by (auto simp: image_iff)
    with False Cons.IH show ?thesis by auto
  qed
qed simp

lemma option_eqI: "(\<And>r. a = Some r \<longleftrightarrow> b = Some r) \<Longrightarrow> a = b"
  by (cases a; cases b) auto

locale keyed_table =
  fixes key :: "'r \<Rightarrow> 'k" and accept :: "'r list \<Rightarrow> 'r list result"
  assumes accept_iff: "accept rows = Inr rows' \<longleftrightarrow> rows' = rows \<and> distinct (map key rows)"
begin

lemma lookup_Some:
  assumes "accept rows = Inr rows'"
  shows "lookup_key key k rows' = Some r \<longleftrightarrow> r \<in> set rows \<and> key r = k"
proof -
  have "rows' = rows" "distinct (map key rows)" using assms accept_iff by auto
  then show ?thesis
    unfolding lookup_key_def
    by (induction rows arbitrary: rows') (auto simp: image_iff)
qed

lemma lookup_None:
  assumes "accept rows = Inr rows'"
  shows "lookup_key key k rows' = None \<longleftrightarrow> k \<notin> key ` set rows"
proof -
  have "lookup_key key k rows' = None \<longleftrightarrow> (\<forall>r. lookup_key key k rows' \<noteq> Some r)" by simp
  also have "\<dots> \<longleftrightarrow> k \<notin> key ` set rows" unfolding lookup_Some [OF assms] by auto
  finally show ?thesis .
qed

lemma lookup_order_irrelevant:
  assumes "accept rows = Inr rows'" "mset rows2 = mset rows"
  shows "accept rows2 = Inr rows2 \<and> lookup_key key k rows2 = lookup_key key k rows'"
proof -
  have "distinct (map key rows2)"
    using assms accept_iff by (metis mset_eq_imp_distinct_iff mset_map)
  then have ok: "accept rows2 = Inr rows2" using accept_iff by blast
  have "set rows2 = set rows" using assms(2) by (rule mset_eq_setD)
  then have "lookup_key key k rows2 = Some r \<longleftrightarrow> lookup_key key k rows' = Some r" for r
    using lookup_Some [OF ok] lookup_Some [OF assms(1)] by simp
  then have "lookup_key key k rows2 = lookup_key key k rows'" by (rule option_eqI)
  with ok show ?thesis by simp
qed

end

section \<open>Discounts\<close>

type_synonym plan_id = str

definition MAX_PERCENT :: int where "MAX_PERCENT = 100"

datatype member_discount = Yen int | Percent int

definition discount_try_new :: "str \<Rightarrow> int \<Rightarrow> member_discount result" where
  "discount_try_new kind v =
     (if kind = ''yen'' then
        (if v < 0 then Inl (BadRequest ''a member discount must not be negative'') else Inr (Yen v))
      else if kind = ''percent'' then
        (if \<not> (0 \<le> v \<and> v \<le> MAX_PERCENT)
         then Inl (BadRequest ''a percent discount must be between 0 and 100'') else Inr (Percent v))
      else Inl (BadRequest ''a member discount is either yen or percent''))"

fun discount_kind :: "member_discount \<Rightarrow> str" where
  "discount_kind (Yen _) = ''yen''"
| "discount_kind (Percent _) = ''percent''"

fun discount_value :: "member_discount \<Rightarrow> int" where
  "discount_value (Yen v) = v"
| "discount_value (Percent v) = v"

fun discount_apply :: "member_discount \<Rightarrow> int \<Rightarrow> int" where
  "discount_apply (Yen off) green_fee = max (saturate_i64 (green_fee - off)) 0"
| "discount_apply (Percent off) green_fee =
     max (quotient_i (saturate_i64 (green_fee * (MAX_PERCENT - off))) MAX_PERCENT) 0"

record membership_discount =
  md_plan :: plan_id
  md_discount :: member_discount

definition discounts_try_new :: "membership_discount list \<Rightarrow> membership_discount list result" where
  "discounts_try_new rows =
     (if repeats_key md_plan [] rows
      then Inl (BadRequest ''each membership may have only one discount'') else Inr rows)"

definition for_plan :: "membership_discount list \<Rightarrow> plan_id \<Rightarrow> member_discount option" where
  "for_plan rows plan = map_option md_discount (lookup_key md_plan plan rows)"

definition green_fee_for :: "membership_discount list \<Rightarrow> int \<Rightarrow> plan_id option \<Rightarrow> int" where
  "green_fee_for rows green_fee plan =
     (case Option.bind plan (for_plan rows) of Some d \<Rightarrow> discount_apply d green_fee | None \<Rightarrow> green_fee)"

interpretation discounts: keyed_table md_plan discounts_try_new
  by unfold_locales (auto simp: discounts_try_new_def repeats_key_iff)

section \<open>Playable days\<close>

type_synonym playable_days = "8 word"

definition ALL_DAYS :: playable_days where "ALL_DAYS = 0b1111111"

fun set_flags :: "nat \<Rightarrow> bool list \<Rightarrow> playable_days \<Rightarrow> playable_days" where
  "set_flags index [] bits = bits"
| "set_flags index (on # flags) bits =
     set_flags (Suc index) flags (if on then bits OR push_bit index 1 else bits)"

definition days_from_flags :: "bool list \<Rightarrow> playable_days" where
  "days_from_flags flags = set_flags 0 flags 0"

definition days_from_bits :: "8 word \<Rightarrow> playable_days" where
  "days_from_bits bits = bits AND 0b1111111"

definition days_flags :: "playable_days \<Rightarrow> bool list" where
  "days_flags d = map (\<lambda>index. d AND push_bit index 1 \<noteq> 0) [0..<7]"

definition days_unrestricted :: "playable_days \<Rightarrow> bool" where
  "days_unrestricted d \<longleftrightarrow> d = 0 \<or> d = ALL_DAYS"

fun days_from_monday :: "weekday \<Rightarrow> nat" where
  "days_from_monday Mon = 0" | "days_from_monday Tue = 1" | "days_from_monday Wed = 2"
| "days_from_monday Thu = 3" | "days_from_monday Fri = 4" | "days_from_monday Sat = 5"
| "days_from_monday Sun = 6"

definition days_allow :: "playable_days \<Rightarrow> weekday \<Rightarrow> bool" where
  "days_allow d w = (if days_unrestricted d then True else d AND push_bit (days_from_monday w) 1 \<noteq> 0)"

section \<open>Playing windows\<close>

text \<open>A \<open>NaiveTime\<close> is the time of day as a number, in the crate's order.\<close>

type_synonym clock_time = int

record play_window =
  pw_plan :: plan_id
  pw_days :: playable_days
  pw_from :: "clock_time option"
  pw_to :: "clock_time option"

definition play_window_try_new ::
  "plan_id \<Rightarrow> playable_days \<Rightarrow> clock_time option \<Rightarrow> clock_time option \<Rightarrow> play_window result" where
  "play_window_try_new plan days opens closes =
     (if (case (opens, closes) of (Some f, Some t) \<Rightarrow> t \<le> f | _ \<Rightarrow> False)
      then Inl (BadRequest ''a playing window must end after it starts'')
      else Inr \<lparr>pw_plan = plan, pw_days = days, pw_from = opens, pw_to = closes\<rparr>)"

definition window_unrestricted :: "play_window \<Rightarrow> bool" where
  "window_unrestricted w \<longleftrightarrow> days_unrestricted (pw_days w) \<and> pw_from w = None \<and> pw_to w = None"

datatype play_breach = DayBreach | TimeBreach

fun breach_as_str :: "play_breach \<Rightarrow> str" where
  "breach_as_str DayBreach = ''day''"
| "breach_as_str TimeBreach = ''time''"

definition window_breach :: "play_window \<Rightarrow> weekday \<Rightarrow> clock_time \<Rightarrow> play_breach option" where
  "window_breach w day tee =
     (if \<not> days_allow (pw_days w) day then Some DayBreach
      else if (case pw_from w of None \<Rightarrow> False | Some f \<Rightarrow> tee < f)
           \<or> (case pw_to w of None \<Rightarrow> False | Some t \<Rightarrow> t < tee)
      then Some TimeBreach else None)"

definition windows_try_new :: "play_window list \<Rightarrow> play_window list result" where
  "windows_try_new rows =
     (if repeats_key pw_plan [] rows
      then Inl (BadRequest ''each membership may have only one playing window'') else Inr rows)"

definition breach_for ::
  "play_window list \<Rightarrow> plan_id option \<Rightarrow> weekday \<Rightarrow> clock_time \<Rightarrow> play_breach option" where
  "breach_for rows plan day tee =
     (case plan of None \<Rightarrow> None
      | Some p \<Rightarrow> (case lookup_key pw_plan p rows of None \<Rightarrow> None
         | Some w \<Rightarrow> if window_unrestricted w then None else window_breach w day tee))"

interpretation windows: keyed_table pw_plan windows_try_new
  by unfold_locales (auto simp: windows_try_new_def repeats_key_iff)

section \<open>Properties of the discounts\<close>

definition discount_ok :: "member_discount \<Rightarrow> bool" where
  "discount_ok d \<longleftrightarrow> (case d of Yen v \<Rightarrow> 0 \<le> v | Percent v \<Rightarrow> 0 \<le> v \<and> v \<le> 100)"

lemma discount_try_new_ok: "discount_try_new kind v = Inr d \<longleftrightarrow>
    discount_ok d \<and> discount_kind d = kind \<and> discount_value d = v"
  by (cases d) (auto simp: discount_try_new_def discount_ok_def MAX_PERCENT_def)

lemma discount_apply_bounds:
  assumes "discount_ok d" "0 \<le> fee" "fee \<le> i64_max"
  shows "0 \<le> discount_apply d fee \<and> discount_apply d fee \<le> fee"
proof (cases d)
  case (Yen off)
  with assms show ?thesis
    by (auto simp: discount_ok_def saturate_i64_def i64_min_def i64_max_def)
next
  case (Percent off)
  let ?x = "saturate_i64 (fee * (MAX_PERCENT - off))"
  have o: "0 \<le> off" "off \<le> 100" using assms Percent by (auto simp: discount_ok_def)
  have "0 \<le> fee * (100 - off)" using o assms by simp
  moreover have "fee * (100 - off) \<le> fee * 100" using o assms by (intro mult_left_mono) auto
  ultimately have x: "0 \<le> ?x" "?x \<le> fee * 100"
    by (auto simp: saturate_i64_def MAX_PERCENT_def i64_min_def i64_max_def)
  then have "?x div 100 \<le> fee" using zdiv_mono1 [OF x(2), of 100] by simp
  moreover have "0 \<le> ?x div 100" using x(1) by simp
  ultimately show ?thesis using Percent x assms
    by (simp add: MAX_PERCENT_def quotient_i_nonneg)
qed

text \<open>
  A membership's green fee: a plan with an accepted discount pays no more than the posted
  fee and never less than nothing, a yen discount is taken off exactly and a percentage leaves
  the rest rounded down; a visitor or a plan without a row pays the posted fee; and the answer
  does not depend on the order in which the discounts are stored.
\<close>

theorem member_green_fee:
  assumes "discounts_try_new rows = Inr table" "\<forall>r \<in> set rows. discount_ok (md_discount r)"
    and "0 \<le> fee" "100 * fee \<le> i64_max" "mset rows2 = mset rows"
  shows "0 \<le> green_fee_for table fee plan \<and> green_fee_for table fee plan \<le> fee
    \<and> green_fee_for rows2 fee plan = green_fee_for table fee plan
    \<and> green_fee_for table fee plan =
       (case plan of None \<Rightarrow> fee
        | Some p \<Rightarrow>
            (case map_of (map (\<lambda>r. (md_plan r, md_discount r)) rows) p of
               None \<Rightarrow> fee
             | Some (Yen off) \<Rightarrow> max (fee - off) 0
             | Some (Percent off) \<Rightarrow> fee * (100 - off) div 100))"
proof -
  have table: "table = rows" using assms(1) discounts.accept_iff by blast
  have order: "lookup_key md_plan p rows2 = lookup_key md_plan p table" for p
    using discounts.lookup_order_irrelevant [OF assms(1,5)] by blast
  have stored: "green_fee_for rows2 fee plan = green_fee_for table fee plan"
    by (cases plan) (simp_all add: green_fee_for_def for_plan_def order)
  have found: "map_of (map (\<lambda>r. (md_plan r, md_discount r)) rows) p
      = map_option md_discount (lookup_key md_plan p table)" for p
    unfolding table lookup_key_def by (induction rows) auto
  have ok: "discount_ok d" if "for_plan table p = Some d" for p d
    using that assms(2) discounts.lookup_Some [OF assms(1), of p] by (auto simp: for_plan_def)
  have applied: "discount_apply d fee = (case d of Yen off \<Rightarrow> max (fee - off) 0
      | Percent off \<Rightarrow> fee * (100 - off) div 100)" if "discount_ok d" for d
  proof (cases d)
    case (Yen off)
    with that assms(3,4) show ?thesis
      by (auto simp: discount_ok_def saturate_i64_def i64_min_def i64_max_def)
  next
    case (Percent off)
    then have o: "0 \<le> off" "off \<le> 100" using that by (auto simp: discount_ok_def)
    have "fee * (100 - off) \<le> fee * 100" using o assms(3) by (intro mult_left_mono) auto
    moreover have pos: "0 \<le> fee * (100 - off)" using o assms(3) by simp
    ultimately have "in_i64 (fee * (100 - off))" using assms(4) by (simp add: in_i64_def i64_min_def)
    with Percent pos show ?thesis
      by (simp add: MAX_PERCENT_def quotient_i_nonneg pos_imp_zdiv_nonneg_iff)
  qed
  have between: "0 \<le> discount_apply d fee \<and> discount_apply d fee \<le> fee" if "discount_ok d" for d
    using discount_apply_bounds [OF that assms(3)] assms(3,4) by simp
  show ?thesis
  proof (cases "Option.bind plan (for_plan table)")
    case None
    then have "green_fee_for table fee plan = fee" by (simp add: green_fee_for_def)
    moreover have "map_of (map (\<lambda>r. (md_plan r, md_discount r)) rows) p = None" if "plan = Some p" for p
      using None that by (simp add: for_plan_def found)
    ultimately show ?thesis using stored assms(3) by (cases plan) simp_all
  next
    case (Some d)
    then obtain p where p: "plan = Some p" "for_plan table p = Some d"
      by (auto simp: Option.bind_eq_Some_conv)
    then have "map_of (map (\<lambda>r. (md_plan r, md_discount r)) rows) p = Some d"
      by (simp add: for_plan_def found)
    moreover have "green_fee_for table fee plan = discount_apply d fee"
      by (simp add: green_fee_for_def Some)
    ultimately show ?thesis using stored applied [OF ok [OF p(2)]] between [OF ok [OF p(2)]] p(1)
      by (cases d) simp_all
  qed
qed


definition sample_discounts :: "membership_discount list" where
  "sample_discounts = [\<lparr>md_plan = ''gold'', md_discount = Yen 5000\<rparr>,
     \<lparr>md_plan = ''day'', md_discount = Percent 30\<rparr>]"

theorem member_green_fee_witness:
  "green_fee_for sample_discounts 12345 (Some ''day'') = 8641
   \<and> green_fee_for (rev sample_discounts) 12345 (Some ''day'') = 8641
   \<and> green_fee_for sample_discounts 3000 (Some ''gold'') = 0"
proof -
  have ok: "discounts_try_new sample_discounts = Inr sample_discounts"
    "\<forall>r \<in> set sample_discounts. discount_ok (md_discount r)"
    "mset (rev sample_discounts) = mset sample_discounts"
    by (simp_all add: sample_discounts_def discounts_try_new_def discount_ok_def)
  show ?thesis
    using member_green_fee [OF ok(1,2) _ _ ok(3), of 12345 "Some ''day''"]
      member_green_fee [OF ok(1,2) _ _ ok(3), of 3000 "Some ''gold''"]
    by (simp add: sample_discounts_def i64_max_def)
qed

section \<open>Properties of the playing windows\<close>

lemma bit_set_flags:
  "bit (set_flags i flags acc) n \<longleftrightarrow>
     bit acc n \<or> (i \<le> n \<and> n < i + length flags \<and> n < 8 \<and> flags ! (n - i))"
proof (induction i flags acc rule: set_flags.induct)
  case (2 i on flags bits)
  then show ?case
    by (cases "n = i") (auto simp: bit_or_iff bit_exp_iff possible_bit_word nth_Cons' not_le)
qed auto

lemma and_bit_iff: "(d :: 8 word) AND 2 ^ n = 0 \<longleftrightarrow> \<not> bit d n"
  by (simp add: and_exp_eq_0_iff_not_bit)

lemma days_flags_bits: "days_flags d = map (bit d) [0..<7]"
  by (simp add: days_flags_def and_bit_iff)

lemma week_mask: "(0b1111111 :: 8 word) = mask 7"
  by (simp add: mask_eq_exp_minus_1)

text \<open>
  The weekday set loses nothing: the seven flags of the form come back as they went in,
  the stored byte keeps its seven bits, and every set of days that fits the byte has exactly
  one form.
\<close>

theorem playable_days_roundtrip:
  assumes "length flags = 7"
  shows "days_flags (days_from_flags flags) = flags
    \<and> days_from_bits (days_from_flags flags) = days_from_flags flags
    \<and> days_from_flags (days_flags (days_from_bits bits)) = days_from_bits bits"
proof (intro conjI)
  show "days_flags (days_from_flags flags) = flags"
    using assms by (auto simp: days_flags_bits days_from_flags_def bit_set_flags intro!: nth_equalityI)
  show "days_from_bits (days_from_flags flags) = days_from_flags flags"
    unfolding days_from_bits_def days_from_flags_def week_mask
    using assms by (auto intro!: bit_word_eqI simp: bit_and_iff bit_mask_iff bit_set_flags)
  show "days_from_flags (days_flags (days_from_bits bits)) = days_from_bits bits"
    unfolding days_flags_bits days_from_bits_def days_from_flags_def week_mask
    by (auto intro!: bit_word_eqI simp: bit_and_iff bit_mask_iff bit_set_flags)
qed

theorem playable_days_roundtrip_witness:
  "days_from_flags [True, True, True, True, True, False, False] = 31
   \<and> days_flags 31 = [True, True, True, True, True, False, False]"
proof -
  have bits: "days_from_flags [True, True, True, True, True, False, False] = 31" by (simp add: days_from_flags_def)
  from playable_days_roundtrip [of "[True, True, True, True, True, False, False]"] bits
  show ?thesis by simp
qed

text \<open>
  A booking is reported outside a member's window exactly when the member's plan has a
  window that asks something and the day is not one of its days, or the day is and the tee time
  lies before its opening or after its closing; a set with no day selected asks nothing.
\<close>

theorem breach_reported_exactly:
  assumes "windows_try_new rows = Inr table"
  shows "(breach_for table (Some plan) day tee = Some DayBreach \<longleftrightarrow>
      (\<exists>w \<in> set rows. pw_plan w = plan \<and> pw_days w \<noteq> 0 \<and> pw_days w \<noteq> ALL_DAYS
        \<and> \<not> bit (pw_days w) (days_from_monday day)))
    \<and> (breach_for table (Some plan) day tee = Some TimeBreach \<longleftrightarrow>
      (\<exists>w \<in> set rows. pw_plan w = plan
        \<and> (pw_days w = 0 \<or> pw_days w = ALL_DAYS \<or> bit (pw_days w) (days_from_monday day))
        \<and> ((\<exists>f. pw_from w = Some f \<and> tee < f) \<or> (\<exists>t. pw_to w = Some t \<and> t < tee))))
    \<and> breach_for table None day tee = None"
proof (cases "lookup_key pw_plan plan table")
  case None
  then show ?thesis using windows.lookup_None [OF assms, of plan]
    by (auto simp: breach_for_def)
next
  case (Some w)
  then have w: "w \<in> set rows" "pw_plan w = plan" using windows.lookup_Some [OF assms] by auto
  have uniq: "v \<in> set rows \<Longrightarrow> pw_plan v = plan \<Longrightarrow> v = w" for v
    using Some windows.lookup_Some [OF assms, of plan] by (metis option.inject)
  have only: "(\<exists>v \<in> set rows. pw_plan v = plan \<and> P v) \<longleftrightarrow> P w" for P
    using w uniq by blast
  show ?thesis unfolding only
    by (auto simp: breach_for_def Some window_unrestricted_def window_breach_def days_allow_def
        days_unrestricted_def and_bit_iff split: option.splits)
qed

definition sample_window :: play_window where
  "sample_window = \<lparr>pw_plan = ''weekday'', pw_days = 31, pw_from = Some 420, pw_to = None\<rparr>"

theorem breach_reported_exactly_witness:
  "breach_for [sample_window] (Some ''weekday'') Sat 480 = Some DayBreach
   \<and> breach_for [sample_window] (Some ''weekday'') Fri 400 = Some TimeBreach"
proof -
  have "windows_try_new [sample_window] = Inr [sample_window]" by (simp add: windows_try_new_def)
  from breach_reported_exactly [OF this, of "''weekday''" Sat 480]
    breach_reported_exactly [OF this, of "''weekday''" Fri 400]
  show ?thesis by (simp add: sample_window_def ALL_DAYS_def)
qed

end
