(* ===== verification/ShiftHours.thy ===== *)
theory ShiftHours
  imports CaddieShift TextFormats
begin

text \<open>
  The clock times a confirmed shift covers (\<open>src/course/domain/shift_hours.rs\<close>). Minutes are
  \<open>u16\<close> values, here \<open>nat\<close>: every sum the code forms stays below 1440, and the parser rejects
  what does not fit. The specification is that a day is tiled by its two halves.
\<close>

section \<open>Clock times\<close>

definition DAY_MINUTES :: nat where "DAY_MINUTES = 24 * 60"

definition clock_error :: course_error where
  "clock_error = BadRequest ''a clock time reads as HH:MM''"

definition format_clock :: "nat \<Rightarrow> str" where
  "format_clock m = two_digits (m div 60) @ [CHR '':''] @ two_digits (m mod 60)"

definition parse_clock :: "str \<Rightarrow> nat result" where
  "parse_clock v =
     (case split_once (CHR '':'') v of None \<Rightarrow> Inl clock_error
      | Some (hs, ms) \<Rightarrow>
        (case parse_u16 hs of None \<Rightarrow> Inl clock_error
         | Some h \<Rightarrow> (case parse_u16 (hd (split_on (CHR '':'') ms)) of None \<Rightarrow> Inl clock_error
           | Some m \<Rightarrow> if 23 < h \<or> 59 < m then Inl clock_error else Inr (h * 60 + m))))"

section \<open>Hours and bands\<close>

record shift_hours =
  hr_start :: nat
  hr_end :: nat

definition hours_try_new :: "nat \<Rightarrow> nat \<Rightarrow> shift_hours result" where
  "hours_try_new s e =
     (if e \<le> s then Inl (BadRequest ''a shift must end after it starts'')
      else if DAY_MINUTES \<le> e then Inl (BadRequest ''a shift must end within the day'')
      else Inr \<lparr>hr_start = s, hr_end = e\<rparr>)"

definition hours_start :: "shift_hours \<Rightarrow> str" where "hours_start h = format_clock (hr_start h)"
definition hours_end :: "shift_hours \<Rightarrow> str" where "hours_end h = format_clock (hr_end h)"

record opening_band =
  ob_start :: nat
  ob_end :: nat

definition band_try_new :: "str \<Rightarrow> str \<Rightarrow> opening_band result" where
  "band_try_new s e =
     (case parse_clock s of Inl err \<Rightarrow> Inl err
      | Inr a \<Rightarrow> (case parse_clock e of Inl err \<Rightarrow> Inl err
        | Inr b \<Rightarrow> if b \<le> a then Inl (BadRequest ''an opening band must end after it starts'')
                   else Inr \<lparr>ob_start = a, ob_end = b\<rparr>))"

record default_hours =
  dh_full_day :: shift_hours
  dh_midday :: nat

definition default_hours_try_new :: "shift_hours \<Rightarrow> nat \<Rightarrow> default_hours result" where
  "default_hours_try_new full midday =
     (if midday \<le> hr_start full \<or> hr_end full \<le> midday
      then Inl (BadRequest ''the midday handover must fall inside the working day'')
      else Inr \<lparr>dh_full_day = full, dh_midday = midday\<rparr>)"

definition club_default :: default_hours where
  "club_default = \<lparr>dh_full_day = \<lparr>hr_start = 7 * 60, hr_end = 17 * 60\<rparr>, dh_midday = 12 * 60\<rparr>"

section \<open>The hours of a span\<close>

definition default_span_hours :: "shift_span \<Rightarrow> default_hours \<Rightarrow> shift_hours result" where
  "default_span_hours s d =
     (case s of
        FullDay \<Rightarrow> Inr (dh_full_day d)
      | Morning \<Rightarrow> hours_try_new (hr_start (dh_full_day d)) (dh_midday d)
      | Afternoon \<Rightarrow> hours_try_new (dh_midday d) (hr_end (dh_full_day d)))"

definition midpoint :: "nat \<Rightarrow> nat \<Rightarrow> nat" where
  "midpoint opens closes = opens + (closes - opens) div 2"

definition abs_diff :: "nat \<Rightarrow> nat \<Rightarrow> nat" where
  "abs_diff a b = (if a < b then b - a else a - b)"

definition handover_between :: "opening_band list \<Rightarrow> nat \<Rightarrow> nat \<Rightarrow> nat" where
  "handover_between sorted_bands opens closes =
     (let middle = midpoint opens closes in
      case min_by_key (\<lambda>finish. abs_diff finish middle)
             (filter (\<lambda>finish. opens < finish \<and> finish < closes)
               (map ob_end (take (length sorted_bands - 1) sorted_bands))) of
        None \<Rightarrow> middle | Some finish \<Rightarrow> finish)"

definition band_order :: "opening_band \<Rightarrow> nat \<times> nat" where
  "band_order b = (ob_start b, ob_end b)"

definition latest_finish :: "opening_band list \<Rightarrow> nat" where
  "latest_finish bands = Max (set (map ob_end bands))"

definition hours_for_span :: "shift_span \<Rightarrow> opening_band list \<Rightarrow> default_hours \<Rightarrow> shift_hours result" where
  "hours_for_span s bands defaults =
     (let sorted_bands = sort_by (key_le band_order) bands in
      case sorted_bands of
        [] \<Rightarrow> default_span_hours s defaults
      | first # _ \<Rightarrow>
          let opens = ob_start first;
              closes = latest_finish sorted_bands in
          case s of
            FullDay \<Rightarrow> hours_try_new opens closes
          | Morning \<Rightarrow> hours_try_new opens (handover_between sorted_bands opens closes)
          | Afternoon \<Rightarrow> hours_try_new (handover_between sorted_bands opens closes) closes)"

section \<open>Properties\<close>

definition band_ok :: "opening_band \<Rightarrow> bool" where
  "band_ok b \<longleftrightarrow> ob_start b < ob_end b \<and> ob_end b < DAY_MINUTES"

definition defaults_ok :: "default_hours \<Rightarrow> bool" where
  "defaults_ok d \<longleftrightarrow> hr_start (dh_full_day d) < dh_midday d \<and> dh_midday d < hr_end (dh_full_day d)
     \<and> hr_end (dh_full_day d) < DAY_MINUTES"

text \<open>Whatever the constructors accept satisfies the two conditions above.\<close>

lemma parse_clock_within: "parse_clock v = Inr m \<Longrightarrow> m < DAY_MINUTES"
  by (auto simp: parse_clock_def DAY_MINUTES_def split: option.splits if_splits)

lemma band_try_new_ok: "band_try_new s e = Inr b \<Longrightarrow> band_ok b"
  by (auto simp: band_try_new_def band_ok_def dest: parse_clock_within split: sum.splits if_splits)

lemma default_hours_try_new_ok:
  "hours_try_new s e = Inr full \<Longrightarrow> default_hours_try_new full midday = Inr d \<Longrightarrow> defaults_ok d"
  by (auto simp: hours_try_new_def default_hours_try_new_def defaults_ok_def split: if_splits)

text \<open>
  Every time of the day survives the text it is sent as: formatting a minute and reading
  it back gives the same minute.
\<close>

theorem clock_roundtrip:
  assumes "m < DAY_MINUTES"
  shows "parse_clock (format_clock m) = Inr m"
proof -
  have b: "m div 60 < 24" "m mod 60 < 60" using assms by (auto simp: DAY_MINUTES_def)
  have hs: "CHR '':'' \<notin> set (two_digits (m div 60))" and ms: "CHR '':'' \<notin> set (two_digits (m mod 60))"
    using b by (auto intro!: two_digits_no_colon)
  have "split_once (CHR '':'') (format_clock m) = Some (two_digits (m div 60), two_digits (m mod 60))"
    using hs unfolding split_once_def format_clock_def
    by (simp add: dropWhile_append2 takeWhile_append2 dropWhile_append takeWhile_append)
  then show ?thesis
    using b split_on_no_sep [OF ms] by (simp add: parse_clock_def parse_u16_def parse_two_digits)
qed

theorem clock_roundtrip_witness: "parse_clock (format_clock 425) = Inr 425 \<and> format_clock 425 = ''07:05''"
  by (rule conjI, rule clock_roundtrip, simp add: DAY_MINUTES_def) code_simp

lemma handover_inside:
  assumes "opens + 2 \<le> closes"
  shows "opens < handover_between bs opens closes \<and> handover_between bs opens closes < closes"
  using assms min_by_key_in
  by (fastforce simp: handover_between_def Let_def midpoint_def split: option.splits)

lemma bands_span:
  assumes "sort_by (key_le band_order) bands = first # rest" "\<forall>b \<in> set bands. band_ok b"
  shows "ob_start first < latest_finish (first # rest)"
    and "latest_finish (first # rest) < DAY_MINUTES"
    and "\<forall>b \<in> set bands. ob_start first \<le> ob_start b \<and> ob_end b \<le> latest_finish (first # rest)"
proof -
  have same: "set (first # rest) = set bands" using assms(1) by (metis set_sort_by)
  have first: "first \<in> set bands" using same by auto
  have le: "ob_end b \<le> latest_finish (first # rest)" if "b \<in> set bands" for b
    unfolding latest_finish_def using that same by (intro Max_ge) auto
  have "ob_start first < ob_end first" using assms(2) first by (simp add: band_ok_def)
  then show "ob_start first < latest_finish (first # rest)"
    using le [OF first] by (rule less_le_trans)
  have "latest_finish (first # rest) \<in> set (map ob_end (first # rest))"
    unfolding latest_finish_def by (rule Max_in) auto
  then have "latest_finish (first # rest) \<in> ob_end ` set bands" using same by auto
  then show "latest_finish (first # rest) < DAY_MINUTES"
    using assms(2) by (auto simp: band_ok_def)
  have "ob_start first \<le> ob_start b" if "b \<in> set bands" for b
    using by_key.head_least [OF assms(1) that] by (auto simp: key_le_def band_order_def less_eq_prod_def)
  with le show "\<forall>b \<in> set bands. ob_start first \<le> ob_start b
      \<and> ob_end b \<le> latest_finish (first # rest)" by blast
qed

text \<open>
  A confirmed shift always has hours, and the halves tile the day: whatever bands the
  course opens, or with none the club's own hours, the full day covers every band, and when it
  is longer than a minute the morning starts with it, hands over inside it to the afternoon,
  and the afternoon ends with it.
\<close>

theorem halves_tile_the_day:
  assumes "\<forall>b \<in> set bands. band_ok b" "defaults_ok d"
  shows "\<exists>full. hours_for_span FullDay bands d = Inr full \<and> hr_end full < DAY_MINUTES
    \<and> (\<forall>b \<in> set bands. hr_start full \<le> ob_start b \<and> ob_end b \<le> hr_end full)
    \<and> (hr_start full + 2 \<le> hr_end full \<longrightarrow>
        (\<exists>m a. hours_for_span Morning bands d = Inr m \<and> hours_for_span Afternoon bands d = Inr a
          \<and> hr_start m = hr_start full \<and> hr_start m < hr_end m \<and> hr_end m = hr_start a
          \<and> hr_start a < hr_end a \<and> hr_end a = hr_end full))"
proof (cases "sort_by (key_le band_order) bands")
  case Nil
  then have "set bands = {}" by (metis list.set(1) set_sort_by)
  with Nil assms(2) show ?thesis
    by (auto simp: hours_for_span_def default_span_hours_def hours_try_new_def defaults_ok_def)
next
  case (Cons first rest)
  let ?closes = "latest_finish (first # rest)"
  note span = bands_span [OF Cons assms(1)]
  have full: "hours_for_span FullDay bands d = Inr \<lparr>hr_start = ob_start first, hr_end = ?closes\<rparr>"
    using span(1,2) by (simp add: hours_for_span_def Cons hours_try_new_def  Let_def)
  have halves: "\<exists>m a. hours_for_span Morning bands d = Inr m \<and> hours_for_span Afternoon bands d = Inr a
      \<and> hr_start m = ob_start first \<and> hr_start m < hr_end m \<and> hr_end m = hr_start a
      \<and> hr_start a < hr_end a \<and> hr_end a = ?closes" if "ob_start first + 2 \<le> ?closes"
    using handover_inside [OF that, of "first # rest"] span(2)
    by (simp add: hours_for_span_def Cons hours_try_new_def Let_def)
  show ?thesis using full halves span(2,3) by (intro exI [of _ "\<lparr>hr_start = ob_start first, hr_end = ?closes\<rparr>"]) auto
qed

definition sample_bands :: "opening_band list" where
  "sample_bands = [\<lparr>ob_start = 750, ob_end = 960\<rparr>, \<lparr>ob_start = 420, ob_end = 720\<rparr>]"

theorem halves_tile_the_day_witness:
  "\<exists>full m a. hours_for_span FullDay sample_bands club_default = Inr full
    \<and> hours_for_span Morning sample_bands club_default = Inr m
    \<and> hours_for_span Afternoon sample_bands club_default = Inr a
    \<and> hr_end m = hr_start a \<and> hr_end m = 720 \<and> hr_end a = hr_end full"
proof -
  have ok: "list_all band_ok sample_bands" "defaults_ok club_default" by code_simp+
  have full: "hours_for_span FullDay sample_bands club_default = Inr \<lparr>hr_start = 420, hr_end = 960\<rparr>"
    by code_simp
  have "hours_for_span Morning sample_bands club_default = Inr \<lparr>hr_start = 420, hr_end = 720\<rparr>"
    by code_simp
  with halves_tile_the_day [OF ok(1)[unfolded list_all_iff] ok(2)] full show ?thesis by auto
qed

text \<open>
  The finish nearest the middle of the day need not be a break: of three bands whose first
  covers the second, the second one's finish is taken while the course is still open.
\<close>

lemma handover_inside_a_band:
  "let bands = [\<lparr>ob_start = 420, ob_end = 840\<rparr>, \<lparr>ob_start = 480, ob_end = 660\<rparr>,
       \<lparr>ob_start = 840, ob_end = 960\<rparr>] in
     hours_for_span Morning bands club_default = Inr \<lparr>hr_start = 420, hr_end = 660\<rparr>"
  by code_simp

end
