(* ===== verification/Party.thy ===== *)
theory Party
  imports CaddieModel TextFormats
begin

text \<open>
  What is inside one group on the tee ledger (\<open>src/course/domain/party.rs\<close>) and the booking
  it belongs to (\<open>src/course/domain/reservation.rs\<close>). The specification of the start ledger's
  remark lines is \<open>first_read\<close>: each of the three fixed instructions is taken from the first
  line that states it, and every other line is handed back.
\<close>

section \<open>Fields\<close>

definition MAX_PARTY_PLAYERS :: nat where "MAX_PARTY_PLAYERS = 8"
definition MAX_TEXT_LENGTH :: nat where "MAX_TEXT_LENGTH = 120"
definition MAX_PARTY_NOTE_LENGTH :: nat where "MAX_PARTY_NOTE_LENGTH = 500"

definition normalize_required :: "str \<Rightarrow> str \<Rightarrow> str result" where
  "normalize_required v label =
     (if trim v = [] then
        Inl (if label = ''player name'' then BadRequest ''player name must not be empty''
             else BadRequest ''value must not be empty'')
      else if MAX_TEXT_LENGTH < char_count (trim v)
      then Inl (BadRequest ''text must be at most 120 characters'')
      else Inr (trim v))"

definition normalize_optional :: "str option \<Rightarrow> str option result" where
  "normalize_optional v =
     (case v of None \<Rightarrow> Inr None
      | Some s \<Rightarrow>
          if trim s = [] then Inr None
          else if MAX_TEXT_LENGTH < char_count (trim s)
          then Inl (BadRequest ''text must be at most 120 characters'')
          else Inr (Some (trim s)))"

definition normalize_note :: "str option \<Rightarrow> str option result" where
  "normalize_note v =
     (case v of None \<Rightarrow> Inr None
      | Some s \<Rightarrow>
          if trim s = [] then Inr None
          else if MAX_PARTY_NOTE_LENGTH < char_count (trim s)
          then Inl (BadRequest ''note must be at most 500 characters'')
          else Inr (Some (trim s)))"

section \<open>Players and remarks\<close>

type_synonym customer_id = str

record party_player =
  pp_name :: str
  pp_tag :: "str option"
  pp_member_number :: "str option"
  pp_customer :: "customer_id option"

definition player_try_new ::
  "str \<Rightarrow> str option \<Rightarrow> str option \<Rightarrow> customer_id option \<Rightarrow> party_player result" where
  "player_try_new name tag member customer =
     (case normalize_required name ''player name'' of Inl e \<Rightarrow> Inl e
      | Inr n \<Rightarrow> (case normalize_optional tag of Inl e \<Rightarrow> Inl e
        | Inr t \<Rightarrow> (case normalize_optional member of Inl e \<Rightarrow> Inl e
          | Inr m \<Rightarrow> Inr \<lparr>pp_name = n, pp_tag = t, pp_member_number = m, pp_customer = customer\<rparr>)))"

definition is_linked :: "party_player \<Rightarrow> bool" where
  "is_linked p \<longleftrightarrow> pp_customer p \<noteq> None"

datatype party_settlement = Individual | Together

fun settlement_as_str :: "party_settlement \<Rightarrow> str" where
  "settlement_as_str Individual = ''individual''"
| "settlement_as_str Together = ''together''"

definition settlement_parse :: "str \<Rightarrow> party_settlement option" where
  "settlement_parse v =
     (if trim v = ''individual'' then Some Individual
      else if trim v = ''together'' then Some Together else None)"

record party_remarks =
  pr_meal :: "str option"
  pr_score_tally :: "bool option"
  pr_settlement :: "party_settlement option"
  pr_note :: "str option"

definition no_remarks :: party_remarks where
  "no_remarks = \<lparr>pr_meal = None, pr_score_tally = None, pr_settlement = None, pr_note = None\<rparr>"

definition remarks_try_new ::
  "str option \<Rightarrow> bool option \<Rightarrow> party_settlement option \<Rightarrow> str option \<Rightarrow> party_remarks result" where
  "remarks_try_new meal tally settlement note =
     (case normalize_optional meal of Inl e \<Rightarrow> Inl e
      | Inr m \<Rightarrow> (case normalize_note note of Inl e \<Rightarrow> Inl e
        | Inr n \<Rightarrow> Inr \<lparr>pr_meal = m, pr_score_tally = tally, pr_settlement = settlement, pr_note = n\<rparr>))"

definition remarks_empty :: "party_remarks \<Rightarrow> bool" where
  "remarks_empty r \<longleftrightarrow>
     pr_meal r = None \<and> pr_score_tally r = None \<and> pr_settlement r = None \<and> pr_note r = None"

section \<open>The lines of a start ledger\<close>

text \<open>The Japanese words the code matches, as their UTF-8 bytes.\<close>

definition utf8 :: "nat list \<Rightarrow> str" where
  "utf8 bs = map char_of bs"

definition open_bracket :: str where "open_bracket = utf8 [0xE3, 0x80, 0x90]"
definition close_bracket :: str where "close_bracket = utf8 [0xE3, 0x80, 0x91]"

definition meal_labels :: "str list" where
  "meal_labels = [utf8 [0xE9, 0xA3, 0x9F], utf8 [0xE9, 0xA3, 0x9F, 0xE4, 0xBA, 0x8B]]"

definition tally_label :: str where
  "tally_label = utf8 [0xE9, 0x9B, 0x86, 0xE8, 0xA8, 0x88]"

definition settlement_label :: str where
  "settlement_label = utf8 [0xE7, 0xB2, 0xBE, 0xE7, 0xAE, 0x97]"

definition tally_yes :: "str list" where
  "tally_yes = [utf8 [0xE6, 0x9C, 0x89], utf8 [0xE3, 0x81, 0x82, 0xE3, 0x82, 0x8A],
     utf8 [0xE6, 0x9C, 0x89, 0xE3, 0x82, 0x8A]]"

definition tally_no :: "str list" where
  "tally_no = [utf8 [0xE7, 0x84, 0xA1], utf8 [0xE3, 0x81, 0xAA, 0xE3, 0x81, 0x97],
     utf8 [0xE7, 0x84, 0xA1, 0xE3, 0x81, 0x97]]"

definition individual_words :: "str list" where
  "individual_words = [utf8 [0xE5, 0x80, 0x8B, 0xE4, 0xBA, 0xBA],
     utf8 [0xE5, 0x80, 0x8B, 0xE5, 0x88, 0xA5], utf8 [0xE5, 0x90, 0x84, 0xE8, 0x87, 0xAA]]"

definition together_words :: "str list" where
  "together_words = [utf8 [0xE4, 0xB8, 0x80, 0xE6, 0x8B, 0xAC],
     utf8 [0xE3, 0x81, 0xBE, 0xE3, 0x81, 0xA8, 0xE3, 0x82, 0x81],
     utf8 [0xE3, 0x81, 0xBE, 0xE3, 0x81, 0xA8, 0xE3, 0x82, 0x81, 0xE3, 0x81, 0xA6],
     utf8 [0xE4, 0xBB, 0xA3, 0xE8, 0xA1, 0xA8],
     utf8 [0xE4, 0xBB, 0xA3, 0xE8, 0xA1, 0xA8, 0xE8, 0x80, 0x85],
     utf8 [0xE7, 0xB5, 0x84], utf8 [0xE5, 0xB9, 0xB9, 0xE4, 0xBA, 0x8B]]"

definition from_ledger_word :: "str \<Rightarrow> party_settlement option" where
  "from_ledger_word v =
     (if trim v \<in> set individual_words then Some Individual
      else if trim v \<in> set together_words then Some Together else None)"

fun split_at_text :: "str \<Rightarrow> str \<Rightarrow> (str \<times> str) option" where
  "split_at_text sep [] = (if sep = [] then Some ([], []) else None)"
| "split_at_text sep (c # s) =
     (if take (length sep) (c # s) = sep then Some ([], drop (length sep) (c # s))
      else map_option (\<lambda>(a, b). (c # a, b)) (split_at_text sep s))"

definition split_bracketed :: "str \<Rightarrow> (str \<times> str) option" where
  "split_bracketed line =
     (if take (length open_bracket) line \<noteq> open_bracket then None
      else map_option (\<lambda>(label, v). (trim label, trim v))
             (split_at_text close_bracket (drop (length open_bracket) line)))"

definition place_line :: "str \<Rightarrow> str \<Rightarrow> party_remarks \<Rightarrow> party_remarks option" where
  "place_line label v r =
     (if label \<in> set meal_labels \<and> v \<noteq> [] \<and> pr_meal r = None then
        (case normalize_optional (Some v) of Inl _ \<Rightarrow> None | Inr meal \<Rightarrow> Some (r\<lparr>pr_meal := meal\<rparr>))
      else if label = tally_label \<and> pr_score_tally r = None then
        (if v \<in> set tally_yes then Some (r\<lparr>pr_score_tally := Some True\<rparr>)
         else if v \<in> set tally_no then Some (r\<lparr>pr_score_tally := Some False\<rparr>) else None)
      else if label = settlement_label \<and> pr_settlement r = None then
        (case from_ledger_word v of None \<Rightarrow> None
         | Some s \<Rightarrow> Some (r\<lparr>pr_settlement := Some s\<rparr>))
      else None)"

definition read_line :: "str \<Rightarrow> party_remarks \<times> str list \<Rightarrow> party_remarks \<times> str list" where
  "read_line raw acc =
     (let line = trim raw in
      if line = [] then acc
      else case Option.bind (split_bracketed line) (\<lambda>(label, v). place_line label v (fst acc)) of
             None \<Rightarrow> (fst acc, snd acc @ [line])
           | Some r \<Rightarrow> (r, snd acc))"

definition from_ledger_lines :: "str list \<Rightarrow> party_remarks \<times> str list" where
  "from_ledger_lines ls = fold read_line ls (no_remarks, [])"

section \<open>The group\<close>

record party_details =
  pd_competition :: "str option"
  pd_organizer :: "str option"
  pd_group_number :: "int option"
  pd_players :: "party_player list"
  pd_remarks :: party_remarks

definition no_party :: party_details where
  "no_party = \<lparr>pd_competition = None, pd_organizer = None, pd_group_number = None, pd_players = [],
     pd_remarks = no_remarks\<rparr>"

definition party_try_new ::
  "str option \<Rightarrow> str option \<Rightarrow> int option \<Rightarrow> party_player list \<Rightarrow> party_details result" where
  "party_try_new competition organizer number players =
     (if MAX_PARTY_PLAYERS < length players
      then Inl (BadRequest ''a group may not hold more than 8 players'')
      else if (case number of None \<Rightarrow> False | Some n \<Rightarrow> n \<le> 0)
      then Inl (BadRequest ''group number must be positive'')
      else case normalize_optional competition of Inl e \<Rightarrow> Inl e
        | Inr c \<Rightarrow> (case normalize_optional organizer of Inl e \<Rightarrow> Inl e
          | Inr org \<Rightarrow> Inr \<lparr>pd_competition = c, pd_organizer = org, pd_group_number = number,
              pd_players = players, pd_remarks = no_remarks\<rparr>))"

definition with_remarks :: "party_details \<Rightarrow> party_remarks \<Rightarrow> party_details" where
  "with_remarks d r = d\<lparr>pd_remarks := r\<rparr>"

definition party_empty :: "party_details \<Rightarrow> bool" where
  "party_empty d \<longleftrightarrow> pd_competition d = None \<and> pd_organizer d = None \<and> pd_group_number d = None
     \<and> pd_players d = [] \<and> remarks_empty (pd_remarks d)"

definition named_player_count :: "party_details \<Rightarrow> nat" where
  "named_player_count d = length (pd_players d)"

definition linked_player_count :: "party_details \<Rightarrow> nat" where
  "linked_player_count d = length (filter is_linked (pd_players d))"

section \<open>The booking\<close>

record billing =
  bl_price :: int
  bl_deposit :: int
  bl_paid :: int
  bl_currency :: "str option"
  bl_payment_status :: "str option"
  bl_invoice :: "str option"
  bl_cancelled_at :: "instant option"

definition no_billing :: billing where
  "no_billing = \<lparr>bl_price = 0, bl_deposit = 0, bl_paid = 0, bl_currency = None,
     bl_payment_status = None, bl_invoice = None, bl_cancelled_at = None\<rparr>"

definition billing_cancelled :: "billing \<Rightarrow> bool" where
  "billing_cancelled b \<longleftrightarrow> bl_cancelled_at b \<noteq> None"

record reservation =
  rv_id :: reservation_id
  rv_number :: str
  rv_service :: "str option"
  rv_resource :: "str option"
  rv_customer_name :: "str option"
  rv_customer :: "customer_id option"
  rv_status :: str
  rv_starts_at :: instant
  rv_ends_at :: instant
  rv_quantity :: int
  rv_course :: "course_id option"
  rv_party :: party_details
  rv_notes :: "str option"
  rv_billing :: billing

definition reservation_reconstitute ::
  "reservation_id \<Rightarrow> str \<Rightarrow> str option \<Rightarrow> str option \<Rightarrow> str option \<Rightarrow> str \<Rightarrow> instant \<Rightarrow> instant
    \<Rightarrow> int \<Rightarrow> str option \<Rightarrow> str option \<Rightarrow> reservation" where
  "reservation_reconstitute rid number service resource customer status starts ends quantity
     course notes =
     \<lparr>rv_id = rid, rv_number = number, rv_service = id_from_optional service,
      rv_resource = id_from_optional resource, rv_customer_name = trimmed customer,
      rv_customer = None, rv_status = status, rv_starts_at = starts, rv_ends_at = ends,
      rv_quantity = max quantity 1, rv_course = id_from_optional course, rv_party = no_party,
      rv_notes = notes, rv_billing = no_billing\<rparr>"

definition with_billing :: "reservation \<Rightarrow> billing \<Rightarrow> reservation" where
  "with_billing r b = r\<lparr>rv_billing := b\<rparr>"

definition with_party :: "reservation \<Rightarrow> party_details \<Rightarrow> reservation" where
  "with_party r p = r\<lparr>rv_party := p\<rparr>"

definition with_customer_id :: "reservation \<Rightarrow> customer_id option \<Rightarrow> reservation" where
  "with_customer_id r c = r\<lparr>rv_customer := c\<rparr>"

definition party_size :: "reservation \<Rightarrow> int" where
  "party_size r = max (rv_quantity r) 1"

definition party_display_name :: "reservation \<Rightarrow> str" where
  "party_display_name r = unwrap_or (rv_customer_name r) ''Guest''"

definition is_tee_sheet_candidate :: "reservation \<Rightarrow> bool" where
  "is_tee_sheet_candidate r \<longleftrightarrow>
     rv_status r \<in> {''requested'', ''payment_pending'', ''confirmed'', ''change_requested'',
       ''admin_review'', ''completed'', ''no_show''}"

definition tee_date_in :: "clock \<Rightarrow> reservation \<Rightarrow> date" where
  "tee_date_in clk r = clk_local_date clk (rv_starts_at r)"

definition occurs_on_date :: "clock \<Rightarrow> date \<Rightarrow> reservation \<Rightarrow> bool" where
  "occurs_on_date clk d r \<longleftrightarrow> tee_date_in clk r = d"

definition duration_minutes_from_range :: "reservation \<Rightarrow> int option" where
  "duration_minutes_from_range r =
     (let m = quotient_i (rv_ends_at r - rv_starts_at r) (minutes 1) in
      if 0 < m then Some (clamp 15 (24 * 60) m) else None)"

section \<open>What a line states\<close>

definition meal_of :: "str \<Rightarrow> str option" where
  "meal_of line =
     (case split_bracketed line of None \<Rightarrow> None
      | Some (label, v) \<Rightarrow>
          if label \<in> set meal_labels \<and> v \<noteq> [] \<and> char_count v \<le> MAX_TEXT_LENGTH then Some v else None)"

definition tally_of :: "str \<Rightarrow> bool option" where
  "tally_of line =
     (case split_bracketed line of None \<Rightarrow> None
      | Some (label, v) \<Rightarrow>
          if label = tally_label \<and> v \<in> set (tally_yes @ tally_no) then Some (v \<in> set tally_yes) else None)"

definition settlement_of :: "str \<Rightarrow> party_settlement option" where
  "settlement_of line =
     (case split_bracketed line of None \<Rightarrow> None
      | Some (label, v) \<Rightarrow> if label = settlement_label then from_ledger_word v else None)"

definition first_line :: "(str \<Rightarrow> 'v option) \<Rightarrow> str list \<Rightarrow> nat option" where
  "first_line f ls = position (\<lambda>l. f l \<noteq> None) ls"

definition first_read :: "(str \<Rightarrow> 'v option) \<Rightarrow> str list \<Rightarrow> 'v option" where
  "first_read f ls = (case first_line f ls of None \<Rightarrow> None | Some i \<Rightarrow> f (ls ! i))"

lemma position_snoc:
  "position p (xs @ [x]) =
     (case position p xs of Some i \<Rightarrow> Some i | None \<Rightarrow> if p x then Some (length xs) else None)"
  by (induction xs) (auto split: option.splits simp del: position_None)

lemma first_line_less: "first_line f ls = Some i \<Longrightarrow> i < length ls"
  unfolding first_line_def by (drule position_Some) simp

lemma first_line_snoc:
  "first_line f (ls @ [l]) =
     (case first_line f ls of Some i \<Rightarrow> Some i | None \<Rightarrow> if f l \<noteq> None then Some (length ls) else None)"
  by (simp only: first_line_def position_snoc)

lemma first_read_None: "first_read f ls = None \<longleftrightarrow> first_line f ls = None"
  by (auto simp: first_read_def first_line_def simp del: position_None dest!: position_Some split: option.splits)

lemma first_read_snoc:
  "first_read f (ls @ [l]) = (case first_read f ls of None \<Rightarrow> f l | Some v \<Rightarrow> Some v)"
proof (cases "first_line f ls")
  case None
  then show ?thesis by (auto simp: first_read_def first_line_snoc)
next
  case (Some i)
  then have "i < length ls" by (rule first_line_less)
  moreover have "f (ls ! i) \<noteq> None" using Some by (auto simp: first_line_def dest: position_Some)
  ultimately show ?thesis using Some by (auto simp: first_read_def first_line_snoc nth_append)
qed

lemma split_bracketed_trim: "split_bracketed l = Some (label, v) \<Longrightarrow> trim v = v"
  by (auto simp: split_bracketed_def split: if_splits)

lemma labels_distinct:
  "tally_label \<notin> set meal_labels" "settlement_label \<notin> set meal_labels" "tally_label \<noteq> settlement_label"
  "settlement_label \<noteq> tally_label"
  by code_simp+

text \<open>One line on the running state: it is taken when it states something still open.\<close>

lemma read_line_step:
  assumes "trim l = l" "l \<noteq> []"
  shows "read_line l (r, left) =
     (if pr_meal r = None \<and> meal_of l \<noteq> None then (r\<lparr>pr_meal := meal_of l\<rparr>, left)
      else if pr_score_tally r = None \<and> tally_of l \<noteq> None then (r\<lparr>pr_score_tally := tally_of l\<rparr>, left)
      else if pr_settlement r = None \<and> settlement_of l \<noteq> None
      then (r\<lparr>pr_settlement := settlement_of l\<rparr>, left)
      else (r, left @ [l]))"
proof (cases "split_bracketed l")
  case None
  then show ?thesis using assms by (simp add: read_line_def meal_of_def tally_of_def settlement_of_def)
next
  case (Some lv)
  obtain label v where lv: "lv = (label, v)" by (cases lv)
  note v = split_bracketed_trim [OF Some [unfolded lv]]
  consider "label \<in> set meal_labels" | "label = tally_label" | "label = settlement_label"
    | "label \<notin> set meal_labels" "label \<noteq> tally_label" "label \<noteq> settlement_label" by blast
  then show ?thesis
    using Some lv v assms labels_distinct
    by cases (auto simp: read_line_def place_line_def meal_of_def tally_of_def settlement_of_def
        normalize_optional_def split: option.splits)
qed

definition taken :: "str list \<Rightarrow> nat set" where
  "taken ls = {i. Some i \<in> {first_line meal_of ls, first_line tally_of ls, first_line settlement_of ls}}"

lemma one_instruction_per_line:
  "meal_of l \<noteq> None \<Longrightarrow> tally_of l = None" "meal_of l \<noteq> None \<Longrightarrow> settlement_of l = None"
  "tally_of l \<noteq> None \<Longrightarrow> settlement_of l = None"
  using labels_distinct
  by (auto simp: meal_of_def tally_of_def settlement_of_def split: option.splits if_splits)

lemma nths_taken_snoc:
  "nths (ls @ [l]) (- taken (ls @ [l])) =
     nths ls (- taken ls) @ (if length ls \<in> taken (ls @ [l]) then [] else [l])"
proof -
  have "i \<in> taken (ls @ [l]) \<longleftrightarrow> i \<in> taken ls" if "i < length ls" for i
    using that by (auto simp: taken_def first_line_snoc split: option.splits)
  then have "nths ls (- taken (ls @ [l])) = nths ls (- taken ls)"
    by (auto simp: nths_def intro!: map_cong filter_cong dest: set_zip_rightD)
  then show ?thesis by (simp add: nths_append nths_singleton)
qed

lemma first_line_last:
  "first_line f (ls @ [l]) = Some (length ls) \<longleftrightarrow> first_read f ls = None \<and> f l \<noteq> None"
  using first_line_less [of f ls "length ls"]
  by (auto simp: first_line_snoc first_read_None split: option.splits)

lemma taken_last:
  "length ls \<in> taken (ls @ [l]) \<longleftrightarrow>
     (first_read meal_of ls = None \<and> meal_of l \<noteq> None)
     \<or> (first_read tally_of ls = None \<and> tally_of l \<noteq> None)
     \<or> (first_read settlement_of ls = None \<and> settlement_of l \<noteq> None)"
  unfolding taken_def mem_Collect_eq insert_iff empty_iff
  by (simp only: eq_commute [of "Some (length ls)"] first_line_last) blast

lemma read_lines:
  assumes "\<forall>l \<in> set ls. trim l = l \<and> l \<noteq> []"
  shows "fold read_line ls (no_remarks, []) =
     (\<lparr>pr_meal = first_read meal_of ls, pr_score_tally = first_read tally_of ls,
       pr_settlement = first_read settlement_of ls, pr_note = None\<rparr>, nths ls (- taken ls))"
  using assms
proof (induction ls rule: rev_induct)
  case Nil
  then show ?case by (simp add: first_read_def first_line_def no_remarks_def)
next
  case (snoc l ls)
  have l: "trim l = l" "l \<noteq> []" using snoc.prems by auto
  have IH: "fold read_line ls (no_remarks, []) =
     (\<lparr>pr_meal = first_read meal_of ls, pr_score_tally = first_read tally_of ls,
       pr_settlement = first_read settlement_of ls, pr_note = None\<rparr>, nths ls (- taken ls))"
    using snoc by simp
  consider (meal) m where "meal_of l = Some m" "tally_of l = None" "settlement_of l = None"
    | (tally) t where "meal_of l = None" "tally_of l = Some t" "settlement_of l = None"
    | (settled) s where "meal_of l = None" "tally_of l = None" "settlement_of l = Some s"
    | (other) "meal_of l = None" "tally_of l = None" "settlement_of l = None"
    using one_instruction_per_line [of l] by fastforce
  then show ?case
    by cases (simp_all add: IH read_line_step [OF l] first_read_snoc nths_taken_snoc taken_last
        option.case_eq_if)
qed

text \<open>
  Reading the remark lines of a start ledger loses nothing: each of the three fixed
  instructions is the one the first line stating it gives, and every other line that is not
  blank is handed back, in order, for the booking's notes.
\<close>

theorem ledger_lines_lose_nothing:
  "let ls = filter (\<lambda>l. l \<noteq> []) (map trim raw) in
   from_ledger_lines raw =
     (\<lparr>pr_meal = first_read meal_of ls, pr_score_tally = first_read tally_of ls,
       pr_settlement = first_read settlement_of ls, pr_note = None\<rparr>, nths ls (- taken ls))"
proof -
  have "fold read_line raw acc = fold read_line (filter (\<lambda>l. l \<noteq> []) (map trim raw)) acc" for acc
    by (induction raw arbitrary: acc) (simp_all add: read_line_def)
  then have "from_ledger_lines raw
      = fold read_line (filter (\<lambda>l. l \<noteq> []) (map trim raw)) (no_remarks, [])"
    by (simp only: from_ledger_lines_def)
  then show ?thesis unfolding Let_def by (simp only: read_lines) (subst read_lines, auto)
qed

end
