(* ===== verification/Settlement.thy ===== *)
theory Settlement
  imports Payroll Party
begin

text \<open>
  The monthly close (\<open>src/course/domain/settlement.rs\<close>, with the report's data from
  \<open>commercial.rs\<close>): the span of time a month covers in the club's time zone, what its bookings
  came to, what its rounds owe the caddies, the list of bookings and the exported file. The
  specification of the totals is a sum over the bookings inside the month.
\<close>

section \<open>The month\<close>

record settlement_period =
  st_year_month :: str
  st_start :: date
  st_end :: date

record settlement_window =
  sw_period :: settlement_period
  sw_start :: instant
  sw_end :: instant

text \<open>\<open>clk_midnight\<close> is \<open>local_midnight\<close>: the first instant of that local midnight, or none
  when the clock skips it.\<close>

definition window_of_month :: "calendar \<Rightarrow> clock \<Rightarrow> str \<Rightarrow> settlement_window result" where
  "window_of_month cal clk ym =
     (case payroll_period_try_new cal ym of Inl e \<Rightarrow> Inl e
      | Inr month \<Rightarrow>
        (case clk_midnight clk (pp_start month) of
           None \<Rightarrow> Inl (BadRequest ''the month does not begin at a midnight in the club's timezone'')
         | Some start \<Rightarrow>
           (case Option.bind (cal_succ cal (pp_end month)) (clk_midnight clk) of
              None \<Rightarrow> Inl (BadRequest ''the month does not end at a midnight in the club's timezone'')
            | Some finish \<Rightarrow> Inr \<lparr>sw_period = \<lparr>st_year_month = pp_year_month month,
                st_start = pp_start month, st_end = pp_end month\<rparr>, sw_start = start, sw_end = finish\<rparr>)))"

definition window_contains :: "settlement_window \<Rightarrow> instant \<Rightarrow> bool" where
  "window_contains w t \<longleftrightarrow> sw_start w \<le> t \<and> t < sw_end w"

definition fetch_from :: "calendar \<Rightarrow> settlement_window \<Rightarrow> date" where
  "fetch_from cal w = unwrap_or (cal_pred cal (st_start (sw_period w))) (st_start (sw_period w))"

definition fetch_to :: "calendar \<Rightarrow> settlement_window \<Rightarrow> date" where
  "fetch_to cal w = unwrap_or (cal_succ cal (st_end (sw_period w))) (st_end (sw_period w))"

section \<open>Totals\<close>

record reservation_totals =
  rt_gross :: int
  rt_collected :: int
  rt_refunded :: int
  rt_pending :: int
  rt_count :: int

definition no_totals :: reservation_totals where
  "no_totals = \<lparr>rt_gross = 0, rt_collected = 0, rt_refunded = 0, rt_pending = 0, rt_count = 0\<rparr>"

definition is_refund :: "str option \<Rightarrow> bool" where
  "is_refund status =
     (case status of None \<Rightarrow> False
      | Some s \<Rightarrow> eq_ignore_ascii_case (trim s) ''refunded''
          \<or> eq_ignore_ascii_case (trim s) ''refund_pending'')"

definition add_reservation :: "reservation \<Rightarrow> reservation_totals \<Rightarrow> reservation_totals" where
  "add_reservation r t =
     (let b = rv_billing r in
      \<lparr>rt_gross = wrap_i64 (rt_gross t + bl_price b),
       rt_collected = wrap_i64 (rt_collected t + bl_paid b),
       rt_refunded = (if is_refund (bl_payment_status b) then wrap_i64 (rt_refunded t + bl_paid b)
                      else rt_refunded t),
       rt_pending = wrap_i64 (rt_pending t + max (wrap_i64 (bl_price b - bl_paid b)) 0),
       rt_count = wrap_i64 (rt_count t + 1)\<rparr>)"

definition reservation_totals_of :: "reservation list \<Rightarrow> settlement_window \<Rightarrow> reservation_totals" where
  "reservation_totals_of rs w =
     fold add_reservation (filter (\<lambda>r. window_contains w (rv_starts_at r)) rs) no_totals"

record caddie_fee_totals =
  ct_total :: int
  ct_count :: int
  ct_currency :: str

definition is_owed :: "settlement_window \<Rightarrow> assignment \<Rightarrow> bool" where
  "is_owed w a \<longleftrightarrow> window_contains w (as_scheduled_at a)
     \<and> (as_status a = Assigned \<or> as_status a = Completed)"

definition add_round_fee :: "assignment \<Rightarrow> int \<times> int \<times> str \<Rightarrow> int \<times> int \<times> str" where
  "add_round_fee a acc =
     (case acc of (owed, n, currency) \<Rightarrow>
       (wrap_i64 (owed + as_fee a), wrap_i64 (n + 1),
        if currency < as_currency a then as_currency a else currency))"

definition caddie_fee_totals_of :: "assignment list \<Rightarrow> settlement_window \<Rightarrow> caddie_fee_totals" where
  "caddie_fee_totals_of as w =
     (case fold add_round_fee (filter (is_owed w) as) (0, 0, []) of (owed, n, currency) \<Rightarrow>
       \<lparr>ct_total = owed, ct_count = n, ct_currency = (if currency = [] then ''JPY'' else currency)\<rparr>)"

text \<open>Both loops are running totals: the order the services send their rows in does not matter.\<close>

interpretation bookings: running_total add_reservation
proof
  fix x y t
  have cong: "wrap_i64 (wrap_i64 (a + b) + c) = wrap_i64 (wrap_i64 (a + c) + b)" for a b c
    by (simp add: ac_simps)
  show "add_reservation x (add_reservation y t) = add_reservation y (add_reservation x t)"
    unfolding add_reservation_def Let_def reservation_totals.simps
    by (simp only: cong split: if_split) simp
qed

interpretation round_fees: running_total add_round_fee
  by unfold_locales (auto simp: add_round_fee_def ac_simps)

section \<open>The list of bookings\<close>

definition DRILLDOWN_LIMIT :: nat where "DRILLDOWN_LIMIT = 200"
definition EXPORT_LINE_LIMIT :: nat where "EXPORT_LINE_LIMIT = 500"

record settlement_line =
  ln_id :: reservation_id
  ln_number :: str
  ln_status :: str
  ln_payment_status :: str
  ln_price :: int
  ln_paid :: int
  ln_currency :: str

definition later_first :: "reservation \<Rightarrow> reservation \<Rightarrow> bool" where
  "later_first a b \<longleftrightarrow> (rv_starts_at b, rv_id b) \<le> (rv_starts_at a, rv_id a)"

interpretation latest: comparator later_first
  by unfold_locales (auto simp: later_first_def)

definition settlement_line_of :: "reservation \<Rightarrow> settlement_line" where
  "settlement_line_of r =
     (let b = rv_billing r in
      \<lparr>ln_id = rv_id r, ln_number = rv_number r, ln_status = rv_status r,
       ln_payment_status = unwrap_or (bl_payment_status b) [], ln_price = bl_price b,
       ln_paid = bl_paid b, ln_currency = unwrap_or (bl_currency b) ''JPY''\<rparr>)"

definition settlement_reservation_lines ::
  "reservation list \<Rightarrow> settlement_window \<Rightarrow> settlement_line list" where
  "settlement_reservation_lines rs w =
     map settlement_line_of (take EXPORT_LINE_LIMIT
       (sort_by later_first (filter (\<lambda>r. window_contains w (rv_starts_at r)) rs)))"

definition drilldown_reservation_ids :: "settlement_line list \<Rightarrow> reservation_id list" where
  "drilldown_reservation_ids ls = map ln_id (take DRILLDOWN_LIMIT ls)"

section \<open>The report\<close>

record unpaid_cancellation =
  un_reservation :: reservation_id
  un_number :: str
  un_fee :: int
  un_checkout_url :: "str option"
  un_link_issued :: bool
  un_payment_status :: str
  un_invoice :: "str option"

definition unpaid_reconstitute ::
  "reservation_id \<Rightarrow> str \<Rightarrow> int \<Rightarrow> str option \<Rightarrow> bool \<Rightarrow> str \<Rightarrow> str option \<Rightarrow> unpaid_cancellation" where
  "unpaid_reconstitute rid number fee url issued status invoice =
     \<lparr>un_reservation = rid, un_number = number, un_fee = max fee 0, un_checkout_url = url,
      un_link_issued = issued, un_payment_status = status, un_invoice = invoice\<rparr>"

record monthly_settlement =
  ms_period :: settlement_period
  ms_gross :: int
  ms_collected :: int
  ms_refunded :: int
  ms_pending :: int
  ms_count :: int
  ms_fees_total :: int
  ms_assignment_count :: int
  ms_fees_currency :: str
  ms_fee_outstanding :: int
  ms_cancellations_count :: int
  ms_square_payments :: int
  ms_square_refunds :: int
  ms_square_unreconciled :: int
  ms_square_warning :: "str option"
  ms_reservation_ids :: "reservation_id list"
  ms_unpaid_ids :: "reservation_id list"
  ms_unpaid_items :: "unpaid_cancellation list"

definition has_outstanding_cancellations :: "monthly_settlement \<Rightarrow> bool" where
  "has_outstanding_cancellations m \<longleftrightarrow> 0 < ms_fee_outstanding m"

definition merge_settlement ::
  "settlement_window \<Rightarrow> reservation_totals \<Rightarrow> caddie_fee_totals \<Rightarrow> reservation_id list
    \<Rightarrow> monthly_settlement \<Rightarrow> monthly_settlement" where
  "merge_settlement w totals fees ids upstream =
     \<lparr>ms_period = sw_period w, ms_gross = rt_gross totals, ms_collected = rt_collected totals,
      ms_refunded = rt_refunded totals, ms_pending = rt_pending totals, ms_count = rt_count totals,
      ms_fees_total = ct_total fees, ms_assignment_count = ct_count fees,
      ms_fees_currency = ct_currency fees, ms_fee_outstanding = ms_fee_outstanding upstream,
      ms_cancellations_count = ms_cancellations_count upstream,
      ms_square_payments = ms_square_payments upstream,
      ms_square_refunds = ms_square_refunds upstream,
      ms_square_unreconciled = ms_square_unreconciled upstream,
      ms_square_warning = ms_square_warning upstream, ms_reservation_ids = ids,
      ms_unpaid_ids = ms_unpaid_ids upstream, ms_unpaid_items = ms_unpaid_items upstream\<rparr>"

text \<open>\<open>local_settlement\<close> of \<open>src/course/usecase/get_monthly_settlement.rs\<close>; the assignments
  are what the gateway answers for the days \<open>fetch_from\<close> to \<open>fetch_to\<close>.\<close>

definition local_settlement ::
  "settlement_window \<Rightarrow> reservation list \<Rightarrow> assignment list \<Rightarrow> monthly_settlement \<Rightarrow> monthly_settlement" where
  "local_settlement w rs as upstream =
     merge_settlement w (reservation_totals_of rs w) (caddie_fee_totals_of as w)
       (drilldown_reservation_ids (settlement_reservation_lines rs w)) upstream"

section \<open>The file\<close>

definition summary_header :: str where
  "summary_header = ''section,year_month,metric,amount,count,currency''"

definition reservation_header :: str where
  "reservation_header =
     ''reservation_id,reservation_number,status,payment_status,price_amount,paid_amount,currency''"

definition summary_rows :: "monthly_settlement \<Rightarrow> (str \<times> int \<times> int \<times> str) list" where
  "summary_rows m =
     [(''reservations_gross'', ms_gross m, ms_count m, []),
      (''reservations_collected'', ms_collected m, ms_count m, []),
      (''reservations_refunded'', ms_refunded m, 0, []),
      (''reservations_payment_pending'', ms_pending m, 0, []),
      (''caddie_fees_total'', ms_fees_total m, ms_assignment_count m, ms_fees_currency m),
      (''cancellation_fee_outstanding'', ms_fee_outstanding m, ms_cancellations_count m, []),
      (''square_payments_total'', ms_square_payments m, 0, []),
      (''square_refunds_total'', ms_square_refunds m, 0, []),
      (''square_unreconciled_lines'', ms_square_unreconciled m, 0, [])]"

definition summary_line :: "str \<Rightarrow> str \<times> int \<times> int \<times> str \<Rightarrow> str" where
  "summary_line ym row =
     (case row of (metric, amount, n, currency) \<Rightarrow>
       ''summary,'' @ ym @ '','' @ metric @ '','' @ show_int amount @ '','' @ show_int n @ '',''
       @ csv_field currency)"

definition reservation_csv_line :: "settlement_line \<Rightarrow> str" where
  "reservation_csv_line l = csv_line
     [csv_field (ln_id l), csv_field (ln_number l), csv_field (ln_status l),
      csv_field (ln_payment_status l), show_int (ln_price l), show_int (ln_paid l),
      csv_field (ln_currency l)]"

definition settlement_csv :: "monthly_settlement \<Rightarrow> settlement_line list \<Rightarrow> str" where
  "settlement_csv m ls =
     (let ym = csv_field (st_year_month (ms_period m)) in
      summary_header
      @ concat (map (\<lambda>row. CHR 0x0A # summary_line ym row) (summary_rows m))
      @ (case ms_square_warning m of None \<Rightarrow> []
         | Some warning \<Rightarrow>
             CHR 0x0A # ''summary,'' @ ym @ '',square_warning,0,0,'' @ csv_field warning)
      @ CHR 0x0A # reservation_header
      @ concat (map (\<lambda>l. CHR 0x0A # reservation_csv_line l) ls)
      @ [CHR 0x0A])"

end
