(* ===== verification/SettlementCorrect.thy ===== *)
theory SettlementCorrect
  imports Settlement
begin

text \<open>
  What makes the monthly close right: consecutive months share no instant and leave none out,
  so their totals add up; the totals are the sums over the month's bookings and balance; the
  list is the latest bookings; and the exported file reads back as the figures.
\<close>

section \<open>Sums\<close>

definition in_window :: "settlement_window \<Rightarrow> reservation list \<Rightarrow> reservation list" where
  "in_window w rs = filter (\<lambda>r. window_contains w (rv_starts_at r)) rs"

definition price_of :: "reservation \<Rightarrow> int" where "price_of r = bl_price (rv_billing r)"
definition paid_of :: "reservation \<Rightarrow> int" where "paid_of r = bl_paid (rv_billing r)"

definition refund_of :: "reservation \<Rightarrow> int" where
  "refund_of r = (if is_refund (bl_payment_status (rv_billing r)) then paid_of r else 0)"

definition pending_of :: "reservation \<Rightarrow> int" where
  "pending_of r = max (wrap_i64 (price_of r - paid_of r)) 0"

definition wrapped_totals :: "int \<Rightarrow> int \<Rightarrow> int \<Rightarrow> int \<Rightarrow> int \<Rightarrow> reservation_totals" where
  "wrapped_totals g c r p n = \<lparr>rt_gross = wrap_i64 g, rt_collected = wrap_i64 c,
     rt_refunded = wrap_i64 r, rt_pending = wrap_i64 p, rt_count = wrap_i64 n\<rparr>"

lemma add_reservation_wrapped:
  "add_reservation r (wrapped_totals g c f p n) =
     wrapped_totals (g + price_of r) (c + paid_of r) (f + refund_of r) (p + pending_of r) (n + 1)"
  by (simp add: add_reservation_def Let_def wrapped_totals_def price_of_def paid_of_def refund_of_def pending_of_def)

lemma fold_reservations:
  "fold add_reservation rs (wrapped_totals g c f p n) =
     wrapped_totals (g + sum_list (map price_of rs)) (c + sum_list (map paid_of rs))
       (f + sum_list (map refund_of rs)) (p + sum_list (map pending_of rs)) (n + int (length rs))"
  by (induction rs arbitrary: g c f p n) (simp_all add: add_reservation_wrapped ac_simps)

lemma wrap_i64_zero [simp]: "wrap_i64 0 = 0" "wrap_i64 1 = 1"
  by (simp_all add: wrap_i64_def)

lemma totals_are_sums:
  "reservation_totals_of rs w =
     wrapped_totals (sum_list (map price_of (in_window w rs))) (sum_list (map paid_of (in_window w rs)))
       (sum_list (map refund_of (in_window w rs))) (sum_list (map pending_of (in_window w rs)))
       (int (length (in_window w rs)))"
  using fold_reservations [of "in_window w rs" 0 0 0 0 0]
  by (simp add: reservation_totals_of_def in_window_def no_totals_def wrapped_totals_def)

lemma fold_round_fees:
  "fold add_round_fee as (wrap_i64 s, wrap_i64 n, c) =
     (wrap_i64 (s + sum_list (map as_fee as)), wrap_i64 (n + int (length as)),
      fold (\<lambda>a c. max c (as_currency a)) as c)"
proof (induction as arbitrary: s n c)
  case (Cons a as)
  have "add_round_fee a (wrap_i64 s, wrap_i64 n, c)
      = (wrap_i64 (s + as_fee a), wrap_i64 (n + 1), max c (as_currency a))"
    by (simp add: add_round_fee_def max_def not_less less_imp_le)
  then show ?case using Cons.IH [of "s + as_fee a" "n + 1"] by (simp add: ac_simps)
qed simp

lemma fee_totals_are_sums:
  "ct_total (caddie_fee_totals_of as w) = wrap_i64 (sum_list (map as_fee (filter (is_owed w) as)))
   \<and> ct_count (caddie_fee_totals_of as w) = wrap_i64 (int (length (filter (is_owed w) as)))"
  using fold_round_fees [of "filter (is_owed w) as" 0 0 "[]"] by (simp add: caddie_fee_totals_of_def)

lemma sum_list_filter_disjoint:
  fixes f :: "'a \<Rightarrow> int"
  assumes "\<And>x. \<not> (P x \<and> Q x)" "\<And>x. R x \<longleftrightarrow> P x \<or> Q x"
  shows "sum_list (map f (filter R xs)) = sum_list (map f (filter P xs)) + sum_list (map f (filter Q xs))"
  using assms by (induction xs) auto

lemma length_filter_disjoint:
  assumes "\<And>x. \<not> (P x \<and> Q x)" "\<And>x. R x \<longleftrightarrow> P x \<or> Q x"
  shows "length (filter R xs) = length (filter P xs) + length (filter Q xs)"
  using assms by (induction xs) auto

section \<open>Consecutive months\<close>

lemma window_of_monthD:
  assumes "window_of_month cal clk ym = Inr w"
  shows "clk_midnight clk (st_start (sw_period w)) = Some (sw_start w)"
    and "Option.bind (cal_succ cal (st_end (sw_period w))) (clk_midnight clk) = Some (sw_end w)"
  using assms by (auto simp: window_of_month_def split: sum.splits option.splits)

text \<open>
  Consecutive months meet: no instant is in both, none between them is in neither, and
  the totals and the caddies' fees of the two closes add up, modulo the machine word, to those
  of the two months taken together.
\<close>

theorem months_tile_time:
  assumes "window_of_month cal clk ym1 = Inr w1" "window_of_month cal clk ym2 = Inr w2"
    and "cal_succ cal (st_end (sw_period w1)) = Some (st_start (sw_period w2))"
    and "sw_start w1 \<le> sw_end w1" "sw_start w2 \<le> sw_end w2"
  shows "let both = w2\<lparr>sw_start := sw_start w1\<rparr>;
             t1 = reservation_totals_of rs w1; t2 = reservation_totals_of rs w2;
             t = reservation_totals_of rs both in
      (\<forall>t. window_contains both t \<longleftrightarrow> window_contains w1 t \<noteq> window_contains w2 t)
    \<and> rt_gross t = wrap_i64 (rt_gross t1 + rt_gross t2)
    \<and> rt_collected t = wrap_i64 (rt_collected t1 + rt_collected t2)
    \<and> rt_refunded t = wrap_i64 (rt_refunded t1 + rt_refunded t2)
    \<and> rt_pending t = wrap_i64 (rt_pending t1 + rt_pending t2)
    \<and> rt_count t = wrap_i64 (rt_count t1 + rt_count t2)
    \<and> ct_total (caddie_fee_totals_of as both)
        = wrap_i64 (ct_total (caddie_fee_totals_of as w1) + ct_total (caddie_fee_totals_of as w2))"
proof -
  let ?both = "w2\<lparr>sw_start := sw_start w1\<rparr>"
  have meet: "sw_end w1 = sw_start w2"
    using window_of_monthD(2) [OF assms(1)] window_of_monthD(1) [OF assms(2)] assms(3) by simp
  have apart: "\<not> (window_contains w1 t \<and> window_contains w2 t)" for t
    using meet by (auto simp: window_contains_def)
  have cover: "window_contains ?both t \<longleftrightarrow> window_contains w1 t \<or> window_contains w2 t" for t
    using meet assms(4,5) by (auto simp: window_contains_def)
  have sums: "sum_list (map f (in_window ?both rs))
      = sum_list (map f (in_window w1 rs)) + sum_list (map f (in_window w2 rs))" for f :: "reservation \<Rightarrow> int"
    unfolding in_window_def by (rule sum_list_filter_disjoint) (use apart cover in auto)
  have len: "length (in_window ?both rs) = length (in_window w1 rs) + length (in_window w2 rs)"
    unfolding in_window_def by (rule length_filter_disjoint) (use apart cover in auto)
  have fees: "sum_list (map as_fee (filter (is_owed ?both) as))
      = sum_list (map as_fee (filter (is_owed w1) as)) + sum_list (map as_fee (filter (is_owed w2) as))"
    by (rule sum_list_filter_disjoint) (use apart cover in \<open>auto simp: is_owed_def\<close>)
  show ?thesis
    unfolding Let_def totals_are_sums sums len wrapped_totals_def
    using apart cover fees fee_totals_are_sums by auto
qed

definition utc_month :: "str \<Rightarrow> int \<Rightarrow> int \<Rightarrow> settlement_window" where
  "utc_month ym a b = \<lparr>sw_period = \<lparr>st_year_month = ym, st_start = a, st_end = b - 1\<rparr>,
     sw_start = a * minutes 1440, sw_end = b * minutes 1440\<rparr>"

lemma utc_months:
  "window_of_month utc_calendar utc_clock ''2026-07'' = Inr (utc_month ''2026-07'' 20635 20666)"
  "window_of_month utc_calendar utc_clock ''2026-08'' = Inr (utc_month ''2026-08'' 20666 20697)"
  by code_simp+

definition sample_booking :: "str \<Rightarrow> int \<Rightarrow> int \<Rightarrow> int \<Rightarrow> str option \<Rightarrow> reservation" where
  "sample_booking rid at_minute price paid status =
     with_billing (reservation_reconstitute rid rid None None None ''confirmed'' (minutes at_minute)
       (minutes (at_minute + 240)) 4 None None)
       (no_billing\<lparr>bl_price := price, bl_paid := paid, bl_payment_status := status\<rparr>)"

definition sample_bookings :: "reservation list" where
  "sample_bookings = [sample_booking ''r1'' (20635 * 1440) 40000 40000 None,
     sample_booking ''r2'' (20666 * 1440) 30000 10000 None,
     sample_booking ''r3'' (20670 * 1440) 20000 20000 (Some ''refunded'')]"

theorem months_tile_time_witness:
  "let july = utc_month ''2026-07'' 20635 20666; august = utc_month ''2026-08'' 20666 20697 in
     rt_gross (reservation_totals_of sample_bookings (august\<lparr>sw_start := sw_start july\<rparr>))
       = wrap_i64 (rt_gross (reservation_totals_of sample_bookings july)
           + rt_gross (reservation_totals_of sample_bookings august))
   \<and> rt_gross (reservation_totals_of sample_bookings july) = 40000
   \<and> rt_gross (reservation_totals_of sample_bookings august) = 50000"
proof -
  have hyps: "cal_succ utc_calendar (st_end (sw_period (utc_month ''2026-07'' 20635 20666)))
       = Some (st_start (sw_period (utc_month ''2026-08'' 20666 20697)))"
    "sw_start (utc_month ''2026-07'' 20635 20666) \<le> sw_end (utc_month ''2026-07'' 20635 20666)"
    "sw_start (utc_month ''2026-08'' 20666 20697) \<le> sw_end (utc_month ''2026-08'' 20666 20697)"
    by code_simp+
  have vals: "rt_gross (reservation_totals_of sample_bookings (utc_month ''2026-07'' 20635 20666)) = 40000"
    "rt_gross (reservation_totals_of sample_bookings (utc_month ''2026-08'' 20666 20697)) = 50000"
    by code_simp+
  show ?thesis
    using months_tile_time [OF utc_months hyps, of sample_bookings "[]"] vals by (simp add: Let_def)
qed

section \<open>The books balance\<close>

definition overpaid_of :: "reservation \<Rightarrow> int" where
  "overpaid_of r = max (paid_of r - price_of r) 0"

lemma sum_filter_le:
  assumes "\<forall>x \<in> set xs. 0 \<le> (f x :: int)"
  shows "0 \<le> sum_list (map f (filter P xs)) \<and> sum_list (map f (filter P xs)) \<le> sum_list (map f xs)"
  using assms by (induction xs) auto

lemma sum_list_mono_on:
  assumes "\<forall>x \<in> set xs. (f x :: int) \<le> g x"
  shows "sum_list (map f xs) \<le> sum_list (map g xs)"
  using assms by (induction xs) auto

text \<open>
  C39. The month's takings balance: when no amount is negative and the sums fit the machine
  word, the totals are the sums over the bookings that start in the month, what is collected
  and what is missing make up the price plus what was overpaid, no more is refunded than was
  collected, and the order the bookings arrive in does not matter.
\<close>

theorem close_balances:
  assumes "\<forall>r \<in> set rs. 0 \<le> price_of r \<and> 0 \<le> paid_of r"
    and "sum_list (map price_of rs) \<le> i64_max" "sum_list (map paid_of rs) \<le> i64_max"
    and "int (length rs) \<le> i64_max" "mset shuffled = mset rs"
  shows "let t = reservation_totals_of rs w; here = filter (\<lambda>r. window_contains w (rv_starts_at r)) rs in
      rt_gross t = sum_list (map price_of here) \<and> rt_collected t = sum_list (map paid_of here)
    \<and> rt_count t = int (length here)
    \<and> rt_collected t + rt_pending t = rt_gross t + sum_list (map overpaid_of here)
    \<and> 0 \<le> rt_refunded t \<and> rt_refunded t \<le> rt_collected t
    \<and> reservation_totals_of shuffled w = t"
proof -
  let ?here = "in_window w rs"
  have inside: "\<forall>r \<in> set ?here. 0 \<le> price_of r \<and> 0 \<le> paid_of r"
    using assms(1) by (auto simp: in_window_def)
  have sums: "0 \<le> sum_list (map price_of ?here)" "sum_list (map price_of ?here) \<le> i64_max"
    "0 \<le> sum_list (map paid_of ?here)" "sum_list (map paid_of ?here) \<le> i64_max"
    using sum_filter_le [of rs price_of] sum_filter_le [of rs paid_of] assms(1-3)
    unfolding in_window_def by (meson order.trans)+
  have fits: "in_i64 x" if "0 \<le> x" "x \<le> i64_max" for x
    using that by (simp add: in_i64_def i64_min_def)
  have member: "price_of r \<le> i64_max \<and> paid_of r \<le> i64_max" if "r \<in> set ?here" for r
    using member_le_sum_list [of "price_of r" "map price_of ?here"]
      member_le_sum_list [of "paid_of r" "map paid_of ?here"] that inside sums by force
  have pending: "pending_of r = max (price_of r - paid_of r) 0" if "r \<in> set ?here" for r
  proof -
    have "in_i64 (price_of r - paid_of r)"
      using inside member [OF that] that by (auto simp: in_i64_def i64_min_def i64_max_def)
    then show ?thesis by (simp add: pending_of_def)
  qed
  have split: "sum_list (map paid_of ?here) + sum_list (map pending_of ?here)
      = sum_list (map price_of ?here) + sum_list (map overpaid_of ?here)"
  proof -
    have "map (\<lambda>r. paid_of r + pending_of r) ?here = map (\<lambda>r. price_of r + overpaid_of r) ?here"
      using pending by (auto simp: overpaid_of_def)
    then show ?thesis by (metis sum_list_addf)
  qed
  have missing: "0 \<le> sum_list (map pending_of ?here)"
    "sum_list (map pending_of ?here) \<le> sum_list (map price_of ?here)"
    using pending inside by (auto intro!: sum_list_nonneg sum_list_mono_on)
  have refunds: "0 \<le> sum_list (map refund_of ?here)"
    "sum_list (map refund_of ?here) \<le> sum_list (map paid_of ?here)"
    using inside by (auto simp: refund_of_def intro!: sum_list_nonneg sum_list_mono_on)
  have len: "int (length ?here) \<le> i64_max"
    using assms(4) length_filter_le [of _ rs] unfolding in_window_def by (meson of_nat_le_iff order.trans)
  have "reservation_totals_of shuffled w = reservation_totals_of rs w"
    using bookings.fold_filter_shuffle [OF assms(5)] by (simp add: reservation_totals_of_def)
  moreover have "reservation_totals_of rs w = \<lparr>rt_gross = sum_list (map price_of ?here),
      rt_collected = sum_list (map paid_of ?here), rt_refunded = sum_list (map refund_of ?here),
      rt_pending = sum_list (map pending_of ?here), rt_count = int (length ?here)\<rparr>"
    using sums missing refunds len by (simp add: totals_are_sums wrapped_totals_def fits)
  ultimately show ?thesis using split refunds by (simp add: Let_def in_window_def)
qed

theorem close_balances_witness:
  "let t = reservation_totals_of sample_bookings (utc_month ''2026-08'' 20666 20697) in
     rt_collected t = 30000 \<and> rt_pending t = 20000 \<and> rt_gross t = 50000 \<and> rt_refunded t = 20000
   \<and> rt_refunded t \<le> rt_collected t
   \<and> reservation_totals_of (rev sample_bookings) (utc_month ''2026-08'' 20666 20697) = t"
proof -
  have hyps: "\<forall>r \<in> set sample_bookings. 0 \<le> price_of r \<and> 0 \<le> paid_of r"
    "sum_list (map price_of sample_bookings) \<le> i64_max"
    "sum_list (map paid_of sample_bookings) \<le> i64_max" "int (length sample_bookings) \<le> i64_max"
    by code_simp+
  have "reservation_totals_of sample_bookings (utc_month ''2026-08'' 20666 20697)
      = \<lparr>rt_gross = 50000, rt_collected = 30000, rt_refunded = 20000, rt_pending = 20000, rt_count = 2\<rparr>"
    by code_simp
  then show ?thesis
    using close_balances [OF hyps, of "rev sample_bookings" "utc_month ''2026-08'' 20666 20697"]
    by (simp add: Let_def)
qed

section \<open>The list of bookings\<close>

text \<open>
  The close lists the latest bookings of the month, latest first, at most 500 of them: every
  booking left out starts no later than every one listed, the drill-down names the head of that
  list, and when no two bookings share an id the order they arrive in does not matter.
\<close>

theorem settlement_lines_latest_first:
  assumes "distinct (map rv_id rs)" "mset shuffled = mset rs"
  shows "\<exists>shown. settlement_reservation_lines rs w = map settlement_line_of shown
    \<and> settlement_reservation_lines shuffled w = map settlement_line_of shown
    \<and> sorted_wrt (\<lambda>a b. rv_starts_at b \<le> rv_starts_at a) shown \<and> distinct shown
    \<and> length shown = min 500 (length (filter (\<lambda>r. window_contains w (rv_starts_at r)) rs))
    \<and> (\<forall>r \<in> set rs. window_contains w (rv_starts_at r) \<and> r \<notin> set shown
        \<longrightarrow> (\<forall>s \<in> set shown. rv_starts_at r \<le> rv_starts_at s))
    \<and> drilldown_reservation_ids (settlement_reservation_lines rs w) = take 200 (map rv_id shown)"
proof -
  let ?here = "filter (\<lambda>r. window_contains w (rv_starts_at r)) rs"
  let ?order = "sort_by later_first ?here"
  let ?shown = "take EXPORT_LINE_LIMIT ?order"
  have later: "sorted_wrt (\<lambda>a b. rv_starts_at b \<le> rv_starts_at a) ?order"
    using latest.sorted_sort_by [of ?here]
    by (rule sorted_wrt_mono_rel [rotated]) (auto simp: later_first_def)
  have "distinct rs" using assms(1) by (simp add: distinct_map)
  then have dist: "distinct ?order"
    by (metis distinct_filter mset_eq_imp_distinct_iff mset_sort_by)
  have same: "sort_by later_first (filter (\<lambda>r. window_contains w (rv_starts_at r)) shuffled) = ?order"
  proof (rule latest.sort_by_order_irrelevant [symmetric])
    fix x y
    assume "x \<in> set ?here" "y \<in> set ?here" "later_first x y" "later_first y x"
    then show "x = y" using assms(1) by (auto simp: later_first_def distinct_map inj_on_def)
  qed (simp add: assms(2))
  have tail: "\<forall>s \<in> set ?shown. rv_starts_at r \<le> rv_starts_at s"
    if r: "r \<in> set rs" "window_contains w (rv_starts_at r)" "r \<notin> set ?shown" for r
  proof -
    have "r \<in> set ?order" using r by simp
    then have "r \<in> set (drop EXPORT_LINE_LIMIT ?order)"
      using r(3) by (metis Un_iff append_take_drop_id set_append)
    moreover have "sorted_wrt (\<lambda>a b. rv_starts_at b \<le> rv_starts_at a)
        (?shown @ drop EXPORT_LINE_LIMIT ?order)" using later by simp
    ultimately show ?thesis unfolding sorted_wrt_append by blast
  qed
  show ?thesis
    using same later dist tail
    by (intro exI [of _ ?shown])
      (auto simp: settlement_reservation_lines_def EXPORT_LINE_LIMIT_def DRILLDOWN_LIMIT_def
        drilldown_reservation_ids_def settlement_line_of_def Let_def sorted_wrt_take take_map comp_def
        min.commute)
qed

theorem settlement_lines_latest_first_witness:
  "settlement_reservation_lines (rev sample_bookings) (utc_month ''2026-08'' 20666 20697)
     = settlement_reservation_lines sample_bookings (utc_month ''2026-08'' 20666 20697)
   \<and> map ln_id (settlement_reservation_lines sample_bookings (utc_month ''2026-08'' 20666 20697))
     = [''r3'', ''r2'']"
proof -
  have hyps: "distinct (map rv_id sample_bookings)" by code_simp
  have vals: "map ln_id (settlement_reservation_lines sample_bookings (utc_month ''2026-08'' 20666 20697))
      = [''r3'', ''r2'']" by code_simp
  from settlement_lines_latest_first [OF hyps, of "rev sample_bookings" "utc_month ''2026-08'' 20666 20697"]
  show ?thesis using vals by auto
qed

section \<open>The exported file\<close>

definition summary_cells :: "str \<Rightarrow> str \<times> int \<times> int \<times> str \<Rightarrow> str list" where
  "summary_cells ym row =
     (case row of (metric, amount, n, currency) \<Rightarrow>
       [''summary'', ym, metric, show_int amount, show_int n, currency])"

definition warning_rows :: "str \<Rightarrow> str option \<Rightarrow> str list list" where
  "warning_rows ym warning =
     (case warning of None \<Rightarrow> []
      | Some text \<Rightarrow> [[''summary'', ym, ''square_warning'', ''0'', ''0'', text]])"

definition line_cells :: "settlement_line \<Rightarrow> str list" where
  "line_cells l = [ln_id l, ln_number l, ln_status l, ln_payment_status l, show_int (ln_price l),
     show_int (ln_paid l), ln_currency l]"

lemma plain_words:
  "list_all (\<lambda>v. csv_field v = v) [''summary'', ''square_warning'', ''0'', ''reservations_gross'',
     ''reservations_collected'', ''reservations_refunded'', ''reservations_payment_pending'',
     ''caddie_fees_total'', ''cancellation_fee_outstanding'', ''square_payments_total'',
     ''square_refunds_total'', ''square_unreconciled_lines'']"
  by (simp add: csv_field_def csv_special_def)

lemma summary_lines:
  "row \<in> set (summary_rows m) \<Longrightarrow>
     summary_line (csv_field ym) row = csv_line (map csv_field (summary_cells ym row))"
  using plain_words by (auto simp: summary_rows_def summary_line_def summary_cells_def csv_line_def)

lemma reservation_lines: "reservation_csv_line l = csv_line (map csv_field (line_cells l))"
  by (simp add: reservation_csv_line_def line_cells_def)

definition summary_columns :: "str list" where
  "summary_columns = [''section'', ''year_month'', ''metric'', ''amount'', ''count'', ''currency'']"

definition reservation_columns :: "str list" where
  "reservation_columns = [''reservation_id'', ''reservation_number'', ''status'', ''payment_status'',
     ''price_amount'', ''paid_amount'', ''currency'']"

lemma header_lines:
  "summary_header = csv_line (map csv_field summary_columns)"
  "reservation_header = csv_line (map csv_field reservation_columns)"
  by (simp_all add: summary_header_def reservation_header_def summary_columns_def
      reservation_columns_def csv_line_def csv_field_def csv_special_def)

lemma csv_file_append: "csv_file (xs @ ys) = csv_file xs @ csv_file ys"
  by (simp add: csv_file_def)

lemma csv_file_Cons: "csv_file (v # vs) = csv_line (map csv_field v) @ CHR 0x0A # csv_file vs"
  by (simp add: csv_file_def)

lemma led_rows:
  assumes "\<And>x. x \<in> set xs \<Longrightarrow> f x = csv_line (map csv_field (cells x))"
  shows "concat (map (\<lambda>x. CHR 0x0A # f x) xs) @ CHR 0x0A # rest = CHR 0x0A # csv_file (map cells xs) @ rest"
  using assms by (induction xs) (simp_all add: csv_file_Cons, simp add: csv_file_def)

text \<open>
  C40. The exported close, read by a CSV reader, is its header, the nine figures with the month
  and their counts, the warning when there is one, the second header and one row per booking,
  each with exactly its values.
\<close>

theorem settlement_csv_roundtrip:
  "read_csv (settlement_csv m ls) =
     summary_columns # map (summary_cells (st_year_month (ms_period m))) (summary_rows m)
     @ warning_rows (st_year_month (ms_period m)) (ms_square_warning m)
     @ reservation_columns # map line_cells ls"
proof -
  let ?ym = "st_year_month (ms_period m)"
  let ?sums = "map (summary_cells ?ym) (summary_rows m)"
  let ?rows = "summary_columns # ?sums @ warning_rows ?ym (ms_square_warning m)
     @ reservation_columns # map line_cells ls"
  have warning: "(case ms_square_warning m of None \<Rightarrow> []
       | Some text \<Rightarrow> CHR 0x0A # ''summary,'' @ csv_field ?ym @ '',square_warning,0,0,'' @ csv_field text)
      @ CHR 0x0A # rest = CHR 0x0A # csv_file (warning_rows ?ym (ms_square_warning m)) @ rest" for rest
    using plain_words by (auto simp: warning_rows_def csv_file_Cons csv_file_append csv_line_def
        csv_file_def split: option.splits)
  have bookings: "concat (map (\<lambda>l. CHR 0x0A # reservation_csv_line l) ls) @ [CHR 0x0A]
      = CHR 0x0A # csv_file (map line_cells ls)"
    using led_rows [of ls reservation_csv_line line_cells "[]"] by (simp add: reservation_lines)
  have sums: "concat (map (\<lambda>r. CHR 0x0A # summary_line (csv_field ?ym) r) (summary_rows m)) @ CHR 0x0A # rest
      = CHR 0x0A # csv_file ?sums @ rest" for rest
    by (rule led_rows) (rule summary_lines)
  have "settlement_csv m ls = csv_file ?rows"
    unfolding settlement_csv_def Let_def bookings warning header_lines
    by (simp only: csv_file_append csv_file_Cons append.assoc append_Cons)
      (simp only: bookings warning sums append_Cons csv_file_append csv_file_Cons append.assoc)
  then show ?thesis
    by (simp only:) (rule read_csv_file, auto simp: summary_columns_def summary_cells_def
        warning_rows_def reservation_columns_def line_cells_def split: option.splits)
qed

text \<open>A round under way is in neither the count nor the total, though nobody called it off.\<close>

lemma round_under_way_not_owed:
  "as_status a = InProgress \<Longrightarrow> caddie_fee_totals_of (a # as) w = caddie_fee_totals_of as w"
  by (simp add: caddie_fee_totals_of_def is_owed_def)

end
