(* ===== verification/AssignmentOps.thy ===== *)
theory AssignmentOps
  imports DayPlan CaddieDuty Supply Payroll
begin

text \<open>
  How a round gets its caddie by hand: the tenant's day
  (\<open>src/course/domain/tenant_timezone.rs\<close>), the write sent upstream (\<open>caddie_ops.rs\<close>), the
  guards a round has to pass (\<open>src/course/usecase/caddie_round_guards.rs\<close>), and the use cases
  that name a caddie, move a round and release a day. What upstream answers is an argument;
  a use case gives the write it sends or the error it refuses with.
\<close>

section \<open>The tenant's day\<close>

text \<open>\<open>zone\<close> looks a time zone up by its name; the time zone database is a third-party crate.\<close>

type_synonym zones = "str \<Rightarrow> clock option"

definition DEFAULT_TIMEZONE :: str where "DEFAULT_TIMEZONE = ''Asia/Tokyo''"

definition tenant_timezone_or_default :: "str option \<Rightarrow> str" where
  "tenant_timezone_or_default stored = unwrap_or (trimmed stored) DEFAULT_TIMEZONE"

definition parse_tenant_timezone :: "zones \<Rightarrow> str \<Rightarrow> clock result" where
  "parse_tenant_timezone zone tz =
     (case zone tz of None \<Rightarrow> Inl (Provider ''tenant timezone is not a valid IANA timezone'')
      | Some clk \<Rightarrow> Inr clk)"

definition tenant_date_at :: "zones \<Rightarrow> instant \<Rightarrow> str \<Rightarrow> date result" where
  "tenant_date_at zone t tz =
     (case parse_tenant_timezone zone tz of Inl e \<Rightarrow> Inl e | Inr clk \<Rightarrow> Inr (clk_local_date clk t))"

definition local_midnight :: "clock \<Rightarrow> date \<Rightarrow> str \<Rightarrow> instant result" where
  "local_midnight clk d label =
     (case clk_midnight clk d of
        None \<Rightarrow> Inl (Provider (label @ '' does not exist in tenant timezone''))
      | Some t \<Rightarrow> Inr t)"

definition tenant_day_bounds ::
  "calendar \<Rightarrow> zones \<Rightarrow> date \<Rightarrow> date \<Rightarrow> str \<Rightarrow> (instant \<times> instant) result" where
  "tenant_day_bounds cal zone from_day to_day tz =
     (if to_day < from_day then Inl (BadRequest ''to must be on or after from'')
      else case parse_tenant_timezone zone tz of Inl e \<Rightarrow> Inl e
      | Inr clk \<Rightarrow> (case local_midnight clk from_day ''start date'' of Inl e \<Rightarrow> Inl e
        | Inr start \<Rightarrow> (case cal_succ cal to_day of None \<Rightarrow> Inl (BadRequest ''date is out of range'')
          | Some next_day \<Rightarrow> (case local_midnight clk next_day ''end date'' of Inl e \<Rightarrow> Inl e
            | Inr finish \<Rightarrow> Inr (start, finish)))))"

definition widen_for_utc_date_filter :: "date \<Rightarrow> date \<Rightarrow> date \<times> date" where
  "widen_for_utc_date_filter from_day to_day = (from_day - 1, to_day + 1)"

section \<open>The write\<close>

record upsert_assignment =
  us_caddie :: caddie_id
  us_reservation :: "reservation_id option"
  us_round_reference :: "str option"
  us_scheduled_at :: instant
  us_status :: "str option"
  us_role :: "str option"
  us_fee :: "int option"
  us_currency :: "str option"
  us_score :: "int option"
  us_notes :: "str option"

definition upsert_assignment_try_new ::
  "str \<Rightarrow> str option \<Rightarrow> str option \<Rightarrow> instant \<Rightarrow> str option \<Rightarrow> str option \<Rightarrow> int option \<Rightarrow> str option
    \<Rightarrow> int option \<Rightarrow> str option \<Rightarrow> upsert_assignment result" where
  "upsert_assignment_try_new cid reservation reference scheduled status role fee currency score notes =
     (case id_try_new ''caddie id'' cid of Inl e \<Rightarrow> Inl e
      | Inr cid' \<Rightarrow> Inr
        \<lparr>us_caddie = cid', us_reservation = id_from_optional reservation,
         us_round_reference = trimmed reference, us_scheduled_at = scheduled,
         us_status = trimmed status, us_role = trimmed role,
         us_fee = (case fee of None \<Rightarrow> None | Some n \<Rightarrow> if 0 \<le> n then Some n else None),
         us_currency = trimmed currency, us_score = score, us_notes = trimmed notes\<rparr>)"

section \<open>The guards\<close>

record placed_round =
  rd_caddie :: caddie_id
  rd_reservation :: reservation_id
  rd_scheduled_at :: instant
  rd_date :: date
  rd_duration :: "int option"
  rd_moving :: "assignment_id option"

definition guard_overlaps :: "instant \<Rightarrow> instant \<Rightarrow> instant \<Rightarrow> instant \<Rightarrow> bool" where
  "guard_overlaps left_start left_end right_start right_end \<longleftrightarrow>
     left_start < right_end \<and> right_start < left_end"

definition live_rounds_on ::
  "calendar \<Rightarrow> zones \<Rightarrow> assignment list \<Rightarrow> date \<Rightarrow> str \<Rightarrow> assignment list result" where
  "live_rounds_on cal zone as d tz =
     (case tenant_day_bounds cal zone d d tz of Inl e \<Rightarrow> Inl e
      | Inr (start, finish) \<Rightarrow> Inr (filter (\<lambda>a. start \<le> as_scheduled_at a \<and> as_scheduled_at a < finish)
          (filter holds_the_round as)))"

definition round_length :: "placed_round \<Rightarrow> int" where
  "round_length r = unwrap_or (positive (rd_duration r)) DEFAULT_ROUND_MINUTES"

definition other_rounds :: "placed_round \<Rightarrow> assignment list \<Rightarrow> assignment list" where
  "other_rounds r live = filter (\<lambda>a. Some (as_id a) \<noteq> rd_moving r) live"

definition is_out :: "placed_round \<Rightarrow> assignment \<Rightarrow> bool" where
  "is_out r a \<longleftrightarrow> as_caddie a = rd_caddie r
     \<and> guard_overlaps (rd_scheduled_at r) (rd_scheduled_at r + minutes (round_length r))
         (as_scheduled_at a) (as_scheduled_at a + minutes (occupied_minutes a))"

definition check_round_can_be_walked ::
  "caddie list \<Rightarrow> assignment list \<Rightarrow> availability list \<Rightarrow> duty_assignment list \<Rightarrow> placed_round
    \<Rightarrow> clock \<Rightarrow> caddie result" where
  "check_round_can_be_walked roster live availabilities on_duty r clk =
     (case List.find (\<lambda>c. cd_id c = rd_caddie r) roster of None \<Rightarrow> Inl (NotFound ''caddie'')
      | Some c \<Rightarrow>
        if \<not> is_assignable c then Inl (BadRequest
          ''this caddie is not taking rounds; set them back to active on the roster first'')
        else if duty_blocks_round clk on_duty (rd_caddie r) (rd_date r) (rd_scheduled_at r) (round_length r)
        then Inl (BadRequest ''this caddie is on other work over those hours; clear it before putting them on a round'')
        else if \<not> shift_covers_tee_time
            (map_option av_status (List.find (\<lambda>v. av_caddie v = rd_caddie r) availabilities))
            (Some (rd_scheduled_at r)) clk
        then Inl (BadRequest ''this caddie's shift for the day does not cover that tee time'')
        else if \<exists>a \<in> set (other_rounds r live). covers_reservation a (rd_reservation r)
        then Inl (BadRequest
          ''this group already has a caddie; release that assignment before putting another on it'')
        else if \<exists>a \<in> set (other_rounds r live). is_out r a
        then Inl (BadRequest ''this caddie is already out on a round that overlaps that tee time'')
        else Inr c)"

section \<open>Naming a caddie\<close>

text \<open>What the five concurrent reads of a day answer together, or the error one of them gave.\<close>

record day_facts =
  df_roster :: "caddie list"
  df_assignments :: "assignment list"
  df_availabilities :: "availability list"
  df_fees :: rank_fees
  df_duties :: "duty_assignment list"

record name_caddie_for_round =
  nc_caddie :: caddie_id
  nc_reservation :: reservation_id
  nc_scheduled_at :: instant
  nc_duration :: "int option"
  nc_role :: "str option"
  nc_notes :: "str option"

definition named_round :: "name_caddie_for_round \<Rightarrow> date \<Rightarrow> placed_round" where
  "named_round i d = \<lparr>rd_caddie = nc_caddie i, rd_reservation = nc_reservation i,
     rd_scheduled_at = nc_scheduled_at i, rd_date = d, rd_duration = nc_duration i, rd_moving = None\<rparr>"

definition named_write :: "name_caddie_for_round \<Rightarrow> rank_fees \<Rightarrow> caddie \<Rightarrow> upsert_assignment" where
  "named_write i fees c =
     \<lparr>us_caddie = nc_caddie i, us_reservation = Some (nc_reservation i), us_round_reference = None,
      us_scheduled_at = nc_scheduled_at i, us_status = Some ''assigned'',
      us_role = Some (unwrap_or (nc_role i) ''primary''),
      us_fee = Some (round_fee_for fees (cd_rank c) (cd_base_fee c)),
      us_currency = Some (cd_currency c), us_score = None, us_notes = nc_notes i\<rparr>"

definition create_caddie_assignment ::
  "calendar \<Rightarrow> zones \<Rightarrow> unit result \<Rightarrow> name_caddie_for_round \<Rightarrow> str \<Rightarrow> day_facts result
    \<Rightarrow> upsert_assignment result" where
  "create_caddie_assignment cal zone permitted i tz facts =
     (case permitted of Inl e \<Rightarrow> Inl e | Inr _ \<Rightarrow>
     (case parse_tenant_timezone zone tz of Inl e \<Rightarrow> Inl e | Inr clk \<Rightarrow>
     (case tenant_date_at zone (nc_scheduled_at i) tz of Inl e \<Rightarrow> Inl e | Inr d \<Rightarrow>
     (case facts of Inl e \<Rightarrow> Inl e | Inr f \<Rightarrow>
     (case live_rounds_on cal zone (df_assignments f) d tz of Inl e \<Rightarrow> Inl e | Inr live \<Rightarrow>
     (case check_round_can_be_walked (df_roster f) live (df_availabilities f) (df_duties f)
             (named_round i d) clk of Inl e \<Rightarrow> Inl e
      | Inr c \<Rightarrow> Inr (named_write i (df_fees f) c)))))))"

section \<open>Moving a round\<close>

record move_the_round =
  mv_assignment :: assignment_id
  mv_date :: date
  mv_caddie :: "caddie_id option"
  mv_reservation :: "reservation_id option"
  mv_scheduled_at :: "instant option"
  mv_duration :: "int option"

definition moved_round :: "move_the_round \<Rightarrow> assignment \<Rightarrow> reservation_id \<Rightarrow> placed_round" where
  "moved_round i current rid =
     \<lparr>rd_caddie = unwrap_or (mv_caddie i) (as_caddie current), rd_reservation = rid,
      rd_scheduled_at = unwrap_or (mv_scheduled_at i) (as_scheduled_at current),
      rd_date = mv_date i,
      rd_duration = (case mv_duration i of Some n \<Rightarrow> Some n
        | None \<Rightarrow> let m = occupied_minutes current in if in_i32 m then Some m else None),
      rd_moving = Some (mv_assignment i)\<rparr>"

definition moved_write :: "placed_round \<Rightarrow> assignment \<Rightarrow> rank_fees \<Rightarrow> caddie \<Rightarrow> upsert_assignment" where
  "moved_write r current fees c =
     \<lparr>us_caddie = rd_caddie r, us_reservation = Some (rd_reservation r),
      us_round_reference =
        (if as_reservation current \<noteq> Some (rd_reservation r) then None else as_round_reference current),
      us_scheduled_at = rd_scheduled_at r, us_status = Some (as_status_label current),
      us_role = Some (as_role_label current),
      us_fee = Some (round_fee_for fees (cd_rank c) (cd_base_fee c)),
      us_currency = Some (cd_currency c), us_score = None, us_notes = as_notes current\<rparr>"

definition reassign_caddie_assignment ::
  "calendar \<Rightarrow> zones \<Rightarrow> unit result \<Rightarrow> move_the_round \<Rightarrow> str \<Rightarrow> day_facts result
    \<Rightarrow> upsert_assignment result" where
  "reassign_caddie_assignment cal zone permitted i tz facts =
     (case permitted of Inl e \<Rightarrow> Inl e | Inr _ \<Rightarrow>
     (case parse_tenant_timezone zone tz of Inl e \<Rightarrow> Inl e | Inr clk \<Rightarrow>
     (case facts of Inl e \<Rightarrow> Inl e | Inr f \<Rightarrow>
     (case live_rounds_on cal zone (df_assignments f) (mv_date i) tz of Inl e \<Rightarrow> Inl e | Inr live \<Rightarrow>
     (case List.find (\<lambda>a. as_id a = mv_assignment i) live of
        None \<Rightarrow> Inl (NotFound ''assignment'')
      | Some current \<Rightarrow>
     (case (case mv_reservation i of Some rid \<Rightarrow> Some rid | None \<Rightarrow> as_reservation current) of
        None \<Rightarrow> Inl (BadRequest
          ''this assignment is not against a booking, so there is no group to move it to'')
      | Some rid \<Rightarrow>
          let r = moved_round i current rid in
          (case tenant_date_at zone (rd_scheduled_at r) tz of Inl e \<Rightarrow> Inl e
           | Inr d \<Rightarrow>
              if d \<noteq> mv_date i
              then Inl (BadRequest ''a round can only be moved within the same day'')
              else (case check_round_can_be_walked (df_roster f) live (df_availabilities f)
                           (df_duties f) r clk of Inl e \<Rightarrow> Inl e
                    | Inr c \<Rightarrow> Inr (moved_write r current (df_fees f) c)))))))))"

section \<open>Releasing a day\<close>

text \<open>The row as it stands, marked cancelled: \<open>cancelled_from\<close> of \<open>cancel_reservation.rs\<close> and
  the same write in \<open>release_assignments\<close>.\<close>

definition cancelled_from :: "assignment \<Rightarrow> upsert_assignment" where
  "cancelled_from a =
     \<lparr>us_caddie = as_caddie a, us_reservation = as_reservation a,
      us_round_reference = as_round_reference a, us_scheduled_at = as_scheduled_at a,
      us_status = Some ''cancelled'', us_role = Some (as_role_label a), us_fee = Some (as_fee a),
      us_currency = Some (as_currency a), us_score = None, us_notes = as_notes a\<rparr>"

definition releasable :: "instant \<times> instant \<Rightarrow> assignment \<Rightarrow> bool" where
  "releasable bounds a \<longleftrightarrow> \<not> (as_status a \<noteq> Assigned \<or> as_reservation a = None
     \<or> as_scheduled_at a < fst bounds \<or> snd bounds \<le> as_scheduled_at a)"

record release_result =
  rl_released :: "assignment_id list"
  rl_failed :: "(assignment_id \<times> str) list"

definition release_one ::
  "instant \<times> instant \<Rightarrow> (assignment_id \<Rightarrow> upsert_assignment \<Rightarrow> unit result) \<Rightarrow> assignment
    \<Rightarrow> release_result \<times> (assignment_id \<times> upsert_assignment) list
    \<Rightarrow> release_result \<times> (assignment_id \<times> upsert_assignment) list" where
  "release_one bounds reply a acc =
     (if \<not> releasable bounds a then acc
      else case reply (as_id a) (cancelled_from a) of
        Inr _ \<Rightarrow> ((fst acc)\<lparr>rl_released := rl_released (fst acc) @ [as_id a]\<rparr>,
                 snd acc @ [(as_id a, cancelled_from a)])
      | Inl _ \<Rightarrow> ((fst acc)\<lparr>rl_failed := rl_failed (fst acc)
          @ [(as_id a, ''Failed to release assignment; retry the request'')]\<rparr>, snd acc))"

definition release_assignments ::
  "assignment list \<Rightarrow> instant \<times> instant \<Rightarrow> (assignment_id \<Rightarrow> upsert_assignment \<Rightarrow> unit result)
    \<Rightarrow> release_result \<times> (assignment_id \<times> upsert_assignment) list" where
  "release_assignments as bounds reply =
     fold (release_one bounds reply) as (\<lparr>rl_released = [], rl_failed = []\<rparr>, [])"

definition release_day ::
  "calendar \<Rightarrow> zones \<Rightarrow> unit result \<Rightarrow> date \<Rightarrow> str \<Rightarrow> assignment list result
    \<Rightarrow> (assignment_id \<Rightarrow> upsert_assignment \<Rightarrow> unit result)
    \<Rightarrow> (release_result \<times> (assignment_id \<times> upsert_assignment) list) result" where
  "release_day cal zone permitted d tz answered reply =
     (case permitted of Inl e \<Rightarrow> Inl e | Inr _ \<Rightarrow>
     (case tenant_day_bounds cal zone d d tz of Inl e \<Rightarrow> Inl e | Inr bounds \<Rightarrow>
     (case answered of Inl e \<Rightarrow> Inl e
      | Inr as \<Rightarrow> Inr (release_assignments as bounds reply))))"

section \<open>Editing a row\<close>

text \<open>\<open>update_caddie_assignment\<close> sends what it is given.\<close>

definition update_caddie_assignment :: "unit result \<Rightarrow> upsert_assignment \<Rightarrow> upsert_assignment result" where
  "update_caddie_assignment permitted u = (case permitted of Inl e \<Rightarrow> Inl e | Inr _ \<Rightarrow> Inr u)"

end
