(* ===== verification/Cancellations.thy ===== *)
theory Cancellations
  imports AssignmentOps Party
begin

text \<open>
  Why a booking came off the board, and whether it is owed for:
  \<open>src/course/domain/reservation_cancellation.rs\<close>, its table
  (\<open>infrastructure/reservation_cancellation_repository.rs\<close>) and the use cases that cancel a
  booking, settle fees and list the cancellations. The table is a list of stored rows in the
  order of their primary key. What MySQL decides is an argument: \<open>ck\<close>, the collation key by
  which it compares text, the id and the time it stamps a new row with, and whether a statement
  went through.
\<close>

section \<open>Reasons and fee states\<close>

datatype cancellation_reason =
  Weather | Illness | Personal | NoContact | CourseSide | Shortage | Mistake | OtherReason

fun reason_as_str :: "cancellation_reason \<Rightarrow> str" where
  "reason_as_str Weather = ''weather''"
| "reason_as_str Illness = ''illness''"
| "reason_as_str Personal = ''personal''"
| "reason_as_str NoContact = ''no_contact''"
| "reason_as_str CourseSide = ''course_side''"
| "reason_as_str Shortage = ''shortage''"
| "reason_as_str Mistake = ''mistake''"
| "reason_as_str OtherReason = ''other''"

definition reason_parse :: "str \<Rightarrow> cancellation_reason result" where
  "reason_parse raw = (let k = trim raw in
     if k = ''weather'' then Inr Weather else if k = ''illness'' then Inr Illness
     else if k = ''personal'' then Inr Personal else if k = ''no_contact'' then Inr NoContact
     else if k = ''course_side'' then Inr CourseSide else if k = ''shortage'' then Inr Shortage
     else if k = ''mistake'' then Inr Mistake else if k = ''other'' then Inr OtherReason
     else Inl (BadRequest ''unknown cancellation reason''))"

definition fee_expected :: "cancellation_reason \<Rightarrow> bool" where
  "fee_expected r \<longleftrightarrow> r \<noteq> Weather \<and> r \<noteq> CourseSide \<and> r \<noteq> Mistake"

definition all_reasons :: "cancellation_reason list" where
  "all_reasons = [Weather, Illness, Personal, NoContact, CourseSide, Shortage, Mistake, OtherReason]"

datatype fee_state = Unsettled | Waived | Invoiced

fun fee_state_as_str :: "fee_state \<Rightarrow> str" where
  "fee_state_as_str Unsettled = ''unsettled''"
| "fee_state_as_str Waived = ''waived''"
| "fee_state_as_str Invoiced = ''invoiced''"

definition fee_state_parse :: "str \<Rightarrow> fee_state result" where
  "fee_state_parse raw = (let k = trim raw in
     if k = ''unsettled'' then Inr Unsettled else if k = ''waived'' then Inr Waived
     else if k = ''invoiced'' then Inr Invoiced
     else Inl (BadRequest ''unknown cancellation fee state''))"

text \<open>A stored row whose token this build does not know reads as the fallback.\<close>

interpretation reason: wire_code reason_as_str reason_parse OtherReason
proof
  show "reason_parse (reason_as_str x) = Inr x" for x by (cases x; hypsubst; code_simp)
qed

interpretation fee: wire_code fee_state_as_str fee_state_parse Unsettled
proof
  show "fee_state_parse (fee_state_as_str x) = Inr x" for x by (cases x; hypsubst; code_simp)
qed

lemma all_reasons_complete: "r \<in> set all_reasons"
  by (cases r) (simp_all add: all_reasons_def)

section \<open>One cancellation\<close>

record cancellation =
  cn_reservation :: reservation_id
  cn_number :: "str option"
  cn_customer :: "customer_id option"
  cn_customer_name :: "str option"
  cn_course :: "course_id option"
  cn_tee_time :: "instant option"
  cn_played_on :: "date option"
  cn_players :: int
  cn_amount :: "int option"
  cn_currency :: "str option"
  cn_reason :: cancellation_reason
  cn_note :: "str option"
  cn_notice :: "int option"
  cn_fee_state :: fee_state
  cn_fee_invoice :: "str option"
  cn_fee_amount :: "int option"
  cn_fee_settled_at :: "instant option"
  cn_fee_note :: "str option"
  cn_cancelled_at :: instant
  cn_cancelled_by :: "str option"

definition awaiting_fee_decision :: "cancellation \<Rightarrow> bool" where
  "awaiting_fee_decision c \<longleftrightarrow> cn_fee_state c = Unsettled \<and> fee_expected (cn_reason c)"

record new_cancellation =
  nw_reservation :: reservation_id
  nw_number :: "str option"
  nw_customer :: "customer_id option"
  nw_customer_name :: "str option"
  nw_course :: "course_id option"
  nw_tee_time :: "instant option"
  nw_played_on :: "date option"
  nw_players :: int
  nw_amount :: "int option"
  nw_currency :: "str option"
  nw_reason :: cancellation_reason
  nw_note :: "str option"
  nw_notice :: "int option"
  nw_cancelled_by :: "str option"

definition MAX_CANCELLATION_NOTE_CHARS :: nat where "MAX_CANCELLATION_NOTE_CHARS = 500"

record cancellation_details =
  dt_reason :: cancellation_reason
  dt_note :: "str option"

definition too_long :: "str option \<Rightarrow> bool" where
  "too_long note = (case note of None \<Rightarrow> False | Some s \<Rightarrow> MAX_CANCELLATION_NOTE_CHARS < char_count s)"

definition details_try_new :: "cancellation_reason \<Rightarrow> str option \<Rightarrow> cancellation_details result" where
  "details_try_new r note =
     (if too_long (trimmed note) then Inl (BadRequest ''the cancellation reason is too long'')
      else Inr \<lparr>dt_reason = r, dt_note = trimmed note\<rparr>)"

definition upstream_reason :: "cancellation_details \<Rightarrow> str" where
  "upstream_reason d =
     (case dt_note d of
        Some note \<Rightarrow> ''['' @ reason_as_str (dt_reason d) @ ''] '' @ note
      | None \<Rightarrow> ''['' @ reason_as_str (dt_reason d) @ '']'')"

definition notice_days_between :: "date \<Rightarrow> date \<Rightarrow> int" where
  "notice_days_between cancelled_on played_on = played_on - cancelled_on"

section \<open>What the list is asked for\<close>

datatype cancellation_sort =
  ByPlayedOn | ByReason | ByNoticeDays | ByPlayers | ByBookingAmount | ByFeeState

definition sort_parse :: "str \<Rightarrow> cancellation_sort result" where
  "sort_parse v =
     (if v = ''played_on'' then Inr ByPlayedOn else if v = ''reason'' then Inr ByReason
      else if v = ''notice_days'' then Inr ByNoticeDays else if v = ''players'' then Inr ByPlayers
      else if v = ''booking_amount'' then Inr ByBookingAmount
      else if v = ''fee_state'' then Inr ByFeeState
      else Inl (BadRequest ''unknown cancellation sort''))"

record cancellation_query =
  cq_from :: "date option"
  cq_to :: "date option"
  cq_customer :: "customer_id option"
  cq_reasons :: "cancellation_reason list"
  cq_fee_states :: "fee_state list"
  cq_fee_expected_only :: bool
  cq_linked_only :: bool
  cq_sort :: cancellation_sort
  cq_descending :: bool
  cq_limit :: nat
  cq_offset :: nat

definition CANCELLATION_PAGE_LIMIT :: nat where "CANCELLATION_PAGE_LIMIT = 100"
definition MAX_CANCELLATION_PAGE_LIMIT :: nat where "MAX_CANCELLATION_PAGE_LIMIT = 200"

definition default_query :: cancellation_query where
  "default_query = \<lparr>cq_from = None, cq_to = None, cq_customer = None, cq_reasons = [],
     cq_fee_states = [], cq_fee_expected_only = False, cq_linked_only = False,
     cq_sort = ByPlayedOn, cq_descending = True, cq_limit = CANCELLATION_PAGE_LIMIT, cq_offset = 0\<rparr>"

definition with_paging :: "nat option \<Rightarrow> nat option \<Rightarrow> cancellation_query \<Rightarrow> cancellation_query" where
  "with_paging limit offset q =
     q\<lparr>cq_limit := unwrap_or limit CANCELLATION_PAGE_LIMIT, cq_offset := unwrap_or offset 0\<rparr>"

definition query_validate :: "cancellation_query \<Rightarrow> unit result" where
  "query_validate q =
     (if (case (cq_from q, cq_to q) of (Some f, Some t) \<Rightarrow> t < f | _ \<Rightarrow> False)
      then Inl (BadRequest ''the period ends before it starts'')
      else if cq_limit q = 0 \<or> MAX_CANCELLATION_PAGE_LIMIT < cq_limit q
      then Inl (BadRequest ''ask for between 1 and 200 cancellations'')
      else Inr ())"

section \<open>A decision about a fee\<close>

record fee_decision =
  fd_reservation :: reservation_id
  fd_state :: fee_state
  fd_invoice :: "str option"
  fd_amount :: "int option"
  fd_note :: "str option"

definition blank :: "str option \<Rightarrow> bool" where
  "blank v = (case v of None \<Rightarrow> True | Some s \<Rightarrow> trim s = [])"

definition decision_validate :: "fee_decision \<Rightarrow> unit result" where
  "decision_validate d =
     (if trim (fd_reservation d) = [] then Inl (BadRequest ''reservation id is required'')
      else if fd_state d = Invoiced \<and> blank (fd_invoice d)
      then Inl (BadRequest ''an invoiced cancellation needs its invoice id'')
      else if too_long (fd_note d) then Inl (BadRequest ''the fee note is too long'')
      else if (case fd_amount d of None \<Rightarrow> False | Some n \<Rightarrow> n < 0)
      then Inl (BadRequest ''a fee cannot be negative'')
      else Inr ())"

section \<open>The table\<close>

record cancellation_row =
  cr_id :: nat
  cr_tenant :: str
  cr_reservation :: str
  cr_number :: "str option"
  cr_customer :: "str option"
  cr_customer_name :: "str option"
  cr_course :: "str option"
  cr_tee_time :: "instant option"
  cr_played_on :: "date option"
  cr_players :: int
  cr_amount :: "int option"
  cr_currency :: "str option"
  cr_reason_code :: str
  cr_note :: "str option"
  cr_notice :: "int option"
  cr_fee_state :: str
  cr_fee_invoice :: "str option"
  cr_fee_amount :: "int option"
  cr_fee_settled_at :: "instant option"
  cr_fee_note :: "str option"
  cr_cancelled_at :: instant
  cr_cancelled_by :: "str option"

definition row_to_cancellation :: "cancellation_row \<Rightarrow> cancellation" where
  "row_to_cancellation r =
     \<lparr>cn_reservation = cr_reservation r, cn_number = cr_number r, cn_customer = cr_customer r,
      cn_customer_name = cr_customer_name r, cn_course = cr_course r, cn_tee_time = cr_tee_time r,
      cn_played_on = cr_played_on r, cn_players = cr_players r, cn_amount = cr_amount r,
      cn_currency = cr_currency r,
      cn_reason = result_or (reason_parse (cr_reason_code r)) OtherReason,
      cn_note = cr_note r, cn_notice = cr_notice r,
      cn_fee_state = result_or (fee_state_parse (cr_fee_state r)) Unsettled,
      cn_fee_invoice = cr_fee_invoice r, cn_fee_amount = cr_fee_amount r,
      cn_fee_settled_at = cr_fee_settled_at r, cn_fee_note = cr_fee_note r,
      cn_cancelled_at = cr_cancelled_at r, cn_cancelled_by = cr_cancelled_by r\<rparr>"

type_synonym collation = "str \<Rightarrow> nat list"

definition same_text :: "collation \<Rightarrow> str \<Rightarrow> str \<Rightarrow> bool" where
  "same_text ck a b \<longleftrightarrow> ck a = ck b"

definition is_booking :: "collation \<Rightarrow> str \<Rightarrow> str \<Rightarrow> cancellation_row \<Rightarrow> bool" where
  "is_booking ck tenant reservation r \<longleftrightarrow>
     same_text ck (cr_tenant r) tenant \<and> same_text ck (cr_reservation r) reservation"

definition inserted_row :: "nat \<Rightarrow> instant \<Rightarrow> str \<Rightarrow> new_cancellation \<Rightarrow> cancellation_row" where
  "inserted_row fresh now tenant c =
     \<lparr>cr_id = fresh, cr_tenant = tenant, cr_reservation = nw_reservation c,
      cr_number = nw_number c, cr_customer = nw_customer c, cr_customer_name = nw_customer_name c,
      cr_course = nw_course c, cr_tee_time = nw_tee_time c, cr_played_on = nw_played_on c,
      cr_players = nw_players c, cr_amount = nw_amount c, cr_currency = nw_currency c,
      cr_reason_code = reason_as_str (nw_reason c), cr_note = nw_note c, cr_notice = nw_notice c,
      cr_fee_state = ''unsettled'', cr_fee_invoice = None, cr_fee_amount = None,
      cr_fee_settled_at = None, cr_fee_note = None, cr_cancelled_at = now,
      cr_cancelled_by = nw_cancelled_by c\<rparr>"

definition on_duplicate :: "new_cancellation \<Rightarrow> cancellation_row \<Rightarrow> cancellation_row" where
  "on_duplicate c r = r\<lparr>cr_reason_code := reason_as_str (nw_reason c), cr_note := nw_note c,
     cr_cancelled_by := nw_cancelled_by c\<rparr>"

definition record_cancellation ::
  "collation \<Rightarrow> nat \<Rightarrow> instant \<Rightarrow> str \<Rightarrow> new_cancellation \<Rightarrow> cancellation_row list
    \<Rightarrow> cancellation_row list" where
  "record_cancellation ck fresh now tenant c rows =
     (if \<exists>r \<in> set rows. is_booking ck tenant (nw_reservation c) r
      then map (\<lambda>r. if is_booking ck tenant (nw_reservation c) r then on_duplicate c r else r) rows
      else rows @ [inserted_row fresh now tenant c])"

text \<open>A column's value as the database orders it: numbers and dates by size, text by collation.\<close>

datatype cell = Number int | Text "nat list"

instantiation cell :: linorder
begin

fun less_eq_cell :: "cell \<Rightarrow> cell \<Rightarrow> bool" where
  "less_eq_cell (Number a) (Number b) \<longleftrightarrow> a \<le> b"
| "less_eq_cell (Text a) (Text b) \<longleftrightarrow> a \<le> b"
| "less_eq_cell (Number a) (Text b) \<longleftrightarrow> True"
| "less_eq_cell (Text a) (Number b) \<longleftrightarrow> False"

definition less_cell :: "cell \<Rightarrow> cell \<Rightarrow> bool" where
  "less_cell a b \<longleftrightarrow> a \<le> b \<and> \<not> b \<le> (a :: cell)"

instance
proof
  fix x y z :: cell
  show "x < y \<longleftrightarrow> x \<le> y \<and> \<not> y \<le> x" by (rule less_cell_def)
  show "x \<le> x" by (cases x) simp_all
  show "x \<le> y \<Longrightarrow> y \<le> z \<Longrightarrow> x \<le> z" by (cases x; cases y; cases z) auto
  show "x \<le> y \<Longrightarrow> y \<le> x \<Longrightarrow> x = y" by (cases x; cases y) auto
  show "x \<le> y \<or> y \<le> x" by (cases x; cases y) auto
qed

end

fun column_cell :: "collation \<Rightarrow> cancellation_sort \<Rightarrow> cancellation_row \<Rightarrow> cell option" where
  "column_cell ck ByPlayedOn r = map_option Number (cr_played_on r)"
| "column_cell ck ByReason r = Some (Text (ck (cr_reason_code r)))"
| "column_cell ck ByNoticeDays r = map_option Number (cr_notice r)"
| "column_cell ck ByPlayers r = Some (Number (cr_players r))"
| "column_cell ck ByBookingAmount r = map_option Number (cr_amount r)"
| "column_cell ck ByFeeState r = Some (Text (ck (cr_fee_state r)))"

text \<open>\<open>ORDER BY column IS NULL, column DESC|ASC, played_on DESC, id DESC\<close>; a missing day of play
  is the least value of its column, so it comes last in descending order.\<close>

definition order_key :: "collation \<Rightarrow> cancellation_query \<Rightarrow> cancellation_row \<Rightarrow>
    bool \<times> cell option \<times> date option \<times> nat" where
  "order_key ck q r = (column_cell ck (cq_sort q) r = None, column_cell ck (cq_sort q) r,
     cr_played_on r, cr_id r)"

fun key_before :: "bool \<Rightarrow> bool \<times> cell option \<times> date option \<times> nat
    \<Rightarrow> bool \<times> cell option \<times> date option \<times> nat \<Rightarrow> bool" where
  "key_before descending (n, c, p, i) (n', c', p', i') =
     (if n \<noteq> n' then n < n'
      else if c \<noteq> c' then (if descending then c' < c else c < c')
      else if p \<noteq> p' then p' < p
      else i' \<le> i)"

definition listed_before :: "collation \<Rightarrow> cancellation_query \<Rightarrow> cancellation_row \<Rightarrow> cancellation_row \<Rightarrow> bool" where
  "listed_before ck q r s = key_before (cq_descending q) (order_key ck q r) (order_key ck q s)"

definition one_of :: "collation \<Rightarrow> str list \<Rightarrow> str \<Rightarrow> bool" where
  "one_of ck tokens s \<longleftrightarrow> (\<exists>t \<in> set tokens. same_text ck s t)"

text \<open>\<open>push_filters\<close>: a comparison with a missing value does not hold.\<close>

definition keeps_row :: "collation \<Rightarrow> str \<Rightarrow> cancellation_query \<Rightarrow> cancellation_row \<Rightarrow> bool" where
  "keeps_row ck tenant q r \<longleftrightarrow>
     same_text ck (cr_tenant r) tenant
   \<and> (case cq_from q of None \<Rightarrow> True
      | Some f \<Rightarrow> (case cr_played_on r of None \<Rightarrow> False | Some d \<Rightarrow> f \<le> d))
   \<and> (case cq_to q of None \<Rightarrow> True
      | Some t \<Rightarrow> (case cr_played_on r of None \<Rightarrow> False | Some d \<Rightarrow> d \<le> t))
   \<and> (case cq_customer q of None \<Rightarrow> True
      | Some c \<Rightarrow> (case cr_customer r of None \<Rightarrow> False | Some s \<Rightarrow> same_text ck s c))
   \<and> (cq_reasons q = [] \<or> one_of ck (map reason_as_str (cq_reasons q)) (cr_reason_code r))
   \<and> (cq_fee_states q = [] \<or> one_of ck (map fee_state_as_str (cq_fee_states q)) (cr_fee_state r))
   \<and> (cq_fee_expected_only q
      \<longrightarrow> one_of ck (map reason_as_str (filter fee_expected all_reasons)) (cr_reason_code r))
   \<and> (cq_linked_only q \<longrightarrow> cr_customer r \<noteq> None)"

definition list_cancellations ::
  "collation \<Rightarrow> str \<Rightarrow> cancellation_query \<Rightarrow> cancellation_row list \<Rightarrow> cancellation list" where
  "list_cancellations ck tenant q rows =
     map row_to_cancellation (take (cq_limit q) (drop (cq_offset q)
       (sort_by (listed_before ck q) (filter (keeps_row ck tenant q) rows))))"

definition count_cancellations :: "collation \<Rightarrow> str \<Rightarrow> cancellation_query \<Rightarrow> cancellation_row list \<Rightarrow> nat" where
  "count_cancellations ck tenant q rows = length (filter (keeps_row ck tenant q) rows)"

section \<open>Settling\<close>

definition settle_row :: "instant \<Rightarrow> fee_decision \<Rightarrow> cancellation_row \<Rightarrow> cancellation_row" where
  "settle_row now d r =
     r\<lparr>cr_fee_state := fee_state_as_str (fd_state d), cr_fee_invoice := fd_invoice d,
       cr_fee_amount := fd_amount d, cr_fee_note := fd_note d,
       cr_fee_settled_at := (if fd_state d = Unsettled then None else Some now)\<rparr>"

definition settle_one ::
  "collation \<Rightarrow> str \<Rightarrow> instant \<times> fee_decision \<Rightarrow> cancellation_row list \<Rightarrow> cancellation_row list" where
  "settle_one ck tenant nd rows =
     map (\<lambda>r. if is_booking ck tenant (fd_reservation (snd nd)) r
              then settle_row (fst nd) (snd nd) r else r) rows"

text \<open>
  How the database answers one settling: whether the transaction opened, each statement ran and
  the commit was acknowledged, whether the commit took effect (an unacknowledged commit may
  have), and whether the rows could be read back.
\<close>

record settle_replies =
  sr_begin :: "unit result"
  sr_statement :: "nat \<Rightarrow> unit result"
  sr_commit :: "unit result"
  sr_took_effect :: bool
  sr_read_back :: "unit result"

fun first_refusal :: "(nat \<Rightarrow> unit result) \<Rightarrow> nat \<Rightarrow> nat \<Rightarrow> unit result" where
  "first_refusal reply k 0 = Inr ()"
| "first_refusal reply k (Suc n) =
     (case reply k of Inl e \<Rightarrow> Inl e | Inr _ \<Rightarrow> first_refusal reply (Suc k) n)"

definition settle_table ::
  "collation \<Rightarrow> settle_replies \<Rightarrow> (nat \<Rightarrow> instant) \<Rightarrow> str \<Rightarrow> fee_decision list \<Rightarrow> cancellation_row list
    \<Rightarrow> cancellation list result \<times> cancellation_row list" where
  "settle_table ck sr now tenant ds rows =
     (if ds = [] then (Inr [], rows)
      else let settled = fold (settle_one ck tenant) (zip (map now [0..<length ds]) ds) rows in
      case sr_begin sr of Inl e \<Rightarrow> (Inl e, rows) | Inr _ \<Rightarrow>
      (case first_refusal (sr_statement sr) 0 (length ds) of Inl e \<Rightarrow> (Inl e, rows) | Inr _ \<Rightarrow>
      (case sr_commit sr of
         Inl e \<Rightarrow> (Inl e, if sr_took_effect sr then settled else rows)
       | Inr _ \<Rightarrow>
      (case sr_read_back sr of Inl e \<Rightarrow> (Inl e, settled)
       | Inr _ \<Rightarrow> (Inr (map row_to_cancellation (filter (\<lambda>r. same_text ck (cr_tenant r) tenant
            \<and> one_of ck (map fd_reservation ds) (cr_reservation r)) settled)), settled)))))"

definition MAX_DECISIONS :: nat where "MAX_DECISIONS = 100"

fun first_invalid :: "fee_decision list \<Rightarrow> unit result" where
  "first_invalid [] = Inr ()"
| "first_invalid (d # ds) = (case decision_validate d of Inl e \<Rightarrow> Inl e | Inr _ \<Rightarrow> first_invalid ds)"

definition settle_cancellation_fees ::
  "collation \<Rightarrow> settle_replies \<Rightarrow> (nat \<Rightarrow> instant) \<Rightarrow> unit result \<Rightarrow> str \<Rightarrow> fee_decision list
    \<Rightarrow> cancellation_row list \<Rightarrow> cancellation list result \<times> cancellation_row list" where
  "settle_cancellation_fees ck sr now permitted tenant ds rows =
     (case permitted of Inl e \<Rightarrow> (Inl e, rows) | Inr _ \<Rightarrow>
      if ds = [] then (Inl (BadRequest ''there is nothing to settle in this request''), rows)
      else if MAX_DECISIONS < length ds
      then (Inl (BadRequest ''settle at most 100 cancellations at a time''), rows)
      else case first_invalid ds of Inl e \<Rightarrow> (Inl e, rows) | Inr _ \<Rightarrow>
        let seen = remdups_adj (sort (map fd_reservation ds)) in
        if length seen \<noteq> length ds
        then (Inl (BadRequest ''the same booking was settled twice in one request''), rows)
        else settle_table ck sr now tenant ds rows)"

section \<open>Listing\<close>

record 'person cancellation_entry =
  en_cancellation :: cancellation
  en_customer :: "'person option"

definition billable :: "'person cancellation_entry \<Rightarrow> bool" where
  "billable e \<longleftrightarrow> cn_customer (en_cancellation e) \<noteq> None"

definition list_reservation_cancellations ::
  "collation \<Rightarrow> unit result \<Rightarrow> str \<Rightarrow> cancellation_query \<Rightarrow> unit result \<Rightarrow> unit result
    \<Rightarrow> (customer_id \<Rightarrow> 'person result) \<Rightarrow> cancellation_row list
    \<Rightarrow> ('person cancellation_entry list \<times> nat) result" where
  "list_reservation_cancellations ck permitted tenant q listed counted people rows =
     (case permitted of Inl e \<Rightarrow> Inl e | Inr _ \<Rightarrow>
     (case query_validate q of Inl e \<Rightarrow> Inl e | Inr _ \<Rightarrow>
     (case listed of Inl e \<Rightarrow> Inl e | Inr _ \<Rightarrow>
     (case counted of Inl e \<Rightarrow> Inl e | Inr _ \<Rightarrow>
        Inr (map (\<lambda>c. \<lparr>en_cancellation = c,
               en_customer = (case cn_customer c of None \<Rightarrow> None
                 | Some cid \<Rightarrow> (case people cid of Inl _ \<Rightarrow> None | Inr p \<Rightarrow> Some p))\<rparr>)
             (list_cancellations ck tenant q rows), count_cancellations ck tenant q rows)))))"

section \<open>Cancelling a booking\<close>

text \<open>What the services a cancellation calls answer: the booking read before it goes, the
  cancellation upstream, the tenant's time zone, whether the row could be written, the
  assignments of the booking, and each write that releases a caddie.\<close>

record cancel_replies =
  rp_booking :: "reservation result"
  rp_cancel :: "unit result"
  rp_timezone :: "str result"
  rp_record :: "unit result"
  rp_assignments :: "assignment list result"
  rp_release :: "assignment_id \<Rightarrow> upsert_assignment \<Rightarrow> unit result"

record cancel_effects =
  ce_upstream :: "(reservation_id \<times> str) option"
  ce_recorded :: "new_cancellation option"
  ce_released :: "(assignment_id \<times> upsert_assignment) list"

definition no_effects :: cancel_effects where
  "no_effects = \<lparr>ce_upstream = None, ce_recorded = None, ce_released = []\<rparr>"

definition ok_of :: "'a result \<Rightarrow> 'a option" where
  "ok_of r = (case r of Inl _ \<Rightarrow> None | Inr x \<Rightarrow> Some x)"

definition cancellation_to_record ::
  "zones \<Rightarrow> instant \<Rightarrow> reservation_id \<Rightarrow> reservation option \<Rightarrow> str option \<Rightarrow> cancellation_details
    \<Rightarrow> str option \<Rightarrow> new_cancellation" where
  "cancellation_to_record zone now rid booking tz details who =
     (let played_on = (case (booking, tz) of
            (Some b, Some z) \<Rightarrow> ok_of (tenant_date_at zone (rv_starts_at b) z) | _ \<Rightarrow> None);
          cancelled_on = (case tz of Some z \<Rightarrow> ok_of (tenant_date_at zone now z) | None \<Rightarrow> None)
      in \<lparr>nw_reservation = rid, nw_number = map_option rv_number booking,
          nw_customer = Option.bind booking rv_customer,
          nw_customer_name = Option.bind booking rv_customer_name,
          nw_course = Option.bind booking rv_course, nw_tee_time = map_option rv_starts_at booking,
          nw_played_on = played_on,
          nw_players = (case booking of None \<Rightarrow> 0 | Some b \<Rightarrow> max (party_size b) 0),
          nw_amount = map_option (\<lambda>b. bl_price (rv_billing b)) booking,
          nw_currency = Option.bind booking (\<lambda>b. bl_currency (rv_billing b)),
          nw_reason = dt_reason details, nw_note = dt_note details,
          nw_notice = (case (played_on, cancelled_on) of
            (Some p, Some c) \<Rightarrow> Some (notice_days_between c p) | _ \<Rightarrow> None),
          nw_cancelled_by = who\<rparr>)"

definition release_caddies ::
  "assignment list result \<Rightarrow> (assignment_id \<Rightarrow> upsert_assignment \<Rightarrow> unit result) \<Rightarrow> reservation_id
    \<Rightarrow> (assignment_id \<times> upsert_assignment) list" where
  "release_caddies answered reply rid =
     (case answered of Inl _ \<Rightarrow> []
      | Inr as \<Rightarrow> filter (\<lambda>(aid, u). is_ok (reply aid u))
          (map (\<lambda>a. (as_id a, cancelled_from a))
            (filter holds_the_round (filter (\<lambda>a. covers_reservation a rid) as))))"

definition cancel_reservation ::
  "zones \<Rightarrow> unit result \<Rightarrow> instant \<Rightarrow> reservation_id \<Rightarrow> cancellation_details \<Rightarrow> str option
    \<Rightarrow> cancel_replies \<Rightarrow> unit result \<times> cancel_effects" where
  "cancel_reservation zone permitted now rid details who rp =
     (case permitted of Inl e \<Rightarrow> (Inl e, no_effects) | Inr _ \<Rightarrow>
      if trim rid = [] then (Inl (BadRequest ''reservation id is required''), no_effects)
      else case rp_cancel rp of Inl e \<Rightarrow> (Inl e, no_effects)
      | Inr _ \<Rightarrow>
          (Inr (), \<lparr>ce_upstream = Some (rid, upstream_reason details),
             ce_recorded = (if is_ok (rp_record rp)
               then Some (cancellation_to_record zone now rid (ok_of (rp_booking rp))
                 (ok_of (rp_timezone rp)) details who) else None),
             ce_released = release_caddies (rp_assignments rp) (rp_release rp) rid\<rparr>))"

end
