(* ===== verification/AssignmentBoard.thy ===== *)
theory AssignmentBoard
  imports AssignmentOps
begin

text \<open>
  The board of a day as the use cases leave it. The rows are kept upstream; what is asked of
  the upstream store is that a row it stores reads back with the caddie, the booking, the start
  and the status that were sent (\<open>keeps_writes\<close>). A write carries no length, so nothing is asked about
  the length a row is reported with: the lengths the guards were asked for are kept beside the board, in a
  log of the writes. \<open>board_step\<close> is one change the desk makes to the board, and \<open>board_apart\<close> the promise
  kept over any number of them.
\<close>

section \<open>The board\<close>

definition row_end :: "assignment \<Rightarrow> instant" where
  "row_end a = as_scheduled_at a + minutes (occupied_minutes a)"

definition compatible :: "assignment \<Rightarrow> assignment \<Rightarrow> bool" where
  "compatible a b \<longleftrightarrow>
     \<not> (as_reservation a \<noteq> None \<and> as_reservation a = as_reservation b)
   \<and> \<not> (as_caddie a = as_caddie b
        \<and> guard_overlaps (as_scheduled_at a) (row_end a) (as_scheduled_at b) (row_end b))"

lemma compatible_sym: "compatible a b \<Longrightarrow> compatible b a"
  by (auto simp: compatible_def guard_overlaps_def)

definition same_day :: "clock \<Rightarrow> assignment \<Rightarrow> assignment \<Rightarrow> bool" where
  "same_day clk a b \<longleftrightarrow>
     clk_local_date clk (as_scheduled_at a) = clk_local_date clk (as_scheduled_at b)"

definition board_ok :: "clock \<Rightarrow> assignment list \<Rightarrow> bool" where
  "board_ok clk board \<longleftrightarrow> distinct (map as_id board)
   \<and> (\<forall>a \<in> set board. \<forall>b \<in> set board.
        as_id a \<noteq> as_id b \<and> holds_the_round a \<and> holds_the_round b \<and> same_day clk a b
        \<longrightarrow> compatible a b)"

definition overwrite :: "assignment \<Rightarrow> assignment list \<Rightarrow> assignment list" where
  "overwrite row board = map (\<lambda>a. if as_id a = as_id row then row else a) board"

lemma overwrite_ids: "map as_id (overwrite row board) = map as_id board"
  by (simp add: overwrite_def)

subsection \<open>The lengths asked for\<close>

text \<open>Two rows over given lengths: not on one booking, and not on one caddie at overlapping times.\<close>

definition clear_of :: "int \<Rightarrow> assignment \<Rightarrow> int \<Rightarrow> assignment \<Rightarrow> bool" where
  "clear_of la a lb b \<longleftrightarrow>
     \<not> (as_reservation a \<noteq> None \<and> as_reservation a = as_reservation b)
   \<and> \<not> (as_caddie a = as_caddie b
        \<and> guard_overlaps (as_scheduled_at a) (as_scheduled_at a + minutes la)
            (as_scheduled_at b) (as_scheduled_at b + minutes lb))"

lemma clear_of_sym: "clear_of la a lb b \<longleftrightarrow> clear_of lb b la a"
  by (auto simp: clear_of_def guard_overlaps_def)

lemma compatible_clear: "compatible a b \<longleftrightarrow> clear_of (occupied_minutes a) a (occupied_minutes b) b"
  by (simp add: compatible_def clear_of_def row_end_def)

lemma clear_of_shorter:
  assumes "clear_of la a lb b" "la' \<le> la" "lb' \<le> lb"
  shows "clear_of la' a lb' b"
  using assms by (auto simp: clear_of_def guard_overlaps_def minutes_def)

text \<open>
  The writes, latest first: each the rows one use case wrote, by their id, with the length it was asked for.
\<close>

type_synonym asked_log = "(assignment_id \<times> int) list list"

definition told_length :: "(assignment_id \<times> int) list \<Rightarrow> assignment \<Rightarrow> int" where
  "told_length batch a = (case map_of batch (as_id a) of None \<Rightarrow> occupied_minutes a | Some l \<Rightarrow> l)"

definition wrote :: "(assignment_id \<times> int) list \<Rightarrow> assignment \<Rightarrow> bool" where
  "wrote batch a \<longleftrightarrow> as_id a \<in> fst ` set batch"

text \<open>
  Two rows are apart when the latest write of either found them so: what it wrote over the length asked for,
  what it met over the length it was reported with.
\<close>

fun apart_as_asked :: "asked_log \<Rightarrow> assignment \<Rightarrow> assignment \<Rightarrow> bool" where
  "apart_as_asked [] a b = compatible a b"
| "apart_as_asked (batch # earlier) a b =
     (if wrote batch a \<or> wrote batch b then clear_of (told_length batch a) a (told_length batch b) b
      else apart_as_asked earlier a b)"

definition asked_length :: "asked_log \<Rightarrow> assignment_id \<Rightarrow> int option" where
  "asked_length writes aid = map_of (concat writes) aid"

lemma apart_sym: "apart_as_asked writes a b \<Longrightarrow> apart_as_asked writes b a"
proof (induction writes)
  case (Cons batch earlier)
  then show ?case using clear_of_sym [of "told_length batch a" a "told_length batch b" b] by (auto split: if_splits)
qed (simp add: compatible_sym)

lemma apart_compatible:
  assumes "apart_as_asked writes a b"
    and "\<And>l. asked_length writes (as_id a) = Some l \<Longrightarrow> occupied_minutes a \<le> l"
    and "\<And>l. asked_length writes (as_id b) = Some l \<Longrightarrow> occupied_minutes b \<le> l"
  shows "compatible a b"
  using assms
proof (induction writes)
  case (Cons batch earlier)
  have told: "occupied_minutes x \<le> told_length batch x"
    if "\<And>l. asked_length (batch # earlier) (as_id x) = Some l \<Longrightarrow> occupied_minutes x \<le> l" for x
    using that by (cases "map_of batch (as_id x)") (auto simp: told_length_def asked_length_def map_add_def)
  show ?case
  proof (cases "wrote batch a \<or> wrote batch b")
    case True
    then have "clear_of (told_length batch a) a (told_length batch b) b" using Cons.prems(1) by simp
    then show ?thesis
      unfolding compatible_clear by (rule clear_of_shorter [OF _ told [OF Cons.prems(2)] told [OF Cons.prems(3)]])
  next
    case False
    then have unwritten: "map_of batch (as_id a) = None" "map_of batch (as_id b) = None"
      by (simp_all add: wrote_def map_of_eq_None_iff)
    show ?thesis
      by (rule Cons.IH)
        (use Cons.prems False unwritten in \<open>simp_all add: asked_length_def map_add_def\<close>)
  qed
qed simp

definition board_apart :: "clock \<Rightarrow> asked_log \<Rightarrow> assignment list \<Rightarrow> bool" where
  "board_apart clk writes board \<longleftrightarrow> distinct (map as_id board)
   \<and> (\<forall>a \<in> set board. \<forall>b \<in> set board.
        as_id a \<noteq> as_id b \<and> holds_the_round a \<and> holds_the_round b \<and> same_day clk a b
        \<longrightarrow> apart_as_asked writes a b)"

lemma board_apart_start: "board_apart clk [] board \<longleftrightarrow> board_ok clk board"
  by (simp add: board_apart_def board_ok_def)

text \<open>Rows of one write joining the board.\<close>

lemma board_apart_append:
  assumes "board_apart clk writes board" "distinct (map as_id (board @ rows))" "fst ` set batch = as_id ` set rows"
    and "\<And>a b. a \<in> set rows \<Longrightarrow> b \<in> set rows \<Longrightarrow> as_id a \<noteq> as_id b
      \<Longrightarrow> clear_of (told_length batch a) a (told_length batch b) b"
    and "\<And>a b. a \<in> set rows \<Longrightarrow> b \<in> set board \<Longrightarrow> holds_the_round a \<Longrightarrow> holds_the_round b \<Longrightarrow> same_day clk a b
      \<Longrightarrow> clear_of (told_length batch a) a (occupied_minutes b) b"
  shows "board_apart clk (batch # writes) (board @ rows)"
  unfolding board_apart_def
proof (intro conjI ballI impI)
  have old: "\<not> wrote batch b \<and> told_length batch b = occupied_minutes b" if "b \<in> set board" for b
  proof -
    have "as_id b \<notin> fst ` set batch" using that assms(2) unfolding assms(3) by auto
    then show ?thesis by (simp add: wrote_def told_length_def map_of_eq_None_iff [THEN iffD2])
  qed
  have new: "wrote batch a" if "a \<in> set rows" for a using that by (simp add: wrote_def assms(3))
  fix a b
  assume ab: "a \<in> set (board @ rows)" "b \<in> set (board @ rows)"
    and live: "as_id a \<noteq> as_id b \<and> holds_the_round a \<and> holds_the_round b \<and> same_day clk a b"
  have flipped: "same_day clk b a" using live by (simp add: same_day_def)
  consider "a \<in> set board" "b \<in> set board" | "a \<in> set rows" "b \<in> set rows"
    | "a \<in> set rows" "b \<in> set board" | "b \<in> set rows" "a \<in> set board" using ab by auto
  then show "apart_as_asked (batch # writes) a b"
  proof cases
    case 1
    then show ?thesis using live assms(1) old unfolding board_apart_def by simp
  next
    case 2
    then show ?thesis using live assms(4) new by simp
  next
    case 3
    then show ?thesis using live assms(5) [OF 3] new old by simp
  next
    case 4
    then show ?thesis using live assms(5) [OF 4] flipped new old
      by (simp add: clear_of_sym [of "told_length batch b" b])
  qed
qed (rule assms(2))

text \<open>One row rewritten, or called off.\<close>

lemma board_apart_overwrite:
  assumes "board_apart clk writes board"
    and "\<And>a. a \<in> set board \<Longrightarrow> as_id a \<noteq> as_id row \<Longrightarrow> holds_the_round row \<Longrightarrow> holds_the_round a
      \<Longrightarrow> same_day clk row a \<Longrightarrow> clear_of l row (occupied_minutes a) a"
  shows "board_apart clk ([(as_id row, l)] # writes) (overwrite row board)"
  unfolding board_apart_def
proof (intro conjI ballI impI)
  show "distinct (map as_id (overwrite row board))"
    using assms(1) by (simp only: overwrite_ids board_apart_def)
  let ?batch = "[(as_id row, l)]"
  have told: "wrote ?batch x \<longleftrightarrow> as_id x = as_id row"
      "told_length ?batch x = (if as_id x = as_id row then l else occupied_minutes x)" for x
    by (simp_all add: wrote_def told_length_def)
  fix a b
  assume a: "a \<in> set (overwrite row board)" and b: "b \<in> set (overwrite row board)"
    and live: "as_id a \<noteq> as_id b \<and> holds_the_round a \<and> holds_the_round b \<and> same_day clk a b"
  have flipped: "same_day clk b a" using live by (simp add: same_day_def)
  consider "a = row" "b \<in> set board" "as_id b \<noteq> as_id row" | "b = row" "a \<in> set board" "as_id a \<noteq> as_id row"
    | "a \<in> set board" "b \<in> set board" "as_id a \<noteq> as_id row" "as_id b \<noteq> as_id row"
    using a b live by (auto simp: overwrite_def split: if_splits)
  then show "apart_as_asked (?batch # writes) a b"
  proof cases
    case 1
    then show ?thesis using live assms(2) [of b] by (simp add: told)
  next
    case 2
    then show ?thesis using live flipped assms(2) [of a] by (simp add: told clear_of_sym [of l])
  next
    case 3
    then show ?thesis using live assms(1) unfolding board_apart_def by (simp add: told)
  qed
qed

lemma board_apart_called_off:
  assumes "board_apart clk writes board" "\<not> holds_the_round row"
  shows "board_apart clk writes (overwrite row board)"
  unfolding board_apart_def
proof (intro conjI ballI impI)
  show "distinct (map as_id (overwrite row board))"
    using assms(1) by (simp only: overwrite_ids board_apart_def)
  fix a b
  assume "a \<in> set (overwrite row board)" "b \<in> set (overwrite row board)"
    and live: "as_id a \<noteq> as_id b \<and> holds_the_round a \<and> holds_the_round b \<and> same_day clk a b"
  then have "a \<in> set board" "b \<in> set board" using assms(2) by (auto simp: overwrite_def split: if_splits)
  then show "apart_as_asked writes a b" using live assms(1) unfolding board_apart_def by blast
qed

section \<open>What is asked of the clock and the store\<close>

definition day_is_local :: "calendar \<Rightarrow> clock \<Rightarrow> bool" where
  "day_is_local cal clk \<longleftrightarrow>
     (\<forall>d start next_day finish. clk_midnight clk d = Some start \<and> cal_succ cal d = Some next_day
        \<and> clk_midnight clk next_day = Some finish
        \<longrightarrow> (\<forall>t. start \<le> t \<and> t < finish \<longleftrightarrow> clk_local_date clk t = d))"

type_synonym row_store = "assignment_id \<Rightarrow> upsert_assignment \<Rightarrow> assignment"

definition keeps_writes :: "row_store \<Rightarrow> bool" where
  "keeps_writes store \<longleftrightarrow>
     (\<forall>aid u. as_id (store aid u) = aid \<and> as_caddie (store aid u) = us_caddie u
        \<and> as_reservation (store aid u) = us_reservation u
        \<and> as_scheduled_at (store aid u) = us_scheduled_at u
        \<and> (\<forall>s. us_status u = Some s \<longrightarrow> as_status (store aid u) = status_parse s))"

lemma keeps_writesD:
  assumes "keeps_writes store"
  shows "as_id (store aid u) = aid" "as_caddie (store aid u) = us_caddie u"
    "as_reservation (store aid u) = us_reservation u" "as_scheduled_at (store aid u) = us_scheduled_at u"
    "us_status u = Some s \<Longrightarrow> as_status (store aid u) = status_parse s"
  using assms by (auto simp: keeps_writes_def)

text \<open>What the reads of a day tell of the board: its live rounds, whatever else they answer.\<close>

definition answers :: "calendar \<Rightarrow> zones \<Rightarrow> str \<Rightarrow> assignment list \<Rightarrow> date \<Rightarrow> assignment list \<Rightarrow> bool" where
  "answers cal zone tz reply d board \<longleftrightarrow>
     map_sum id set (live_rounds_on cal zone reply d tz) = map_sum id set (live_rounds_on cal zone board d tz)"

section \<open>One change to the board\<close>

text \<open>
  Each use case reads the board as it then is (\<open>answers\<close>), checks, and writes before the next one reads.
\<close>

inductive board_step ::
  "calendar \<Rightarrow> zones \<Rightarrow> str \<Rightarrow> row_store \<Rightarrow> asked_log \<times> assignment list \<Rightarrow> asked_log \<times> assignment list \<Rightarrow> bool"
  for cal zone tz store where
  named: "\<lbrakk>create_caddie_assignment cal zone permitted i tz (Inr f) = Inr u;
      tenant_date_at zone (nc_scheduled_at i) tz = Inr d;
      answers cal zone tz (df_assignments f) d board; aid \<notin> as_id ` set board\<rbrakk>
    \<Longrightarrow> board_step cal zone tz store (writes, board)
         ([(aid, round_length (named_round i d))] # writes, board @ [store aid u])"
| moved: "\<lbrakk>reassign_caddie_assignment cal zone permitted i tz (Inr f) = Inr u;
      answers cal zone tz (df_assignments f) (mv_date i) board; current \<in> set board;
      as_id current = mv_assignment i; us_reservation u = Some rid\<rbrakk>
    \<Longrightarrow> board_step cal zone tz store (writes, board)
         ([(mv_assignment i, round_length (moved_round i current rid))] # writes,
          overwrite (store (mv_assignment i) u) board)"
| called_off: "a \<in> set board
    \<Longrightarrow> board_step cal zone tz store (writes, board) (writes, overwrite (store (as_id a) (cancelled_from a)) board)"

inductive_cases board_stepE: "board_step cal zone tz store (writes, board) state'"

section \<open>The guards\<close>

lemma live_rounds_set:
  assumes "zone tz = Some clk" "day_is_local cal clk" "live_rounds_on cal zone as d tz = Inr live"
  shows "set live = {a \<in> set as. holds_the_round a \<and> clk_local_date clk (as_scheduled_at a) = d}"
proof -
  obtain start next_day finish where m: "clk_midnight clk d = Some start" "cal_succ cal d = Some next_day"
      "clk_midnight clk next_day = Some finish"
    and live: "live = filter (\<lambda>a. start \<le> as_scheduled_at a \<and> as_scheduled_at a < finish)
        (filter holds_the_round as)"
    using assms(1,3)
    by (auto simp: live_rounds_on_def tenant_day_bounds_def parse_tenant_timezone_def local_midnight_def
        split: sum.splits option.splits)
  from assms(2) m have "\<And>t. start \<le> t \<and> t < finish \<longleftrightarrow> clk_local_date clk t = d"
    unfolding day_is_local_def by blast
  with live show ?thesis by auto
qed

lemma check_passed:
  assumes "check_round_can_be_walked roster live availabilities on_duty r clk = Inr c"
    and "a \<in> set live" "Some (as_id a) \<noteq> rd_moving r"
  shows "as_reservation a \<noteq> Some (rd_reservation r) \<and> \<not> is_out r a"
  using assms
  by (auto simp: check_round_can_be_walked_def other_rounds_def covers_reservation_def
      split: option.splits if_splits)

lemma find_in: "List.find P xs = Some x \<Longrightarrow> x \<in> set xs \<and> P x"
  by (induction xs) (auto split: if_splits)

lemma create_passed:
  assumes "create_caddie_assignment cal zone permitted i tz (Inr f) = Inr u" "zone tz = Some clk"
  obtains live c where "live_rounds_on cal zone (df_assignments f) (clk_local_date clk (nc_scheduled_at i)) tz = Inr live"
    and "check_round_can_be_walked (df_roster f) live (df_availabilities f) (df_duties f)
      (named_round i (clk_local_date clk (nc_scheduled_at i))) clk = Inr c"
    and "u = named_write i (df_fees f) c"
  using assms
  by (auto simp: create_caddie_assignment_def tenant_date_at_def parse_tenant_timezone_def split: sum.splits)

lemma reassign_passed:
  assumes "reassign_caddie_assignment cal zone permitted i tz (Inr f) = Inr u" "zone tz = Some clk"
  shows "\<exists>live current rid c.
    live_rounds_on cal zone (df_assignments f) (mv_date i) tz = Inr live
    \<and> current \<in> set live \<and> as_id current = mv_assignment i
    \<and> clk_local_date clk (rd_scheduled_at (moved_round i current rid)) = mv_date i
    \<and> check_round_can_be_walked (df_roster f) live (df_availabilities f) (df_duties f)
       (moved_round i current rid) clk = Inr c
    \<and> u = moved_write (moved_round i current rid) current (df_fees f) c"
proof -
  obtain live where live: "live_rounds_on cal zone (df_assignments f) (mv_date i) tz = Inr live"
    using assms by (auto simp: reassign_caddie_assignment_def parse_tenant_timezone_def split: sum.splits)
  obtain current where current: "List.find (\<lambda>a. as_id a = mv_assignment i) live = Some current"
    using assms live
    by (auto simp: reassign_caddie_assignment_def parse_tenant_timezone_def split: sum.splits option.splits)
  obtain rid c where "clk_local_date clk (rd_scheduled_at (moved_round i current rid)) = mv_date i"
      "check_round_can_be_walked (df_roster f) live (df_availabilities f) (df_duties f)
         (moved_round i current rid) clk = Inr c"
      "u = moved_write (moved_round i current rid) current (df_fees f) c"
    using assms live current
    by (auto simp: reassign_caddie_assignment_def parse_tenant_timezone_def tenant_date_at_def Let_def
        split: sum.splits option.splits if_splits)
  then show ?thesis using live find_in [OF current] by blast
qed

section \<open>The board is never double-booked\<close>

lemma answered_live:
  assumes "zone tz = Some clk" "day_is_local cal clk" "answers cal zone tz reply d board"
    and "live_rounds_on cal zone reply d tz = Inr live"
    and "a \<in> set board" "holds_the_round a" "clk_local_date clk (as_scheduled_at a) = d"
  shows "a \<in> set live"
proof -
  obtain here where here: "live_rounds_on cal zone board d tz = Inr here" "set here = set live"
    using assms(3,4) by (cases "live_rounds_on cal zone board d tz") (auto simp: answers_def)
  then show ?thesis using live_rounds_set [OF assms(1,2) here(1)] assms(5-7) by auto
qed

lemma placed_clear:
  assumes "as_reservation a \<noteq> Some rid \<and> \<not> is_out r a"
    and "as_reservation row = Some rid" "as_caddie row = rd_caddie r" "as_scheduled_at row = rd_scheduled_at r"
  shows "clear_of (round_length r) row (occupied_minutes a) a"
  using assms by (auto simp: clear_of_def is_out_def)

lemma named_fits:
  assumes "create_caddie_assignment cal zone permitted i tz (Inr f) = Inr u"
    and "tenant_date_at zone (nc_scheduled_at i) tz = Inr d"
    and "answers cal zone tz (df_assignments f) d board"
    and clock: "zone tz = Some clk" "day_is_local cal clk" and store: "keeps_writes store"
    and a: "a \<in> set board" "as_id a \<noteq> aid" "holds_the_round a" "same_day clk (store aid u) a"
  shows "clear_of (round_length (named_round i d)) (store aid u) (occupied_minutes a) a"
proof -
  have d: "d = clk_local_date clk (nc_scheduled_at i)"
    using assms(2) clock(1) by (simp add: tenant_date_at_def parse_tenant_timezone_def)
  obtain live c where live: "live_rounds_on cal zone (df_assignments f) d tz = Inr live"
    and checked: "check_round_can_be_walked (df_roster f) live (df_availabilities f) (df_duties f)
      (named_round i d) clk = Inr c" and u: "u = named_write i (df_fees f) c"
    using create_passed [OF assms(1) clock(1)] unfolding d by blast
  have "clk_local_date clk (as_scheduled_at a) = d"
    using a(4) by (simp add: same_day_def keeps_writesD [OF store] u named_write_def d)
  then have "as_reservation a \<noteq> Some (nc_reservation i) \<and> \<not> is_out (named_round i d) a"
    using check_passed [OF checked answered_live [OF clock assms(3) live a(1,3)]] by (simp add: named_round_def)
  then show ?thesis
    by (rule placed_clear) (simp_all add: keeps_writesD [OF store], simp_all add: u named_write_def named_round_def)
qed

lemma moved_fits:
  assumes "reassign_caddie_assignment cal zone permitted i tz (Inr f) = Inr u"
    and "answers cal zone tz (df_assignments f) (mv_date i) board" "distinct (map as_id board)"
    and "current \<in> set board" "as_id current = mv_assignment i" "us_reservation u = Some rid"
    and clock: "zone tz = Some clk" "day_is_local cal clk" and store: "keeps_writes store"
    and a: "a \<in> set board" "as_id a \<noteq> mv_assignment i" "holds_the_round a"
      "same_day clk (store (mv_assignment i) u) a"
  shows "clear_of (round_length (moved_round i current rid)) (store (mv_assignment i) u) (occupied_minutes a) a"
proof -
  obtain live now rid' c where live: "live_rounds_on cal zone (df_assignments f) (mv_date i) tz = Inr live"
    and now: "now \<in> set live" "as_id now = mv_assignment i"
    and day: "clk_local_date clk (rd_scheduled_at (moved_round i now rid')) = mv_date i"
    and checked: "check_round_can_be_walked (df_roster f) live (df_availabilities f) (df_duties f)
       (moved_round i now rid') clk = Inr c"
    and u: "u = moved_write (moved_round i now rid') now (df_fees f) c"
    using reassign_passed [OF assms(1) clock(1)] by blast
  have rid: "rid' = rid" using assms(6) u by (simp add: moved_write_def moved_round_def)
  obtain here where here: "live_rounds_on cal zone board (mv_date i) tz = Inr here" "set here = set live"
    using assms(2) live by (cases "live_rounds_on cal zone board (mv_date i) tz") (auto simp: answers_def)
  then have "now \<in> set board" using now(1) live_rounds_set [OF clock here(1)] by auto
  then have r: "now = current"
    using now(2) assms(3-5) by (auto simp: distinct_map inj_on_def)
  have "clk_local_date clk (as_scheduled_at a) = mv_date i"
    using day a(4) by (simp add: same_day_def keeps_writesD [OF store] u moved_write_def r rid)
  then have "as_reservation a \<noteq> Some rid \<and> \<not> is_out (moved_round i current rid) a"
    using check_passed [OF checked answered_live [OF clock assms(2) live a(1,3)]] a(2)
    by (simp add: moved_round_def r rid keeps_writesD [OF store])
  then show ?thesis
    by (rule placed_clear) (simp_all add: keeps_writesD [OF store], simp_all add: u moved_write_def moved_round_def r rid)
qed

lemma cancelled_gone:
  assumes "keeps_writes store"
  shows "\<not> holds_the_round (store aid (cancelled_from a))"
proof -
  have "as_status (store aid (cancelled_from a)) = status_parse ''cancelled''"
    by (rule keeps_writesD(5) [OF assms]) (simp add: cancelled_from_def)
  moreover have "status_parse ''cancelled'' = Cancelled" by code_simp
  ultimately show ?thesis by (simp add: holds_the_round_def)
qed

lemma board_step_apart:
  assumes "board_step cal zone tz store (writes, board) (writes', board')" "board_apart clk writes board"
    and "zone tz = Some clk" "day_is_local cal clk" "keeps_writes store"
  shows "board_apart clk writes' board'"
  using assms(1)
proof cases
  case (named permitted i f u d aid)
  let ?row = "store aid u" and ?batch = "[(aid, round_length (named_round i d))]"
  have told: "told_length ?batch ?row = round_length (named_round i d)"
    by (simp add: told_length_def keeps_writesD [OF assms(5)])
  have "board_apart clk (?batch # writes) (board @ [?row])"
  proof (rule board_apart_append [OF assms(2)])
    show "distinct (map as_id (board @ [?row]))"
      using assms(2) named(6) by (simp add: board_apart_def keeps_writesD [OF assms(5)])
    fix a b
    assume ab: "a \<in> set [?row]" "b \<in> set board" "holds_the_round b" "same_day clk a b"
    then have "as_id b \<noteq> aid" using named(6) by auto
    then show "clear_of (told_length ?batch a) a (occupied_minutes b) b"
      using ab named_fits [OF named(3-5) assms(3-5) ab(2) _ ab(3)] by (simp add: told)
  qed (simp_all add: keeps_writesD [OF assms(5)])
  then show ?thesis using named(1,2) by simp
next
  case (moved permitted i f u current rid)
  have ids: "distinct (map as_id board)" using assms(2) by (simp add: board_apart_def)
  have "board_apart clk ([(as_id (store (mv_assignment i) u), round_length (moved_round i current rid))] # writes)
      (overwrite (store (mv_assignment i) u) board)"
  proof (rule board_apart_overwrite [OF assms(2)])
    fix a
    assume a: "a \<in> set board" "as_id a \<noteq> as_id (store (mv_assignment i) u)" "holds_the_round a"
      "same_day clk (store (mv_assignment i) u) a"
    then show "clear_of (round_length (moved_round i current rid)) (store (mv_assignment i) u) (occupied_minutes a) a"
      using moved_fits [OF moved(3,4) ids moved(5-7) assms(3-5)] by (simp add: keeps_writesD [OF assms(5)])
  qed
  then show ?thesis using moved(1,2) by (simp add: keeps_writesD [OF assms(5)])
next
  case (called_off a)
  then show ?thesis using board_apart_called_off [OF assms(2) cancelled_gone [OF assms(5)]] by simp
qed

text \<open>A morning with two caddies: one is out, the other is named for the next group.\<close>

definition sample_store :: row_store where
  "sample_store aid u =
     \<lparr>as_id = aid, as_caddie = us_caddie u, as_reservation = us_reservation u,
      as_round_reference = us_round_reference u, as_scheduled_at = us_scheduled_at u,
      as_duration = None, as_status = status_parse (unwrap_or (us_status u) ''assigned''),
      as_status_label = unwrap_or (us_status u) ''assigned'', as_role = PrimaryRole,
      as_role_label = ''primary'', as_fee = unwrap_or (us_fee u) 0, as_currency = ''JPY'',
      as_notes = us_notes u\<rparr>"

definition sample_row :: "str \<Rightarrow> str \<Rightarrow> str \<Rightarrow> int \<Rightarrow> assignment" where
  "sample_row aid cid rid m = sample_store aid
     \<lparr>us_caddie = cid, us_reservation = Some rid, us_round_reference = None,
      us_scheduled_at = minutes m, us_status = Some ''assigned'', us_role = None, us_fee = None,
      us_currency = None, us_score = None, us_notes = None\<rparr>"

definition sample_naming :: name_caddie_for_round where
  "sample_naming = \<lparr>nc_caddie = ''k2'', nc_reservation = ''r2'', nc_scheduled_at = minutes 490,
     nc_duration = None, nc_role = None, nc_notes = None\<rparr>"

definition sample_facts :: day_facts where
  "sample_facts = \<lparr>df_roster = [sample_stored\<lparr>cd_id := ''k2''\<rparr>],
     df_assignments = [sample_row ''a1'' ''k1'' ''r1'' 480], df_availabilities = [],
     df_fees = default_rank_fees, df_duties = []\<rparr>"

text \<open>
  The edit of a row sends what it is given: it can put a caddie on two rounds at once, which
  naming and moving refuse.
\<close>

lemma edit_can_double_book:
  "let board = [sample_row ''a1'' ''k1'' ''r1'' 480, sample_row ''a2'' ''k2'' ''r2'' 490];
       u = (cancelled_from (board ! 1))\<lparr>us_caddie := ''k1'', us_status := Some ''assigned''\<rparr>
   in board_ok utc_clock board \<and> update_caddie_assignment (Inr ()) u = Inr u
    \<and> \<not> board_ok utc_clock (overwrite (sample_store ''a2'' u) board)"
  by code_simp

text \<open>
  The use cases of \<open>board_step\<close> run one at a time. Nothing in the code holds the day between the
  read and the write: two requests that read the same board can both be let through.
\<close>

lemma concurrent_naming_double_books:
  "let board = [sample_row ''a1'' ''k1'' ''r1'' 480];
       other = sample_naming\<lparr>nc_reservation := ''r3'', nc_scheduled_at := minutes 500\<rparr>;
       named = (\<lambda>i. create_caddie_assignment utc_calendar (\<lambda>_. Some utc_clock) (Inr ()) i ''UTC'' (Inr sample_facts))
   in case (named sample_naming, named other) of
        (Inr u, Inr v) \<Rightarrow> \<not> board_ok utc_clock (board @ [sample_store ''a2'' u, sample_store ''a3'' v])
      | _ \<Rightarrow> False"
  by code_simp

section \<open>Releasing a day\<close>

definition apply_writes ::
  "row_store \<Rightarrow> (assignment_id \<times> upsert_assignment) list \<Rightarrow> assignment list \<Rightarrow> assignment list" where
  "apply_writes store writes board =
     map (\<lambda>a. case map_of writes (as_id a) of None \<Rightarrow> a | Some u \<Rightarrow> store (as_id a) u) board"

definition went_through ::
  "instant \<times> instant \<Rightarrow> (assignment_id \<Rightarrow> upsert_assignment \<Rightarrow> unit result) \<Rightarrow> assignment \<Rightarrow> bool" where
  "went_through bounds reply a \<longleftrightarrow> releasable bounds a \<and> is_ok (reply (as_id a) (cancelled_from a))"

definition fell_through ::
  "instant \<times> instant \<Rightarrow> (assignment_id \<Rightarrow> upsert_assignment \<Rightarrow> unit result) \<Rightarrow> assignment \<Rightarrow> bool" where
  "fell_through bounds reply a \<longleftrightarrow> releasable bounds a \<and> \<not> is_ok (reply (as_id a) (cancelled_from a))"

lemma release_fold:
  "fold (release_one bounds reply) as acc =
     (\<lparr>rl_released = rl_released (fst acc) @ map as_id (filter (went_through bounds reply) as),
       rl_failed = rl_failed (fst acc) @ map (\<lambda>a. (as_id a, ''Failed to release assignment; retry the request''))
         (filter (fell_through bounds reply) as)\<rparr>,
      snd acc @ map (\<lambda>a. (as_id a, cancelled_from a)) (filter (went_through bounds reply) as))"
proof (induction as arbitrary: acc)
  case Nil
  then show ?case by (cases acc) simp
next
  case (Cons a as)
  then show ?case
    by (cases "reply (as_id a) (cancelled_from a)")
      (auto simp: release_one_def went_through_def fell_through_def)
qed

lemma release_assignments_eq:
  "release_assignments as bounds reply =
     (\<lparr>rl_released = map as_id (filter (went_through bounds reply) as),
       rl_failed = map (\<lambda>a. (as_id a, ''Failed to release assignment; retry the request''))
         (filter (fell_through bounds reply) as)\<rparr>,
      map (\<lambda>a. (as_id a, cancelled_from a)) (filter (went_through bounds reply) as))"
  by (simp add: release_assignments_def release_fold)

lemma map_of_writes:
  assumes "distinct (map as_id as)" "a \<in> set as"
  shows "map_of (map (\<lambda>a. (as_id a, cancelled_from a)) (filter P as)) (as_id a)
    = (if P a then Some (cancelled_from a) else None)"
  using assms by (induction as) (auto simp: map_of_eq_None_iff image_iff)

lemma released_row:
  assumes "keeps_writes store"
  shows "as_status (store aid (cancelled_from a)) = Cancelled"
    "as_id (store aid (cancelled_from a)) = aid"
proof -
  have "as_status (store aid (cancelled_from a)) = status_parse ''cancelled''"
    by (rule keeps_writesD(5) [OF assms]) (simp add: cancelled_from_def)
  moreover have "status_parse ''cancelled'' = Cancelled" by code_simp
  ultimately show "as_status (store aid (cancelled_from a)) = Cancelled" by simp
qed (rule keeps_writesD(1) [OF assms])

lemma apply_released:
  assumes "distinct (map as_id as)"
  shows "apply_writes store (snd (release_assignments as bounds reply)) as =
    map (\<lambda>a. if went_through bounds reply a then store (as_id a) (cancelled_from a) else a) as"
  using assms by (simp add: apply_writes_def release_assignments_eq map_of_writes)

lemma released_not_releasable:
  assumes "keeps_writes store"
  shows "\<not> releasable bounds (store aid (cancelled_from a))"
  using released_row [OF assms] by (simp add: releasable_def)

lemma filter_after_release:
  assumes "keeps_writes store"
  shows "filter (releasable bounds)
      (map (\<lambda>a. if went_through bounds reply a then store (as_id a) (cancelled_from a) else a) as)
    = filter (fell_through bounds reply) as"
  by (induction as) (auto simp: released_not_releasable [OF assms] went_through_def fell_through_def)

lemma ids_after_release:
  assumes "keeps_writes store"
  shows "map as_id (map (\<lambda>a. if P a then store (as_id a) (cancelled_from a) else a) as) = map as_id as"
  by (induction as) (auto simp: released_row [OF assms])

text \<open>
  C29. A release of a day names each booked round of that day that is still only assigned, once,
  either among the released or among the failed; every other row (one under way, done,
  cancelled, of another day or without a booking) stays as it is. Asked again once the writes
  have landed, it takes exactly the rounds that failed, in their order, and then nothing is
  left to release.
\<close>

theorem release_is_retry_safe:
  assumes "distinct (map as_id board)" "keeps_writes store"
    and "release_assignments board bounds reply = (result, writes)"
    and "board1 = apply_writes store writes board"
    and "release_assignments board1 bounds (\<lambda>_ _. Inr ()) = (again, writes1)"
  shows "mset (rl_released result @ map fst (rl_failed result))
      = mset (map as_id (filter (releasable bounds) board))
    \<and> (\<forall>a \<in> set board. \<not> releasable bounds a \<longrightarrow> a \<in> set board1)
    \<and> rl_released again = map fst (rl_failed result) \<and> rl_failed again = []
    \<and> filter (releasable bounds) (apply_writes store writes1 board1) = []"
proof -
  let ?ok = "\<lambda>_ _. Inr () :: unit result"
  have board1: "board1 = map (\<lambda>a. if went_through bounds reply a then store (as_id a) (cancelled_from a) else a) board"
    using apply_released [OF assms(1)] assms(3,4) by (metis snd_conv)
  have distinct1: "distinct (map as_id board1)"
    unfolding board1 ids_after_release [OF assms(2)] by (rule assms(1))
  have left: "filter (releasable bounds) board1 = filter (fell_through bounds reply) board"
    unfolding board1 by (rule filter_after_release [OF assms(2)])
  have every: "went_through bounds ?ok = releasable bounds" "fell_through bounds ?ok = (\<lambda>_. False)"
    by (auto simp: went_through_def fell_through_def)
  have result: "rl_released result = map as_id (filter (went_through bounds reply) board)"
      "map fst (rl_failed result) = map as_id (filter (fell_through bounds reply) board)"
    using assms(3) by (auto simp: release_assignments_eq comp_def)
  have again: "rl_released again = map as_id (filter (releasable bounds) board1)" "rl_failed again = []"
    using assms(5) by (auto simp: release_assignments_eq every)
  have "mset (filter (releasable bounds) board)
      = mset (filter (went_through bounds reply) board) + mset (filter (fell_through bounds reply) board)"
    by (induction board) (auto simp: went_through_def fell_through_def)
  then have "mset (rl_released result @ map fst (rl_failed result))
      = mset (map as_id (filter (releasable bounds) board))"
    by (simp add: result del: mset_filter)
  moreover have "a \<in> set board1" if "a \<in> set board" "\<not> releasable bounds a" for a
    using that unfolding board1 by (auto simp: went_through_def image_iff)
  moreover have "filter (releasable bounds) (apply_writes store writes1 board1) = []"
    using apply_released [OF distinct1, of store bounds ?ok] filter_after_release [OF assms(2), of bounds ?ok board1]
    by (simp add: assms(5) every)
  ultimately show ?thesis using again result left by simp
qed

theorem release_is_retry_safe_witness:
  "let board = [sample_row ''a1'' ''k1'' ''r1'' 480, sample_row ''a2'' ''k2'' ''r2'' 490,
        sample_row ''a3'' ''k3'' ''r3'' 1500];
       first = release_assignments board (0, minutes 1440)
         (\<lambda>aid _. if aid = ''a2'' then Inl (Provider ''timeout'') else Inr ());
       board1 = apply_writes sample_store (snd first) board;
       again = release_assignments board1 (0, minutes 1440) (\<lambda>_ _. Inr ())
   in rl_released (fst again) = [''a2''] \<and> rl_failed (fst again) = []
    \<and> filter (releasable (0, minutes 1440)) (apply_writes sample_store (snd again) board1) = []"
  unfolding Let_def
proof -
  let ?board = "[sample_row ''a1'' ''k1'' ''r1'' 480, sample_row ''a2'' ''k2'' ''r2'' 490,
        sample_row ''a3'' ''k3'' ''r3'' 1500]"
  let ?first = "release_assignments ?board (0, minutes 1440)
         (\<lambda>aid _. if aid = ''a2'' then Inl (Provider ''timeout'') else Inr ())"
  let ?again = "release_assignments (apply_writes sample_store (snd ?first) ?board) (0, minutes 1440) (\<lambda>_ _. Inr ())"
  have d: "distinct (map as_id ?board)" by code_simp
  have store: "keeps_writes sample_store" by (simp add: keeps_writes_def sample_store_def)
  have failed: "map fst (rl_failed (fst ?first)) = [''a2'']" by code_simp
  show "rl_released (fst ?again) = [''a2''] \<and> rl_failed (fst ?again) = []
    \<and> filter (releasable (0, minutes 1440))
        (apply_writes sample_store (snd ?again) (apply_writes sample_store (snd ?first) ?board)) = []"
    using release_is_retry_safe [OF d store prod.collapse [symmetric] refl prod.collapse [symmetric],
        of "(0, minutes 1440)" "\<lambda>aid _. if aid = ''a2'' then Inl (Provider ''timeout'') else Inr ()"]
    unfolding failed by simp
qed

end
