(* ===== verification/CancellationsCorrect.thy ===== *)
theory CancellationsCorrect
  imports Cancellations AssignmentBoard
begin

text \<open>
  What the cancellation list promises: its pages show every row once, its filters select what
  the screen reads, a settling is all or nothing, and cancelling a booking takes its caddies
  off the board. \<open>desk_step\<close> is one change of the table and \<open>row_sound\<close> what every stored row
  keeps, whatever the desk does.
\<close>

section \<open>The order of the list\<close>

lemma key_before_total: "key_before d a b \<or> key_before d b a"
  by (cases a rule: prod_cases4; cases b rule: prod_cases4) auto

lemma key_before_trans: "key_before d a b \<Longrightarrow> key_before d b c \<Longrightarrow> key_before d a c"
  by (cases a rule: prod_cases4; cases b rule: prod_cases4; cases c rule: prod_cases4)
    (simp split: if_split_asm; (elim conjE disjE)?; fastforce)

lemma key_before_antisym: "key_before d a b \<Longrightarrow> key_before d b a \<Longrightarrow> a = b"
  by (cases a rule: prod_cases4; cases b rule: prod_cases4) (auto split: if_split_asm)

interpretation listed: comparator "listed_before ck q" for ck q
  by unfold_locales (use key_before_total key_before_trans in \<open>auto simp: listed_before_def\<close>)

lemma listed_before_antisym:
  "listed_before ck q r s \<Longrightarrow> listed_before ck q s r \<Longrightarrow> cr_id r = cr_id s"
  unfolding listed_before_def by (drule (1) key_before_antisym) (simp add: order_key_def)

lemma listing_any_storage:
  assumes "distinct (map cr_id rows)" "mset rows = mset rows'"
  shows "sort_by (listed_before ck q) (filter P rows) = sort_by (listed_before ck q) (filter P rows')"
proof (rule listed.sort_by_order_irrelevant)
  show "mset (filter P rows) = mset (filter P rows')" using assms(2) by simp
  fix r s
  assume "r \<in> set (filter P rows)" "s \<in> set (filter P rows)"
    and "listed_before ck q r s" "listed_before ck q s r"
  then show "r = s"
    using assms(1) by (auto simp: distinct_map dest: listed_before_antisym inj_onD)
qed

definition page_query :: "nat \<Rightarrow> nat \<Rightarrow> cancellation_query \<Rightarrow> cancellation_query" where
  "page_query n i q = with_paging (Some n) (Some (i * n)) q"

lemma page_query_same [simp]:
  "listed_before ck (page_query n i q) = listed_before ck q"
  "keeps_row ck tenant (page_query n i q) = keeps_row ck tenant q"
  "cq_limit (page_query n i q) = n" "cq_offset (page_query n i q) = i * n"
  by (auto simp: fun_eq_iff page_query_def with_paging_def unwrap_or_def listed_before_def order_key_def keeps_row_def)

text \<open>
  Paging through the cancellation list shows every row the query keeps exactly once, in the
  asked order with unrecorded values last, and as many rows as the count beside it says, even
  when the database holds the rows in a different physical order each time a page is read.
\<close>

theorem cancellation_pages_complete:
  assumes "distinct (map cr_id rows)" "\<forall>i. mset (storage i) = mset rows"
    and "count_cancellations ck tenant q rows \<le> k * n"
  shows "\<exists>listing. sorted_wrt (listed_before ck q) listing
    \<and> mset listing = mset (filter (keeps_row ck tenant q) rows)
    \<and> concat (map (\<lambda>i. list_cancellations ck tenant (page_query n i q) (storage i)) [0..<k])
        = map row_to_cancellation listing
    \<and> (\<forall>i. count_cancellations ck tenant (page_query n i q) (storage i) = length listing)"
proof (intro exI conjI allI)
  let ?listing = "sort_by (listed_before ck q) (filter (keeps_row ck tenant q) rows)"
  have page: "list_cancellations ck tenant (page_query n i q) (storage i)
      = map row_to_cancellation (take n (drop (i * n) ?listing))" for i
    using listing_any_storage [OF assms(1), of "storage i" ck q "keeps_row ck tenant q"] assms(2)
    by (simp add: list_cancellations_def)
  show "sorted_wrt (listed_before ck q) ?listing" by (rule listed.sorted_sort_by)
  show "mset ?listing = mset (filter (keeps_row ck tenant q) rows)" by simp
  have "concat (map (\<lambda>i. list_cancellations ck tenant (page_query n i q) (storage i)) [0..<k])
      = map row_to_cancellation (concat (map (\<lambda>i. take n (drop (i * n) ?listing)) [0..<k]))"
    by (simp only: page map_concat map_map comp_def)
  also have "\<dots> = map row_to_cancellation ?listing"
    using assms(3) by (simp add: pages_join count_cancellations_def)
  finally show "concat (map (\<lambda>i. list_cancellations ck tenant (page_query n i q) (storage i)) [0..<k])
      = map row_to_cancellation ?listing" .
  show "count_cancellations ck tenant (page_query n i q) (storage i) = length ?listing" for i
    using assms(2) unfolding count_cancellations_def by (metis length_sort_by mset_filter page_query_same(2) size_mset)
qed

section \<open>What every stored row keeps\<close>

text \<open>
  The text tokens are told apart by the database: no two reasons, and no two fee states, compare
  equal under its collation.
\<close>

definition tokens_apart :: "collation \<Rightarrow> bool" where
  "tokens_apart ck \<longleftrightarrow> inj (\<lambda>x. ck (reason_as_str x)) \<and> inj (\<lambda>x. ck (fee_state_as_str x))"

definition within_note :: "str option \<Rightarrow> bool" where
  "within_note v \<longleftrightarrow> \<not> too_long v"

definition row_sound :: "cancellation_row \<Rightarrow> bool" where
  "row_sound r \<longleftrightarrow> cr_reason_code r \<in> range reason_as_str \<and> cr_fee_state r \<in> range fee_state_as_str
   \<and> within_note (cr_note r) \<and> within_note (cr_fee_note r)
   \<and> (case cr_fee_amount r of None \<Rightarrow> True | Some n \<Rightarrow> 0 \<le> n)
   \<and> (cr_fee_state r = ''invoiced'' \<longrightarrow> \<not> blank (cr_fee_invoice r))
   \<and> (cr_fee_settled_at r = None \<longleftrightarrow> cr_fee_state r = ''unsettled'')"

definition one_row_each :: "collation \<Rightarrow> cancellation_row list \<Rightarrow> bool" where
  "one_row_each ck rows \<longleftrightarrow> distinct (map cr_id rows)
     \<and> distinct (map (\<lambda>r. (ck (cr_tenant r), ck (cr_reservation r))) rows)"

text \<open>What the booking was when it was cancelled: everything but the reading of it.\<close>

definition snapshot_of :: "cancellation_row \<Rightarrow> cancellation_row" where
  "snapshot_of r = r\<lparr>cr_reason_code := [], cr_note := None, cr_cancelled_by := None,
     cr_fee_state := [], cr_fee_invoice := None, cr_fee_amount := None,
     cr_fee_settled_at := None, cr_fee_note := None\<rparr>"

inductive desk_step :: "collation \<Rightarrow> zones \<Rightarrow> cancellation_row list \<Rightarrow> cancellation_row list \<Rightarrow> bool"
  for ck zone where
  cancelled: "\<lbrakk>details_try_new why note = Inr details;
      cancel_reservation zone permitted now rid details who rp = (Inr (), eff);
      ce_recorded eff = Some c; fresh \<notin> cr_id ` set rows\<rbrakk>
    \<Longrightarrow> desk_step ck zone rows (record_cancellation ck fresh stamped tenant c rows)"
| settled: "settle_cancellation_fees ck sr clock permitted tenant ds rows = (answer, rows')
    \<Longrightarrow> desk_step ck zone rows rows'"

inductive_cases desk_stepE: "desk_step ck zone rows rows'"

subsection \<open>Recording\<close>

lemma same_ids_map:
  assumes "\<And>r. cr_id (f r) = cr_id r" "\<And>r. cr_tenant (f r) = cr_tenant r"
    "\<And>r. cr_reservation (f r) = cr_reservation r"
  shows "one_row_each ck (map f rows) \<longleftrightarrow> one_row_each ck rows"
  by (simp add: one_row_each_def comp_def assms)

lemma on_duplicate_fields [simp]:
  "cr_id (on_duplicate c r) = cr_id r" "cr_tenant (on_duplicate c r) = cr_tenant r"
  "cr_reservation (on_duplicate c r) = cr_reservation r" "snapshot_of (on_duplicate c r) = snapshot_of r"
  by (simp_all add: on_duplicate_def snapshot_of_def)

lemma record_keeps_one_each:
  assumes "one_row_each ck rows" "fresh \<notin> cr_id ` set rows"
  shows "one_row_each ck (record_cancellation ck fresh stamped tenant c rows)"
proof (cases "\<exists>r \<in> set rows. is_booking ck tenant (nw_reservation c) r")
  case True
  then show ?thesis
    using assms(1) by (simp add: record_cancellation_def same_ids_map)
next
  case False
  then show ?thesis
    using assms
    by (auto simp: record_cancellation_def one_row_each_def inserted_row_def is_booking_def same_text_def)
qed

lemma details_within_note: "details_try_new why note = Inr d \<Longrightarrow> within_note (dt_note d)"
  by (auto simp: details_try_new_def within_note_def split: if_splits)

lemma within_note_None [simp]: "within_note None"
  by (simp add: within_note_def too_long_def)

lemma fee_tokens [simp]:
  "''unsettled'' \<in> range fee_state_as_str" "''waived'' \<in> range fee_state_as_str"
  "''invoiced'' \<in> range fee_state_as_str"
  using fee_state_as_str.simps by (metis rangeI)+

lemma record_keeps_sound:
  assumes "\<forall>r \<in> set rows. row_sound r" "within_note (nw_note c)"
  shows "\<forall>r \<in> set (record_cancellation ck fresh stamped tenant c rows). row_sound r"
  using assms by (auto simp: record_cancellation_def row_sound_def on_duplicate_def inserted_row_def)

lemma recorded_note:
  assumes "cancel_reservation zone permitted now rid details who rp = (Inr (), eff)" "ce_recorded eff = Some c"
  shows "nw_note c = dt_note details"
  using assms
  by (auto simp: cancel_reservation_def cancellation_to_record_def Let_def split: sum.splits if_splits)

subsection \<open>Settling\<close>

lemma settle_row_fields [simp]:
  "cr_id (settle_row now d r) = cr_id r" "cr_tenant (settle_row now d r) = cr_tenant r"
  "cr_reservation (settle_row now d r) = cr_reservation r"
  "snapshot_of (settle_row now d r) = snapshot_of r"
  by (simp_all add: settle_row_def snapshot_of_def)

lemma settle_row_sound:
  assumes "row_sound r" "decision_validate d = Inr ()"
  shows "row_sound (settle_row now d r)"
  using assms
  by (cases "fd_state d")
    (auto simp: row_sound_def settle_row_def decision_validate_def within_note_def
      split: if_splits option.splits)

text \<open>The last decision of the batch that names the row's booking is the one it ends with.\<close>

fun settled_by :: "collation \<Rightarrow> str \<Rightarrow> (instant \<times> fee_decision) list \<Rightarrow> cancellation_row \<Rightarrow> cancellation_row" where
  "settled_by ck tenant [] r = r"
| "settled_by ck tenant (nd # nds) r = settled_by ck tenant nds
     (if is_booking ck tenant (fd_reservation (snd nd)) r then settle_row (fst nd) (snd nd) r else r)"

lemma settle_fold: "fold (settle_one ck tenant) nds rows = map (settled_by ck tenant nds) rows"
  by (induction nds arbitrary: rows) (simp_all add: settle_one_def map_idI)

lemma settled_by_fields [simp]:
  "cr_id (settled_by ck tenant nds r) = cr_id r" "cr_tenant (settled_by ck tenant nds r) = cr_tenant r"
  "cr_reservation (settled_by ck tenant nds r) = cr_reservation r"
  "snapshot_of (settled_by ck tenant nds r) = snapshot_of r"
  by (induction nds arbitrary: r) simp_all

lemma settled_by_sound:
  assumes "row_sound r" "\<forall>nd \<in> set nds. decision_validate (snd nd) = Inr ()"
  shows "row_sound (settled_by ck tenant nds r)"
  using assms by (induction nds arbitrary: r) (simp_all add: settle_row_sound)

lemma settled_by_other:
  "\<forall>nd \<in> set nds. \<not> is_booking ck tenant (fd_reservation (snd nd)) r \<Longrightarrow> settled_by ck tenant nds r = r"
  by (induction nds) simp_all

lemma settle_row_again [simp]: "settle_row now d (settle_row now' d' r) = settle_row now d r"
  by (simp add: settle_row_def)

lemma is_booking_settle_row [simp]:
  "is_booking ck tenant rid (settle_row now d r) \<longleftrightarrow> is_booking ck tenant rid r"
  by (simp add: is_booking_def)

lemma settled_by_named:
  assumes "d \<in> snd ` set nds" "is_booking ck tenant (fd_reservation d) r"
    "\<forall>d' \<in> snd ` set nds. same_text ck (fd_reservation d') (fd_reservation d) \<longrightarrow> d' = d"
  shows "\<exists>now. (now, d) \<in> set nds \<and> settled_by ck tenant nds r = settle_row now d r"
  using assms
proof (induction nds arbitrary: r)
  case (Cons nd nds)
  have alone: "snd x = d"
    if "x \<in> set (nd # nds)" "is_booking ck tenant (fd_reservation (snd x)) r" for x
  proof -
    have "same_text ck (fd_reservation (snd x)) (fd_reservation d)"
      using that(2) Cons.prems(2) by (simp add: is_booking_def same_text_def)
    then show ?thesis using Cons.prems(3) that(1) by blast
  qed
  show ?case
  proof (cases "d \<in> snd ` set nds")
    case True
    have "\<forall>d' \<in> snd ` set nds. same_text ck (fd_reservation d') (fd_reservation d) \<longrightarrow> d' = d"
      using Cons.prems(3) by simp
    note IH = Cons.IH [OF True _ this]
    show ?thesis
    proof (cases "is_booking ck tenant (fd_reservation (snd nd)) r")
      case True
      then show ?thesis using IH [of "settle_row (fst nd) (snd nd) r"] Cons.prems(2) by auto
    next
      case False
      then show ?thesis using IH [of r] Cons.prems(2) by auto
    qed
  next
    case False
    then have d: "snd nd = d" using Cons.prems(1) by auto
    have "\<forall>x \<in> set nds. \<not> is_booking ck tenant (fd_reservation (snd x)) r"
      using False alone by (metis imageI list.set_intros(2))
    then have "settled_by ck tenant (nd # nds) r = settle_row (fst nd) d r"
      using Cons.prems(2) by (simp add: d settled_by_other)
    moreover have "(fst nd, d) \<in> set (nd # nds)" using d by (cases nd) simp
    ultimately show ?thesis by blast
  qed
qed simp

lemma first_invalid_ok: "first_invalid ds = Inr () \<longleftrightarrow> (\<forall>d \<in> set ds. decision_validate d = Inr ())"
  by (induction ds) (auto split: sum.splits)

lemma remdups_adj_length_sorted: "length (remdups_adj (sort xs)) = length (xs :: str list) \<longleftrightarrow> distinct xs"
proof
  assume "length (remdups_adj (sort xs)) = length xs"
  then have "distinct (sort xs)"
    by (intro sorted_distinct_adj) (simp_all add: distinct_adj_conv_length_remdups_adj)
  then show "distinct xs" by simp
qed (simp add: remdups_adj_distinct)

definition batch_accepted :: "fee_decision list \<Rightarrow> bool" where
  "batch_accepted ds \<longleftrightarrow> ds \<noteq> [] \<and> length ds \<le> MAX_DECISIONS
     \<and> (\<forall>d \<in> set ds. decision_validate d = Inr ()) \<and> distinct (map fd_reservation ds)"

lemma settle_outcomes:
  assumes "settle_cancellation_fees ck sr clock permitted tenant ds rows = (answer, rows')"
  defines "nds \<equiv> zip (map clock [0..<length ds]) ds"
  shows "rows' = rows \<and> (\<exists>e. answer = Inl e)
    \<or> batch_accepted ds \<and> rows' = map (settled_by ck tenant nds) rows
      \<and> (answer = Inr (map row_to_cancellation (filter (\<lambda>r. same_text ck (cr_tenant r) tenant
            \<and> one_of ck (map fd_reservation ds) (cr_reservation r)) rows')) \<or> (\<exists>e. answer = Inl e))"
proof -
  have "rows' = rows \<and> (\<exists>e. answer = Inl e) \<or> batch_accepted ds
      \<and> settle_table ck sr clock tenant ds rows = (answer, rows')"
    using assms(1)
    by (auto simp: settle_cancellation_fees_def batch_accepted_def Let_def first_invalid_ok [symmetric]
        remdups_adj_length_sorted [of "map fd_reservation ds", simplified] split: sum.splits if_splits)
  moreover have "rows' = rows \<and> (\<exists>e. answer = Inl e) \<or> rows' = map (settled_by ck tenant nds) rows
      \<and> (answer = Inr (map row_to_cancellation (filter (\<lambda>r. same_text ck (cr_tenant r) tenant
            \<and> one_of ck (map fd_reservation ds) (cr_reservation r)) rows')) \<or> (\<exists>e. answer = Inl e))"
    if "batch_accepted ds" "settle_table ck sr clock tenant ds rows = (answer, rows')"
    using that
    by (auto simp: settle_table_def batch_accepted_def Let_def settle_fold nds_def
        split: sum.splits if_splits)
  ultimately show ?thesis by blast
qed

lemma accepted_decisions:
  assumes "batch_accepted ds" "nd \<in> set (zip (map clock [0..<length ds]) ds)"
  shows "decision_validate (snd nd) = Inr ()"
  using assms set_zip_rightD [of "fst nd" "snd nd"] by (auto simp: batch_accepted_def)

subsection \<open>Any number of steps\<close>

definition desk_ok :: "collation \<Rightarrow> cancellation_row list \<Rightarrow> bool" where
  "desk_ok ck rows \<longleftrightarrow> one_row_each ck rows \<and> (\<forall>r \<in> set rows. row_sound r)"

lemma desk_step_ok:
  assumes "desk_step ck zone rows rows'" "desk_ok ck rows"
  shows "desk_ok ck rows'"
  using assms(1)
proof cases
  case (cancelled why words details permitted now rid who rp eff c fresh stamped tenant)
  have "within_note (nw_note c)"
    using details_within_note [OF cancelled(2)] recorded_note [OF cancelled(3,4)] by simp
  then show ?thesis
    using assms(2) record_keeps_one_each [of ck rows fresh stamped tenant c]
      record_keeps_sound [of rows c ck fresh stamped tenant] cancelled(1,5)
    by (simp add: desk_ok_def)
next
  case (settled sr clock permitted tenant ds answer)
  from settle_outcomes [OF this] show ?thesis
    using assms(2)
    by (auto simp: desk_ok_def same_ids_map settled_by_sound accepted_decisions)
qed

lemma desk_step_snapshots:
  assumes "desk_step ck zone rows rows'" "desk_ok ck rows" "r \<in> set rows"
  shows "\<exists>r' \<in> set rows'. snapshot_of r' = snapshot_of r"
  using assms(1)
proof cases
  case (cancelled why words details permitted now rid who rp eff c fresh stamped tenant)
  have "(if is_booking ck tenant (nw_reservation c) r then on_duplicate c r else r)
      \<in> set (record_cancellation ck fresh stamped tenant c rows) \<or> r \<in> set (record_cancellation ck fresh stamped tenant c rows)"
    using assms(3) by (auto simp: record_cancellation_def)
  then show ?thesis unfolding cancelled(1) using on_duplicate_fields(4) by (metis (full_types))
next
  case (settled sr clock permitted tenant ds answer)
  from settle_outcomes [OF this] show ?thesis using assms(3) by auto
qed

lemma reachable_desk_ok: "(desk_step ck zone)\<^sup>*\<^sup>* [] rows \<Longrightarrow> desk_ok ck rows"
proof (induction rule: rtranclp_induct)
  case base
  then show ?case by (simp add: desk_ok_def one_row_each_def)
qed (rule desk_step_ok)

lemma cancellation_sound_rows: "(desk_step ck zone)\<^sup>*\<^sup>* [] rows \<Longrightarrow> \<forall>r \<in> set rows. row_sound r"
  using reachable_desk_ok by (auto simp: desk_ok_def)

text \<open>
  C27. However the desk cancels, cancels again and settles, the table keeps one row per booking;
  every row carries a reason and a fee state this program writes, notes within their limit and a
  fee that is not negative; an invoiced row names its invoice, and a row has a settling time
  exactly when its fee is no longer open.
\<close>

theorem cancellation_rows_stay_sound:
  assumes "(desk_step ck zone)\<^sup>*\<^sup>* [] rows" "r \<in> set rows"
  shows "row_sound r \<and> (\<forall>s \<in> set rows. is_booking ck (cr_tenant r) (cr_reservation r) s \<longrightarrow> s = r)"
  using reachable_desk_ok [OF assms(1)] assms(2)
  by (auto simp: desk_ok_def one_row_each_def is_booking_def same_text_def distinct_map dest: inj_onD)

text \<open>
  What a booking was when it was first cancelled (its number, guest, course, tee time, day,
  players, worth, notice and the moment itself) is never refreshed by anything the desk does
  later, and no row ever leaves the table.
\<close>

theorem snapshots_are_never_refreshed:
  assumes "(desk_step ck zone)\<^sup>*\<^sup>* [] rows" "(desk_step ck zone)\<^sup>*\<^sup>* rows later" "r \<in> set rows"
  shows "\<exists>r' \<in> set later. snapshot_of r' = snapshot_of r"
proof -
  note ok = reachable_desk_ok [OF assms(1)]
  have "desk_ok ck later \<and> (\<exists>r' \<in> set later. snapshot_of r' = snapshot_of r)"
    using assms(2)
  proof (induction rule: rtranclp_induct)
    case base
    then show ?case using ok assms(3) by blast
  next
    case (step y z)
    then show ?case using desk_step_ok desk_step_snapshots by metis
  qed
  then show ?thesis by blast
qed

text \<open>A row with its fee columns wiped: what a settling has no business touching.\<close>

definition fee_wiped :: "cancellation_row \<Rightarrow> cancellation_row" where
  "fee_wiped r = r\<lparr>cr_fee_state := [], cr_fee_invoice := None, cr_fee_amount := None,
     cr_fee_settled_at := None, cr_fee_note := None\<rparr>"

lemma settled_by_fee_wiped: "fee_wiped (settled_by ck tenant nds r) = fee_wiped r"
  by (induction nds arbitrary: r) (simp_all add: fee_wiped_def settle_row_def)

lemma fee_columns_only:
  "fee_wiped r' = fee_wiped r \<Longrightarrow> r' = r\<lparr>cr_fee_state := cr_fee_state r', cr_fee_invoice := cr_fee_invoice r',
     cr_fee_amount := cr_fee_amount r', cr_fee_settled_at := cr_fee_settled_at r', cr_fee_note := cr_fee_note r'\<rparr>"
  by (cases r; cases r') (simp add: fee_wiped_def)

text \<open>The row of a booking one decision names has that decision's columns, from the time it was taken.\<close>

lemma settled_by_columns:
  assumes "r' = settled_by ck tenant (zip (map clock [0..<length ds]) ds) r" "d \<in> set ds"
    "is_booking ck tenant (fd_reservation d) r"
    "\<forall>d' \<in> set ds. same_text ck (fd_reservation d') (fd_reservation d) \<longrightarrow> d' = d"
  shows "cr_fee_state r' = fee_state_as_str (fd_state d) \<and> cr_fee_invoice r' = fd_invoice d
    \<and> cr_fee_amount r' = fd_amount d \<and> cr_fee_note r' = fd_note d
    \<and> (if fd_state d = Unsettled then cr_fee_settled_at r' = None
       else \<exists>i < length ds. ds ! i = d \<and> cr_fee_settled_at r' = Some (clock i))"
proof -
  let ?nds = "zip (map clock [0..<length ds]) ds"
  have names: "snd ` set ?nds = set ds" by (simp flip: set_map)
  obtain now where now: "(now, d) \<in> set ?nds" "settled_by ck tenant ?nds r = settle_row now d r"
    using settled_by_named [of d ?nds ck tenant r, unfolded names, OF assms(2-4)] by blast
  obtain i where "i < length ds" "now = clock i" "ds ! i = d"
    using now(1) by (auto simp: set_zip)
  then show ?thesis using assms(1) now(2) by (auto simp: settle_row_def)
qed

lemma settled_by_unnamed:
  assumes "\<not> (\<exists>d \<in> set ds. is_booking ck tenant (fd_reservation d) r)"
  shows "settled_by ck tenant (zip (map clock [0..<length ds]) ds) r = r"
proof (rule settled_by_other, rule ballI)
  fix nd assume "nd \<in> set (zip (map clock [0..<length ds]) ds)"
  then have "snd nd \<in> set ds" by (metis prod.collapse set_zip_rightD)
  with assms show "\<not> is_booking ck tenant (fd_reservation (snd nd)) r" by blast
qed

text \<open>
  C26. A settling is all or nothing: either the table is as it was and the request was answered with an error, or
  the batch was an accepted one (1 to 100 decisions, each valid, no booking twice) and every decision is written.
  Row by row, only the five fee columns may differ from before (the reason, the note, who cancelled and the rest
  of the row stay); a row no decision names is unchanged; a row one decision names has that decision's state,
  invoice, amount and note, and the time it was taken, or none when it is open again. When the answer is not an
  error, it lists the settled rows as they now stand.
\<close>

theorem settling_is_all_or_nothing:
  assumes "settle_cancellation_fees ck sr clock permitted tenant ds rows = (answer, rows')"
  shows "(rows' = rows \<and> (\<exists>e. answer = Inl e))
    \<or> (ds \<noteq> [] \<and> length ds \<le> 100 \<and> (\<forall>d \<in> set ds. decision_validate d = Inr ()) \<and> distinct (map fd_reservation ds)
       \<and> list_all2 (\<lambda>r r'.
            r' = r\<lparr>cr_fee_state := cr_fee_state r', cr_fee_invoice := cr_fee_invoice r', cr_fee_amount := cr_fee_amount r',
                  cr_fee_settled_at := cr_fee_settled_at r', cr_fee_note := cr_fee_note r'\<rparr>
            \<and> ((\<exists>d \<in> set ds. is_booking ck tenant (fd_reservation d) r) \<or> r' = r)
            \<and> (\<forall>d \<in> set ds. is_booking ck tenant (fd_reservation d) r
                 \<and> (\<forall>d' \<in> set ds. same_text ck (fd_reservation d') (fd_reservation d) \<longrightarrow> d' = d)
               \<longrightarrow> cr_fee_state r' = fee_state_as_str (fd_state d) \<and> cr_fee_invoice r' = fd_invoice d
                 \<and> cr_fee_amount r' = fd_amount d \<and> cr_fee_note r' = fd_note d
                 \<and> (if fd_state d = Unsettled then cr_fee_settled_at r' = None
                    else \<exists>i < length ds. ds ! i = d \<and> cr_fee_settled_at r' = Some (clock i)))) rows rows'
       \<and> (answer = Inr (map row_to_cancellation (filter (\<lambda>r. same_text ck (cr_tenant r) tenant
            \<and> one_of ck (map fd_reservation ds) (cr_reservation r)) rows')) \<or> (\<exists>e. answer = Inl e)))"
proof -
  let ?nds = "zip (map clock [0..<length ds]) ds"
  consider "rows' = rows" "\<exists>e. answer = Inl e"
    | "batch_accepted ds" "rows' = map (settled_by ck tenant ?nds) rows"
      "answer = Inr (map row_to_cancellation (filter (\<lambda>r. same_text ck (cr_tenant r) tenant
            \<and> one_of ck (map fd_reservation ds) (cr_reservation r)) rows')) \<or> (\<exists>e. answer = Inl e)"
    using settle_outcomes [OF assms] by blast
  then show ?thesis
  proof cases
    case 2
    note fee_only = fee_columns_only [OF settled_by_fee_wiped, of ck tenant ?nds]
    have "list_all2 (\<lambda>r r'.
        r' = r\<lparr>cr_fee_state := cr_fee_state r', cr_fee_invoice := cr_fee_invoice r', cr_fee_amount := cr_fee_amount r',
              cr_fee_settled_at := cr_fee_settled_at r', cr_fee_note := cr_fee_note r'\<rparr>
        \<and> ((\<exists>d \<in> set ds. is_booking ck tenant (fd_reservation d) r) \<or> r' = r)
        \<and> (\<forall>d \<in> set ds. is_booking ck tenant (fd_reservation d) r
             \<and> (\<forall>d' \<in> set ds. same_text ck (fd_reservation d') (fd_reservation d) \<longrightarrow> d' = d)
           \<longrightarrow> cr_fee_state r' = fee_state_as_str (fd_state d) \<and> cr_fee_invoice r' = fd_invoice d
             \<and> cr_fee_amount r' = fd_amount d \<and> cr_fee_note r' = fd_note d
             \<and> (if fd_state d = Unsettled then cr_fee_settled_at r' = None
                else \<exists>i < length ds. ds ! i = d \<and> cr_fee_settled_at r' = Some (clock i)))) rows rows'"
      unfolding 2(2) list_all2_map2 list_all2_same
      using fee_only settled_by_unnamed settled_by_columns [OF refl] by (simp only:) blast
    then show ?thesis using 2(1,3) unfolding batch_accepted_def MAX_DECISIONS_def by blast
  qed blast
qed

section \<open>The filters and the screen\<close>

lemma token_compare:
  assumes "tokens_apart ck"
  shows "one_of ck (map reason_as_str xs) (reason_as_str x) \<longleftrightarrow> x \<in> set xs"
    "one_of ck (map fee_state_as_str ys) (fee_state_as_str y) \<longleftrightarrow> y \<in> set ys"
  using assms by (auto simp: one_of_def same_text_def tokens_apart_def dest: injD)

lemma sound_readings:
  assumes "row_sound r"
  shows "reason_as_str (cn_reason (row_to_cancellation r)) = cr_reason_code r"
    "fee_state_as_str (cn_fee_state (row_to_cancellation r)) = cr_fee_state r"
  using assms by (auto simp: row_sound_def row_to_cancellation_def reason.parse_token fee.parse_token)

text \<open>On sound rows, the clauses over stored tokens are clauses over what the screen reads.\<close>

lemma filters_read_rows:
  assumes "tokens_apart ck" "row_sound r"
  defines "c \<equiv> row_to_cancellation r"
  shows "one_of ck (map reason_as_str xs) (cr_reason_code r) \<longleftrightarrow> cn_reason c \<in> set xs"
    "one_of ck (map fee_state_as_str ys) (cr_fee_state r) \<longleftrightarrow> cn_fee_state c \<in> set ys"
  unfolding c_def sound_readings [OF assms(2), symmetric] by (rule token_compare [OF assms(1)])+

text \<open>
  C28. The collection list (fees nobody has decided on, for the reasons the club charges for) is
  exactly what the screen would mark as waiting for a decision: in any period, for any customer
  and any other narrowing, a row is kept by those two filters when its reading awaits a fee
  decision, and only then. That is so of the rows this program wrote: one whose reason a later build no longer
  knows is the exception (\<open>retired_reason_is_never_collected\<close>).
\<close>

theorem collection_list_exact:
  assumes "(desk_step ck zone)\<^sup>*\<^sup>* [] rows" "tokens_apart ck" "r \<in> set rows"
  shows "keeps_row ck tenant (q\<lparr>cq_fee_states := [Unsettled], cq_fee_expected_only := True\<rparr>) r
    \<longleftrightarrow> keeps_row ck tenant (q\<lparr>cq_fee_states := [], cq_fee_expected_only := False\<rparr>) r
      \<and> awaiting_fee_decision (row_to_cancellation r)"
proof -
  have "row_sound r" using cancellation_sound_rows [OF assms(1)] assms(3) by simp
  note reads = filters_read_rows [OF assms(2) this]
  have "one_of ck [''unsettled''] (cr_fee_state r) \<longleftrightarrow> cn_fee_state (row_to_cancellation r) = Unsettled"
    using reads(2) [of "[Unsettled]"] by simp
  then show ?thesis
    by (simp add: keeps_row_def awaiting_fee_decision_def reads(1) all_reasons_complete) blast
qed

text \<open>
  A row whose reason a later build no longer knows reads as \<open>other\<close>, for which the club charges,
  yet the collection list never shows it: the filter names the codes, not the reading.
\<close>

definition retired_row :: cancellation_row where
  "retired_row = (inserted_row 1 0 ''t1'' \<lparr>nw_reservation = ''r1'', nw_number = None, nw_customer = None,
     nw_customer_name = None, nw_course = None, nw_tee_time = None, nw_played_on = Some 20650,
     nw_players = 4, nw_amount = Some 48000, nw_currency = None, nw_reason = Weather, nw_note = None,
     nw_notice = None, nw_cancelled_by = None\<rparr>)\<lparr>cr_reason_code := ''typhoon''\<rparr>"

definition plain_collation :: collation where
  "plain_collation s = map of_char s"

lemma retired_reason_is_never_collected:
  "awaiting_fee_decision (row_to_cancellation retired_row)
   \<and> \<not> keeps_row plain_collation ''t1'' (default_query\<lparr>cq_fee_states := [Unsettled], cq_fee_expected_only := True\<rparr>)
        retired_row"
  by code_simp

text \<open>A waived fee is documented to carry a note saying why; one without is accepted.\<close>

lemma waived_without_a_note_accepted:
  "decision_validate \<lparr>fd_reservation = ''r1'', fd_state = Waived, fd_invoice = None, fd_amount = None,
     fd_note = None\<rparr> = Inr ()"
  by code_simp

section \<open>Cancelling and the board\<close>

lemma map_of_rows:
  assumes "set as \<subseteq> set board" "distinct (map as_id board)" "a \<in> set board"
  shows "map_of (map (\<lambda>a. (as_id a, cancelled_from a)) (filter P as)) (as_id a)
    = (if a \<in> set as \<and> P a then Some (cancelled_from a) else None)"
proof -
  have same: "b = a" if "b \<in> set as" "as_id b = as_id a" for b
    using that assms by (auto simp: distinct_map dest: inj_onD)
  show ?thesis
  proof (cases "a \<in> set as \<and> P a")
    case True
    then have "map_of (map (\<lambda>a. (as_id a, cancelled_from a)) (filter P as)) (as_id a) \<noteq> None"
      by (auto simp: map_of_eq_None_iff image_iff)
    then obtain u where u: "map_of (map (\<lambda>a. (as_id a, cancelled_from a)) (filter P as)) (as_id a) = Some u"
      by blast
    then have "u = cancelled_from a" using same by (auto dest!: map_of_SomeD)
    then show ?thesis using u True by simp
  next
    case False
    then show ?thesis using same by (auto simp: map_of_eq_None_iff)
  qed
qed

lemma board_ok_cancel:
  assumes "board_ok clk board" "keeps_writes store"
  shows "board_ok clk (map (\<lambda>a. if P a then store (as_id a) (cancelled_from a) else a) board)"
proof -
  have gone: "\<not> holds_the_round (store aid (cancelled_from a))" for aid a
    using released_row [OF assms(2)] by (simp add: holds_the_round_def)
  have "distinct (map as_id (map (\<lambda>a. if P a then store (as_id a) (cancelled_from a) else a) board))"
    using assms(1) unfolding ids_after_release [OF assms(2)] board_ok_def by blast
  then show ?thesis using assms(1) gone unfolding board_ok_def by (auto simp: image_iff)
qed

definition let_go :: "reservation_id \<Rightarrow> cancel_replies \<Rightarrow> assignment \<Rightarrow> bool" where
  "let_go rid rp a \<longleftrightarrow> covers_reservation a rid \<and> holds_the_round a
     \<and> is_ok (rp_release rp (as_id a) (cancelled_from a))"

lemma release_caddies_eq:
  "release_caddies (Inr as) (rp_release rp) rid
    = map (\<lambda>a. (as_id a, cancelled_from a)) (filter (let_go rid rp) as)"
  unfolding release_caddies_def by (induction as) (auto simp: let_go_def)

text \<open>
  C25. A booking that is cancelled takes its caddies with it and touches nothing else on the board. A cancellation
  that was refused (by permission, a blank id, or the service that owns the booking) changes nothing at all. One
  that went through was sent with its reason, and then, row by row: a live row of that booking whose releasing
  write went through is stored again as cancelled, sent with its own caddie, booking, round, start, role, fee,
  currency and notes; every other row stands as it was, whoever's it is, and so do all of them when the
  assignments could not be read. No row of the booking still holds a round unless that read or its own write
  failed, and the board is as free of double bookings as it was.
\<close>

theorem cancelled_booking_leaves_the_board:
  assumes "cancel_reservation zone permitted now rid details who rp = (answer, eff)"
    and "\<And>as. rp_assignments rp = Inr as
      \<Longrightarrow> set as \<subseteq> set board \<and> (\<forall>a \<in> set board. covers_reservation a rid \<longrightarrow> a \<in> set as)"
    and "board_ok clk board" "keeps_writes store"
    and "board' = apply_writes store (ce_released eff) board"
  shows "case answer of
      Inl e \<Rightarrow> eff = no_effects \<and> board' = board
    | Inr _ \<Rightarrow>
        (let sent = (\<lambda>a. \<lparr>us_caddie = as_caddie a, us_reservation = as_reservation a,
               us_round_reference = as_round_reference a, us_scheduled_at = as_scheduled_at a,
               us_status = Some ''cancelled'', us_role = Some (as_role_label a), us_fee = Some (as_fee a),
               us_currency = Some (as_currency a), us_score = None, us_notes = as_notes a\<rparr>);
             released = (\<lambda>a. covers_reservation a rid \<and> holds_the_round a
               \<and> (\<exists>as. rp_assignments rp = Inr as) \<and> is_ok (rp_release rp (as_id a) (sent a)))
         in ce_upstream eff = Some (rid, upstream_reason details)
          \<and> board' = map (\<lambda>a. if released a then store (as_id a) (sent a) else a) board
          \<and> (\<forall>a \<in> set board. released a \<longrightarrow> as_status (store (as_id a) (sent a)) = Cancelled)
          \<and> (\<forall>a \<in> set board'. covers_reservation a rid \<and> holds_the_round a
               \<longrightarrow> (\<exists>e. rp_assignments rp = Inl e) \<or> \<not> is_ok (rp_release rp (as_id a) (sent a)))
          \<and> board_ok clk board')"
proof (cases answer)
  case (Inl e)
  then have "eff = no_effects"
    using assms(1) by (auto simp: cancel_reservation_def split: sum.splits if_splits)
  then show ?thesis using assms(5) Inl by (simp add: no_effects_def apply_writes_def)
next
  case (Inr u)
  let ?released = "\<lambda>a. let_go rid rp a \<and> (\<exists>as. rp_assignments rp = Inr as)"
  have upstream: "ce_upstream eff = Some (rid, upstream_reason details)"
    and writes: "ce_released eff = release_caddies (rp_assignments rp) (rp_release rp) rid"
    using assms(1) Inr by (auto simp: cancel_reservation_def split: sum.splits if_splits)
  have after: "board' = map (\<lambda>a. if ?released a then store (as_id a) (cancelled_from a) else a) board"
  proof (cases "rp_assignments rp")
    case (Inl e)
    then show ?thesis unfolding assms(5) writes by (simp add: release_caddies_def apply_writes_def)
  next
    case (Inr as)
    have ids: "distinct (map as_id board)" using assms(3) by (simp add: board_ok_def)
    note covered = assms(2) [OF Inr]
    note sent = map_of_rows [OF conjunct1 [OF covered] ids]
    show ?thesis
      unfolding assms(5) writes Inr release_caddies_eq apply_writes_def
      by (rule map_cong [OF refl]) (use sent covered in \<open>auto simp: let_go_def\<close>)
  qed
  have gone: "\<not> holds_the_round (store aid (cancelled_from a))" for aid a
    using released_row [OF assms(4)] by (simp add: holds_the_round_def)
  have left: "(\<exists>e. rp_assignments rp = Inl e) \<or> \<not> is_ok (rp_release rp (as_id a) (cancelled_from a))"
    if "a \<in> set board'" "covers_reservation a rid" "holds_the_round a" for a
    using that gone unfolding after
    by (cases "rp_assignments rp") (auto simp: let_go_def split: if_splits)
  have ok: "board_ok clk board'"
    unfolding after by (rule board_ok_cancel [OF assms(3,4)])
  have parts: "let_go rid rp a \<and> (\<exists>as. rp_assignments rp = Inr as) \<longleftrightarrow> covers_reservation a rid \<and> holds_the_round a
      \<and> (\<exists>as. rp_assignments rp = Inr as) \<and> is_ok (rp_release rp (as_id a) (cancelled_from a))" for a
    by (auto simp: let_go_def)
  show ?thesis
    unfolding Inr sum.case Let_def cancelled_from_def [symmetric]
    using upstream after [unfolded parts] released_row(1) [OF assms(4)] left ok by blast
qed

section \<open>A worked example\<close>

text \<open>A no-show of a booking with a caddie, then an invoice for it.\<close>

definition sample_replies :: cancel_replies where
  "sample_replies = \<lparr>rp_booking = Inr (reservation_reconstitute ''r1'' ''RSV-1'' None None (Some ''Honda'')
       ''confirmed'' (minutes 480) (minutes 720) 4 None None),
     rp_cancel = Inr (), rp_timezone = Inr ''UTC'', rp_record = Inr (),
     rp_assignments = Inr [sample_row ''a1'' ''k1'' ''r1'' 480], rp_release = (\<lambda>_ _. Inr ())\<rparr>"

definition sample_details :: cancellation_details where
  "sample_details = \<lparr>dt_reason = NoContact, dt_note = None\<rparr>"

definition sample_effects :: cancel_effects where
  "sample_effects = snd (cancel_reservation (\<lambda>_. Some utc_clock) (Inr ()) 0 ''r1'' sample_details None sample_replies)"

definition sample_table :: "cancellation_row list" where
  "sample_table = record_cancellation plain_collation 1 5 ''t1'' (the (ce_recorded sample_effects)) []"

definition sample_decision :: fee_decision where
  "sample_decision = \<lparr>fd_reservation = ''r1'', fd_state = Invoiced, fd_invoice = Some ''inv1'',
     fd_amount = Some 20000, fd_note = None\<rparr>"

definition all_well :: settle_replies where
  "all_well = \<lparr>sr_begin = Inr (), sr_statement = (\<lambda>_. Inr ()), sr_commit = Inr (),
     sr_took_effect = True, sr_read_back = Inr ()\<rparr>"

definition sample_settling :: "cancellation list result \<times> cancellation_row list" where
  "sample_settling = settle_cancellation_fees plain_collation all_well (\<lambda>_. 9) (Inr ()) ''t1''
     [sample_decision] sample_table"

lemma sample_cancelled:
  "(desk_step plain_collation (\<lambda>_. Some utc_clock))\<^sup>*\<^sup>* [] sample_table"
  unfolding sample_table_def
proof (rule r_into_rtranclp, rule cancelled)
  show "details_try_new NoContact None = Inr sample_details" by code_simp
  show "cancel_reservation (\<lambda>_. Some utc_clock) (Inr ()) 0 ''r1'' sample_details None sample_replies
      = (Inr (), sample_effects)" by code_simp
  show "ce_recorded sample_effects = Some (the (ce_recorded sample_effects))" by code_simp
  show "1 \<notin> cr_id ` set []" by simp
qed

lemma sample_settled:
  "(desk_step plain_collation (\<lambda>_. Some utc_clock))\<^sup>*\<^sup>* sample_table (snd sample_settling)"
  by (rule r_into_rtranclp, rule settled, unfold sample_settling_def, rule prod.collapse [symmetric])

lemma sample_history:
  "(desk_step plain_collation (\<lambda>_. Some utc_clock))\<^sup>*\<^sup>* [] (snd sample_settling)"
  using sample_cancelled sample_settled by (rule rtranclp_trans)

lemma sample_rows: "map cr_reservation (snd sample_settling) = [''r1'']" "length sample_table = 1"
  by code_simp+

theorem cancellation_rows_stay_sound_witness:
  "cr_fee_state (hd (snd sample_settling)) = ''invoiced'' \<and> \<not> blank (cr_fee_invoice (hd (snd sample_settling)))"
proof -
  have "hd (snd sample_settling) \<in> set (snd sample_settling)"
    using sample_rows(1) by (cases "snd sample_settling") simp_all
  then have "row_sound (hd (snd sample_settling))"
    using cancellation_rows_stay_sound [OF sample_history] by blast
  moreover have "cr_fee_state (hd (snd sample_settling)) = ''invoiced''" by code_simp
  ultimately show ?thesis by (simp add: row_sound_def)
qed

theorem settling_is_all_or_nothing_witness:
  "cr_fee_state (hd (snd sample_settling)) = ''invoiced'' \<and> cr_fee_amount (hd (snd sample_settling)) = Some 20000
   \<and> cr_note (hd (snd sample_settling)) = cr_note (hd sample_table)"
proof -
  have "settle_cancellation_fees plain_collation all_well (\<lambda>_. 9) (Inr ()) ''t1''
     [sample_decision] sample_table = (fst sample_settling, snd sample_settling)"
    by (simp add: sample_settling_def)
  note settled = settling_is_all_or_nothing [OF this]
  have "snd sample_settling \<noteq> sample_table" by code_simp
  obtain r where r: "sample_table = [r]" using sample_rows(2) by (auto simp: length_Suc_conv)
  obtain r' where r': "snd sample_settling = [r']" using sample_rows(1) by (cases "snd sample_settling") auto
  have named: "is_booking plain_collation ''t1'' (fd_reservation sample_decision) (hd sample_table)" by code_simp
  have rows: "r' = r\<lparr>cr_fee_state := cr_fee_state r', cr_fee_invoice := cr_fee_invoice r', cr_fee_amount := cr_fee_amount r',
        cr_fee_settled_at := cr_fee_settled_at r', cr_fee_note := cr_fee_note r'\<rparr>"
      "cr_fee_state r' = fee_state_as_str (fd_state sample_decision)" "cr_fee_amount r' = fd_amount sample_decision"
    using settled \<open>snd sample_settling \<noteq> sample_table\<close> named unfolding r r' list_all2_Cons list.sel by auto
  have "cr_note r' = cr_note r" by (subst rows(1)) simp
  then show ?thesis unfolding r r' using rows(2,3) by (simp add: sample_decision_def)
qed

lemma plain_tokens_apart: "tokens_apart plain_collation"
proof -
  have ck: "inj plain_collation"
    by (rule injI) (simp add: plain_collation_def inj_map_eq_map inj_def)
  have reasons: "inj reason_as_str" by (rule injI) (simp only: reason.lenient.as_str_inj)
  have states: "inj fee_state_as_str" by (rule injI) (simp only: fee.lenient.as_str_inj)
  show ?thesis
    unfolding tokens_apart_def
    using inj_compose [OF ck reasons] inj_compose [OF ck states] by (simp only: comp_def simp_thms)
qed

theorem collection_list_exact_witness:
  "keeps_row plain_collation ''t1'' (default_query\<lparr>cq_fee_states := [Unsettled], cq_fee_expected_only := True\<rparr>)
     (hd sample_table)"
proof -
  have "hd sample_table \<in> set sample_table" by (rule hd_in_set) (use sample_rows(2) in auto)
  moreover have "keeps_row plain_collation ''t1'' (default_query\<lparr>cq_fee_states := [], cq_fee_expected_only := False\<rparr>)
      (hd sample_table)" by code_simp
  moreover have "awaiting_fee_decision (row_to_cancellation (hd sample_table))" by code_simp
  ultimately show ?thesis
    using collection_list_exact [OF sample_cancelled plain_tokens_apart] by blast
qed

theorem cancellation_pages_complete_witness:
  "let rows = [retired_row, retired_row\<lparr>cr_id := 2, cr_played_on := Some 20651\<rparr>,
         retired_row\<lparr>cr_id := 3, cr_played_on := None\<rparr>] in
     length (concat (map (\<lambda>i. list_cancellations plain_collation ''t1'' (page_query 2 i default_query) rows) [0..<2])) = 3"
proof -
  let ?rows = "[retired_row, retired_row\<lparr>cr_id := 2, cr_played_on := Some 20651\<rparr>,
         retired_row\<lparr>cr_id := 3, cr_played_on := None\<rparr>]"
  have "distinct (map cr_id ?rows)" by code_simp
  moreover have "count_cancellations plain_collation ''t1'' default_query ?rows \<le> 2 * 2" by code_simp
  ultimately obtain listing where
    "mset listing = mset (filter (keeps_row plain_collation ''t1'' default_query) ?rows)"
    "concat (map (\<lambda>i. list_cancellations plain_collation ''t1'' (page_query 2 i default_query) ?rows) [0..<2])
      = map row_to_cancellation listing"
    using cancellation_pages_complete [of ?rows "\<lambda>_. ?rows" plain_collation "''t1''" default_query 2 2] by auto
  moreover have "length (filter (keeps_row plain_collation ''t1'' default_query) ?rows) = 3" by code_simp
  ultimately show ?thesis unfolding Let_def by (metis length_map size_mset)
qed

definition noted_row :: assignment where
  "noted_row = (sample_row ''a1'' ''k1'' ''r1'' 480)\<lparr>as_notes := Some ''asked for''\<rparr>"

definition noted_replies :: cancel_replies where
  "noted_replies = sample_replies\<lparr>rp_assignments := Inr [noted_row]\<rparr>"

definition noted_effects :: cancel_effects where
  "noted_effects = snd (cancel_reservation (\<lambda>_. Some utc_clock) (Inr ()) 0 ''r1'' sample_details None noted_replies)"

theorem cancelled_booking_leaves_the_board_witness:
  "\<exists>row. apply_writes sample_store (ce_released noted_effects) [noted_row, sample_row ''a2'' ''k2'' ''r2'' 490]
     = [row, sample_row ''a2'' ''k2'' ''r2'' 490]
   \<and> as_status row = Cancelled \<and> as_notes row = Some ''asked for'' \<and> as_caddie row = ''k1''"
proof -
  let ?board = "[noted_row, sample_row ''a2'' ''k2'' ''r2'' 490]"
  have run: "cancel_reservation (\<lambda>_. Some utc_clock) (Inr ()) 0 ''r1'' sample_details None noted_replies
      = (Inr (), noted_effects)" by code_simp
  have answered: "rp_assignments noted_replies = Inr [noted_row]" "rp_release noted_replies = (\<lambda>_ _. Inr ())"
    by (simp_all add: noted_replies_def sample_replies_def)
  have covers: "covers_reservation noted_row ''r1''" "holds_the_round noted_row"
    "\<not> covers_reservation (sample_row ''a2'' ''k2'' ''r2'' 490) ''r1''"
    "as_notes noted_row = Some ''asked for''" "as_caddie noted_row = ''k1''" by code_simp+
  have ok: "board_ok utc_clock ?board" by code_simp
  have store: "keeps_writes sample_store" by (simp add: keeps_writes_def sample_store_def)
  have read: "set as \<subseteq> set ?board \<and> (\<forall>a \<in> set ?board. covers_reservation a ''r1'' \<longrightarrow> a \<in> set as)"
    if "rp_assignments noted_replies = Inr as" for as using that covers(3) by (auto simp: answered)
  show ?thesis
    using cancelled_booking_leaves_the_board [OF run read ok store refl]
    by (simp add: Let_def covers answered sample_store_def is_ok_def)
qed

end
