(* ===== verification/Catalog.thy ===== *)
theory Catalog
  imports CaddieModel TextFormats
begin

text \<open>
  What the club sells and where: courses (\<open>src/course/domain/course.rs\<close>), the order of their
  columns (\<open>course_order.rs\<close>), reservation products (\<open>product.rs\<close>), bookable resources
  (\<open>resource.rs\<close>), the weekly opening schedule with the booking horizon (\<open>schedule.rs\<close>) and the
  desk's marks on single tee times (\<open>slot_override.rs\<close>).
\<close>

type_synonym resource_id = str
type_synonym service_id = str

section \<open>Courses\<close>

definition hole_count_try_new :: "int \<Rightarrow> int result" where
  "hole_count_try_new v =
     (if v = 9 \<or> v = 18 then Inr v else Inl (BadRequest ''hole count must be 9 or 18''))"

definition hole_count_from_raw :: "int \<Rightarrow> int" where
  "hole_count_from_raw v = (if 0 < v then v else 18)"

definition interval_try_new :: "int \<Rightarrow> int result" where
  "interval_try_new v = (if 1 \<le> v \<and> v \<le> 60 then Inr v
     else Inl (BadRequest ''start interval must be between 1 and 60 minutes''))"

definition interval_from_raw :: "int \<Rightarrow> int" where
  "interval_from_raw v = (if 1 \<le> v \<and> v \<le> 60 then v else 10)"

text \<open>The first five characters of a clock text, read as \<open>HH:MM\<close>; a sign is read by \<open>parse\<close>.\<close>

definition clock_head :: "str \<Rightarrow> str" where
  "clock_head v = take_chars 5 (trim v)"

definition below :: "nat \<Rightarrow> nat option \<Rightarrow> bool" where
  "below n v = (case v of None \<Rightarrow> False | Some k \<Rightarrow> k \<le> n)"

definition hours_normalize_clock :: "str \<Rightarrow> str result" where
  "hours_normalize_clock v =
     (let head = clock_head v in
      if length head = 5 \<and> head ! 2 = CHR '':'' \<and> below 23 (parse_u8 (take 2 head))
         \<and> below 59 (parse_u8 (drop 3 head))
      then Inr head else Inl (BadRequest ''opening hours must look like HH:MM''))"

record business_hours =
  bh_open :: str
  bh_close :: str

definition business_hours_try_new :: "str \<Rightarrow> str \<Rightarrow> business_hours result" where
  "business_hours_try_new opens closes =
     (case hours_normalize_clock opens of Inl e \<Rightarrow> Inl e | Inr a \<Rightarrow>
     (case hours_normalize_clock closes of Inl e \<Rightarrow> Inl e | Inr b \<Rightarrow>
        if b \<le> a then Inl (BadRequest ''a course must close after it opens'')
        else Inr \<lparr>bh_open = a, bh_close = b\<rparr>))"

record upsert_course =
  uc_name :: str
  uc_short_name :: "str option"
  uc_holes :: int
  uc_interval :: int
  uc_active :: bool
  uc_hours :: "business_hours option"

definition upsert_course_try_new ::
  "str \<Rightarrow> str option \<Rightarrow> int \<Rightarrow> int \<Rightarrow> bool \<Rightarrow> business_hours option \<Rightarrow> upsert_course result" where
  "upsert_course_try_new name short holes interval active hours =
     (if trim name = [] then Inl (BadRequest ''course name is required'')
      else case hole_count_try_new holes of Inl e \<Rightarrow> Inl e | Inr h \<Rightarrow>
      (case interval_try_new interval of Inl e \<Rightarrow> Inl e
       | Inr i \<Rightarrow> Inr \<lparr>uc_name = trim name, uc_short_name = trimmed short, uc_holes = h,
           uc_interval = i, uc_active = active, uc_hours = hours\<rparr>))"

record course =
  co_id :: course_id
  co_name :: str
  co_short_name :: "str option"
  co_holes :: int
  co_timezone :: str
  co_interval :: int
  co_active :: bool
  co_open :: "str option"
  co_close :: "str option"
  co_created_at :: "instant option"
  co_updated_at :: "instant option"

definition course_reconstitute ::
  "course_id \<Rightarrow> str \<Rightarrow> str option \<Rightarrow> int \<Rightarrow> str \<Rightarrow> int \<Rightarrow> bool \<Rightarrow> str option \<Rightarrow> str option
    \<Rightarrow> instant option \<Rightarrow> instant option \<Rightarrow> course" where
  "course_reconstitute cid name short holes tz interval active opens closes created updated =
     \<lparr>co_id = cid, co_name = name, co_short_name = trimmed short,
      co_holes = hole_count_from_raw holes,
      co_timezone = (if trim tz = [] then ''Asia/Tokyo'' else tz),
      co_interval = interval_from_raw interval, co_active = active, co_open = opens,
      co_close = closes, co_created_at = created, co_updated_at = updated\<rparr>"

definition display_label :: "course \<Rightarrow> str" where
  "display_label c = unwrap_or (co_short_name c) (co_name c)"

section \<open>The order of the columns\<close>

fun order_fold :: "course_id list \<Rightarrow> course_id list \<Rightarrow> course_id list" where
  "order_fold seen [] = seen"
| "order_fold seen (c # cs) =
     order_fold (if trim c = [] \<or> c \<in> set seen then seen else seen @ [c]) cs"

definition course_order_new :: "course_id list \<Rightarrow> course_id list" where
  "course_order_new ids = order_fold [] ids"

definition order_position :: "course_id list \<Rightarrow> course_id \<Rightarrow> nat option" where
  "order_position order c = position (\<lambda>x. x = c) order"

text \<open>\<open>arrange\<close>: placed courses first in the stored order, the others by the fallback; the
  comparator is \<open>cmp != Greater\<close>.\<close>

definition arranged_before ::
  "course_id list \<Rightarrow> ('a \<Rightarrow> course_id) \<Rightarrow> ('a \<Rightarrow> 'a \<Rightarrow> bool) \<Rightarrow> 'a \<Rightarrow> 'a \<Rightarrow> bool" where
  "arranged_before order cid fallback a b =
     (case (order_position order (cid a), order_position order (cid b)) of
        (Some i, Some j) \<Rightarrow> i \<le> j
      | (Some _, None) \<Rightarrow> True
      | (None, Some _) \<Rightarrow> False
      | (None, None) \<Rightarrow> fallback a b)"

definition arrange :: "course_id list \<Rightarrow> ('a \<Rightarrow> course_id) \<Rightarrow> ('a \<Rightarrow> 'a \<Rightarrow> bool) \<Rightarrow> 'a list \<Rightarrow> 'a list" where
  "arrange order cid fallback items = sort_by (arranged_before order cid fallback) items"

definition read_course_order :: "course_id list result \<Rightarrow> course_id list result \<Rightarrow> course_id list result" where
  "read_course_order stored legacy =
     (case stored of Inl e \<Rightarrow> Inl e | Inr order \<Rightarrow> if order \<noteq> [] then Inr order else legacy)"

definition replace_course_order ::
  "unit result \<Rightarrow> course list result \<Rightarrow> course_id list \<Rightarrow> course_id list result" where
  "replace_course_order permitted courses ids =
     (case permitted of Inl e \<Rightarrow> Inl e | Inr _ \<Rightarrow>
     (case courses of Inl e \<Rightarrow> Inl e
      | Inr cs \<Rightarrow> Inr (course_order_new (filter (\<lambda>i. i \<in> co_id ` set cs) ids))))"

section \<open>Products\<close>

datatype play_type = CaddiePlay | SelfPlay

fun play_type_as_str :: "play_type \<Rightarrow> str" where
  "play_type_as_str CaddiePlay = ''caddie''"
| "play_type_as_str SelfPlay = ''self''"

definition play_type_parse :: "str \<Rightarrow> play_type" where
  "play_type_parse raw = (if eq_ignore_ascii_case raw ''caddie'' then CaddiePlay else SelfPlay)"

definition play_requires_caddie :: "play_type \<Rightarrow> bool" where
  "play_requires_caddie p \<longleftrightarrow> p = CaddiePlay"

interpretation play: wire_enum play_type_as_str play_type_parse
proof
  show "play_type_parse (play_type_as_str x) = x" for x by (cases x; hypsubst; code_simp)
qed

definition duration_try_new :: "int \<Rightarrow> int result" where
  "duration_try_new v = (if 30 \<le> v \<and> v \<le> 720 then Inr v
     else Inl (BadRequest ''expected duration must be between 30 and 720 minutes''))"

definition duration_from_raw :: "int \<Rightarrow> int" where
  "duration_from_raw v = (if 0 < v then v else 270)"

definition MAX_DISPLAY_NAME_LENGTH :: nat where "MAX_DISPLAY_NAME_LENGTH = 255"

definition validate_group_size :: "int option \<Rightarrow> int option result" where
  "validate_group_size v =
     (case v of None \<Rightarrow> Inr None
      | Some n \<Rightarrow> if 1 \<le> n \<and> n \<le> 99 then Inr (Some n)
          else Inl (BadRequest ''players per group must be between 1 and 99''))"

record upsert_product =
  up_service :: service_id
  up_name :: "str option"
  up_play :: play_type
  up_holes :: int
  up_duration :: int
  up_max_players :: "int option"
  up_courses :: "course_id list"
  up_legacy :: bool

definition checked_name :: "str option \<Rightarrow> str option result" where
  "checked_name name =
     (case name of None \<Rightarrow> Inr None
      | Some s \<Rightarrow>
          if trim s = [] then Inl (BadRequest ''display name must not be empty'')
          else if MAX_DISPLAY_NAME_LENGTH < char_count (trim s)
          then Inl (BadRequest ''display name must be at most 255 characters'')
          else Inr (Some (trim s)))"

definition product_try_new_inner ::
  "str \<Rightarrow> str option \<Rightarrow> str \<Rightarrow> int \<Rightarrow> int \<Rightarrow> course_id list \<Rightarrow> int option \<Rightarrow> bool \<Rightarrow> upsert_product result" where
  "product_try_new_inner service name play holes duration courses max_players legacy =
     (case checked_name name of Inl e \<Rightarrow> Inl e | Inr n \<Rightarrow>
     (case id_try_new ''reservation service id'' service of Inl e \<Rightarrow> Inl e | Inr sid \<Rightarrow>
     (case (if is_ok (hole_count_try_new holes) then Inr holes
            else if 0 < holes then Inr (hole_count_from_raw holes)
            else Inl (BadRequest ''hole count must be positive'')) of Inl e \<Rightarrow> Inl e | Inr h \<Rightarrow>
     (case duration_try_new duration of Inl e \<Rightarrow> Inl e | Inr d \<Rightarrow>
     (case validate_group_size max_players of Inl e \<Rightarrow> Inl e
      | Inr m \<Rightarrow> Inr \<lparr>up_service = sid, up_name = n, up_play = play_type_parse play, up_holes = h,
          up_duration = d, up_max_players = m, up_courses = courses, up_legacy = legacy\<rparr>)))))"

definition product_try_new ::
  "str \<Rightarrow> str option \<Rightarrow> str \<Rightarrow> int \<Rightarrow> int \<Rightarrow> str option \<Rightarrow> int option \<Rightarrow> upsert_product result" where
  "product_try_new service name play holes duration course max_players =
     product_try_new_inner service name play holes duration
       (case id_from_optional course of None \<Rightarrow> [] | Some c \<Rightarrow> [c]) max_players True"

fun unique_ids :: "course_id list \<Rightarrow> str list \<Rightarrow> course_id list result" where
  "unique_ids acc [] = Inr acc"
| "unique_ids acc (c # cs) =
     (case id_try_new ''course id'' c of Inl e \<Rightarrow> Inl e
      | Inr cid \<Rightarrow> unique_ids (if cid \<in> set acc then acc else acc @ [cid]) cs)"

definition product_try_new_with_course_ids ::
  "str \<Rightarrow> str option \<Rightarrow> str \<Rightarrow> int \<Rightarrow> int \<Rightarrow> str list \<Rightarrow> int option \<Rightarrow> upsert_product result" where
  "product_try_new_with_course_ids service name play holes duration courses max_players =
     (if courses = [] then Inl (BadRequest ''golfCourseIds must contain at least one course'')
      else case unique_ids [] courses of Inl e \<Rightarrow> Inl e
      | Inr ids \<Rightarrow> product_try_new_inner service name play holes duration ids max_players False)"

record product =
  rp_id :: str
  rp_tenant :: "str option"
  rp_service :: service_id
  rp_name :: "str option"
  rp_play :: play_type
  rp_holes :: int
  rp_duration :: int
  rp_courses :: "course_id list"
  rp_scope_declared :: bool
  rp_max_players :: "int option"

definition product_reconstitute_inner ::
  "str \<Rightarrow> str option \<Rightarrow> service_id \<Rightarrow> str option \<Rightarrow> play_type \<Rightarrow> int \<Rightarrow> int \<Rightarrow> course_id list \<Rightarrow> bool
    \<Rightarrow> int option \<Rightarrow> product" where
  "product_reconstitute_inner pid tenant service name play holes duration courses declared max_players =
     \<lparr>rp_id = pid, rp_tenant = id_from_optional tenant, rp_service = service, rp_name = trimmed name,
      rp_play = play, rp_holes = hole_count_from_raw holes, rp_duration = duration_from_raw duration,
      rp_courses = courses, rp_scope_declared = declared, rp_max_players = positive max_players\<rparr>"

definition product_reconstitute ::
  "str \<Rightarrow> str option \<Rightarrow> service_id \<Rightarrow> str option \<Rightarrow> play_type \<Rightarrow> int \<Rightarrow> int \<Rightarrow> str option \<Rightarrow> int option
    \<Rightarrow> product" where
  "product_reconstitute pid tenant service name play holes duration course max_players =
     (let courses = (case id_from_optional course of None \<Rightarrow> [] | Some c \<Rightarrow> [c]) in
      product_reconstitute_inner pid tenant service name play holes duration courses (courses \<noteq> []) max_players)"

fun readable_ids :: "course_id list \<Rightarrow> str list \<Rightarrow> course_id list" where
  "readable_ids acc [] = acc"
| "readable_ids acc (c # cs) =
     (case id_from_optional (Some c) of None \<Rightarrow> readable_ids acc cs
      | Some cid \<Rightarrow> readable_ids (if cid \<in> set acc then acc else acc @ [cid]) cs)"

definition product_reconstitute_with_course_ids ::
  "str \<Rightarrow> str option \<Rightarrow> service_id \<Rightarrow> str option \<Rightarrow> play_type \<Rightarrow> int \<Rightarrow> int \<Rightarrow> str list \<Rightarrow> int option
    \<Rightarrow> product" where
  "product_reconstitute_with_course_ids pid tenant service name play holes duration courses max_players =
     product_reconstitute_inner pid tenant service name play holes duration (readable_ids [] courses) True max_players"

definition sole_course :: "course_id list \<Rightarrow> course_id option" where
  "sole_course cs = (case cs of [c] \<Rightarrow> Some c | _ \<Rightarrow> None)"

definition is_sold_on :: "product \<Rightarrow> course_id \<Rightarrow> bool" where
  "is_sold_on p c \<longleftrightarrow> \<not> rp_scope_declared p \<or> c \<in> set (rp_courses p)"

section \<open>Resources\<close>

datatype resource_kind = CourseKind | TeeKind | OtherKind

definition resource_kind_parse :: "str \<Rightarrow> resource_kind" where
  "resource_kind_parse raw = (let k = wire_key raw in
     if k = ''course'' then CourseKind else if k = ''tee'' then TeeKind else OtherKind)"

fun resource_kind_as_str :: "resource_kind \<Rightarrow> str" where
  "resource_kind_as_str CourseKind = ''course''"
| "resource_kind_as_str TeeKind = ''tee''"
| "resource_kind_as_str OtherKind = ''other''"

interpretation resource_kind: wire_enum resource_kind_as_str resource_kind_parse
proof
  show "resource_kind_parse (resource_kind_as_str x) = x" for x by (cases x; hypsubst; code_simp)
qed

record resource =
  rs_id :: resource_id
  rs_name :: str
  rs_reservation_resource :: "resource_id option"
  rs_course :: "course_id option"
  rs_kind :: resource_kind
  rs_active :: bool

definition resource_reconstitute ::
  "resource_id \<Rightarrow> str \<Rightarrow> str option \<Rightarrow> str option \<Rightarrow> resource_kind \<Rightarrow> bool \<Rightarrow> resource" where
  "resource_reconstitute rid name linked course kind active =
     \<lparr>rs_id = rid, rs_name = name, rs_reservation_resource = id_from_optional linked,
      rs_course = id_from_optional course, rs_kind = kind, rs_active = active\<rparr>"

definition matches_reservation_resource :: "resource \<Rightarrow> resource_id \<Rightarrow> bool" where
  "matches_reservation_resource r rid \<longleftrightarrow> rs_id r = rid \<or> rs_reservation_resource r = Some rid"

definition resolved_course_id :: "resource \<Rightarrow> course_id" where
  "resolved_course_id r = unwrap_or (rs_course r) (rs_id r)"

section \<open>The weekly schedule\<close>

record availability_rule =
  ru_id :: "str option"
  ru_weekday :: int
  ru_start :: str
  ru_end :: str
  ru_capacity :: int
  ru_interval :: int

text \<open>\<open>normalize_clock\<close> of \<open>schedule.rs\<close> and \<open>slot_override.rs\<close>, which differ in the message.\<close>

definition strict_clock :: "str \<Rightarrow> str \<Rightarrow> str result" where
  "strict_clock message v =
     (let head = clock_head v in
      if length head = 5 \<and> head ! 2 = CHR '':'' \<and> list_all is_digit (take 2 head)
         \<and> list_all is_digit (drop 3 head) \<and> below 23 (parse_u8 (take 2 head))
         \<and> below 59 (parse_u8 (drop 3 head))
      then Inr head else Inl (BadRequest message))"

definition rule_try_new :: "str option \<Rightarrow> int \<Rightarrow> str \<Rightarrow> str \<Rightarrow> int \<Rightarrow> int \<Rightarrow> availability_rule result" where
  "rule_try_new rid weekday starts ends capacity interval =
     (if 6 < weekday then Inl (BadRequest ''weekday must be 0..=6'')
      else case strict_clock ''times must look like HH:MM'' starts of Inl e \<Rightarrow> Inl e | Inr a \<Rightarrow>
      (case strict_clock ''times must look like HH:MM'' ends of Inl e \<Rightarrow> Inl e | Inr b \<Rightarrow>
        if b \<le> a then Inl (BadRequest ''the end of a band must be after its start'')
        else if capacity < 0 then Inl (BadRequest ''capacity must not be negative'')
        else if \<not> (1 \<le> interval \<and> interval \<le> 24 * 60)
        then Inl (BadRequest ''start interval must be between 1 and 1440 minutes'')
        else Inr \<lparr>ru_id = (case rid of None \<Rightarrow> None | Some s \<Rightarrow> if trim s = [] then None else Some s),
          ru_weekday = weekday, ru_start = a, ru_end = b, ru_capacity = capacity, ru_interval = interval\<rparr>))"

definition courseboard_weekday_to_field :: "int \<Rightarrow> int" where
  "courseboard_weekday_to_field w = (w + 6) mod 7"

text \<open>The remainder of a negative number takes its sign in Rust.\<close>

definition remainder :: "int \<Rightarrow> int \<Rightarrow> int" where
  "remainder a b = a - b * quotient_i a b"

definition field_day_of_week_to_courseboard :: "int \<Rightarrow> int" where
  "field_day_of_week_to_courseboard d = remainder (remainder d 7 + 8) 7"

section \<open>The booking horizon\<close>

datatype booking_horizon = HorizonDays int | HorizonThrough date

definition HORIZON_MAX_DAYS :: int where "HORIZON_MAX_DAYS = 399"

definition horizon_try_days :: "int \<Rightarrow> booking_horizon result" where
  "horizon_try_days n = (if 1 \<le> n \<and> n \<le> HORIZON_MAX_DAYS then Inr (HorizonDays n)
     else Inl (BadRequest ''booking horizon must be between 1 and 399 days''))"

definition default_horizon :: booking_horizon where "default_horizon = HorizonDays 180"

fun field_rolling_window_days :: "booking_horizon \<Rightarrow> int option" where
  "field_rolling_window_days (HorizonDays n) = (if 1 \<le> n \<and> n \<le> 365 then Some n else None)"
| "field_rolling_window_days (HorizonThrough d) = None"

fun horizon_validate_on :: "date \<Rightarrow> booking_horizon \<Rightarrow> unit result" where
  "horizon_validate_on today (HorizonDays n) = Inr ()"
| "horizon_validate_on today (HorizonThrough d) =
     (if d < today then Inl (BadRequest ''the last bookable date cannot be in the past'')
      else if today + HORIZON_MAX_DAYS < d
      then Inl (BadRequest ''the last bookable date cannot be more than 399 days ahead'')
      else Inr ())"

fun last_bookable_date :: "date \<Rightarrow> booking_horizon \<Rightarrow> date" where
  "last_bookable_date today (HorizonDays n) = today + n"
| "last_bookable_date today (HorizonThrough d) = min d (today + HORIZON_MAX_DAYS)"

section \<open>Marks on a tee time\<close>

datatype override_kind = SlotClosed | SpecialRate

fun override_as_str :: "override_kind \<Rightarrow> str" where
  "override_as_str SlotClosed = ''closed''"
| "override_as_str SpecialRate = ''special_rate''"

definition override_parse :: "str \<Rightarrow> override_kind result" where
  "override_parse raw = (let k = wire_key raw in
     if k = ''closed'' then Inr SlotClosed
     else if k = ''special_rate'' \<or> k = ''specialrate'' then Inr SpecialRate
     else Inl (BadRequest (''slot mark must be 'closed' or 'special_rate'' @ [CHR 0x27])))"

interpretation override: wire_code override_as_str override_parse SlotClosed
proof
  show "override_parse (override_as_str x) = Inr x" for x by (cases x; hypsubst; code_simp)
qed

record slot_override =
  so_course :: course_id
  so_date :: date
  so_tee_time :: str
  so_kind :: override_kind
  so_label :: "str option"
  so_note :: "str option"

definition mark_text :: "str option \<Rightarrow> str option result" where
  "mark_text v =
     (case trimmed v of None \<Rightarrow> Inr None
      | Some s \<Rightarrow> if 120 < char_count s then Inl (BadRequest ''text must be at most 120 characters'')
          else Inr (Some s))"

definition override_try_new ::
  "course_id \<Rightarrow> date \<Rightarrow> str \<Rightarrow> override_kind \<Rightarrow> str option \<Rightarrow> str option \<Rightarrow> slot_override result" where
  "override_try_new c d tee_time kind label note =
     (case strict_clock ''tee times must look like HH:MM'' tee_time of Inl e \<Rightarrow> Inl e | Inr t \<Rightarrow>
     (case mark_text label of Inl e \<Rightarrow> Inl e | Inr l \<Rightarrow>
     (case mark_text note of Inl e \<Rightarrow> Inl e
      | Inr n \<Rightarrow> Inr \<lparr>so_course = c, so_date = d, so_tee_time = t, so_kind = kind,
          so_label = l, so_note = n\<rparr>)))"

definition is_closed :: "slot_override \<Rightarrow> bool" where
  "is_closed m \<longleftrightarrow> so_kind m = SlotClosed"

definition is_tee_time_closed :: "slot_override list \<Rightarrow> str \<Rightarrow> bool result" where
  "is_tee_time_closed marks tee_time =
     (case strict_clock ''tee times must look like HH:MM'' tee_time of Inl e \<Rightarrow> Inl e
      | Inr wanted \<Rightarrow> Inr (\<exists>m \<in> set marks. is_closed m \<and> so_tee_time m = wanted))"

record upsert_overrides =
  uo_course :: course_id
  uo_date :: date
  uo_tee_times :: "str list"
  uo_kind :: override_kind
  uo_label :: "str option"
  uo_note :: "str option"

fun collect_results :: "'a result list \<Rightarrow> 'a list result" where
  "collect_results [] = Inr []"
| "collect_results (r # rs) =
     (case r of Inl e \<Rightarrow> Inl e
      | Inr x \<Rightarrow> (case collect_results rs of Inl e \<Rightarrow> Inl e | Inr xs \<Rightarrow> Inr (x # xs)))"

definition into_overrides :: "upsert_overrides \<Rightarrow> slot_override list result" where
  "into_overrides u =
     (if uo_tee_times u = [] then Inl (BadRequest ''at least one tee time is required'')
      else collect_results (map (\<lambda>t. override_try_new (uo_course u) (uo_date u) t (uo_kind u)
        (uo_label u) (uo_note u)) (uo_tee_times u)))"

end
