(* ===== verification/TeeSheet.thy ===== *)
theory TeeSheet
  imports Catalog Party AssignmentOps
begin

text \<open>
  The day board: \<open>src/course/domain/tee_sheet.rs\<close>, the use case that composes it from the
  reservations and the catalog (\<open>src/course/usecase/get_tee_sheet.rs\<close>) and the days one request
  covers (\<open>TeeSheetQuery\<close> in \<open>ports.rs\<close>). How an instant is written in the tenant's zone and
  which instant a wall clock names belong to the time zone crate; \<open>zone_texts\<close> stands for them.
\<close>

section \<open>The days of a request\<close>

definition MAX_TEE_SHEET_DAYS :: nat where "MAX_TEE_SHEET_DAYS = 31"

record tee_sheet_query =
  tq_date :: date
  tq_to :: "date option"
  tq_course :: "course_id option"

fun dates_from :: "calendar \<Rightarrow> date \<Rightarrow> nat \<Rightarrow> date \<Rightarrow> date list" where
  "dates_from cal final 0 d = []"
| "dates_from cal final (Suc room) d =
     (if d \<le> final then d # (case cal_succ cal d of None \<Rightarrow> [] | Some next_day \<Rightarrow> dates_from cal final room next_day)
      else [])"

definition query_dates :: "calendar \<Rightarrow> tee_sheet_query \<Rightarrow> date list" where
  "query_dates cal q =
     (let final = (case tq_to q of None \<Rightarrow> tq_date q | Some t \<Rightarrow> if tq_date q < t then t else tq_date q)
      in dates_from cal final MAX_TEE_SHEET_DAYS (tq_date q))"

section \<open>Rows\<close>

datatype sheet_status = SheetConfirmed | SheetCompleted | SheetCancelled | SheetNoShow

fun sheet_status_as_str :: "sheet_status \<Rightarrow> str" where
  "sheet_status_as_str SheetConfirmed = ''confirmed''"
| "sheet_status_as_str SheetCompleted = ''completed''"
| "sheet_status_as_str SheetCancelled = ''cancelled''"
| "sheet_status_as_str SheetNoShow = ''no_show''"

definition from_reservation_status :: "str \<Rightarrow> sheet_status" where
  "from_reservation_status s =
     (if s = ''completed'' then SheetCompleted
      else if s = ''cancelled'' \<or> s = ''rejected'' \<or> s = ''cancel_requested'' then SheetCancelled
      else if s = ''no_show'' then SheetNoShow else SheetConfirmed)"

interpretation sheet_status: wire_enum sheet_status_as_str from_reservation_status
proof
  show "from_reservation_status (sheet_status_as_str x) = x" for x by (cases x; hypsubst; code_simp)
qed

record tee_sheet_item =
  ti_id :: reservation_id
  ti_number :: str
  ti_service :: "service_id option"
  ti_display_name :: "str option"
  ti_course :: course_id
  ti_course_name :: str
  ti_expected_courses :: "course_id list"
  ti_tee_time :: str
  ti_duration :: int
  ti_play :: play_type
  ti_party_size :: int
  ti_party_name :: str
  ti_customer :: "customer_id option"
  ti_party :: party_details
  ti_status :: sheet_status
  ti_holes :: int
  ti_notes :: "str option"

definition tee_sheet_item_new ::
  "reservation_id \<Rightarrow> str \<Rightarrow> str option \<Rightarrow> str option \<Rightarrow> course_id \<Rightarrow> str \<Rightarrow> course_id list \<Rightarrow> str \<Rightarrow> int
    \<Rightarrow> play_type \<Rightarrow> int \<Rightarrow> str \<Rightarrow> sheet_status \<Rightarrow> int \<Rightarrow> str option \<Rightarrow> tee_sheet_item" where
  "tee_sheet_item_new rid number service name course course_name expected tee_time duration play
     size_of party_name status holes notes =
     \<lparr>ti_id = rid, ti_number = number, ti_service = trimmed service, ti_display_name = trimmed name,
      ti_course = course, ti_course_name = course_name, ti_expected_courses = expected,
      ti_tee_time = tee_time, ti_duration = max duration 15, ti_play = play,
      ti_party_size = max size_of 1, ti_party_name = party_name, ti_customer = None,
      ti_party = no_party, ti_status = status, ti_holes = (if 0 < holes then holes else 18),
      ti_notes = notes\<rparr>"

definition item_requires_caddie :: "tee_sheet_item \<Rightarrow> bool" where
  "item_requires_caddie i = play_requires_caddie (ti_play i)"

definition course_mismatch :: "tee_sheet_item \<Rightarrow> bool" where
  "course_mismatch i \<longleftrightarrow> ti_expected_courses i \<noteq> [] \<and> ti_course i \<notin> set (ti_expected_courses i)"

definition unnamed_seat_count :: "tee_sheet_item \<Rightarrow> int" where
  "unnamed_seat_count i =
     (if pd_players (ti_party i) = [] then 0
      else max (ti_party_size i - named_player_count (ti_party i)) 0)"

section \<open>The sheet\<close>

record tee_sheet =
  ts_date :: date
  ts_timezone :: str
  ts_day_start :: str
  ts_day_end :: str
  ts_items :: "tee_sheet_item list"
  ts_unavailable :: "str list"

text \<open>The sort key: the tee time as text, then the course's name, then the booking's number.\<close>

definition item_key :: "tee_sheet_item \<Rightarrow> str \<times> str \<times> str" where
  "item_key i = (ti_tee_time i, ti_course_name i, ti_number i)"

definition tee_sheet_new :: "date \<Rightarrow> str \<Rightarrow> str \<Rightarrow> str \<Rightarrow> tee_sheet_item list \<Rightarrow> tee_sheet" where
  "tee_sheet_new d tz day_start day_end items =
     \<lparr>ts_date = d, ts_timezone = tz, ts_day_start = day_start, ts_day_end = day_end,
      ts_items = sort_by (key_le item_key) items, ts_unavailable = []\<rparr>"

definition extended_with :: "tee_sheet \<Rightarrow> tee_sheet \<Rightarrow> tee_sheet" where
  "extended_with s later = s\<lparr>ts_items := ts_items s @ ts_items later\<rparr>"

section \<open>Building a day\<close>

record zone_texts =
  zt_stamp :: "instant \<Rightarrow> str"
  zt_clock :: "instant \<Rightarrow> str"
  zt_wall :: "date \<Rightarrow> int \<Rightarrow> int \<Rightarrow> instant option"

type_synonym text_zones = "str \<Rightarrow> zone_texts"

definition format_datetime_in_timezone :: "zones \<Rightarrow> text_zones \<Rightarrow> instant \<Rightarrow> str \<Rightarrow> str result" where
  "format_datetime_in_timezone zone texts t tz =
     (case parse_tenant_timezone zone tz of Inl e \<Rightarrow> Inl e | Inr _ \<Rightarrow> Inr (zt_stamp (texts tz) t))"

definition format_tenant_wall_clock ::
  "zones \<Rightarrow> text_zones \<Rightarrow> date \<Rightarrow> int \<Rightarrow> int \<Rightarrow> str \<Rightarrow> str result" where
  "format_tenant_wall_clock zone texts d h m tz =
     (if \<not> (0 \<le> h \<and> h \<le> 23 \<and> 0 \<le> m \<and> m \<le> 59) then Inl (BadRequest ''invalid wall clock'')
      else case parse_tenant_timezone zone tz of Inl e \<Rightarrow> Inl e | Inr _ \<Rightarrow>
      (case zt_wall (texts tz) d h m of
         None \<Rightarrow> Inl (Provider ''wall clock does not exist in tenant timezone'')
       | Some t \<Rightarrow> Inr (zt_stamp (texts tz) t)))"

definition DEFAULT_DURATION_MINUTES :: int where "DEFAULT_DURATION_MINUTES = 270"

definition name_of_course :: "course list \<Rightarrow> course_id \<Rightarrow> str option" where
  "name_of_course courses c = map_option co_name (List.find (\<lambda>x. co_id x = c) courses)"

definition resolve_course :: "reservation \<Rightarrow> resource list \<Rightarrow> course list \<Rightarrow> course_id \<times> str" where
  "resolve_course r resources courses =
     (case rv_course r of
        Some c \<Rightarrow>
          (c, case name_of_course courses c of Some n \<Rightarrow> n
              | None \<Rightarrow> (case List.find (\<lambda>x. rs_id x = c) resources of Some x \<Rightarrow> rs_name x | None \<Rightarrow> c))
      | None \<Rightarrow>
         (case rv_resource r of
            None \<Rightarrow> ([], ''Unassigned course'')
          | Some rid \<Rightarrow>
             (case List.find (\<lambda>x. matches_reservation_resource x rid) resources of
                Some x \<Rightarrow> (resolved_course_id x,
                  unwrap_or (name_of_course courses (resolved_course_id x)) (rs_name x))
              | None \<Rightarrow>
                 (case List.find (\<lambda>c. co_id c = rid) courses of
                    Some c \<Rightarrow> (co_id c, co_name c)
                  | None \<Rightarrow> ([], ''Unassigned course'')))))"

definition to_tee_sheet_item ::
  "zones \<Rightarrow> text_zones \<Rightarrow> reservation \<Rightarrow> product option \<Rightarrow> course_id \<Rightarrow> str \<Rightarrow> str \<Rightarrow> tee_sheet_item result" where
  "to_tee_sheet_item zone texts r p course course_name tz =
     (let duration = (case duration_minutes_from_range r of Some n \<Rightarrow> n
            | None \<Rightarrow> (case p of Some x \<Rightarrow> rp_duration x | None \<Rightarrow> DEFAULT_DURATION_MINUTES));
          play = (case p of Some x \<Rightarrow> rp_play x | None \<Rightarrow> SelfPlay);
          holes = (case p of Some x \<Rightarrow> if 0 < rp_holes x then rp_holes x else 18 | None \<Rightarrow> 18)
      in case format_datetime_in_timezone zone texts (rv_starts_at r) tz of Inl e \<Rightarrow> Inl e
         | Inr stamp \<Rightarrow> Inr ((tee_sheet_item_new (rv_id r) (rv_number r) (rv_service r)
             (Option.bind p rp_name) course course_name (case p of Some x \<Rightarrow> rp_courses x | None \<Rightarrow> [])
             stamp duration play (party_size r) (party_display_name r)
             (from_reservation_status (rv_status r)) holes (rv_notes r))
             \<lparr>ti_party := rv_party r, ti_customer := rv_customer r\<rparr>))"

definition product_for :: "product list \<Rightarrow> reservation \<Rightarrow> product option" where
  "product_for products r =
     Option.bind (rv_service r) (collect_map (map (\<lambda>p. (rp_service p, p)) products))"

definition on_sheet ::
  "clock \<Rightarrow> date \<Rightarrow> course_id option \<Rightarrow> resource list \<Rightarrow> course list \<Rightarrow> reservation \<Rightarrow> bool" where
  "on_sheet clk d only resources courses r \<longleftrightarrow> is_tee_sheet_candidate r \<and> occurs_on_date clk d r
     \<and> (case only of None \<Rightarrow> True | Some c \<Rightarrow> fst (resolve_course r resources courses) = c)"

definition sheet_row ::
  "zones \<Rightarrow> text_zones \<Rightarrow> resource list \<Rightarrow> course list \<Rightarrow> product list \<Rightarrow> str \<Rightarrow> reservation
    \<Rightarrow> tee_sheet_item result" where
  "sheet_row zone texts resources courses products tz r =
     (let (c, name) = resolve_course r resources courses
      in to_tee_sheet_item zone texts r (product_for products r) c name tz)"

definition build_tee_sheet ::
  "zones \<Rightarrow> text_zones \<Rightarrow> date \<Rightarrow> course_id option \<Rightarrow> reservation list \<Rightarrow> course list \<Rightarrow> resource list
    \<Rightarrow> product list \<Rightarrow> str \<Rightarrow> tee_sheet result" where
  "build_tee_sheet zone texts d only reservations courses resources products tz =
     (case parse_tenant_timezone zone tz of Inl e \<Rightarrow> Inl e | Inr clk \<Rightarrow>
     (case collect_results (map (sheet_row zone texts resources courses products tz)
             (filter (on_sheet clk d only resources courses) reservations)) of Inl e \<Rightarrow> Inl e
      | Inr items \<Rightarrow>
     (case format_tenant_wall_clock zone texts d 6 0 tz of Inl e \<Rightarrow> Inl e | Inr day_start \<Rightarrow>
     (case format_tenant_wall_clock zone texts d 18 0 tz of Inl e \<Rightarrow> Inl e
      | Inr day_end \<Rightarrow> Inr (tee_sheet_new d tz day_start day_end items)))))"

text \<open>What the five concurrent reads answer; the last two only decorate the rows.\<close>

record sheet_reads =
  sd_reservations :: "reservation list result"
  sd_courses :: "course list result"
  sd_timezone :: "str result"
  sd_resources :: "resource list result"
  sd_products :: "product list result"

definition or_empty :: "'a list result \<Rightarrow> str \<Rightarrow> str list \<times> 'a list" where
  "or_empty r label = (case r of Inl _ \<Rightarrow> ([label], []) | Inr xs \<Rightarrow> ([], xs))"

fun extend_days :: "(date \<Rightarrow> tee_sheet result) \<Rightarrow> date list \<Rightarrow> tee_sheet \<Rightarrow> tee_sheet result" where
  "extend_days build [] s = Inr s"
| "extend_days build (d # ds) s =
     (case build d of Inl e \<Rightarrow> Inl e | Inr later \<Rightarrow> extend_days build ds (extended_with s later))"

definition get_tee_sheet ::
  "calendar \<Rightarrow> zones \<Rightarrow> text_zones \<Rightarrow> unit result \<Rightarrow> tee_sheet_query \<Rightarrow> sheet_reads \<Rightarrow> tee_sheet result" where
  "get_tee_sheet cal zone texts permitted q reads =
     (case permitted of Inl e \<Rightarrow> Inl e | Inr _ \<Rightarrow>
     (case sd_reservations reads of Inl e \<Rightarrow> Inl e | Inr reservations \<Rightarrow>
     (case sd_courses reads of Inl e \<Rightarrow> Inl e | Inr courses \<Rightarrow>
     (case sd_timezone reads of Inl e \<Rightarrow> Inl e | Inr tz \<Rightarrow>
        let (no_resources, resources) = or_empty (sd_resources reads) ''resources'';
            (no_products, products) = or_empty (sd_products reads) ''reservationProducts'';
            build = (\<lambda>d. build_tee_sheet zone texts d (tq_course q) reservations courses resources products tz)
        in case build (tq_date q) of Inl e \<Rightarrow> Inl e | Inr first \<Rightarrow>
           (case extend_days build (drop 1 (query_dates cal q)) first of Inl e \<Rightarrow> Inl e
            | Inr s \<Rightarrow> Inr (s\<lparr>ts_unavailable := no_resources @ no_products\<rparr>))))))"

end
