(* ===== verification/TeeLedger.thy ===== *)
theory TeeLedger
  imports TeeSheet
begin

text \<open>
  The start-time ledger, one column per course and one row per tee time:
  \<open>src/course/domain/tee_ledger.rs\<close> and \<open>src/course/usecase/get_tee_ledger.rs\<close>. Quantities are
  \<open>i32\<close>; the sums over upstream rows wrap. Hash maps are partial maps; where the code walks
  one, the order of its keys is an argument.
\<close>

section \<open>Rows and columns\<close>

datatype grid_source = Inventory | ScheduleGrid | OpeningHours | BookingsOnly

fun grid_source_as_str :: "grid_source \<Rightarrow> str" where
  "grid_source_as_str Inventory = ''inventory''"
| "grid_source_as_str ScheduleGrid = ''schedule''"
| "grid_source_as_str OpeningHours = ''opening_hours''"
| "grid_source_as_str BookingsOnly = ''bookings_only''"

definition has_real_capacity :: "grid_source \<Rightarrow> bool" where
  "has_real_capacity s \<longleftrightarrow> s = Inventory"

record time_slot =
  tl_id :: str
  tl_starts_at :: instant
  tl_ends_at :: instant
  tl_capacity :: int
  tl_reserved :: int
  tl_held :: int
  tl_available :: int
  tl_active :: bool

definition reconcile_remaining :: "int option \<Rightarrow> int option \<Rightarrow> int \<Rightarrow> int option" where
  "reconcile_remaining capacity upstream booked =
     (let from_board = map_option (\<lambda>c. max (wrap_i32 (c - booked)) 0) capacity in
      case (upstream, from_board) of
        (Some u, Some b) \<Rightarrow> Some (min u b)
      | (Some u, None) \<Rightarrow> Some (max u 0)
      | (None, board) \<Rightarrow> board)"

record ledger_slot =
  ls_tee_time :: str
  ls_capacity :: "int option"
  ls_available :: "int option"
  ls_active :: bool
  ls_mark :: "slot_override option"
  ls_items :: "tee_sheet_item list"

definition ledger_slot_new ::
  "str \<Rightarrow> int option \<Rightarrow> int option \<Rightarrow> bool \<Rightarrow> slot_override option \<Rightarrow> tee_sheet_item list \<Rightarrow> ledger_slot" where
  "ledger_slot_new tee_time capacity available active mark items =
     \<lparr>ls_tee_time = tee_time, ls_capacity = capacity,
      ls_available = reconcile_remaining capacity available (int (length items)),
      ls_active = active, ls_mark = mark, ls_items = items\<rparr>"

definition booked_groups :: "ledger_slot \<Rightarrow> int" where
  "booked_groups s = int (length (ls_items s))"

definition slot_player_count :: "ledger_slot \<Rightarrow> int" where
  "slot_player_count s = wrap_i32 (sum_list (map ti_party_size (ls_items s)))"

definition is_sellable :: "ledger_slot \<Rightarrow> bool" where
  "is_sellable s \<longleftrightarrow> ls_active s \<and> (case ls_mark s of None \<Rightarrow> True | Some m \<Rightarrow> \<not> is_closed m)
     \<and> (case ls_available s of Some n \<Rightarrow> 0 < n | None \<Rightarrow> ls_items s = [])"

record ledger_column =
  lc_course :: course_id
  lc_course_name :: str
  lc_resource :: "resource_id option"
  lc_interval :: "int option"
  lc_source :: grid_source
  lc_slots :: "ledger_slot list"

definition ledger_column_new ::
  "course_id \<Rightarrow> str \<Rightarrow> resource_id option \<Rightarrow> int option \<Rightarrow> grid_source \<Rightarrow> ledger_slot list \<Rightarrow> ledger_column" where
  "ledger_column_new course name resource interval source slots =
     \<lparr>lc_course = course, lc_course_name = name, lc_resource = resource, lc_interval = interval,
      lc_source = source, lc_slots = sort_by (key_le ls_tee_time) slots\<rparr>"

definition column_items :: "ledger_column \<Rightarrow> tee_sheet_item list" where
  "column_items c = concat (map ls_items (lc_slots c))"

definition group_count :: "ledger_column \<Rightarrow> int" where
  "group_count c = wrap_i32 (sum_list (map booked_groups (lc_slots c)))"

definition column_player_count :: "ledger_column \<Rightarrow> int" where
  "column_player_count c = wrap_i32 (sum_list (map slot_player_count (lc_slots c)))"

definition self_group_count :: "ledger_column \<Rightarrow> int" where
  "self_group_count c = int (length (filter (\<lambda>i. \<not> item_requires_caddie i) (column_items c)))"

definition caddie_group_count :: "ledger_column \<Rightarrow> int" where
  "caddie_group_count c = group_count c - self_group_count c"

definition open_slot_count :: "ledger_column \<Rightarrow> int" where
  "open_slot_count c = int (length (filter is_sellable (lc_slots c)))"

record tee_ledger =
  tg_date :: date
  tg_timezone :: str
  tg_columns :: "ledger_column list"
  tg_unavailable :: "str list"

section \<open>Tee times without inventory\<close>

text \<open>\<open>num_days_from_sunday\<close>\<close>

fun courseboard_weekday_number :: "weekday \<Rightarrow> int" where
  "courseboard_weekday_number Sun = 0"
| "courseboard_weekday_number Mon = 1"
| "courseboard_weekday_number Tue = 2"
| "courseboard_weekday_number Wed = 3"
| "courseboard_weekday_number Thu = 4"
| "courseboard_weekday_number Fri = 5"
| "courseboard_weekday_number Sat = 6"

definition courseboard_weekday :: "calendar \<Rightarrow> date \<Rightarrow> int" where
  "courseboard_weekday cal d = courseboard_weekday_number (cal_weekday cal d)"

definition clock_minutes :: "str \<Rightarrow> int option" where
  "clock_minutes v =
     (let head = clock_head v in
      if length head \<noteq> 5 \<or> head ! 2 \<noteq> CHR '':'' then None
      else case parse_i32 (take 2 head) of None \<Rightarrow> None | Some h \<Rightarrow>
        (case parse_i32 (drop 3 head) of None \<Rightarrow> None
         | Some m \<Rightarrow> if \<not> (0 \<le> h \<and> h \<le> 23) \<or> \<not> (0 \<le> m \<and> m \<le> 59) then None
             else Some (h * 60 + m)))"

definition minutes_to_clock :: "int \<Rightarrow> str" where
  "minutes_to_clock m = clock_text (nat m)"

text \<open>\<open>while cursor < end \<open>{\<close> push; cursor += interval \<open>}\<close>\<close>; the interval is positive where it runs.\<close>

function starts_between :: "int \<Rightarrow> int \<Rightarrow> int \<Rightarrow> int list" where
  "starts_between cursor finish interval =
     (if 0 < interval \<and> cursor < finish
      then cursor # starts_between (cursor + interval) finish interval else [])"
  by pat_completeness auto
termination by (relation "measure (\<lambda>(cursor, finish, interval). nat (finish - cursor))") auto

declare starts_between.simps [simp del]

definition rule_starts :: "availability_rule \<Rightarrow> int list" where
  "rule_starts r =
     (case clock_minutes (ru_start r) of None \<Rightarrow> [] | Some s \<Rightarrow>
     (case clock_minutes (ru_end r) of None \<Rightarrow> []
      | Some e \<Rightarrow> if ru_interval r \<le> 0 then [] else starts_between s e (ru_interval r)))"

definition sorted_times :: "str list \<Rightarrow> str list" where
  "sorted_times ts = remdups_adj (sort ts)"

definition derive_slot_times_from_rules :: "availability_rule list \<Rightarrow> int \<Rightarrow> str list" where
  "derive_slot_times_from_rules rules weekday =
     sorted_times (concat (map (\<lambda>r. map minutes_to_clock (rule_starts r))
       (filter (\<lambda>r. ru_weekday r = weekday) rules)))"

definition derive_slot_times_from_hours :: "str option \<Rightarrow> str option \<Rightarrow> int \<Rightarrow> str list" where
  "derive_slot_times_from_hours opens closes interval =
     (case (Option.bind opens clock_minutes, Option.bind closes clock_minutes) of
        (Some s, Some e) \<Rightarrow>
          if interval \<le> 0 \<or> e \<le> s then [] else map minutes_to_clock (starts_between s e interval)
      | _ \<Rightarrow> [])"

section \<open>The grid of a course\<close>

record slot_grid =
  sg_times :: "str list"
  sg_capacity :: "str \<rightharpoonup> int \<times> int"
  sg_active :: "str \<rightharpoonup> bool"
  sg_source :: grid_source

definition times_only :: "str list \<Rightarrow> grid_source \<Rightarrow> slot_grid" where
  "times_only tees source =
     \<lparr>sg_times = tees, sg_capacity = Map.empty, sg_active = Map.empty, sg_source = source\<rparr>"

definition add_slot ::
  "zone_texts \<Rightarrow> time_slot \<Rightarrow> (str \<rightharpoonup> int \<times> int) \<times> (str \<rightharpoonup> bool) \<times> str list
    \<Rightarrow> (str \<rightharpoonup> int \<times> int) \<times> (str \<rightharpoonup> bool) \<times> str list" where
  "add_slot zt s acc =
     (let (capacity, active, tees) = acc;
          t = zt_clock zt (tl_starts_at s);
          (c, a) = unwrap_or (capacity t) (0, 0);
          live = unwrap_or (active t) False
      in (capacity(t \<mapsto> (wrap_i32 (c + tl_capacity s), wrap_i32 (a + tl_available s))),
          active(t \<mapsto> live \<or> tl_active s), tees @ [t]))"

definition summarize_inventory :: "zone_texts \<Rightarrow> time_slot list \<Rightarrow> slot_grid" where
  "summarize_inventory zt slots =
     (let (capacity, active, tees) = fold (add_slot zt) slots (Map.empty, Map.empty, [])
      in \<lparr>sg_times = sorted_times tees, sg_capacity = capacity, sg_active = active,
          sg_source = Inventory\<rparr>)"

text \<open>\<open>HH:MM\<close> out of the sheet's stamp: what follows the first \<open>T\<close>, up to the next.\<close>

definition wall_clock :: "str \<Rightarrow> str" where
  "wall_clock tee_time =
     (case split_on (CHR ''T'') tee_time of
        _ # time # _ \<Rightarrow> take_chars 5 time
      | _ \<Rightarrow> take_chars 5 tee_time)"

text \<open>A hash map of lists, filled in order.\<close>

definition push_to :: "('a \<Rightarrow> 'k) \<Rightarrow> 'a \<Rightarrow> ('k \<rightharpoonup> 'a list) \<Rightarrow> ('k \<rightharpoonup> 'a list)" where
  "push_to key x m = m(key x \<mapsto> unwrap_or (m (key x)) [] @ [x])"

definition grouped_by :: "('a \<Rightarrow> 'k) \<Rightarrow> 'a list \<Rightarrow> ('k \<rightharpoonup> 'a list)" where
  "grouped_by key xs = fold (push_to key) xs Map.empty"

definition group_items_by_course :: "tee_sheet_item list \<Rightarrow> (course_id \<rightharpoonup> tee_sheet_item list)" where
  "group_items_by_course items = grouped_by ti_course items"

definition group_items_by_time :: "tee_sheet_item list \<Rightarrow> (str \<rightharpoonup> tee_sheet_item list)" where
  "group_items_by_time items = grouped_by (\<lambda>i. wall_clock (ti_tee_time i)) items"

definition add_mark :: "slot_override \<Rightarrow> (course_id \<rightharpoonup> str \<rightharpoonup> slot_override)
    \<Rightarrow> (course_id \<rightharpoonup> str \<rightharpoonup> slot_override)" where
  "add_mark m marks = marks(so_course m \<mapsto>
     (unwrap_or (marks (so_course m)) Map.empty)(so_tee_time m \<mapsto> m))"

definition group_marks_by_course :: "slot_override list \<Rightarrow> (course_id \<rightharpoonup> str \<rightharpoonup> slot_override)" where
  "group_marks_by_course marks = fold add_mark marks Map.empty"

definition booked_times :: "tee_sheet_item list \<Rightarrow> str list" where
  "booked_times items = sorted_times (map (\<lambda>i. wall_clock (ti_tee_time i)) items)"

definition add_time :: "str \<Rightarrow> str list \<Rightarrow> str list" where
  "add_time t tees = (if t \<in> set tees then tees else tees @ [t])"

text \<open>\<open>booked\<close> lists the keys of the map of items by time in the order the map walks them.\<close>

definition column_times :: "str list \<Rightarrow> str list \<Rightarrow> str list" where
  "column_times booked tees = sorted_times (fold add_time booked tees)"

definition build_slot ::
  "slot_grid \<Rightarrow> (str \<rightharpoonup> slot_override) option \<Rightarrow> (str \<rightharpoonup> tee_sheet_item list) \<Rightarrow> str \<Rightarrow> ledger_slot" where
  "build_slot grid marks items t =
     (let (capacity, available) = (case sg_capacity grid t of Some (c, a) \<Rightarrow> (Some c, Some a) | None \<Rightarrow> (None, None))
      in ledger_slot_new t capacity available (unwrap_or (sg_active grid t) True)
           (Option.bind marks (\<lambda>m. m t)) (unwrap_or (items t) []))"

definition build_column ::
  "(tee_sheet_item list \<Rightarrow> str list) \<Rightarrow> course_id \<Rightarrow> str \<Rightarrow> resource_id option \<Rightarrow> int option \<Rightarrow> slot_grid
    \<Rightarrow> tee_sheet_item list \<Rightarrow> (str \<rightharpoonup> slot_override) option \<Rightarrow> ledger_column" where
  "build_column walk course name resource interval grid items marks =
     ledger_column_new course name resource (positive interval) (sg_source grid)
       (map (build_slot grid marks (group_items_by_time items)) (column_times (walk items) (sg_times grid)))"

definition resolve_resource :: "resource list \<Rightarrow> course_id \<Rightarrow> resource_id option" where
  "resolve_resource resources c =
     map_option (\<lambda>r. unwrap_or (rs_reservation_resource r) (rs_id r))
       (List.find (\<lambda>r. rs_course r = Some c)
         (filter (\<lambda>r. rs_kind r = CourseKind) (filter rs_active resources)))"

text \<open>What the schedule service answers for a resource: its generated rows and its rules.\<close>

record grid_replies =
  gr_slots :: "resource_id \<Rightarrow> time_slot list result"
  gr_rules :: "resource_id \<Rightarrow> availability_rule list result"

definition hours_grid :: "course \<Rightarrow> slot_grid" where
  "hours_grid c =
     (let tees = derive_slot_times_from_hours (co_open c) (co_close c) (co_interval c)
      in times_only tees (if tees = [] then BookingsOnly else OpeningHours))"

definition schedule_grid ::
  "calendar \<Rightarrow> clock \<Rightarrow> instant \<Rightarrow> course \<Rightarrow> availability_rule list result \<Rightarrow> slot_grid \<times> str list" where
  "schedule_grid cal clk window_start c answered =
     (case answered of Inl _ \<Rightarrow> (hours_grid c, [''courseSchedule''])
      | Inr rules \<Rightarrow>
          let tees = derive_slot_times_from_rules rules
                (courseboard_weekday cal (clk_local_date clk window_start))
          in if tees \<noteq> [] then (times_only tees ScheduleGrid, []) else (hours_grid c, []))"

definition resolve_grid ::
  "calendar \<Rightarrow> clock \<Rightarrow> zone_texts \<Rightarrow> grid_replies \<Rightarrow> instant \<Rightarrow> course \<Rightarrow> resource_id option
    \<Rightarrow> slot_grid \<times> str list" where
  "resolve_grid cal clk zt replies window_start c resource =
     (case resource of None \<Rightarrow> (hours_grid c, [])
      | Some rid \<Rightarrow>
         (case gr_slots replies rid of
            Inr slots \<Rightarrow>
              if slots \<noteq> [] then (summarize_inventory zt slots, [])
              else schedule_grid cal clk window_start c (gr_rules replies rid)
          | Inl _ \<Rightarrow>
              (let (grid, missing) = schedule_grid cal clk window_start c (gr_rules replies rid)
               in (grid, ''timeSlots'' # missing))))"

section \<open>The ledger\<close>

record tee_ledger_query =
  lq_date :: date
  lq_courses :: "course_id list"

definition query_includes :: "tee_ledger_query \<Rightarrow> course_id \<Rightarrow> bool" where
  "query_includes q c \<longleftrightarrow> lq_courses q = [] \<or> c \<in> set (lq_courses q)"

definition push_once :: "str \<Rightarrow> str list \<Rightarrow> str list" where
  "push_once v unavailable = (if v \<in> set unavailable then unavailable else unavailable @ [v])"

text \<open>The two hash map walks: the times of a column's items, and the courses left over.\<close>

record map_walks =
  mw_times :: "tee_sheet_item list \<Rightarrow> str list"
  mw_courses :: "tee_sheet_item list \<Rightarrow> course_id list"

definition drawn_column ::
  "map_walks \<Rightarrow> calendar \<Rightarrow> clock \<Rightarrow> zone_texts \<Rightarrow> grid_replies \<Rightarrow> instant \<Rightarrow> resource list
    \<Rightarrow> (course_id \<rightharpoonup> tee_sheet_item list) \<Rightarrow> (course_id \<rightharpoonup> str \<rightharpoonup> slot_override) \<Rightarrow> course
    \<Rightarrow> (course_id \<rightharpoonup> tee_sheet_item list) \<times> ledger_column \<times> str list" where
  "drawn_column walks cal clk zt replies window_start resources by_course marks c =
     (let resource = resolve_resource resources (co_id c);
          (grid, missing) = resolve_grid cal clk zt replies window_start c resource
      in (by_course(co_id c := None),
          build_column (mw_times walks) (co_id c) (co_name c) resource (Some (co_interval c)) grid
            (unwrap_or (by_course (co_id c)) []) (marks (co_id c)), missing))"

fun drawn_columns ::
  "map_walks \<Rightarrow> calendar \<Rightarrow> clock \<Rightarrow> zone_texts \<Rightarrow> grid_replies \<Rightarrow> instant \<Rightarrow> resource list
    \<Rightarrow> (course_id \<rightharpoonup> str \<rightharpoonup> slot_override) \<Rightarrow> course list
    \<Rightarrow> (course_id \<rightharpoonup> tee_sheet_item list) \<Rightarrow> str list
    \<Rightarrow> (course_id \<rightharpoonup> tee_sheet_item list) \<times> ledger_column list \<times> str list" where
  "drawn_columns walks cal clk zt replies window_start resources marks [] by_course unavailable
     = (by_course, [], unavailable)"
| "drawn_columns walks cal clk zt replies window_start resources marks (c # cs) by_course unavailable =
     (let (rest, col, missing) = drawn_column walks cal clk zt replies window_start resources by_course marks c;
          (left, cols, unav) = drawn_columns walks cal clk zt replies window_start resources marks cs rest
             (fold push_once missing unavailable)
      in (left, col # cols, unav))"

definition leftover_column ::
  "map_walks \<Rightarrow> (course_id \<rightharpoonup> str \<rightharpoonup> slot_override) \<Rightarrow> course_id \<Rightarrow> tee_sheet_item list \<Rightarrow> ledger_column" where
  "leftover_column walks marks c items =
     build_column (mw_times walks) c (case items of i # _ \<Rightarrow> ti_course_name i | [] \<Rightarrow> c) None None
       (times_only (booked_times items) BookingsOnly) items (marks c)"

definition build_columns ::
  "map_walks \<Rightarrow> calendar \<Rightarrow> clock \<Rightarrow> zone_texts \<Rightarrow> grid_replies \<Rightarrow> instant \<Rightarrow> tee_ledger_query
    \<Rightarrow> course list \<Rightarrow> resource list \<Rightarrow> tee_sheet_item list \<Rightarrow> slot_override list \<Rightarrow> course_id list
    \<Rightarrow> str list \<Rightarrow> ledger_column list \<times> str list" where
  "build_columns walks cal clk zt replies window_start q courses resources items marks order unavailable =
     (let by_marks = group_marks_by_course marks;
          drawn = filter (\<lambda>c. query_includes q (co_id c)) (filter co_active courses);
          (left, cols, unav) = drawn_columns walks cal clk zt replies window_start resources by_marks drawn
             (group_items_by_course items) unavailable;
          others = map (\<lambda>c. leftover_column walks by_marks c (unwrap_or (left c) []))
             (filter (query_includes q) (filter (\<lambda>c. left c \<noteq> None) (mw_courses walks items)))
      in (arrange order lc_course (key_le lc_course_name) (cols @ others), unav))"

record ledger_reads = sheet_reads +
  ld_order :: "course_id list result"
  ld_marks :: "slot_override list result"

definition get_tee_ledger ::
  "map_walks \<Rightarrow> calendar \<Rightarrow> zones \<Rightarrow> text_zones \<Rightarrow> grid_replies \<Rightarrow> unit result \<Rightarrow> tee_ledger_query
    \<Rightarrow> ledger_reads \<Rightarrow> tee_ledger result" where
  "get_tee_ledger walks cal zone texts replies permitted q reads =
     (case permitted of Inl e \<Rightarrow> Inl e | Inr _ \<Rightarrow>
     (case sd_reservations reads of Inl e \<Rightarrow> Inl e | Inr reservations \<Rightarrow>
     (case sd_courses reads of Inl e \<Rightarrow> Inl e | Inr courses \<Rightarrow>
     (case sd_timezone reads of Inl e \<Rightarrow> Inl e | Inr tz \<Rightarrow>
        let (no_resources, resources) = or_empty (sd_resources reads) ''resources'';
            (no_products, products) = or_empty (sd_products reads) ''reservationProducts'';
            (no_order, order) = or_empty (ld_order reads) ''courseOrder'';
            (no_marks, marks) = or_empty (ld_marks reads) ''slotOverrides''
        in case build_tee_sheet zone texts (lq_date q) None reservations courses resources products tz of
             Inl e \<Rightarrow> Inl e
           | Inr s \<Rightarrow>
        (case parse_tenant_timezone zone tz of Inl e \<Rightarrow> Inl e | Inr clk \<Rightarrow>
        (case tenant_day_bounds cal zone (lq_date q) (lq_date q) tz of Inl e \<Rightarrow> Inl e
         | Inr (window_start, window_end) \<Rightarrow>
            let (cols, unav) = build_columns walks cal clk (texts tz) replies window_start q courses resources
                  (ts_items s) marks order (no_resources @ no_products @ no_order @ no_marks)
            in Inr \<lparr>tg_date = lq_date q, tg_timezone = tz, tg_columns = cols, tg_unavailable = unav\<rparr>))))))"

end
