(* ===== verification/TeeLedgerCorrect.thy ===== *)
theory TeeLedgerCorrect
  imports TeeLedger
begin

text \<open>
  What the tee sheet and the ledger promise: every booking of the day is on the board exactly
  once, on the row of its own minute; a row that can be sold has a group left; the counted
  inventory does not depend on the order it came in; and the derived tee times are exactly the
  starts of the bands.
\<close>

section \<open>Grouping\<close>

lemma grouped_fold:
  "fold (push_to key) xs m k =
     (if k \<in> key ` set xs then Some (unwrap_or (m k) [] @ filter (\<lambda>x. key x = k) xs) else m k)"
proof (induction xs arbitrary: m)
  case (Cons x xs)
  show ?case
    unfolding fold.simps comp_def Cons.IH
    by (auto simp: push_to_def unwrap_or_def empty_filter_conv split: option.splits) (metis image_eqI)+
qed simp

lemma grouped_by_eq:
  "grouped_by key xs k = (if k \<in> key ` set xs then Some (filter (\<lambda>x. key x = k) xs) else None)"
  by (simp add: grouped_by_def grouped_fold unwrap_or_def)

lemma grouped_by_or_empty [simp]: "unwrap_or (grouped_by key xs k) [] = filter (\<lambda>x. key x = k) xs"
  by (auto simp: grouped_by_eq unwrap_or_def empty_filter_conv)

lemma mset_by_keys:
  assumes "distinct ks" "key ` set xs \<subseteq> set ks"
  shows "mset (concat (map (\<lambda>k. filter (\<lambda>x. key x = k) xs) ks)) = mset xs"
  using assms
proof (induction ks arbitrary: xs)
  case (Cons k ks)
  let ?rest = "filter (\<lambda>x. key x \<noteq> k) xs"
  have "map (\<lambda>j. filter (\<lambda>x. key x = j) xs) ks = map (\<lambda>j. filter (\<lambda>x. key x = j) ?rest) ks"
    using Cons.prems(1) by (intro map_cong refl) (auto intro: filter_cong)
  moreover have "mset (concat (map (\<lambda>j. filter (\<lambda>x. key x = j) ?rest) ks)) = mset ?rest"
    using Cons.prems by (intro Cons.IH) auto
  ultimately have "mset (concat (map (\<lambda>k. filter (\<lambda>x. key x = k) xs) (k # ks)))
      = mset (filter (\<lambda>x. key x = k) xs) + mset ?rest"
    by (simp only: list.map concat.simps mset_append)
  also have "\<dots> = mset xs" by (induction xs) auto
  finally show ?case .
qed simp

section \<open>The rows of a column\<close>

lemma set_sorted_times [simp]: "set (sorted_times ts) = set ts"
  by (simp add: sorted_times_def)

lemma sorted_times_strict: "sorted_wrt (<) (sorted_times ts)"
  by (simp add: sorted_times_def strict_sorted_iff sorted_distinct_adj)

lemma set_add_times: "set (fold add_time booked tees) = set booked \<union> set tees"
  by (induction booked arbitrary: tees) (auto simp: add_time_def)

lemma column_times_facts:
  "sorted_wrt (<) (column_times booked tees)" "set (column_times booked tees) = set booked \<union> set tees"
  by (simp_all add: column_times_def sorted_times_strict set_add_times)

definition minute_of :: "tee_sheet_item \<Rightarrow> str" where
  "minute_of i = wall_clock (ti_tee_time i)"

lemma build_slot_fields [simp]:
  "ls_tee_time (build_slot grid marks items t) = t"
  "ls_items (build_slot grid marks items t) = unwrap_or (items t) []"
  by (simp_all add: build_slot_def ledger_slot_new_def split: option.splits prod.splits)

lemma sort_by_strict_id:
  assumes "sorted_wrt (<) (map f xs)"
  shows "sort_by (key_le f) xs = xs"
proof -
  have "sorted_wrt (key_le f) xs"
    using assms unfolding sorted_wrt_map by (rule sorted_wrt_mono_rel [rotated]) (simp add: key_le_def)
  moreover have "x = y" if "x \<in> set xs" "y \<in> set xs" "key_le f x y" "key_le f y x" for x y
    using that assms by (auto simp: key_le_def strict_sorted_iff distinct_map dest: inj_onD)
  ultimately show ?thesis
    using by_key.sorted_unique [of xs f "sort_by (key_le f) xs"] by (metis by_key.sorted_sort_by mset_sort_by)
qed

lemma build_column_slots:
  "lc_slots (build_column walk course name resource interval grid items marks)
    = map (build_slot grid marks (group_items_by_time items)) (column_times (walk items) (sg_times grid))"
proof -
  let ?slots = "map (build_slot grid marks (group_items_by_time items)) (column_times (walk items) (sg_times grid))"
  have "sorted_wrt (<) (map ls_tee_time ?slots)"
    by (simp add: comp_def column_times_facts)
  then show ?thesis
    by (simp only: build_column_def ledger_column_new_def ledger_column.simps sort_by_strict_id)
qed

definition walks_times :: "(tee_sheet_item list \<Rightarrow> str list) \<Rightarrow> bool" where
  "walks_times walk \<longleftrightarrow> (\<forall>items. set (walk items) = minute_of ` set items)"

lemma build_column_items:
  assumes "walks_times walk"
  shows "mset (column_items (build_column walk course name resource interval grid items marks)) = mset items"
proof -
  let ?ts = "column_times (walk items) (sg_times grid)"
  have "minute_of ` set items \<subseteq> set ?ts"
    using assms by (auto simp: column_times_facts walks_times_def)
  moreover have "distinct ?ts" using column_times_facts(1) by (simp add: strict_sorted_iff)
  ultimately show ?thesis
    using mset_by_keys [of ?ts minute_of items]
    by (simp add: column_items_def build_column_slots comp_def group_items_by_time_def minute_of_def)
qed

lemma build_column_course [simp]:
  "lc_course (build_column walk course name resource interval grid items marks) = course"
  by (simp add: build_column_def ledger_column_new_def)

section \<open>The columns of a day\<close>

definition items_of :: "(course_id \<rightharpoonup> tee_sheet_item list) \<Rightarrow> course_id \<Rightarrow> tee_sheet_item multiset" where
  "items_of by_course c = mset (unwrap_or (by_course c) [])"

lemma drawn_columns_items:
  assumes "walks_times (mw_times walks)"
    and "drawn_columns walks cal clk zt replies window_start resources marks cs by_course unavailable
      = (left, cols, unav)"
  shows "left = (\<lambda>k. if k \<in> co_id ` set cs then None else by_course k)
    \<and> map lc_course cols = map co_id cs
    \<and> mset (concat (map column_items cols)) = (\<Sum>k \<in> co_id ` set cs. items_of by_course k)"
  using assms(2)
proof (induction cs arbitrary: by_course unavailable cols)
  case (Cons c cs)
  obtain rest col missing where col: "drawn_column walks cal clk zt replies window_start resources by_course marks c
      = (rest, col, missing)" by (metis prod_cases3)
  obtain left' cols' where rec: "drawn_columns walks cal clk zt replies window_start resources marks cs rest
      (fold push_once missing unavailable) = (left', cols', unav)" "left' = left" "cols = col # cols'"
    using Cons.prems by (auto simp: col split: prod.splits)
  have rest: "rest = by_course(co_id c := None)"
    and items: "mset (column_items col) = items_of by_course (co_id c)" "lc_course col = co_id c"
    using col build_column_items [OF assms(1)]
    by (auto simp: drawn_column_def items_of_def Let_def split: prod.splits)
  note IH = Cons.IH [OF rec(1) [unfolded rec(2)]]
  let ?S = "co_id ` set cs"
  have "(\<Sum>k \<in> ?S. items_of rest k) = (\<Sum>k \<in> ?S - {co_id c}. items_of by_course k)"
    by (rule sum.mono_neutral_cong_right) (auto simp: rest items_of_def unwrap_or_def)
  then have "items_of by_course (co_id c) + (\<Sum>k \<in> ?S. items_of rest k)
      = (\<Sum>k \<in> insert (co_id c) ?S. items_of by_course k)"
    by (simp add: sum.insert_remove)
  moreover have "left = (\<lambda>k. if k \<in> co_id ` set (c # cs) then None else by_course k)"
    using IH by (auto simp: rest)
  ultimately show ?case using IH rec(3) items by simp
qed simp

lemma sum_by_key:
  assumes "finite K"
  shows "(\<Sum>k \<in> K. mset (filter (\<lambda>x. key x = k) xs)) = mset (filter (\<lambda>x. key x \<in> K) xs)"
  using assms
proof (induction K)
  case (insert k K)
  have "mset (filter (\<lambda>x. key x \<in> insert k K) xs)
      = mset (filter (\<lambda>x. key x = k) xs) + mset (filter (\<lambda>x. key x \<in> K) xs)"
    using insert.hyps(2) by (induction xs) auto
  then show ?case using insert by simp
qed simp

definition walks_ok :: "map_walks \<Rightarrow> bool" where
  "walks_ok w \<longleftrightarrow> walks_times (mw_times w)
     \<and> (\<forall>items. distinct (mw_courses w items) \<and> set (mw_courses w items) = ti_course ` set items)"

definition row_right :: "ledger_column \<Rightarrow> bool" where
  "row_right c \<longleftrightarrow> sorted_wrt (<) (map ls_tee_time (lc_slots c))
     \<and> (\<forall>s \<in> set (lc_slots c). \<forall>i \<in> set (ls_items s). minute_of i = ls_tee_time s)"

lemma build_column_right: "row_right (build_column walk course name resource interval grid items marks)"
  by (auto simp: row_right_def build_column_slots comp_def column_times_facts group_items_by_time_def minute_of_def)

lemma drawn_columns_right:
  "drawn_columns walks cal clk zt replies window_start resources marks cs by_course unavailable = (left, cols, unav)
    \<Longrightarrow> \<forall>c \<in> set cols. row_right c"
proof (induction cs arbitrary: by_course unavailable cols)
  case (Cons c cs)
  then show ?case
    by (auto simp: drawn_column_def build_column_right Let_def split: prod.splits)
qed simp

definition items_right :: "ledger_column \<Rightarrow> bool" where
  "items_right c \<longleftrightarrow> (\<forall>i \<in> set (column_items c). ti_course i = lc_course c)"

lemma build_column_own:
  assumes "walks_times walk" "\<forall>i \<in> set items. ti_course i = course"
  shows "items_right (build_column walk course name resource interval grid items marks)"
  using assms(2) arg_cong [OF build_column_items [OF assms(1)], of set_mset]
  by (simp add: items_right_def)

lemma drawn_columns_own:
  assumes "walks_times (mw_times walks)"
  shows "\<forall>k. \<forall>i \<in> set (unwrap_or (by_course k) []). ti_course i = k
    \<Longrightarrow> drawn_columns walks cal clk zt replies window_start resources marks cs by_course unavailable = (left, cols, unav)
    \<Longrightarrow> \<forall>c \<in> set cols. items_right c"
proof (induction cs arbitrary: by_course unavailable cols)
  case (Cons c cs)
  obtain rest col missing where col: "drawn_column walks cal clk zt replies window_start resources by_course marks c
      = (rest, col, missing)" by (metis prod_cases3)
  then have rest: "rest = by_course(co_id c := None)" and own: "items_right col"
    using build_column_own [OF assms] Cons.prems(1) by (auto simp: drawn_column_def Let_def split: prod.splits)
  have "\<forall>k. \<forall>i \<in> set (unwrap_or (rest k) []). ti_course i = k"
    using Cons.prems(1) by (simp add: rest unwrap_or_def)
  then show ?case using Cons.prems(2) Cons.IH own by (auto simp: col split: prod.splits)
qed simp

lemma mset_arrange [simp]: "mset (arrange order cid fallback xs) = mset xs"
  by (simp add: arrange_def)

lemma mset_concat_map:
  assumes "mset xs = mset ys"
  shows "mset (concat (map f xs)) = mset (concat (map f ys))"
proof -
  have "mset (concat (map f zs)) = sum_mset (image_mset (\<lambda>x. mset (f x)) (mset zs))" for zs
    by (induction zs) simp_all
  then show ?thesis using assms by simp
qed

lemma build_columns_items:
  assumes "walks_ok walks"
    and "build_columns walks cal clk zt replies window_start q courses resources items marks order unavailable = (cols, unav)"
  shows "mset (concat (map column_items cols)) = mset (filter (\<lambda>i. query_includes q (ti_course i)) items)
    \<and> (\<forall>c \<in> set cols. row_right c \<and> items_right c)"
proof -
  let ?drawn = "filter (\<lambda>c. query_includes q (co_id c)) (filter co_active courses)"
  let ?by = "group_items_by_course items"
  let ?marks = "group_marks_by_course marks"
  obtain left dcols dunav where d: "drawn_columns walks cal clk zt replies window_start resources ?marks ?drawn
      ?by unavailable = (left, dcols, dunav)" by (metis prod_cases3)
  let ?keys = "filter (query_includes q) (filter (\<lambda>c. left c \<noteq> None) (mw_courses walks items))"
  let ?others = "map (\<lambda>c. leftover_column walks ?marks c (unwrap_or (left c) [])) ?keys"
  have cols: "cols = arrange order lc_course (key_le lc_course_name) (dcols @ ?others)"
    using assms(2) unfolding build_columns_def Let_def d by simp
  have walks: "walks_times (mw_times walks)" "distinct (mw_courses walks items)"
    "set (mw_courses walks items) = ti_course ` set items"
    using assms(1) by (auto simp: walks_ok_def)
  let ?K = "co_id ` set ?drawn"
  have by_or [simp]: "unwrap_or (?by k) [] = filter (\<lambda>i. ti_course i = k) items" for k
    by (simp add: group_items_by_course_def)
  have left: "left = (\<lambda>k. if k \<in> ?K then None else ?by k)"
    and drawn_items: "mset (concat (map column_items dcols)) = (\<Sum>k \<in> ?K. items_of ?by k)"
    using drawn_columns_items [OF walks(1) d] by auto
  have other_items: "mset (column_items (leftover_column walks ?marks c xs)) = mset xs" for c xs
    by (simp add: leftover_column_def build_column_items [OF walks(1)])
  have "mset (concat (map column_items ?others)) = (\<Sum>k \<leftarrow> ?keys. mset (unwrap_or (left k) []))"
    by (simp add: mset_concat comp_def other_items)
  also have "\<dots> = (\<Sum>k \<in> set ?keys. mset (unwrap_or (left k) []))"
    using walks(2) by (simp add: sum_list_distinct_conv_sum_set)
  also have "\<dots> = (\<Sum>k \<in> {k \<in> ti_course ` set items. query_includes q k \<and> k \<notin> ?K}. items_of ?by k)"
    by (rule sum.cong)
      (auto simp: left walks(3) items_of_def group_items_by_course_def grouped_by_eq split: if_splits)
  finally have "mset (concat (map column_items cols))
      = (\<Sum>k \<in> ?K. items_of ?by k)
      + (\<Sum>k \<in> {k \<in> ti_course ` set items. query_includes q k \<and> k \<notin> ?K}. items_of ?by k)"
    using drawn_items mset_concat_map [of cols "dcols @ ?others" column_items]
    by (simp only: cols mset_arrange concat_append map_append mset_append)
  also have "\<dots> = (\<Sum>k \<in> ?K \<union> {k \<in> ti_course ` set items. query_includes q k \<and> k \<notin> ?K}. items_of ?by k)"
    by (rule sum.union_disjoint [symmetric]) auto
  also have "\<dots> = mset (filter (\<lambda>i. ti_course i
      \<in> ?K \<union> {k \<in> ti_course ` set items. query_includes q k \<and> k \<notin> ?K}) items)"
    unfolding items_of_def by_or by (rule sum_by_key) simp
  also have "\<dots> = mset (filter (\<lambda>i. query_includes q (ti_course i)) items)"
    by (intro arg_cong [where f = mset] filter_cong) auto
  finally have "mset (concat (map column_items cols)) = mset (filter (\<lambda>i. query_includes q (ti_course i)) items)" .
  moreover have "row_right c \<and> items_right c" if "c \<in> set dcols" for c
    using drawn_columns_right [OF d] drawn_columns_own [OF walks(1) _ d] that by simp
  moreover have "row_right c \<and> items_right c" if others: "c \<in> set ?others" for c
  proof -
    obtain k where c: "c = leftover_column walks ?marks k (unwrap_or (left k) [])" using others by auto
    have "unwrap_or (left k) [] = (if k \<in> ?K then [] else filter (\<lambda>i. ti_course i = k) items)"
      by (simp add: left unwrap_or_def) (simp add: by_or [unfolded unwrap_or_def])
    then have "\<forall>i \<in> set (unwrap_or (left k) []). ti_course i = k" by simp
    then show ?thesis
      unfolding c leftover_column_def by (simp only: build_column_right build_column_own [OF walks(1)] simp_thms)
  qed
  moreover have "set cols = set dcols \<union> set ?others"
    by (simp only: cols mset_arrange set_append flip: set_mset_mset)
      (simp only: mset_append set_mset_union)
  ultimately show ?thesis by blast
qed

section \<open>The sheet\<close>

lemma collect_results_Inr [simp]: "collect_results (map Inr xs) = Inr xs"
  by (induction xs) simp_all

lemma collect_results_all: "collect_results rs = Inr xs \<longleftrightarrow> rs = map Inr xs"
  by (induction rs arbitrary: xs) (auto split: sum.splits)

lemma sheet_row_names:
  "sheet_row zone texts resources courses products tz r = Inr i
    \<Longrightarrow> ti_id i = rv_id r \<and> ti_course i = fst (resolve_course r resources courses)"
  by (auto simp: sheet_row_def to_tee_sheet_item_def tee_sheet_item_new_def Let_def split: prod.splits sum.splits)

lemma sheet_items:
  assumes "build_tee_sheet zone texts d only reservations courses resources products tz = Inr s" "zone tz = Some clk"
  shows "mset (map (\<lambda>i. (ti_id i, ti_course i)) (ts_items s))
    = mset (map (\<lambda>r. (rv_id r, fst (resolve_course r resources courses)))
        (filter (on_sheet clk d only resources courses) reservations))
    \<and> sorted_wrt (key_le item_key) (ts_items s)"
proof -
  let ?rs = "filter (on_sheet clk d only resources courses) reservations"
  obtain items where items: "collect_results (map (sheet_row zone texts resources courses products tz) ?rs) = Inr items"
    "ts_items s = sort_by (key_le item_key) items"
    using assms by (auto simp: build_tee_sheet_def parse_tenant_timezone_def tee_sheet_new_def split: sum.splits)
  have "map (sheet_row zone texts resources courses products tz) ?rs = map Inr items"
    using items(1) by (simp only: collect_results_all)
  then have "list_all2 (\<lambda>r i. sheet_row zone texts resources courses products tz r = Inr i) ?rs items"
    by (simp only: list_all2_conv_all_nth) (metis length_map nth_map)
  then have "map (\<lambda>i. (ti_id i, ti_course i)) items
      = map (\<lambda>r. (rv_id r, fst (resolve_course r resources courses))) ?rs"
    by (induction rule: list_all2_induct) (auto dest: sheet_row_names)
  then have "mset (map (\<lambda>i. (ti_id i, ti_course i)) items)
      = mset (map (\<lambda>r. (rv_id r, fst (resolve_course r resources courses))) ?rs)" by simp
  then show ?thesis by (simp add: items(2) by_key.sorted_sort_by)
qed

text \<open>
  C30. No booking is lost from the ledger and none is drawn twice: the columns together hold
  exactly the bookings of the day that are on the tee sheet and whose course was asked for,
  deleted and unresolved courses included; each stands in the column of its own course, on the
  row of its own minute, and the rows of a column are in time order without repetition. This
  holds for every order the hash maps are walked in and whatever inventory could be read.
\<close>

theorem ledger_shows_every_booking:
  assumes "get_tee_ledger walks cal zone texts replies permitted q reads = Inr ledger" "walks_ok walks"
    and "sd_reservations reads = Inr reservations" "sd_courses reads = Inr courses"
    and "sd_timezone reads = Inr tz" "zone tz = Some clk"
  shows "mset (map ti_id (concat (map column_items (tg_columns ledger))))
      = mset (map rv_id (filter (\<lambda>r. is_tee_sheet_candidate r \<and> occurs_on_date clk (lq_date q) r
          \<and> query_includes q (fst (resolve_course r (snd (or_empty (sd_resources reads) ''resources'')) courses)))
          reservations))
    \<and> (\<forall>c \<in> set (tg_columns ledger). row_right c \<and> items_right c)"
proof -
  let ?resources = "snd (or_empty (sd_resources reads) ''resources'')"
  obtain s bounds order marks unav unav' where s: "build_tee_sheet zone texts (lq_date q) None reservations courses
      ?resources (snd (or_empty (sd_products reads) ''reservationProducts'')) tz = Inr s"
    and cols: "build_columns walks cal clk (texts tz) replies bounds q courses ?resources (ts_items s) marks order
      unav = (tg_columns ledger, unav')"
    using assms
    by (auto simp: get_tee_ledger_def parse_tenant_timezone_def Let_def split: sum.splits prod.splits)
  let ?key = "\<lambda>r. fst (resolve_course r ?resources courses)"
  let ?P = "\<lambda>(i :: reservation_id, c). query_includes q c"
  have pairs: "image_mset fst (filter_mset ?P (mset (map (\<lambda>i. (ti_id i, ti_course i)) (ts_items s))))
      = image_mset fst (filter_mset ?P (mset (map (\<lambda>r. (rv_id r, ?key r))
          (filter (on_sheet clk (lq_date q) None ?resources courses) reservations))))"
    using sheet_items [OF s assms(6)] by simp
  have items: "image_mset fst (filter_mset ?P (mset (map (\<lambda>i. (ti_id i, ti_course i)) xs)))
      = mset (map ti_id (filter (\<lambda>i. query_includes q (ti_course i)) xs))" for xs
    by (induction xs) auto
  have bookings: "image_mset fst (filter_mset ?P (mset (map (\<lambda>r. (rv_id r, ?key r))
          (filter (on_sheet clk (lq_date q) None ?resources courses) xs))))
      = mset (map rv_id (filter (\<lambda>r. is_tee_sheet_candidate r \<and> occurs_on_date clk (lq_date q) r
          \<and> query_includes q (?key r)) xs))" for xs
    by (induction xs) (auto simp: on_sheet_def)
  note built = build_columns_items [OF assms(2) cols]
  have "mset (map ti_id (concat (map column_items (tg_columns ledger))))
      = image_mset ti_id (mset (concat (map column_items (tg_columns ledger))))" by (rule mset_map)
  also have "\<dots> = mset (map ti_id (filter (\<lambda>i. query_includes q (ti_course i)) (ts_items s)))"
    using built by (simp only: mset_map)
  also have "\<dots> = mset (map rv_id (filter (\<lambda>r. is_tee_sheet_candidate r \<and> occurs_on_date clk (lq_date q) r
          \<and> query_includes q (?key r)) reservations))"
    using pairs unfolding items bookings .
  finally show ?thesis using built by blast
qed

section \<open>Several days in one request\<close>

definition counts_days :: "calendar \<Rightarrow> bool" where
  "counts_days cal \<longleftrightarrow> (\<forall>d d'. cal_succ cal d = Some d' \<longrightarrow> d' = d + 1)"

lemma dates_from_run:
  assumes "counts_days cal"
  shows "\<exists>n \<le> room. dates_from cal final room d = map (\<lambda>k. d + int k) [0..<n]
    \<and> (\<forall>k < n. d + int k \<le> final)"
proof (induction room arbitrary: d)
  case (Suc room)
  show ?case
  proof (cases "d \<le> final")
    case True
    show ?thesis
    proof (cases "cal_succ cal d")
      case None
      then show ?thesis using True by (intro exI [of _ 1]) simp
    next
      case (Some e)
      then have e: "e = d + 1" using assms by (simp add: counts_days_def)
      obtain n where n: "n \<le> room" "dates_from cal final room e = map (\<lambda>k. e + int k) [0..<n]"
        "\<forall>k < n. e + int k \<le> final" using Suc.IH [of e] by blast
      have "map (\<lambda>k. d + int k) [0..<Suc n] = d # map (\<lambda>k. e + int k) [0..<n]"
        by (simp add: upt_conv_Cons map_Suc_upt [symmetric] e del: upt_Suc)
      moreover have "d + int k \<le> final" if "k < Suc n" for k
        using n(3) True e that by (cases k) auto
      ultimately show ?thesis using n(1,2) True Some by (intro exI [of _ "Suc n"]) simp
    qed
  qed (intro exI [of _ 0], simp)
qed simp

lemma query_dates_facts:
  assumes "counts_days cal"
  shows "distinct (query_dates cal q)" "length (query_dates cal q) \<le> 31"
    "sorted_wrt (<) (query_dates cal q)"
proof -
  obtain n where n: "n \<le> MAX_TEE_SHEET_DAYS" "query_dates cal q = map (\<lambda>k. tq_date q + int k) [0..<n]"
    using dates_from_run [OF assms] unfolding query_dates_def Let_def by metis
  show "length (query_dates cal q) \<le> 31" using n by (simp add: MAX_TEE_SHEET_DAYS_def)
  show s: "sorted_wrt (<) (query_dates cal q)" by (simp add: n(2) sorted_wrt_map sorted_wrt_iff_nth_less)
  show "distinct (query_dates cal q)" using s by (simp add: strict_sorted_iff)
qed

lemma extend_days_items:
  "extend_days build ds s = Inr s' \<Longrightarrow>
    \<exists>days. list_all2 (\<lambda>d day. build d = Inr day) ds days \<and> ts_items s' = ts_items s @ concat (map ts_items days)"
proof (induction ds arbitrary: s)
  case (Cons d ds)
  then obtain later where later: "build d = Inr later" "extend_days build ds (extended_with s later) = Inr s'"
    by (auto split: sum.splits)
  from Cons.IH [OF this(2)] obtain days where
    "list_all2 (\<lambda>d day. build d = Inr day) ds days" "ts_items s' = ts_items (extended_with s later) @ concat (map ts_items days)"
    by blast
  then show ?case using later(1) by (intro exI [of _ "later # days"]) (simp add: extended_with_def)
qed simp

lemma query_dates_first: "query_dates cal q = tq_date q # drop 1 (query_dates cal q)"
  by (auto simp: query_dates_def Let_def MAX_TEE_SHEET_DAYS_def numeral_eq_Suc split: option.splits)

lemma get_tee_sheet_days:
  assumes "get_tee_sheet cal zone texts permitted q reads = Inr s"
    and "sd_reservations reads = Inr reservations" "sd_courses reads = Inr courses" "sd_timezone reads = Inr tz"
  defines "resources \<equiv> snd (or_empty (sd_resources reads) ''resources'')"
  shows "\<exists>products days. list_all2 (\<lambda>d day. build_tee_sheet zone texts d (tq_course q) reservations courses
      resources products tz = Inr day) (query_dates cal q) days \<and> ts_items s = concat (map ts_items days)"
proof -
  obtain products first s' where first: "build_tee_sheet zone texts (tq_date q) (tq_course q) reservations courses
      resources products tz = Inr first"
    and more: "extend_days (\<lambda>d. build_tee_sheet zone texts d (tq_course q) reservations courses resources products tz)
      (drop 1 (query_dates cal q)) first = Inr s'" "ts_items s = ts_items s'"
    using assms(1-4) unfolding resources_def
    by (auto simp: get_tee_sheet_def Let_def split: sum.splits prod.splits)
  from extend_days_items [OF more(1)] obtain days where
    "list_all2 (\<lambda>d day. build_tee_sheet zone texts d (tq_course q) reservations courses resources products tz = Inr day)
      (drop 1 (query_dates cal q)) days" "ts_items s' = ts_items first @ concat (map ts_items days)"
    by blast
  then have "list_all2 (\<lambda>d day. build_tee_sheet zone texts d (tq_course q) reservations courses resources products tz = Inr day)
      (tq_date q # drop 1 (query_dates cal q)) (first # days)" "ts_items s = concat (map ts_items (first # days))"
    using first more(2) by simp_all
  then show ?thesis unfolding query_dates_first [of cal q, symmetric] by blast
qed

lemma sum_over_days:
  assumes "list_all2 R ds days" "\<And>d day. R d day \<Longrightarrow> mset (map ti_id (ts_items day)) = f d"
  shows "mset (map ti_id (concat (map ts_items days))) = (\<Sum>d \<leftarrow> ds. f d)"
  using assms(1) by (induction rule: list_all2_induct) (simp_all add: assms(2) [simplified])

lemma by_days:
  assumes "distinct ds"
  shows "(\<Sum>d \<leftarrow> ds. mset (map f (filter (\<lambda>r. P r \<and> day r = d) rs)))
    = mset (map f (filter (\<lambda>r. P r \<and> day r \<in> set ds) rs))"
  using assms
proof (induction ds)
  case (Cons d ds)
  have "mset (map f (filter (\<lambda>r. P r \<and> day r \<in> set (d # ds)) rs))
      = mset (map f (filter (\<lambda>r. P r \<and> day r = d) rs)) + mset (map f (filter (\<lambda>r. P r \<and> day r \<in> set ds) rs))"
    using Cons.prems by (induction rs) auto
  then show ?case using Cons by simp
qed simp

text \<open>
  A tee sheet over several days shows each booking it should exactly once: the days asked
  for are consecutive and at most 31, and together their rows are the bookings that stand on the
  board (cancelled and rejected ones do not), start on one of those days of the tenant's
  calendar and, when one course was asked for, resolve to it.
\<close>

theorem tee_sheet_shows_every_booking:
  assumes "get_tee_sheet cal zone texts permitted q reads = Inr s" "counts_days cal"
    and "sd_reservations reads = Inr reservations" "sd_courses reads = Inr courses"
    and "sd_timezone reads = Inr tz" "zone tz = Some clk"
  shows "mset (map ti_id (ts_items s))
      = mset (map rv_id (filter (\<lambda>r. (is_tee_sheet_candidate r \<and> (case tq_course q of None \<Rightarrow> True
          | Some c \<Rightarrow> fst (resolve_course r (snd (or_empty (sd_resources reads) ''resources'')) courses) = c))
          \<and> clk_local_date clk (rv_starts_at r) \<in> set (query_dates cal q)) reservations))
    \<and> sorted_wrt (<) (query_dates cal q) \<and> length (query_dates cal q) \<le> 31"
proof -
  let ?resources = "snd (or_empty (sd_resources reads) ''resources'')"
  let ?P = "\<lambda>r. is_tee_sheet_candidate r \<and> (case tq_course q of None \<Rightarrow> True
    | Some c \<Rightarrow> fst (resolve_course r ?resources courses) = c)"
  obtain products days where days: "list_all2 (\<lambda>d day. build_tee_sheet zone texts d (tq_course q) reservations
      courses ?resources products tz = Inr day) (query_dates cal q) days" "ts_items s = concat (map ts_items days)"
    using get_tee_sheet_days [OF assms(1,3,4,5)] by blast
  have one: "mset (map ti_id (ts_items day))
      = mset (map rv_id (filter (\<lambda>r. ?P r \<and> clk_local_date clk (rv_starts_at r) = d) reservations))"
    if "build_tee_sheet zone texts d (tq_course q) reservations courses ?resources products tz = Inr day" for d day
  proof -
    have "image_mset fst (mset (map (\<lambda>i. (ti_id i, ti_course i)) (ts_items day)))
        = image_mset fst (mset (map (\<lambda>r. (rv_id r, fst (resolve_course r ?resources courses)))
            (filter (on_sheet clk d (tq_course q) ?resources courses) reservations)))"
      using sheet_items [OF that assms(6)] by simp
    moreover have "on_sheet clk d (tq_course q) ?resources courses
        = (\<lambda>r. ?P r \<and> clk_local_date clk (rv_starts_at r) = d)"
      by (auto simp: on_sheet_def occurs_on_date_def tee_date_in_def)
    ultimately show ?thesis by (simp add: image_mset.compositionality comp_def flip: mset_map)
  qed
  have "mset (map ti_id (ts_items s)) = (\<Sum>d \<leftarrow> query_dates cal q. mset (map rv_id (filter (\<lambda>r. ?P r
      \<and> clk_local_date clk (rv_starts_at r) = d) reservations)))"
    unfolding days(2) by (rule sum_over_days [OF days(1)]) (rule one)
  also have "\<dots> = mset (map rv_id (filter (\<lambda>r. ?P r
      \<and> clk_local_date clk (rv_starts_at r) \<in> set (query_dates cal q)) reservations))"
    by (rule by_days [OF query_dates_facts(1) [OF assms(2)]])
  finally show ?thesis using query_dates_facts [OF assms(2)] by blast
qed

section \<open>Counted inventory\<close>

definition at_clock :: "zone_texts \<Rightarrow> str \<Rightarrow> time_slot list \<Rightarrow> time_slot list" where
  "at_clock zt t slots = filter (\<lambda>s. zt_clock zt (tl_starts_at s) = t) slots"

text \<open>What the inventory of a minute is: the wrapped sums over its rows, live when one of them is.\<close>

definition inventory_spec :: "zone_texts \<Rightarrow> time_slot list \<Rightarrow> slot_grid" where
  "inventory_spec zt slots =
     \<lparr>sg_times = sorted_times (map (\<lambda>s. zt_clock zt (tl_starts_at s)) slots),
      sg_capacity = (\<lambda>t. if at_clock zt t slots = [] then None
        else Some (wrap_i32 (\<Sum>s \<leftarrow> at_clock zt t slots. tl_capacity s),
                   wrap_i32 (\<Sum>s \<leftarrow> at_clock zt t slots. tl_available s))),
      sg_active = (\<lambda>t. if at_clock zt t slots = [] then None
        else Some (\<exists>s \<in> set (at_clock zt t slots). tl_active s)),
      sg_source = Inventory\<rparr>"

definition sums_onto :: "int \<times> int \<Rightarrow> time_slot list \<Rightarrow> int \<times> int" where
  "sums_onto start slots = (wrap_i32 (fst start + (\<Sum>s \<leftarrow> slots. tl_capacity s)),
     wrap_i32 (snd start + (\<Sum>s \<leftarrow> slots. tl_available s)))"

lemma add_slots:
  "fold (add_slot zt) slots (capacity, active, tees) =
     ((\<lambda>t. if at_clock zt t slots = [] then capacity t
           else Some (sums_onto (unwrap_or (capacity t) (0, 0)) (at_clock zt t slots))),
      (\<lambda>t. if at_clock zt t slots = [] then active t
           else Some (unwrap_or (active t) False \<or> (\<exists>s \<in> set (at_clock zt t slots). tl_active s))),
      tees @ map (\<lambda>s. zt_clock zt (tl_starts_at s)) slots)"
proof (induction slots arbitrary: capacity active tees)
  case Nil
  then show ?case by (simp add: at_clock_def)
next
  case (Cons s slots)
  let ?t = "zt_clock zt (tl_starts_at s)"
  have step: "add_slot zt s (capacity, active, tees)
      = (capacity(?t \<mapsto> sums_onto (unwrap_or (capacity ?t) (0, 0)) [s]),
         active(?t \<mapsto> unwrap_or (active ?t) False \<or> tl_active s), tees @ [?t])"
    by (simp add: add_slot_def sums_onto_def Let_def split: prod.splits)
  have sums: "sums_onto (sums_onto start [s]) ss = sums_onto start (s # ss)" for start ss
    by (simp add: sums_onto_def wrap_i32_add add.assoc)
  have single: "sums_onto start [s] = sums_onto start (s # [])" for start by simp
  show ?case
    unfolding fold.simps comp_def step Cons.IH
    by (auto simp: at_clock_def fun_eq_iff unwrap_or_def sums)
qed

text \<open>
  The inventory of a day is counted right: a minute's capacity and remaining groups are the
  sums over all the rows generated for it, it is live when one of them is, and every minute
  with a row is on the grid once, in order. So the count does not depend on the order the rows
  arrive in.
\<close>

theorem inventory_counted_exactly:
  "summarize_inventory zt slots = inventory_spec zt slots"
  by (auto simp: summarize_inventory_def inventory_spec_def add_slots sums_onto_def unwrap_or_def fun_eq_iff)

lemma inventory_any_order:
  assumes "mset slots = mset slots'"
  shows "inventory_spec zt slots = inventory_spec zt slots'"
proof -
  have m: "mset (at_clock zt t slots) = mset (at_clock zt t slots')" for t
    using assms by (simp add: at_clock_def)
  then have sums: "(\<Sum>s \<leftarrow> at_clock zt t slots. f s) = (\<Sum>s \<leftarrow> at_clock zt t slots'. f s)" for f :: "time_slot \<Rightarrow> int" and t
    by (metis mset_map sum_mset_sum_list)
  have sets: "set (at_clock zt t slots) = set (at_clock zt t slots')" for t
    using m by (metis set_mset_mset)
  have empty: "at_clock zt t slots = [] \<longleftrightarrow> at_clock zt t slots' = []" for t
    using m by (metis mset_zero_iff)
  have "sort (map (\<lambda>s. zt_clock zt (tl_starts_at s)) slots) = sort (map (\<lambda>s. zt_clock zt (tl_starts_at s)) slots')"
    by (rule properties_for_sort) (simp_all add: assms)
  then show ?thesis
    by (simp add: inventory_spec_def sorted_times_def fun_eq_iff empty sets
      sums [where f = tl_capacity] sums [where f = tl_available])
qed

section \<open>Selling a row\<close>

text \<open>
  C31. A row of counted inventory is offered for sale exactly when it is live, the desk has not
  closed it, the upstream count has a group left and the bookings standing on it are fewer than
  its capacity: one more group never oversells it, whichever of the two counts is behind.
\<close>

theorem row_sellable_exactly:
  assumes "sg_capacity grid t = Some (capacity, available)"
    and "in_i32 (capacity - int (length (unwrap_or (items t) [])))"
  shows "is_sellable (build_slot grid marks items t) \<longleftrightarrow>
      unwrap_or (sg_active grid t) True
    \<and> (case Option.bind marks (\<lambda>m. m t) of None \<Rightarrow> True | Some m \<Rightarrow> \<not> is_closed m)
    \<and> 0 < available \<and> booked_groups (build_slot grid marks items t) + 1 \<le> capacity"
  using assms
  by (auto simp: is_sellable_def build_slot_def ledger_slot_new_def reconcile_remaining_def booked_groups_def
      Let_def split: option.splits)

text \<open>
  The sums take in the rows Field has retired: beside a live row, a retired row's groups are
  offered for sale.
\<close>

lemma retired_rows_are_sold:
  "let zt = \<lparr>zt_stamp = (\<lambda>_. []), zt_clock = (\<lambda>_. ''07:00''), zt_wall = (\<lambda>_ _ _. None)\<rparr>;
       row = (\<lambda>n avail live. \<lparr>tl_id = n, tl_starts_at = 0, tl_ends_at = 0, tl_capacity = 1, tl_reserved = 0,
         tl_held = 0, tl_available = avail, tl_active = live\<rparr>)
   in is_sellable (build_slot (summarize_inventory zt [row ''a'' 0 True, row ''b'' 1 False]) None Map.empty ''07:00'')
    \<and> \<not> is_sellable (build_slot (summarize_inventory zt [row ''a'' 0 True]) None Map.empty ''07:00'')"
  by code_simp

section \<open>Derived tee times\<close>

lemma starts_between_set:
  assumes "0 < interval"
  shows "set (starts_between a b interval) = {m. a \<le> m \<and> m < b \<and> (m - a) mod interval = 0}"
  using assms
proof (induction a b interval rule: starts_between.induct)
  case (1 a b i)
  show ?case
  proof (cases "a < b")
    case True
    have "{m. a \<le> m \<and> m < b \<and> (m - a) mod i = 0} = insert a {m. a + i \<le> m \<and> m < b \<and> (m - (a + i)) mod i = 0}"
    proof -
      have "a + i \<le> m" if "a \<le> m" "i dvd m - a" "m \<noteq> a" for m
        using zdvd_imp_le [OF that(2)] that by simp
      moreover have "i dvd m - (a + i) \<longleftrightarrow> i dvd m - a" for m
        using dvd_diff_left_iff [of i i "m - a"] by (simp add: algebra_simps)
      ultimately show ?thesis using "1.prems" True by (auto simp: mod_eq_0_iff_dvd)
    qed
    then show ?thesis using "1.IH" "1.prems" True by (subst starts_between.simps) simp
  next
    case False
    then show ?thesis by (subst starts_between.simps) auto
  qed
qed

lemma starts_between_sorted: "sorted_wrt (<) (starts_between a b interval)"
proof (induction a b interval rule: starts_between.induct)
  case (1 a b i)
  show ?case
  proof (cases "0 < i \<and> a < b")
    case True
    then show ?thesis
      using 1 starts_between_set [of i "a + i" b] by (subst starts_between.simps) auto
  next
    case False
    then show ?thesis by (subst starts_between.simps) auto
  qed
qed

lemma clock_minutes_bounds: "clock_minutes v = Some m \<Longrightarrow> 0 \<le> m \<and> m < 1440"
  by (auto simp: clock_minutes_def Let_def split: option.splits if_splits)

definition starts_of :: "int option \<Rightarrow> int option \<Rightarrow> int \<Rightarrow> int set" where
  "starts_of s e interval =
     (case (s, e) of (Some a, Some b) \<Rightarrow>
        if 0 < interval then {m. a \<le> m \<and> m < b \<and> (m - a) mod interval = 0} else {}
      | _ \<Rightarrow> {})"

lemma rule_starts_set:
  "set (rule_starts r) = starts_of (clock_minutes (ru_start r)) (clock_minutes (ru_end r)) (ru_interval r)"
  by (auto simp: rule_starts_def starts_of_def starts_between_set split: option.splits)

text \<open>
  A course without counted inventory is drawn with exactly the starts its week or its
  opening hours imply: the times are in order and without repetition, and a time is listed if
  and only if some band of that weekday (or the opening hours) reaches it in whole steps of the
  interval before it closes. Bands that overlap draw a shared time once.
\<close>

theorem derived_times_exact:
  "derive_slot_times_from_rules rules weekday = sorted_list_of_set (minutes_to_clock `
      (\<Union>r \<in> {r \<in> set rules. ru_weekday r = weekday}.
        starts_of (clock_minutes (ru_start r)) (clock_minutes (ru_end r)) (ru_interval r)))
   \<and> derive_slot_times_from_hours opens closes interval = sorted_list_of_set (minutes_to_clock `
        starts_of (Option.bind opens clock_minutes) (Option.bind closes clock_minutes) interval)"
proof
  have unique: "xs = sorted_list_of_set A" if "sorted_wrt (<) xs" "set xs = A" for xs :: "str list" and A
    using that by (metis distinct_card finite_set sorted_list_of_set_unique strict_sorted_iff)
  show "derive_slot_times_from_rules rules weekday = sorted_list_of_set (minutes_to_clock `
      (\<Union>r \<in> {r \<in> set rules. ru_weekday r = weekday}.
        starts_of (clock_minutes (ru_start r)) (clock_minutes (ru_end r)) (ru_interval r)))"
    by (rule unique) (auto simp: derive_slot_times_from_rules_def sorted_times_strict rule_starts_set)
  show "derive_slot_times_from_hours opens closes interval = sorted_list_of_set (minutes_to_clock `
        starts_of (Option.bind opens clock_minutes) (Option.bind closes clock_minutes) interval)"
  proof (cases "Option.bind opens clock_minutes")
    case (Some a)
    show ?thesis
    proof (cases "Option.bind closes clock_minutes")
      case (Some b)
      have bounds: "0 \<le> a" "b < 1440"
        using \<open>Option.bind opens clock_minutes = Some a\<close> Some
        by (auto simp: bind_eq_Some_conv dest: clock_minutes_bounds)
      show ?thesis
      proof (cases "0 < interval \<and> a < b")
        case True
        have "sorted_wrt (<) (map minutes_to_clock (starts_between a b interval))"
          unfolding sorted_wrt_map
        proof (rule sorted_wrt_mono_rel [OF _ starts_between_sorted])
          fix m n
          assume "m \<in> set (starts_between a b interval)" "n \<in> set (starts_between a b interval)" "m < n"
          then have "a \<le> m" "m < b" "a \<le> n" "n < b" using starts_between_set [of interval a b] True by auto
          then have "nat m < 1440" "nat n < 1440" "nat m < nat n" using bounds \<open>m < n\<close> by linarith+
          then show "minutes_to_clock m < minutes_to_clock n"
            using clock_text_less [of "nat m" "nat n"] unfolding minutes_to_clock_def by blast
        qed
        then show ?thesis
          using True Some \<open>Option.bind opens clock_minutes = Some a\<close>
          by (intro unique) (auto simp: derive_slot_times_from_hours_def starts_of_def starts_between_set)
      next
        case False
        then have "\<not> (0 < interval \<and> a \<le> m \<and> m < b)" for m by linarith
        then have "starts_of (Some a) (Some b) interval = {}" by (auto simp: starts_of_def)
        then show ?thesis
          using False Some \<open>Option.bind opens clock_minutes = Some a\<close>
          by (auto simp: derive_slot_times_from_hours_def)
      qed
    qed (auto simp: derive_slot_times_from_hours_def starts_of_def Some split: option.splits)
  qed (auto simp: derive_slot_times_from_hours_def starts_of_def)
qed

text \<open>Opening hours are documented as \<open>HH:MM\<close>; a sign in the place of the first digit is accepted.\<close>

lemma signed_opening_accepted:
  "business_hours_try_new ''+7:30'' ''18:00'' = Inr \<lparr>bh_open = ''+7:30'', bh_close = ''18:00''\<rparr>"
  by code_simp

section \<open>A morning\<close>

definition sample_zone :: zones where "sample_zone = (\<lambda>_. Some utc_clock)"

definition sample_texts :: text_zones where
  "sample_texts = (\<lambda>_. \<lparr>zt_stamp = (\<lambda>t. ''2026-07-01T'' @ clock_text (nat ((t div minutes 1) mod 1440))),
     zt_clock = (\<lambda>t. clock_text (nat ((t div minutes 1) mod 1440))),
     zt_wall = (\<lambda>d h m. Some (d * minutes 1440 + minutes (h * 60 + m)))\<rparr>)"

definition sample_booking :: "str \<Rightarrow> str \<Rightarrow> int \<Rightarrow> reservation" where
  "sample_booking rid status minute =
     (reservation_reconstitute rid rid None None None status (20635 * minutes 1440 + minutes minute)
        (20635 * minutes 1440 + minutes (minute + 240)) 4 None None)\<lparr>rv_course := Some ''c1''\<rparr>"

definition sample_course :: course where
  "sample_course = course_reconstitute ''c1'' ''East'' None 18 ''UTC'' 30 True (Some ''07:00'') (Some ''08:00'') None None"

definition sample_reads :: ledger_reads where
  "sample_reads = \<lparr>sd_reservations = Inr [sample_booking ''b2'' ''confirmed'' 450, sample_booking ''b1'' ''requested'' 420,
        sample_booking ''b3'' ''cancelled'' 420],
     sd_courses = Inr [sample_course], sd_timezone = Inr ''UTC'', sd_resources = Inr [], sd_products = Inr [],
     ld_order = Inr [], ld_marks = Inr []\<rparr>"

definition sample_walks :: map_walks where
  "sample_walks = \<lparr>mw_times = map minute_of, mw_courses = (\<lambda>items. remdups (map ti_course items))\<rparr>"

lemma sample_walks_ok: "walks_ok sample_walks"
  by (simp add: walks_ok_def walks_times_def sample_walks_def)

theorem ledger_shows_every_booking_witness:
  "case get_tee_ledger sample_walks utc_calendar sample_zone sample_texts
      \<lparr>gr_slots = (\<lambda>_. Inr []), gr_rules = (\<lambda>_. Inr [])\<rparr> (Inr ()) \<lparr>lq_date = 20635, lq_courses = []\<rparr> sample_reads of
     Inl _ \<Rightarrow> False
   | Inr ledger \<Rightarrow> mset (map ti_id (concat (map column_items (tg_columns ledger)))) = {#''b1'', ''b2''#}"
proof -
  let ?run = "get_tee_ledger sample_walks utc_calendar sample_zone sample_texts
      \<lparr>gr_slots = (\<lambda>_. Inr []), gr_rules = (\<lambda>_. Inr [])\<rparr> (Inr ()) \<lparr>lq_date = 20635, lq_courses = []\<rparr> sample_reads"
  have "is_ok ?run" by code_simp
  then obtain ledger where run: "?run = Inr ledger" by (cases ?run) simp_all
  let ?bookings = "[sample_booking ''b2'' ''confirmed'' 450, sample_booking ''b1'' ''requested'' 420,
        sample_booking ''b3'' ''cancelled'' 420]"
  have bookings: "sd_reservations sample_reads = Inr ?bookings"
    and courses: "sd_courses sample_reads = Inr [sample_course]" and tz: "sd_timezone sample_reads = Inr ''UTC''"
    by (simp_all add: sample_reads_def)
  have clk: "sample_zone ''UTC'' = Some utc_clock" by (simp add: sample_zone_def)
  have "map rv_id (filter (\<lambda>r. is_tee_sheet_candidate r \<and> occurs_on_date utc_clock 20635 r
      \<and> query_includes \<lparr>lq_date = 20635, lq_courses = []\<rparr> (fst (resolve_course r [] [sample_course]))) ?bookings)
    = [''b2'', ''b1'']" by code_simp
  moreover have "snd (or_empty (sd_resources sample_reads) ''resources'') = []"
    by (simp add: sample_reads_def or_empty_def)
  ultimately have "mset (map ti_id (concat (map column_items (tg_columns ledger)))) = mset [''b2'', ''b1'']"
    using ledger_shows_every_booking [OF run sample_walks_ok bookings courses tz clk] by simp
  then show ?thesis unfolding run sum.case by simp
qed

theorem row_sellable_exactly_witness:
  "let grid = summarize_inventory (sample_texts ''UTC'') [\<lparr>tl_id = ''t1'', tl_starts_at = minutes 420, tl_ends_at = minutes 430,
         tl_capacity = 2, tl_reserved = 0, tl_held = 0, tl_available = 1, tl_active = True\<rparr>]
   in is_sellable (build_slot grid None Map.empty ''07:00'')"
proof -
  let ?grid = "summarize_inventory (sample_texts ''UTC'') [\<lparr>tl_id = ''t1'', tl_starts_at = minutes 420, tl_ends_at = minutes 430,
         tl_capacity = 2, tl_reserved = 0, tl_held = 0, tl_available = 1, tl_active = True\<rparr>]"
  have counts: "sg_capacity ?grid ''07:00'' = Some (2, 1)" and live: "sg_active ?grid ''07:00'' = Some True"
    and fits: "in_i32 (2 - int (length (unwrap_or (Map.empty ''07:00'') ([] :: tee_sheet_item list))))"
    and room: "booked_groups (build_slot ?grid None Map.empty ''07:00'') + 1 \<le> 2"
    by code_simp+
  show ?thesis
    unfolding Let_def using row_sellable_exactly [OF counts fits, of None] live room by simp
qed

end
