(* ===== verification/FilingDeadline.thy ===== *)
theory FilingDeadline
  imports TextFormats Supply
begin

text \<open>
  The month a shift request is filed for and its filing deadline:
  \<open>src/course/domain/availability_deadline.rs\<close>, the use cases of
  \<open>src/course/usecase/availability_deadline.rs\<close> and the table the deadline is kept in
  (\<open>availability_deadline_repository.rs\<close>), a map from the tenant and the month as it is
  written to the date.
\<close>

section \<open>Months\<close>

record year_month =
  ym_year :: int
  ym_month :: int

definition bad_month :: course_error where
  "bad_month = BadRequest ''year-month must look like YYYY-MM''"

definition year_month_parse :: "str \<Rightarrow> year_month result" where
  "year_month_parse raw =
     (case split_once (CHR ''-'') (trim raw) of None \<Rightarrow> Inl bad_month
      | Some (year, month) \<Rightarrow>
        if length year \<noteq> 4 \<or> length month \<noteq> 2 then Inl bad_month
        else case parse_i32 year of None \<Rightarrow> Inl bad_month | Some y \<Rightarrow>
        (case parse_u32 month of None \<Rightarrow> Inl bad_month | Some m \<Rightarrow>
          if \<not> (1 \<le> m \<and> m \<le> 12) then Inl bad_month else Inr \<lparr>ym_year = y, ym_month = m\<rparr>))"

definition year_month_as_string :: "year_month \<Rightarrow> str" where
  "year_month_as_string ym = show_padded 4 (ym_year ym) @ [CHR ''-''] @ show_padded 2 (ym_month ym)"

text \<open>\<open>month_at\<close> reads the year and the month of a date; it belongs to the calendar crate.\<close>

type_synonym month_reader = "date \<Rightarrow> int \<times> int"

definition year_month_from_date :: "month_reader \<Rightarrow> date \<Rightarrow> year_month" where
  "year_month_from_date month_at d = \<lparr>ym_year = fst (month_at d), ym_month = snd (month_at d)\<rparr>"

text \<open>\<open>None\<close> is a panic: the three \<open>expect\<close>s.\<close>

definition year_month_bounds :: "calendar \<Rightarrow> year_month \<Rightarrow> (date \<times> date) option" where
  "year_month_bounds cal ym =
     (case cal_ymd cal (ym_year ym) (ym_month ym) 1 of None \<Rightarrow> None | Some start \<Rightarrow>
     (case (if ym_month ym = 12 then cal_ymd cal (ym_year ym + 1) 1 1
            else cal_ymd cal (ym_year ym) (ym_month ym + 1) 1) of None \<Rightarrow> None | Some nxt \<Rightarrow>
     (case cal_pred cal nxt of None \<Rightarrow> None | Some final \<Rightarrow> Some (start, final))))"

section \<open>Deadlines\<close>

record availability_deadline =
  dl_year_month :: year_month
  dl_date :: date

definition deadline_try_new :: "year_month \<Rightarrow> date \<Rightarrow> availability_deadline" where
  "deadline_try_new ym d = \<lparr>dl_year_month = ym, dl_date = d\<rparr>"

definition has_passed :: "date \<Rightarrow> availability_deadline \<Rightarrow> bool" where
  "has_passed today dl \<longleftrightarrow> dl_date dl < today"

type_synonym deadline_table = "str \<times> str \<rightharpoonup> date"

definition stored_deadline :: "deadline_table \<Rightarrow> str \<Rightarrow> year_month \<Rightarrow> availability_deadline option" where
  "stored_deadline table tenant ym =
     map_option (deadline_try_new ym) (table (tenant, year_month_as_string ym))"

definition store_deadline :: "str \<Rightarrow> availability_deadline \<Rightarrow> deadline_table \<Rightarrow> deadline_table" where
  "store_deadline tenant dl table = table((tenant, year_month_as_string (dl_year_month dl)) \<mapsto> dl_date dl)"

definition require_tenant :: "str \<Rightarrow> unit result" where
  "require_tenant tenant = (if trim tenant = [] then Inl (BadRequest ''tenant id is required'') else Inr ())"

definition get_availability_deadline ::
  "str \<Rightarrow> unit result \<Rightarrow> year_month \<Rightarrow> deadline_table \<Rightarrow> availability_deadline option result" where
  "get_availability_deadline tenant permitted ym table =
     (case require_tenant tenant of Inl e \<Rightarrow> Inl e | Inr _ \<Rightarrow>
     (case permitted of Inl e \<Rightarrow> Inl e | Inr _ \<Rightarrow> Inr (stored_deadline table tenant ym)))"

definition upsert_availability_deadline ::
  "str \<Rightarrow> unit result \<Rightarrow> availability_deadline \<Rightarrow> deadline_table
    \<Rightarrow> availability_deadline result \<times> deadline_table" where
  "upsert_availability_deadline tenant permitted dl table =
     (case require_tenant tenant of Inl e \<Rightarrow> (Inl e, table) | Inr _ \<Rightarrow>
     (case permitted of Inl e \<Rightarrow> (Inl e, table) | Inr _ \<Rightarrow> (Inr dl, store_deadline tenant dl table)))"

section \<open>Who has not filed\<close>

definition unsubmitted :: "caddie list \<Rightarrow> availability list \<Rightarrow> caddie list" where
  "unsubmitted roster filed =
     filter (\<lambda>c. cd_id c \<notin> set (map av_caddie filed)) (filter is_assignable roster)"

definition list_unsubmitted_caddies ::
  "unit result \<Rightarrow> (caddie list \<times> availability list) result \<Rightarrow> caddie list result" where
  "list_unsubmitted_caddies permitted reads =
     (case permitted of Inl e \<Rightarrow> Inl e | Inr _ \<Rightarrow>
     (case reads of Inl e \<Rightarrow> Inl e | Inr (roster, filed) \<Rightarrow> Inr (unsubmitted roster filed)))"

section \<open>A month survives being written\<close>

definition month_ok :: "year_month \<Rightarrow> bool" where
  "month_ok ym \<longleftrightarrow> 0 \<le> ym_year ym \<and> ym_year ym \<le> 9999 \<and> 1 \<le> ym_month ym \<and> ym_month ym \<le> 12"

theorem year_month_roundtrip:
  assumes "month_ok ym"
  shows "year_month_parse (year_month_as_string ym) = Inr ym"
proof -
  obtain y m where ym: "ym_year ym = int y" "ym_month ym = int m" "y < 10 ^ 4" "m < 10 ^ 2"
    using assms by (auto simp: month_ok_def intro: that [of "nat (ym_year ym)" "nat (ym_month ym)"])
  let ?y = "zeros_before 4 (show_nat y)" and ?m = "zeros_before 2 (show_nat m)"
  have y: "length ?y = 4" "list_all is_digit ?y" "parse_i32 ?y = Some (int y)"
    using zeros_before_facts [OF ym(3)] parse_i32_padded [OF ym(3)] ym(3) by simp_all
  have m: "length ?m = 2" "list_all is_digit ?m" "parse_u32 ?m = Some (int m)"
    using zeros_before_facts [OF ym(4)] parse_u32_padded [OF ym(4)] ym(4) by simp_all
  have written: "year_month_as_string ym = ?y @ CHR ''-'' # ?m"
    by (simp add: year_month_as_string_def show_padded_def ym)
  have "visible (CHR ''-'')" by code_simp
  then have "trim (?y @ CHR ''-'' # ?m) = ?y @ CHR ''-'' # ?m"
    using y(2) m(2) by (intro trim_visible) (auto simp: list_all_iff digit_visible)
  moreover have "split_once (CHR ''-'') (?y @ CHR ''-'' # ?m) = Some (?y, ?m)"
    using y(2) is_digit_not_sign by (auto simp: split_once_def list_all_iff dropWhile_append3 takeWhile_append2)
  moreover have "ym = \<lparr>ym_year = int y, ym_month = int m\<rparr>" using ym by (cases ym) simp
  ultimately show ?thesis
    unfolding year_month_parse_def written using y m assms by (simp add: month_ok_def)
qed

lemma year_month_as_string_inj:
  "month_ok a \<Longrightarrow> month_ok b \<Longrightarrow> year_month_as_string a = year_month_as_string b \<Longrightarrow> a = b"
  using year_month_roundtrip by (metis Inr_inject)

text \<open>A deadline set for one month is the one read back for it, and no other month's is touched.\<close>

theorem deadline_kept:
  assumes "month_ok (dl_year_month dl)" "month_ok ym"
  shows "stored_deadline (store_deadline tenant dl table) tenant' ym =
    (if tenant' = tenant \<and> ym = dl_year_month dl then Some dl else stored_deadline table tenant' ym)"
  using year_month_as_string_inj [OF assms(2,1)]
  by (auto simp: stored_deadline_def store_deadline_def deadline_try_new_def)

text \<open>The month is documented as \<open>YYYY-MM\<close>; signs in the place of digits are accepted.\<close>

lemma signed_year_month_accepted: "year_month_parse ''+226-+8'' = Inr \<lparr>ym_year = 226, ym_month = 8\<rparr>"
  by code_simp

end
