(* ===== verification/AutoAssign.thy ===== *)
theory AutoAssign
  imports TeeSheet FilingDeadline
begin

text \<open>
  The automatic staffing of a day: \<open>src/course/usecase/auto_assign_caddies.rs\<close>. It reads the
  sheet, the roster and the standing assignments, hands the uncovered rounds to the planner of
  \<open>DayPlan\<close> and writes what it planned, one row at a time. The two read answers that only
  matter after the plan is drawn (the deadline and the fees) keep their place in the order of
  failures.
\<close>

text \<open>\<open>read3339\<close> is \<open>DateTime::parse_from_rfc3339\<close> of the time crate.\<close>

type_synonym stamp_reader = "str \<Rightarrow> instant option"

definition round_starts_at :: "stamp_reader \<Rightarrow> tee_sheet_item \<Rightarrow> instant result" where
  "round_starts_at read3339 i =
     (case read3339 (ti_tee_time i) of
        None \<Rightarrow> Inl (Provider ''the tee sheet built an unreadable tee time'')
      | Some t \<Rightarrow> Inr t)"

section \<open>What the run reads\<close>

record auto_facts =
  af_roster :: "caddie list"
  af_assignments :: "assignment list"
  af_attendance :: "(caddie_id \<times> str) list"
  af_availabilities :: "availability list"
  af_confirmed :: "caddie_shift list"
  af_duties :: "duty_assignment list"

record auto_replies =
  au_timezone :: "str result"
  au_sheet_permitted :: "unit result"
  au_sheet :: sheet_reads
  au_facts :: "date \<times> date \<Rightarrow> auto_facts result"
  au_deadline :: "year_month \<Rightarrow> availability_deadline option result"
  au_filed :: "date \<times> date \<Rightarrow> availability list result"
  au_fees :: "rank_fees result"

section \<open>The filing deadline\<close>

definition build_deadline_warning ::
  "availability_deadline \<Rightarrow> str list \<Rightarrow> deadline_warning option" where
  "build_deadline_warning dl names =
     (if names = [] then None else Some \<lparr>dw_deadline = dl_date dl, dw_unsubmitted = names\<rparr>)"

definition unsubmitted_names :: "caddie list \<Rightarrow> availability list \<Rightarrow> str list" where
  "unsubmitted_names roster filed =
     map cd_display_name (filter (\<lambda>c. cd_id c \<notin> set (map av_caddie filed)) (filter is_assignable roster))"

text \<open>The outer \<open>option\<close> is \<open>None\<close> where reading the month's bounds panics.\<close>

definition deadline_warning_for ::
  "calendar \<Rightarrow> month_reader \<Rightarrow> auto_replies \<Rightarrow> date \<Rightarrow> date \<Rightarrow> caddie list
    \<Rightarrow> deadline_warning option result option" where
  "deadline_warning_for cal month_at replies d today roster =
     (let ym = year_month_from_date month_at d in
      case au_deadline replies ym of
        Inl e \<Rightarrow> Some (Inl e)
      | Inr None \<Rightarrow> Some (Inr None)
      | Inr (Some dl) \<Rightarrow>
          if \<not> has_passed today dl then Some (Inr None)
          else (case year_month_bounds cal ym of None \<Rightarrow> None | Some (month_start, month_end) \<Rightarrow>
            (case au_filed replies (month_start, month_end) of
               Inl e \<Rightarrow> Some (Inl e)
             | Inr filed \<Rightarrow> Some (Inr (build_deadline_warning dl (unsubmitted_names roster filed))))))"

section \<open>The rounds and the people of the day\<close>

definition live_within :: "instant \<times> instant \<Rightarrow> assignment list \<Rightarrow> assignment list" where
  "live_within bounds as =
     filter (\<lambda>a. fst bounds \<le> as_scheduled_at a \<and> as_scheduled_at a < snd bounds)
       (filter holds_the_round as)"

definition round_of_item :: "stamp_reader \<Rightarrow> tee_sheet_item \<Rightarrow> plannable_round result" where
  "round_of_item read3339 i =
     (case round_starts_at read3339 i of Inl e \<Rightarrow> Inl e
      | Inr t \<Rightarrow> Inr \<lparr>pr_reservation = ti_id i, pr_starts_at = t, pr_duration = Some (ti_duration i),
          pr_players = ti_party_size i, pr_course = Some (ti_course i)\<rparr>)"

definition uncovered :: "assignment list \<Rightarrow> tee_sheet_item \<Rightarrow> bool" where
  "uncovered live i \<longleftrightarrow> \<not> (\<exists>a \<in> set live. covers_reservation a (ti_id i))"

definition open_rounds ::
  "stamp_reader \<Rightarrow> assignment list \<Rightarrow> tee_sheet_item list \<Rightarrow> plannable_round list result" where
  "open_rounds read3339 live items =
     collect_results (map (round_of_item read3339) (filter (uncovered live) (filter item_requires_caddie items)))"

definition shifts_on :: "date \<Rightarrow> caddie_shift list \<Rightarrow> (caddie_id \<rightharpoonup> caddie_shift)" where
  "shifts_on d confirmed =
     collect_map (map (\<lambda>s. (sh_caddie s, s)) (filter (\<lambda>s. sh_date s = d) confirmed))"

definition works_that_day :: "(caddie_id \<rightharpoonup> caddie_shift) \<Rightarrow> caddie \<Rightarrow> bool" where
  "works_that_day shifts c = (case shifts (cd_id c) of None \<Rightarrow> True | Some s \<Rightarrow> sh_working s)"

definition committed_to :: "caddie_id \<Rightarrow> assignment list \<Rightarrow> assignment list" where
  "committed_to cid live = filter (\<lambda>a. as_caddie a = cid) live"

definition busy_of :: "instant \<Rightarrow> date \<Rightarrow> assignment list \<Rightarrow> duty_assignment list \<Rightarrow> caddie_id
    \<Rightarrow> (instant \<times> instant) list" where
  "busy_of day_start d live duties cid =
     map (\<lambda>a. (as_scheduled_at a, as_scheduled_at a + minutes (occupied_minutes a))) (committed_to cid live)
     @ map (\<lambda>w. (day_start + minutes (dw_start w), day_start + minutes (dw_end w)))
         (duty_windows_for duties cid d)"

definition plannable_of ::
  "instant \<Rightarrow> date \<Rightarrow> assignment list \<Rightarrow> duty_assignment list \<Rightarrow> (caddie_id \<rightharpoonup> caddie_shift)
    \<Rightarrow> (caddie_id \<rightharpoonup> attendance_state) \<Rightarrow> (caddie_id \<rightharpoonup> availability) \<Rightarrow> caddie \<Rightarrow> plannable_caddie" where
  "plannable_of day_start d live duties shifts attendance declared c =
     (let cid = cd_id c in
      \<lparr>pc_caddie = cid, pc_name = cd_display_name c, pc_skill = cd_skill c,
       pc_rating = cd_rating_average c, pc_rating_count = cd_rating_count c,
       pc_max_rounds = cd_max_rounds c, pc_assigned_today = int (length (committed_to cid live)),
       pc_attendance = unwrap_or (attendance cid) NotClocked,
       pc_availability = map_option av_status (declared cid),
       pc_busy = busy_of day_start d live duties cid,
       pc_placement = placement_for_shift (shifts cid),
       pc_wants_two = cd_can_two_rounds c
         \<and> (case declared cid of None \<Rightarrow> False | Some v \<Rightarrow> av_two_round_request v)\<rparr>)"

definition plannable_caddies ::
  "instant \<Rightarrow> date \<Rightarrow> assignment list \<Rightarrow> auto_facts \<Rightarrow> plannable_caddie list" where
  "plannable_caddies day_start d live f =
     (let shifts = shifts_on d (af_confirmed f);
          attendance = collect_map (map (\<lambda>(cid, s). (cid, attendance_parse s)) (af_attendance f));
          declared = collect_map (map (\<lambda>v. (av_caddie v, v)) (af_availabilities f))
      in map (plannable_of day_start d live (af_duties f) shifts attendance declared)
           (filter (works_that_day shifts) (filter is_assignable (af_roster f))))"

section \<open>The writes\<close>

definition fees_of :: "rank_fees \<Rightarrow> caddie list \<Rightarrow> (caddie_id \<rightharpoonup> int \<times> str)" where
  "fees_of fees roster =
     collect_map (map (\<lambda>c. (cd_id c, (round_fee_for fees (cd_rank c) (cd_base_fee c), cd_currency c))) roster)"

definition planned_write :: "(caddie_id \<rightharpoonup> int \<times> str) \<Rightarrow> plan_item \<Rightarrow> upsert_assignment" where
  "planned_write fees it =
     (let (amount, currency) = unwrap_or (fees (pi_caddie it)) (0, ''JPY'') in
      \<lparr>us_caddie = pi_caddie it, us_reservation = Some (pi_reservation it), us_round_reference = None,
       us_scheduled_at = pi_scheduled_at it, us_status = Some ''assigned'', us_role = Some ''primary'',
       us_fee = Some amount, us_currency = Some currency, us_score = None, us_notes = None\<rparr>)"

text \<open>The rows upstream took, and the error it stopped at; \<open>reply k\<close> answers the \<open>k\<close>-th write.\<close>

fun write_each ::
  "(nat \<Rightarrow> upsert_assignment \<Rightarrow> unit result) \<Rightarrow> nat \<Rightarrow> upsert_assignment list
    \<Rightarrow> upsert_assignment list \<times> unit result" where
  "write_each reply k [] = ([], Inr ())"
| "write_each reply k (u # us) =
     (case reply k u of Inl e \<Rightarrow> ([], Inl e)
      | Inr _ \<Rightarrow> (let (taken, res) = write_each reply (Suc k) us in (u # taken, res)))"

section \<open>The run\<close>

text \<open>\<open>None\<close> is a panic.\<close>

definition plan_and_write ::
  "calendar \<Rightarrow> month_reader \<Rightarrow> clock \<Rightarrow> date \<Rightarrow> bool \<Rightarrow> date \<Rightarrow> auto_replies
    \<Rightarrow> (nat \<Rightarrow> upsert_assignment \<Rightarrow> unit result) \<Rightarrow> auto_facts \<Rightarrow> plannable_round list
    \<Rightarrow> plannable_caddie list \<Rightarrow> (assign_result result \<times> upsert_assignment list) option" where
  "plan_and_write cal month_at clk d dry_run today replies reply f rounds caddies =
     (let plan = plan_caddie_assignments clk dry_run rounds caddies in
      case deadline_warning_for cal month_at replies d today (af_roster f) of
        None \<Rightarrow> None
      | Some (Inl e) \<Rightarrow> Some (Inl e, [])
      | Some (Inr warning) \<Rightarrow>
          let plan' = plan\<lparr>ar_deadline_warning := warning\<rparr> in
          if dry_run then Some (Inr plan', [])
          else (case au_fees replies of Inl e \<Rightarrow> Some (Inl e, [])
            | Inr fees \<Rightarrow>
                let (taken, res) = write_each reply 0
                      (map (planned_write (fees_of fees (af_roster f))) (ar_assigned plan'))
                in Some (case res of Inl e \<Rightarrow> Inl e | Inr _ \<Rightarrow> Inr plan', taken)))"

definition auto_assign_caddies ::
  "calendar \<Rightarrow> zones \<Rightarrow> text_zones \<Rightarrow> stamp_reader \<Rightarrow> month_reader \<Rightarrow> unit result \<Rightarrow> instant \<Rightarrow> date \<Rightarrow> bool
    \<Rightarrow> auto_replies \<Rightarrow> (nat \<Rightarrow> upsert_assignment \<Rightarrow> unit result)
    \<Rightarrow> (assign_result result \<times> upsert_assignment list) option" where
  "auto_assign_caddies cal zone texts read3339 month_at permitted now d dry_run replies reply =
     (case permitted of Inl e \<Rightarrow> Some (Inl e, []) | Inr _ \<Rightarrow>
     (case au_timezone replies of Inl e \<Rightarrow> Some (Inl e, []) | Inr tz \<Rightarrow>
     (case parse_tenant_timezone zone tz of Inl e \<Rightarrow> Some (Inl e, []) | Inr clk \<Rightarrow>
     (case tenant_date_at zone now tz of Inl e \<Rightarrow> Some (Inl e, []) | Inr today \<Rightarrow>
     (case get_tee_sheet cal zone texts (au_sheet_permitted replies)
             \<lparr>tq_date = d, tq_to = None, tq_course = None\<rparr> (au_sheet replies) of
        Inl e \<Rightarrow> Some (Inl e, [])
      | Inr s \<Rightarrow>
     (case au_facts replies (widen_for_utc_date_filter d d) of Inl e \<Rightarrow> Some (Inl e, []) | Inr f \<Rightarrow>
     (case tenant_day_bounds cal zone d d tz of Inl e \<Rightarrow> Some (Inl e, [])
      | Inr bounds \<Rightarrow>
          let live = live_within bounds (af_assignments f) in
          (case open_rounds read3339 live (ts_items s) of Inl e \<Rightarrow> Some (Inl e, [])
           | Inr rounds \<Rightarrow>
               if rounds = [] then Some (Inr (assign_result_new dry_run [] []), [])
               else plan_and_write cal month_at clk d dry_run today replies reply f rounds
                      (plannable_caddies (fst bounds) d live f)))))))))"

end
