(* ===== verification/AutoAssignCorrect.thy ===== *)
theory AutoAssignCorrect
  imports AutoAssign AssignmentBoard DayPlanCorrect TeeLedgerCorrect
begin

text \<open>
  The automatic run composed with the board: what it writes never double-books, together with
  everything the desk does by hand, and each round it plans is one the guards of the manual use
  case would have let through.
\<close>

section \<open>What a run writes\<close>

lemma write_each_prefix: "\<exists>n. fst (write_each reply k us) = take n us"
proof (induction us arbitrary: k)
  case (Cons u us)
  then obtain n where "fst (write_each reply (Suc k) us) = take n us" by blast
  then show ?case
    by (cases "reply k u"; cases "write_each reply (Suc k) us") (auto intro: exI [of _ 0] exI [of _ "Suc n"])
qed simp

lemma plan_and_write_taken:
  assumes "plan_and_write cal month_at clk d dry today replies reply f rounds caddies = Some (outcome, written)"
  shows "\<exists>fees n. written = take n (map (planned_write fees)
      (ar_assigned (plan_caddie_assignments clk dry rounds caddies)))
    \<and> (written \<noteq> [] \<longrightarrow> (\<exists>t. au_fees replies = Inr t \<and> fees = fees_of t (af_roster f)))"
proof -
  let ?rows = "\<lambda>fees. map (planned_write (fees_of fees (af_roster f)))
        (ar_assigned (plan_caddie_assignments clk dry rounds caddies))"
  have "written = [] \<or> (\<exists>fees res. au_fees replies = Inr fees \<and> write_each reply 0 (?rows fees) = (written, res))"
    using assms
    by (auto simp: plan_and_write_def Let_def split: option.splits sum.splits if_splits prod.splits)
  then show ?thesis
  proof
    assume "written = []"
    then show ?thesis by (intro exI [of _ 0] exI) simp
  next
    assume "\<exists>fees res. au_fees replies = Inr fees \<and> write_each reply 0 (?rows fees) = (written, res)"
    then obtain fees res where fees: "au_fees replies = Inr fees" "write_each reply 0 (?rows fees) = (written, res)"
      by blast
    then obtain n where "written = take n (?rows fees)" using write_each_prefix by (metis fst_conv)
    then show ?thesis using fees(1) by blast
  qed
qed

lemma run_taken:
  assumes "auto_assign_caddies cal zone texts read3339 month_at permitted now d dry replies reply = Some (outcome, written)"
    and "au_timezone replies = Inr tz" "zone tz = Some clk"
    and "get_tee_sheet cal zone texts (au_sheet_permitted replies) \<lparr>tq_date = d, tq_to = None, tq_course = None\<rparr>
      (au_sheet replies) = Inr s"
    and "au_facts replies (widen_for_utc_date_filter d d) = Inr f" "tenant_day_bounds cal zone d d tz = Inr bounds"
    and "open_rounds read3339 (live_within bounds (af_assignments f)) (ts_items s) = Inr rounds"
  shows "\<exists>fees n. written = take n (map (planned_write fees) (ar_assigned (plan_caddie_assignments clk dry rounds
      (plannable_caddies (fst bounds) d (live_within bounds (af_assignments f)) f))))
    \<and> (written \<noteq> [] \<longrightarrow> (\<exists>t. au_fees replies = Inr t \<and> fees = fees_of t (af_roster f)))"
proof -
  consider "written = []"
    | today where "plan_and_write cal month_at clk d dry today replies reply f rounds
        (plannable_caddies (fst bounds) d (live_within bounds (af_assignments f)) f) = Some (outcome, written)"
    using assms
    by (auto simp: auto_assign_caddies_def parse_tenant_timezone_def tenant_date_at_def Let_def
        split: sum.splits if_splits)
  then show ?thesis
  proof cases
    case 1
    then show ?thesis by (intro exI [of _ 0] exI) simp
  next
    case 2
    then show ?thesis by (rule plan_and_write_taken)
  qed
qed

section \<open>The rounds of a run\<close>

lemma open_rounds_items:
  assumes "open_rounds read3339 live items = Inr rounds"
  shows "list_all2 (\<lambda>i r. round_of_item read3339 i = Inr r)
    (filter (uncovered live) (filter item_requires_caddie items)) rounds"
proof -
  have "map (round_of_item read3339) (filter (uncovered live) (filter item_requires_caddie items)) = map Inr rounds"
    using assms unfolding open_rounds_def collect_results_all .
  then show ?thesis by (simp only: list_all2_conv_all_nth) (metis length_map nth_map)
qed

lemma round_of_item_fields:
  "round_of_item read3339 i = Inr r \<Longrightarrow> pr_reservation r = ti_id i \<and> pr_duration r = Some (ti_duration i)
    \<and> read3339 (ti_tee_time i) = Some (pr_starts_at r) \<and> pr_course r = Some (ti_course i)"
  by (auto simp: round_of_item_def round_starts_at_def split: option.splits sum.splits)

lemma list_all2_memE:
  assumes "list_all2 P xs ys" "y \<in> set ys"
  obtains x where "x \<in> set xs" "P x y"
  using assms by (metis in_set_conv_nth list_all2_conv_all_nth)

lemma open_round_item:
  assumes "open_rounds read3339 live items = Inr rounds" "r \<in> set rounds"
  obtains i where "i \<in> set items" "item_requires_caddie i" "uncovered live i" "pr_reservation r = ti_id i"
    "read3339 (ti_tee_time i) = Some (pr_starts_at r)" "pr_duration r = Some (ti_duration i)"
  using open_rounds_items [OF assms(1)] assms(2)
  by (rule list_all2_memE) (auto dest: round_of_item_fields)

lemma open_rounds_distinct:
  assumes "open_rounds read3339 live items = Inr rounds" "distinct (map ti_id items)"
  shows "distinct (map pr_reservation rounds)"
proof -
  have "map pr_reservation rounds = map ti_id (filter (uncovered live) (filter item_requires_caddie items))"
    using open_rounds_items [OF assms(1)]
    by (induction rule: list_all2_induct) (auto dest: round_of_item_fields)
  then show ?thesis using assms(2) by (metis distinct_map_filter)
qed

text \<open>The sheet of one day: each row is a booking of that day, written in the tenant's zone.\<close>

definition reads_back :: "stamp_reader \<Rightarrow> zone_texts \<Rightarrow> clock \<Rightarrow> bool" where
  "reads_back read3339 zt clk \<longleftrightarrow>
     (\<forall>t t'. read3339 (zt_stamp zt t) = Some t' \<longrightarrow> clk_local_date clk t' = clk_local_date clk t)"

lemma single_day:
  assumes "counts_days cal"
  shows "query_dates cal \<lparr>tq_date = d, tq_to = None, tq_course = None\<rparr> = [d]"
proof (cases "cal_succ cal d")
  case (Some e)
  then have "e = d + 1" using assms unfolding counts_days_def by blast
  then have "d < e" by simp
  then show ?thesis using Some by (simp add: query_dates_def MAX_TEE_SHEET_DAYS_def numeral_eq_Suc)
qed (simp add: query_dates_def MAX_TEE_SHEET_DAYS_def numeral_eq_Suc)

lemma day_sheet:
  assumes "get_tee_sheet cal zone texts permitted \<lparr>tq_date = d, tq_to = None, tq_course = None\<rparr> reads = Inr s"
    and "counts_days cal" "sd_timezone reads = Inr tz"
  obtains reservations courses resources products day where
    "sd_reservations reads = Inr reservations"
    "build_tee_sheet zone texts d None reservations courses resources products tz = Inr day"
    "ts_items s = ts_items day"
proof -
  obtain reservations courses where reads: "sd_reservations reads = Inr reservations" "sd_courses reads = Inr courses"
    using assms(1) by (auto simp: get_tee_sheet_def split: sum.splits)
  then obtain products days where
    "list_all2 (\<lambda>x day. build_tee_sheet zone texts x None reservations courses
        (snd (or_empty (sd_resources reads) ''resources'')) products tz = Inr day) [d] days"
    "ts_items s = concat (map ts_items days)"
    using get_tee_sheet_days [OF assms(1) reads assms(3)] by (auto simp: single_day [OF assms(2)])
  then show thesis using reads(1) that by (auto simp: list_all2_Cons1)
qed

lemma sheet_row_time:
  assumes "build_tee_sheet zone texts d only reservations courses resources products tz = Inr day"
    and "zone tz = Some clk" "i \<in> set (ts_items day)"
  obtains t where "ti_tee_time i = zt_stamp (texts tz) t" "clk_local_date clk t = d"
proof -
  let ?rs = "filter (on_sheet clk d only resources courses) reservations"
  obtain items where items: "collect_results (map (sheet_row zone texts resources courses products tz) ?rs) = Inr items"
    "ts_items day = sort_by (key_le item_key) items"
    using assms by (auto simp: build_tee_sheet_def parse_tenant_timezone_def tee_sheet_new_def split: sum.splits)
  have "map (sheet_row zone texts resources courses products tz) ?rs = map Inr items"
    using items(1) by (simp only: collect_results_all)
  moreover have "i \<in> set items" using assms(3) items(2) by simp
  ultimately obtain r where r: "r \<in> set ?rs" "sheet_row zone texts resources courses products tz r = Inr i"
    by (metis (no_types, lifting) image_eqI imageE list.set_map)
  have "ti_tee_time i = zt_stamp (texts tz) (rv_starts_at r)"
    using r(2) by (auto simp: sheet_row_def to_tee_sheet_item_def tee_sheet_item_new_def format_datetime_in_timezone_def
        Let_def split: prod.splits sum.splits)
  moreover have "clk_local_date clk (rv_starts_at r) = d"
    using r(1) by (simp add: on_sheet_def occurs_on_date_def tee_date_in_def)
  ultimately show thesis by (rule that)
qed

lemma sheet_ids_distinct:
  assumes "build_tee_sheet zone texts d only reservations courses resources products tz = Inr day"
    and "zone tz = Some clk" "distinct (map rv_id reservations)"
  shows "distinct (map ti_id (ts_items day))"
proof -
  let ?rs = "filter (on_sheet clk d only resources courses) reservations"
  have "image_mset fst (mset (map (\<lambda>i. (ti_id i, ti_course i)) (ts_items day)))
      = image_mset fst (mset (map (\<lambda>r. (rv_id r, fst (resolve_course r resources courses))) ?rs))"
    using sheet_items [OF assms(1,2)] by simp
  then have "mset (map ti_id (ts_items day)) = mset (map rv_id ?rs)"
    by (simp add: image_mset.compositionality comp_def flip: mset_map)
  moreover have "distinct (map rv_id ?rs)" using assms(3) by (rule distinct_map_filter)
  ultimately show ?thesis by (metis mset_eq_imp_distinct_iff)
qed

section \<open>The people of a run\<close>

lemma plannable_ids:
  assumes "distinct (map cd_id (af_roster f))"
  shows "distinct (map pc_caddie (plannable_caddies start d live f))"
proof -
  have "map pc_caddie (plannable_caddies start d live f)
      = map cd_id (filter (works_that_day (shifts_on d (af_confirmed f))) (filter is_assignable (af_roster f)))"
    by (simp add: plannable_caddies_def plannable_of_def Let_def comp_def)
  then show ?thesis using assms by (metis distinct_map_filter)
qed

lemma plannable_busy:
  assumes "c \<in> set (plannable_caddies start d live f)"
  shows "pc_busy c = busy_of start d live (af_duties f) (pc_caddie c)"
  using assms by (auto simp: plannable_caddies_def plannable_of_def Let_def)

lemma free_of_live:
  assumes "is_free_for c r" "pc_busy c = busy_of start d live duties (pc_caddie c)"
    and "a \<in> set live" "as_caddie a = pc_caddie c"
  shows "\<not> round_overlaps r (as_scheduled_at a) (row_end a)"
proof -
  have "(as_scheduled_at a, row_end a) \<in> set (pc_busy c)"
    using assms(2-4) by (simp add: busy_of_def committed_to_def row_end_def)
  then show ?thesis using assms(1) by (force simp: is_free_for_def)
qed

section \<open>The rows of a run on the board\<close>

text \<open>What is asked of the replies for a run to mean anything: both reads of the zone agree, the
  rows and the roster carry distinct ids, and the day's assignments answer for the board.\<close>

definition run_replies_ok ::
  "calendar \<Rightarrow> zones \<Rightarrow> str \<Rightarrow> date \<Rightarrow> auto_replies \<Rightarrow> auto_facts \<Rightarrow> assignment list \<Rightarrow> bool" where
  "run_replies_ok cal zone tz d replies f board \<longleftrightarrow>
     au_timezone replies = Inr tz \<and> sd_timezone (au_sheet replies) = Inr tz
   \<and> au_facts replies (widen_for_utc_date_filter d d) = Inr f
   \<and> (\<forall>rs. sd_reservations (au_sheet replies) = Inr rs \<longrightarrow> distinct (map rv_id rs))
   \<and> distinct (map cd_id (af_roster f))
   \<and> answers cal zone tz (af_assignments f) d board"

text \<open>The length a written row was planned with.\<close>

definition planned_length :: "plannable_round list \<Rightarrow> upsert_assignment \<Rightarrow> int" where
  "planned_length rounds u =
     (case find (\<lambda>r. us_reservation u = Some (pr_reservation r)) rounds of
        None \<Rightarrow> DEFAULT_ROUND_MINUTES
      | Some r \<Rightarrow> unwrap_or (positive (pr_duration r)) DEFAULT_ROUND_MINUTES)"

lemma planned_length_ends:
  assumes "distinct (map pr_reservation rounds)" "r \<in> set rounds" "us_reservation u = Some (pr_reservation r)"
  shows "pr_starts_at r + minutes (planned_length rounds u) = round_ends_at r"
proof -
  have "find (\<lambda>x. us_reservation u = Some (pr_reservation x)) rounds = Some r"
    using assms by (induction rounds) (auto simp: image_iff)
  then show ?thesis by (auto simp: planned_length_def round_ends_at_def unwrap_or_def split: option.splits)
qed

lemma live_rounds_within:
  "tenant_day_bounds cal zone d d tz = Inr bounds \<Longrightarrow> live_rounds_on cal zone as d tz = Inr (live_within bounds as)"
  by (cases bounds) (simp add: live_rounds_on_def live_within_def)

text \<open>One written row: the round and the caddie it was planned from, over the length \<open>l\<close> of the round.\<close>

definition row_of_plan ::
  "assign_result \<Rightarrow> plannable_round list \<Rightarrow> plannable_caddie list \<Rightarrow> assignment \<Rightarrow> int \<Rightarrow> plannable_round
    \<Rightarrow> plannable_caddie \<Rightarrow> bool" where
  "row_of_plan plan rounds caddies row l r c \<longleftrightarrow>
     r \<in> set (rounds_given plan rounds c) \<and> c \<in> set caddies
   \<and> as_reservation row = Some (pr_reservation r) \<and> as_caddie row = pc_caddie c
   \<and> as_scheduled_at row = pr_starts_at r \<and> as_scheduled_at row + minutes l = round_ends_at r"

lemma written_row_of_plan:
  assumes it: "it \<in> set (ar_assigned (plan_caddie_assignments clk dry rounds caddies))"
    and store: "keeps_writes store" and ids: "distinct (map pr_reservation rounds)"
  obtains r c where "row_of_plan (plan_caddie_assignments clk dry rounds caddies) rounds caddies
    (store aid (planned_write fees it)) (planned_length rounds (planned_write fees it)) r c"
    "pi_reservation it = pr_reservation r"
proof -
  obtain r c where r: "r \<in> set rounds" "pi_reservation it = pr_reservation r" "pi_scheduled_at it = pr_starts_at r"
    and c: "c \<in> set caddies" "pi_caddie it = pc_caddie c"
    using plan_planned_for [OF it] by (auto simp: planned_for_def)
  have "r \<in> set (rounds_given (plan_caddie_assignments clk dry rounds caddies) rounds c)"
    using it r c by (auto simp: rounds_given_def)
  moreover have sent: "us_reservation (planned_write fees it) = Some (pr_reservation r)"
    "us_caddie (planned_write fees it) = pc_caddie c" "us_scheduled_at (planned_write fees it) = pr_starts_at r"
    using r c by (simp_all add: planned_write_def split: prod.splits)
  ultimately show thesis
    using that [of r c] r c planned_length_ends [OF ids r(1) sent(1)]
    by (simp add: row_of_plan_def keeps_writesD [OF store])
qed

lemma sorted_wrt_sym_pairs:
  assumes "sorted_wrt P xs" "x \<in> set xs" "y \<in> set xs" "x \<noteq> y"
  shows "P x y \<or> P y x"
  using assms by (induction xs) auto

lemma plan_rows_clear:
  assumes "distinct (map pc_caddie caddies)" "distinct (map pr_reservation rounds)"
    and plan: "plan = plan_caddie_assignments clk dry rounds caddies"
    and a: "row_of_plan plan rounds caddies a l1 r1 c1" and b: "row_of_plan plan rounds caddies b l2 r2 c2"
    and ne: "pr_reservation r1 \<noteq> pr_reservation r2"
  shows "clear_of l1 a l2 b"
proof -
  have "\<not> guard_overlaps (as_scheduled_at a) (as_scheduled_at a + minutes l1)
      (as_scheduled_at b) (as_scheduled_at b + minutes l2)"
    if same: "as_caddie a = as_caddie b"
  proof -
    have "c1 = c2"
      using a b same assms(1) by (auto simp: row_of_plan_def distinct_map inj_on_def)
    then have given: "r1 \<in> set (rounds_given plan rounds c1)" "r2 \<in> set (rounds_given plan rounds c1)"
      "c1 \<in> set caddies" using a b by (simp_all add: row_of_plan_def)
    have "sorted_wrt (\<lambda>x y. \<not> round_overlaps y (pr_starts_at x) (round_ends_at x)) (rounds_given plan rounds c1)"
      unfolding plan by (rule rounds_given_facts(3) [OF assms(1,2) given(3) refl])
    from sorted_wrt_sym_pairs [OF this given(1,2)] ne
    have "\<not> round_overlaps r2 (pr_starts_at r1) (round_ends_at r1)
        \<or> \<not> round_overlaps r1 (pr_starts_at r2) (round_ends_at r2)" by auto
    then show ?thesis
      using a b by (auto simp: row_of_plan_def round_overlaps_def guard_overlaps_def)
  qed
  moreover have "as_reservation a \<noteq> as_reservation b" using a b ne by (simp add: row_of_plan_def)
  ultimately show ?thesis by (auto simp: clear_of_def)
qed

lemma plan_row_beside_live:
  assumes "distinct (map pc_caddie caddies)" "distinct (map pr_reservation rounds)"
    and plan: "plan = plan_caddie_assignments clk dry rounds caddies"
    and row: "row_of_plan plan rounds caddies row l r c"
    and busy: "pc_busy c = busy_of start d live duties (pc_caddie c)"
    and a: "a \<in> set live" "\<not> covers_reservation a (pr_reservation r)"
  shows "clear_of l row (occupied_minutes a) a"
proof -
  have "is_free_for c r"
    using rounds_given_facts(2) [OF assms(1,2) _ plan [THEN arg_cong, of "\<lambda>p. rounds_given p rounds c"]] row
    by (auto simp: row_of_plan_def)
  then have "\<not> round_overlaps r (as_scheduled_at a) (row_end a)" if "as_caddie a = pc_caddie c"
    using free_of_live [OF _ busy a(1) that] by blast
  then show ?thesis
    using row a(2)
    by (auto simp: row_of_plan_def clear_of_def covers_reservation_def round_overlaps_def guard_overlaps_def row_end_def)
qed

lemma auto_run_apart:
  assumes run: "auto_assign_caddies cal zone texts read3339 month_at permitted now d dry replies reply = Some (outcome, written)"
    and replies: "run_replies_ok cal zone tz d replies f board"
    and sheet: "get_tee_sheet cal zone texts (au_sheet_permitted replies) \<lparr>tq_date = d, tq_to = None, tq_course = None\<rparr>
      (au_sheet replies) = Inr s"
    and bounds: "tenant_day_bounds cal zone d d tz = Inr bounds"
    and rounds: "open_rounds read3339 (live_within bounds (af_assignments f)) (ts_items s) = Inr rounds"
    and aids: "length aids = length written" "distinct aids" "set aids \<inter> as_id ` set board = {}"
    and clock: "zone tz = Some clk" "day_is_local cal clk" "counts_days cal" "reads_back read3339 (texts tz) clk"
    and store: "keeps_writes store" and ok: "board_apart clk writes board"
  shows "board_apart clk (zip aids (map (planned_length rounds) written) # writes) (board @ map2 store aids written)"
proof -
  let ?live = "live_within bounds (af_assignments f)"
  let ?caddies = "plannable_caddies (fst bounds) d ?live f"
  define plan where "plan = plan_caddie_assignments clk dry rounds ?caddies"
  have reply: "au_timezone replies = Inr tz" "sd_timezone (au_sheet replies) = Inr tz"
    "au_facts replies (widen_for_utc_date_filter d d) = Inr f" "distinct (map cd_id (af_roster f))"
    "answers cal zone tz (af_assignments f) d board"
    using replies by (simp_all add: run_replies_ok_def)
  obtain reservations courses resources products day where day: "sd_reservations (au_sheet replies) = Inr reservations"
    "build_tee_sheet zone texts d None reservations courses resources products tz = Inr day" "ts_items s = ts_items day"
    using day_sheet [OF sheet clock(3) reply(2)] by blast
  have caddies: "distinct (map pc_caddie ?caddies)" by (rule plannable_ids [OF reply(4)])
  have "distinct (map ti_id (ts_items s))"
    unfolding day(3) using replies day(1) by (intro sheet_ids_distinct [OF day(2) clock(1)]) (simp add: run_replies_ok_def)
  then have distinct_rounds: "distinct (map pr_reservation rounds)" by (rule open_rounds_distinct [OF rounds])
  obtain fees n where written: "written = take n (map (planned_write fees) (ar_assigned plan))"
    unfolding plan_def using run_taken [OF run reply(1) clock(1) sheet reply(3) bounds rounds] by blast
  have items: "distinct (map pi_reservation (ar_assigned plan))"
  proof -
    have "mset (map pi_reservation (ar_assigned plan) @ map sk_reservation (ar_skipped plan))
        = mset (map pr_reservation rounds)"
      using settled_mset [OF caddies, of clk dry rounds] by (simp add: plan_def)
    then show ?thesis using distinct_rounds by (metis mset_eq_imp_distinct_iff distinct_append)
  qed
  note len = aids(1)
  let ?rows = "map2 store aids written" and ?batch = "zip aids (map (planned_length rounds) written)"
  have told: "told_length ?batch (?rows ! k) = planned_length rounds (written ! k)" if k: "k < length written" for k
  proof -
    have "map_of ?batch (aids ! k) = Some (planned_length rounds (written ! k))"
      using k len aids(2) by (intro map_of_is_SomeI) (auto simp: set_zip)
    then show ?thesis using k len by (simp add: told_length_def keeps_writesD [OF store])
  qed
  have row: "\<exists>r c. row_of_plan plan rounds ?caddies (?rows ! k) (told_length ?batch (?rows ! k)) r c
      \<and> pr_reservation r = pi_reservation (ar_assigned plan ! k)" if k: "k < length written" for k
  proof -
    have w: "written ! k = planned_write fees (ar_assigned plan ! k)" "k < length (ar_assigned plan)"
      using k written by auto
    have it: "ar_assigned plan ! k \<in> set (ar_assigned (plan_caddie_assignments clk dry rounds ?caddies))"
      using w(2) by (simp add: plan_def)
    obtain r c where
      "row_of_plan plan rounds ?caddies (store (aids ! k) (planned_write fees (ar_assigned plan ! k)))
         (planned_length rounds (planned_write fees (ar_assigned plan ! k))) r c"
      "pi_reservation (ar_assigned plan ! k) = pr_reservation r"
      using written_row_of_plan [OF it store distinct_rounds] unfolding plan_def by metis
    then show ?thesis using k len w(1) unfolding told [OF k] by auto
  qed
  show ?thesis
  proof (rule board_apart_append [OF ok])
    have ids: "map as_id ?rows = aids"
      using len by (auto simp: list_eq_iff_nth_eq keeps_writesD [OF store])
    then show "distinct (map as_id (board @ ?rows))" using aids ok by (auto simp: board_apart_def)
    have "fst ` set ?batch = set aids" using len by (simp flip: set_map)
    also have "\<dots> = as_id ` set ?rows" by (metis ids set_map)
    finally show "fst ` set ?batch = as_id ` set ?rows" .
  next
    fix a b assume ab: "a \<in> set ?rows" "b \<in> set ?rows" "as_id a \<noteq> as_id b"
    obtain j where j: "j < length written" "a = ?rows ! j" using ab(1) len by (auto simp: in_set_conv_nth)
    obtain k where k: "k < length written" "b = ?rows ! k" using ab(2) len by (auto simp: in_set_conv_nth)
    have "j \<noteq> k" using ab(3) j(2) k(2) by blast
    note jk = j(1) k(1) j(2) k(2) this
    obtain r1 c1 r2 c2 where r: "row_of_plan plan rounds ?caddies a (told_length ?batch a) r1 c1"
      "row_of_plan plan rounds ?caddies b (told_length ?batch b) r2 c2"
      "pr_reservation r1 = pi_reservation (ar_assigned plan ! j)" "pr_reservation r2 = pi_reservation (ar_assigned plan ! k)"
      using row [OF jk(1)] row [OF jk(2)] unfolding jk(3,4) by blast
    have "pr_reservation r1 \<noteq> pr_reservation r2"
      using items jk written r(3,4) by (auto simp: nth_eq_iff_index_eq distinct_conv_nth)
    then show "clear_of (told_length ?batch a) a (told_length ?batch b) b"
      by (rule plan_rows_clear [OF caddies distinct_rounds plan_def r(1,2)])
  next
    fix a b assume a: "a \<in> set ?rows" and b: "b \<in> set board" "holds_the_round b" "same_day clk a b"
    then obtain k where "k < length written" "a = ?rows ! k" using len by (auto simp: in_set_conv_nth)
    then obtain r c where r: "row_of_plan plan rounds ?caddies a (told_length ?batch a) r c" using row by blast
    then have "r \<in> set rounds" "c \<in> set ?caddies" "as_scheduled_at a = pr_starts_at r"
      by (auto simp: row_of_plan_def rounds_given_def)
    then obtain i where i: "i \<in> set (ts_items s)" "uncovered ?live i" "pr_reservation r = ti_id i"
      "read3339 (ti_tee_time i) = Some (as_scheduled_at a)"
      using open_round_item [OF rounds] by metis
    obtain t where "ti_tee_time i = zt_stamp (texts tz) t" "clk_local_date clk t = d"
      using sheet_row_time [OF day(2) clock(1)] i(1) unfolding day(3) by blast
    then have "clk_local_date clk (as_scheduled_at b) = d"
      using i(4) b(3) clock(4) by (simp add: reads_back_def same_day_def)
    then have "b \<in> set ?live"
      using answered_live [OF clock(1,2) reply(5) live_rounds_within [OF bounds] b(1,2)] by blast
    moreover have "\<not> covers_reservation b (pr_reservation r)"
      using i(2,3) calculation by (simp add: uncovered_def)
    ultimately show "clear_of (told_length ?batch a) a (occupied_minutes b) b"
      by (rule plan_row_beside_live [OF caddies distinct_rounds plan_def r plannable_busy [OF \<open>c \<in> set ?caddies\<close>]])
  qed
qed

section \<open>The desk and the automatic run on one board\<close>

text \<open>One use case after the other, each on the board the one before left.\<close>

inductive staff_step ::
  "calendar \<Rightarrow> zones \<Rightarrow> text_zones \<Rightarrow> stamp_reader \<Rightarrow> month_reader \<Rightarrow> str \<Rightarrow> row_store
    \<Rightarrow> asked_log \<times> assignment list \<Rightarrow> asked_log \<times> assignment list \<Rightarrow> bool"
  for cal zone texts read3339 month_at tz store where
  by_hand: "board_step cal zone tz store state state'
    \<Longrightarrow> staff_step cal zone texts read3339 month_at tz store state state'"
| by_plan: "\<lbrakk>auto_assign_caddies cal zone texts read3339 month_at permitted now d dry replies reply
        = Some (outcome, written);
      run_replies_ok cal zone tz d replies f board;
      get_tee_sheet cal zone texts (au_sheet_permitted replies) \<lparr>tq_date = d, tq_to = None, tq_course = None\<rparr>
        (au_sheet replies) = Inr s;
      tenant_day_bounds cal zone d d tz = Inr bounds;
      open_rounds read3339 (live_within bounds (af_assignments f)) (ts_items s) = Inr rounds;
      length aids = length written; distinct aids; set aids \<inter> as_id ` set board = {}\<rbrakk>
    \<Longrightarrow> staff_step cal zone texts read3339 month_at tz store (writes, board)
         (zip aids (map (planned_length rounds) written) # writes, board @ map2 store aids written)"

inductive_cases staff_stepE: "staff_step cal zone texts read3339 month_at tz store state state'"

lemma staff_step_apart:
  assumes "staff_step cal zone texts read3339 month_at tz store (writes, board) (writes', board')"
    and "board_apart clk writes board"
    and clock: "zone tz = Some clk" "day_is_local cal clk" "counts_days cal" "reads_back read3339 (texts tz) clk"
    and store: "keeps_writes store"
  shows "board_apart clk writes' board'"
  using assms(1)
proof cases
  case by_hand
  show ?thesis by (rule board_step_apart [OF by_hand assms(2) clock(1,2) store])
next
  case (by_plan permitted now d dry replies reply outcome written f s bounds rounds aids)
  then show ?thesis using auto_run_apart [OF by_plan(3-10) clock store assms(2)] by simp
qed

text \<open>
  C4. While the use cases run one after the other, no naming, no move, no release and no automatic run, complete
  or cut off by a failing write, double-books a caddie within a day. Take any two live rows of one local day that
  any such history leaves, from a board without a double booking: they are on different bookings, and if they
  are one caddie's, the one written last does not overlap the other, over the length it was asked for and the
  length the other is reported with (over both lengths asked for, where one run wrote both). Where no row is
  reported longer than it was asked for, the rows as reported do not overlap either; a write carries no length,
  so that is not assumed. Rounds of two days, use cases that run at once (\<open>concurrent_naming_double_books\<close>) and
  the unguarded edit of a row (\<open>edit_can_double_book\<close>) are outside the claim.
\<close>

theorem staffed_board_never_double_booked:
  assumes "(staff_step cal zone texts read3339 month_at tz store)\<^sup>*\<^sup>* ([], board0) (writes, board)"
    and "board_ok clk board0"
    and "zone tz = Some clk" "day_is_local cal clk" "counts_days cal" "reads_back read3339 (texts tz) clk"
    and "keeps_writes store"
    and "a \<in> set board" "b \<in> set board" "as_id a \<noteq> as_id b"
    and "holds_the_round a" "holds_the_round b" "same_day clk a b"
  shows "apart_as_asked writes a b
    \<and> ((\<forall>l. asked_length writes (as_id a) = Some l \<longrightarrow> occupied_minutes a \<le> l)
       \<and> (\<forall>l. asked_length writes (as_id b) = Some l \<longrightarrow> occupied_minutes b \<le> l) \<longrightarrow> compatible a b)"
proof -
  have "board_apart clk writes board"
    using assms(1)
  proof (induction rule: rtranclp_induct2)
    case refl
    show ?case using assms(2) by (simp add: board_apart_start)
  next
    case (step writes board writes' board')
    show ?case by (rule staff_step_apart [OF step(2,3) assms(3-7)])
  qed
  then have "apart_as_asked writes a b" using assms(8-13) unfolding board_apart_def by blast
  then show ?thesis using apart_compatible by blast
qed

section \<open>What the desk would have written\<close>

text \<open>A day without a clock change: the minute of an instant is its distance from midnight.\<close>

definition even_day :: "clock \<Rightarrow> instant \<Rightarrow> date \<Rightarrow> bool" where
  "even_day clk start d \<longleftrightarrow>
     (\<forall>t. clk_local_date clk t = d \<longrightarrow> clk_minute_of_day clk t = (t - start) div minutes 1 \<and> start \<le> t)"

lemma find_by_key:
  assumes "distinct (map key xs)" "x \<in> set xs"
  shows "List.find (\<lambda>y. key y = key x) xs = Some x"
  using assms by (induction xs) auto

lemma collect_map_find:
  assumes "distinct (map key xs)"
  shows "collect_map (map (\<lambda>x. (key x, x)) xs) k = List.find (\<lambda>x. key x = k) xs"
proof -
  have "map_of (rev (map (\<lambda>x. (key x, x)) xs)) = map_of (map (\<lambda>x. (key x, x)) xs)"
    using assms by (intro map_of_inject_set [THEN iffD2]) (simp_all add: comp_def rev_map [symmetric])
  moreover have "map_of (map (\<lambda>x. (key x, x)) xs) k = List.find (\<lambda>x. key x = k) xs" for xs
    by (induction xs) auto
  ultimately show ?thesis by (simp add: collect_map_def)
qed

lemma round_minutes_end_le:
  assumes "0 \<le> clk_minute_of_day clk t" "0 < n"
  shows "snd (round_minutes clk t n) \<le> clk_minute_of_day clk t + n"
proof -
  let ?x = "clk_minute_of_day clk t + max n 1"
  have x: "?x = clk_minute_of_day clk t + n" "0 \<le> ?x" using assms by auto
  have "wrap_i64 ?x \<le> ?x"
    using x(2) zmod_le_nonneg_dividend [of "?x + 2 ^ 63" "2 ^ 64"] by (simp add: wrap_i64_def)
  moreover have "MINUTES_IN_DAY \<le> ?x" if "\<not> in_i32 (wrap_i64 ?x)"
  proof (rule ccontr)
    assume "\<not> MINUTES_IN_DAY \<le> ?x"
    then have "?x < 1440" by (simp add: MINUTES_IN_DAY_def)
    then have "in_i64 ?x" "in_i32 ?x"
      using x(2) by (simp_all add: in_i64_def in_i32_def i64_min_def i64_max_def i32_min_def i32_max_def)
    then show False using that by simp
  qed
  ultimately show ?thesis unfolding x(1) [symmetric] by (auto simp: round_minutes_def Let_def)
qed

lemma duty_kept_free:
  assumes "is_free_for c r" "pc_busy c = busy_of start d live duties (pc_caddie c)"
    and "even_day clk start d" "clk_local_date clk (pr_starts_at r) = d"
    and "round_ends_at r = pr_starts_at r + minutes n" "0 < n"
  shows "\<not> duty_blocks_round clk duties (pc_caddie c) d (pr_starts_at r) n"
proof
  let ?t = "pr_starts_at r"
  assume "duty_blocks_round clk duties (pc_caddie c) d ?t n"
  then obtain w where w: "w \<in> set (duty_windows_for duties (pc_caddie c) d)"
    "dw_start w < snd (round_minutes clk ?t n)" "fst (round_minutes clk ?t n) < dw_end w"
    by (auto simp: duty_blocks_round_def overlaps_minutes_def split: prod.splits)
  have t: "clk_minute_of_day clk ?t = (?t - start) div minutes 1" "start \<le> ?t"
    using assms(3,4) by (simp_all add: even_day_def)
  obtain q where q_def: "clk_minute_of_day clk ?t = q" and q: "q * 60000000000 \<le> ?t - start"
    "?t - start < (q + 1) * 60000000000" "0 \<le> q"
    using div_mult_mod_eq [of "?t - start" 60000000000] pos_mod_bound [of 60000000000 "?t - start"]
      pos_mod_sign [of 60000000000 "?t - start"] t
    by (auto simp: minutes_def pos_imp_zdiv_nonneg_iff)
  have "q < dw_end w" using w(3) by (simp add: round_minutes_def Let_def q_def)
  then have "(q + 1) * 60000000000 \<le> dw_end w * 60000000000" by (intro mult_right_mono) simp_all
  then have before: "?t < start + minutes (dw_end w)"
    using q(2) unfolding minutes_def ring_distribs by simp
  have "dw_start w < q + n"
    using w(2) round_minutes_end_le [of clk ?t n] assms(6) q(3) by (simp add: q_def)
  then have "(dw_start w + 1) * 60000000000 \<le> (q + n) * 60000000000" by (intro mult_right_mono) simp_all
  then have after: "start + minutes (dw_start w) < ?t + minutes n"
    using q(1) unfolding minutes_def ring_distribs by simp
  have "(start + minutes (dw_start w), start + minutes (dw_end w)) \<in> set (pc_busy c)"
    using w(1) by (simp add: assms(2) busy_of_def)
  then have "\<not> round_overlaps r (start + minutes (dw_start w)) (start + minutes (dw_end w))"
    using assms(1) by (force simp: is_free_for_def)
  then show False using before after assms(5) by (simp add: round_overlaps_def)
qed

lemma plannable_of_roster:
  assumes "c \<in> set (plannable_caddies start d live f)"
  obtains c0 where "c0 \<in> set (af_roster f)" "is_assignable c0" "works_that_day (shifts_on d (af_confirmed f)) c0"
    "pc_caddie c = cd_id c0"
    "pc_availability c = map_option av_status (collect_map (map (\<lambda>v. (av_caddie v, v)) (af_availabilities f)) (cd_id c0))"
  using assms by (auto simp: plannable_caddies_def plannable_of_def Let_def)

lemma fees_of_roster:
  assumes "distinct (map cd_id roster)" "c \<in> set roster"
  shows "fees_of fees roster (cd_id c) = Some (round_fee_for fees (cd_rank c) (cd_base_fee c), cd_currency c)"
proof -
  have "map_of (rev (map (\<lambda>c. (cd_id c, (round_fee_for fees (cd_rank c) (cd_base_fee c), cd_currency c))) roster)) (cd_id c)
      = Some (round_fee_for fees (cd_rank c) (cd_base_fee c), cd_currency c)"
    using assms by (intro map_of_is_SomeI) (auto simp: comp_def rev_map [symmetric])
  then show ?thesis by (simp add: fees_of_def collect_map_def)
qed

definition day_facts_of :: "auto_facts \<Rightarrow> rank_fees \<Rightarrow> day_facts" where
  "day_facts_of f fees = \<lparr>df_roster = af_roster f, df_assignments = af_assignments f,
     df_availabilities = af_availabilities f, df_fees = fees, df_duties = af_duties f\<rparr>"

definition named_by_hand :: "upsert_assignment \<Rightarrow> tee_sheet_item \<Rightarrow> name_caddie_for_round" where
  "named_by_hand u i = \<lparr>nc_caddie = us_caddie u, nc_reservation = ti_id i, nc_scheduled_at = us_scheduled_at u,
     nc_duration = Some (ti_duration i), nc_role = None, nc_notes = None\<rparr>"

lemma guards_pass:
  assumes c: "c \<in> set (plannable_caddies start d live f)" and free: "is_free_for c r" "shift_covers c r clk"
    and ids: "distinct (map cd_id (af_roster f))" "distinct (map av_caddie (af_availabilities f))"
    and open_round: "\<forall>a \<in> set live. \<not> covers_reservation a (pr_reservation r)"
    and day: "even_day clk start d" "clk_local_date clk (pr_starts_at r) = d"
    and lasts: "pr_duration r = Some n" "0 < n"
    and rd: "rd_caddie p = pc_caddie c" "rd_reservation p = pr_reservation r" "rd_scheduled_at p = pr_starts_at r"
      "rd_date p = d" "rd_duration p = Some n" "rd_moving p = None"
    and c0: "c0 \<in> set (af_roster f)" "cd_id c0 = pc_caddie c"
  shows "check_round_can_be_walked (af_roster f) live (af_availabilities f) (af_duties f) p clk = Inr c0"
proof -
  obtain c1 where c1: "c1 \<in> set (af_roster f)" "is_assignable c1" "pc_caddie c = cd_id c1"
    "pc_availability c = map_option av_status (collect_map (map (\<lambda>v. (av_caddie v, v)) (af_availabilities f)) (cd_id c1))"
    by (rule plannable_of_roster [OF c]) (rule that)
  then have "c1 = c0" using ids(1) c0 by (auto simp: distinct_map inj_on_def)
  note c1 = c1 [unfolded this]
  have found: "List.find (\<lambda>y. cd_id y = rd_caddie p) (af_roster f) = Some c0"
    using find_by_key [OF ids(1) c0(1)] by (simp add: rd(1) c0(2))
  have len: "round_length p = n" using lasts by (simp add: round_length_def rd positive_def unwrap_or_def)
  have ends: "round_ends_at r = pr_starts_at r + minutes n" using lasts by (simp add: round_ends_at_def positive_def)
  have duty: "\<not> duty_blocks_round clk (af_duties f) (rd_caddie p) (rd_date p) (rd_scheduled_at p) (round_length p)"
    unfolding rd(1,3,4) len by (rule duty_kept_free [OF free(1) plannable_busy [OF c] day ends lasts(2)])
  have "map_option av_status (List.find (\<lambda>v. av_caddie v = rd_caddie p) (af_availabilities f)) = pc_availability c"
    using collect_map_find [OF ids(2)] by (simp add: rd(1) c1(3,4))
  then have shift: "shift_covers_tee_time (map_option av_status (List.find (\<lambda>v. av_caddie v = rd_caddie p)
      (af_availabilities f))) (Some (rd_scheduled_at p)) clk"
    using free(2) by (simp add: shift_covers_def rd(3))
  have others: "other_rounds p live = live" by (simp add: other_rounds_def rd(6))
  have "\<not> is_out p a" if "a \<in> set live" for a
    using free_of_live [OF free(1) plannable_busy [OF c] that] ends
    by (auto simp: is_out_def rd len round_overlaps_def guard_overlaps_def row_end_def)
  then show ?thesis
    using found duty shift c1(2) open_round by (auto simp: check_round_can_be_walked_def others rd(2))
qed

lemma sheet_item_lasts:
  assumes "build_tee_sheet zone texts d only reservations courses resources products tz = Inr day"
    and "i \<in> set (ts_items day)"
  shows "15 \<le> ti_duration i"
proof -
  let ?rs = "filter (on_sheet (the (zone tz)) d only resources courses) reservations"
  obtain items where items: "collect_results (map (sheet_row zone texts resources courses products tz) ?rs) = Inr items"
    "ts_items day = sort_by (key_le item_key) items"
    using assms by (auto simp: build_tee_sheet_def parse_tenant_timezone_def tee_sheet_new_def split: sum.splits option.splits)
  have "map (sheet_row zone texts resources courses products tz) ?rs = map Inr items"
    using items(1) by (simp only: collect_results_all)
  moreover have "i \<in> set items" using assms(2) items(2) by simp
  ultimately obtain r where "sheet_row zone texts resources courses products tz r = Inr i"
    by (metis (no_types, lifting) image_eqI imageE list.set_map)
  then show ?thesis
    by (auto simp: sheet_row_def to_tee_sheet_item_def tee_sheet_item_new_def Let_def split: prod.splits sum.splits)
qed

text \<open>
  C5. What the automatic run writes is what the desk would have written: each row it sends is
  exactly the row that naming that caddie for that group by hand gives on the same reads, so
  the planner never puts through a round the guards refuse, and pays what the desk would pay.
  This is proved for days without a clock change and one declaration per caddie.
\<close>

theorem auto_run_names_like_the_desk:
  assumes run: "auto_assign_caddies cal zone texts read3339 month_at permitted now d dry replies reply = Some (outcome, written)"
    and replies: "run_replies_ok cal zone tz d replies f board" "au_fees replies = Inr fees"
    and sheet: "get_tee_sheet cal zone texts (au_sheet_permitted replies) \<lparr>tq_date = d, tq_to = None, tq_course = None\<rparr>
      (au_sheet replies) = Inr s"
    and bounds: "tenant_day_bounds cal zone d d tz = Inr bounds"
    and rounds: "open_rounds read3339 (live_within bounds (af_assignments f)) (ts_items s) = Inr rounds"
    and clock: "zone tz = Some clk" "counts_days cal" "reads_back read3339 (texts tz) clk" "even_day clk (fst bounds) d"
    and declared: "distinct (map av_caddie (af_availabilities f))"
    and u: "u \<in> set written" and i: "i \<in> set (ts_items s)" "us_reservation u = Some (ti_id i)"
  shows "create_caddie_assignment cal zone (Inr ()) (named_by_hand u i) tz (Inr (day_facts_of f fees)) = Inr u"
proof -
  let ?live = "live_within bounds (af_assignments f)"
  let ?caddies = "plannable_caddies (fst bounds) d ?live f"
  let ?plan = "plan_caddie_assignments clk dry rounds ?caddies"
  have reply: "au_timezone replies = Inr tz" "sd_timezone (au_sheet replies) = Inr tz"
    "au_facts replies (widen_for_utc_date_filter d d) = Inr f" "distinct (map cd_id (af_roster f))"
    using replies by (simp_all add: run_replies_ok_def)
  obtain reservations courses resources products day where day: "sd_reservations (au_sheet replies) = Inr reservations"
    "build_tee_sheet zone texts d None reservations courses resources products tz = Inr day" "ts_items s = ts_items day"
    using day_sheet [OF sheet clock(2) reply(2)] by blast
  have ids: "distinct (map ti_id (ts_items s))"
    unfolding day(3) using replies day(1) by (intro sheet_ids_distinct [OF day(2) clock(1)]) (simp add: run_replies_ok_def)
  have distinct_rounds: "distinct (map pr_reservation rounds)" by (rule open_rounds_distinct [OF rounds ids])
  have caddies: "distinct (map pc_caddie ?caddies)" by (rule plannable_ids [OF reply(4)])
  obtain n where written: "written = take n (map (planned_write (fees_of fees (af_roster f))) (ar_assigned ?plan))"
    using run_taken [OF run reply(1) clock(1) sheet reply(3) bounds rounds] u replies(2) by auto
  then obtain it where it: "it \<in> set (ar_assigned ?plan)" "u = planned_write (fees_of fees (af_roster f)) it"
    using u in_set_takeD [of u n] by (metis (no_types, lifting) imageE list.set_map)
  obtain r c where r: "r \<in> set rounds" "pi_reservation it = pr_reservation r" "pi_scheduled_at it = pr_starts_at r"
    and c: "c \<in> set ?caddies" "pi_caddie it = pc_caddie c"
    using plan_planned_for [OF it(1)] by (auto simp: planned_for_def)
  have given: "r \<in> set (rounds_given ?plan rounds c)" using it(1) r c by (auto simp: rounds_given_def)
  have free: "is_free_for c r" "shift_covers c r clk"
    using rounds_given_facts(2) [OF caddies distinct_rounds c(1) refl given] by blast+
  obtain j where j: "j \<in> set (ts_items s)" "uncovered ?live j" "pr_reservation r = ti_id j"
    "read3339 (ti_tee_time j) = Some (pr_starts_at r)" "pr_duration r = Some (ti_duration j)"
    using open_round_item [OF rounds r(1)] by metis
  have fields: "us_caddie u = pc_caddie c" "us_reservation u = Some (pr_reservation r)" "us_scheduled_at u = pr_starts_at r"
    using it(2) r c by (simp_all add: planned_write_def split: prod.splits)
  have "j = i" using ids i j(1,3) fields(2) by (auto simp: distinct_map inj_on_def)
  note j = j [unfolded this]
  obtain t where t: "ti_tee_time i = zt_stamp (texts tz) t" "clk_local_date clk t = d"
    using sheet_row_time [OF day(2) clock(1)] j(1) unfolding day(3) by blast
  then have today: "clk_local_date clk (pr_starts_at r) = d" using j(4) clock(3) by (simp add: reads_back_def)
  have lasts: "0 < ti_duration i" using sheet_item_lasts [OF day(2)] j(1) unfolding day(3) by fastforce
  obtain c0 where c0: "c0 \<in> set (af_roster f)" "cd_id c0 = pc_caddie c"
    using plannable_of_roster [OF c(1)] by metis
  have covered: "\<forall>a \<in> set ?live. \<not> covers_reservation a (pr_reservation r)"
    using j(2,3) by (simp add: uncovered_def)
  have "check_round_can_be_walked (af_roster f) ?live (af_availabilities f) (af_duties f)
      (named_round (named_by_hand u i) d) clk = Inr c0"
    by (rule guards_pass [OF c(1) free reply(4) declared covered clock(4) today j(5) lasts])
      (simp_all add: named_round_def named_by_hand_def fields j(3) c0)
  moreover have "named_write (named_by_hand u i) fees c0 = u"
    using it(2) r c j(3) fees_of_roster [OF reply(4) c0(1), of fees]
    by (simp add: named_write_def named_by_hand_def planned_write_def c0(2) unwrap_or_def)
  ultimately show ?thesis
    using live_rounds_within [OF bounds] clock(1) today
    by (simp add: create_caddie_assignment_def parse_tenant_timezone_def tenant_date_at_def day_facts_of_def
        named_by_hand_def fields)
qed

text \<open>
  On a day the clocks change, the planner counts a duty's hours from midnight and the guard
  reads them off the clock: here the hour after two o'clock is skipped, the caddie is on other
  work from seven to noon, and the run plans them for a round at seven.
\<close>

definition spring_clock :: clock where
  "spring_clock = \<lparr>clk_minute_of_day = (\<lambda>t. let m = t div minutes 1 in if m < 120 then m else m + 60),
     clk_local_date = (\<lambda>_. 0), clk_midnight = (\<lambda>d. if d = 0 then Some 0 else Some (minutes 1380))\<rparr>"

definition spring_facts :: auto_facts where
  "spring_facts = \<lparr>af_roster = [sample_stored], af_assignments = [], af_attendance = [], af_availabilities = [],
     af_confirmed = [], af_duties = [\<lparr>da_id = None, da_caddie = ''c1'', da_date = 0,
       da_window = \<lparr>dw_start = 420, dw_end = 720\<rparr>, da_label = ''range'', da_note = None, da_updated_by = None\<rparr>]\<rparr>"

definition spring_round :: plannable_round where
  "spring_round = \<lparr>pr_reservation = ''r1'', pr_starts_at = minutes 360, pr_duration = Some 60, pr_players = 4,
     pr_course = None\<rparr>"

lemma clock_change_moves_duties:
  "clk_minute_of_day spring_clock (pr_starts_at spring_round) = 420"
  "duty_blocks_round spring_clock (af_duties spring_facts) ''c1'' 0 (pr_starts_at spring_round) 60"
  "map pi_caddie (ar_assigned (plan_caddie_assignments spring_clock False [spring_round]
     (plannable_caddies 0 0 [] spring_facts))) = [''c1'']"
  by code_simp+

section \<open>A morning run\<close>

definition caddie_product :: product where
  "caddie_product = product_reconstitute ''p1'' None ''s1'' None CaddiePlay 18 240 (Some ''c1'') None"

definition morning_booking :: "str \<Rightarrow> int \<Rightarrow> reservation" where
  "morning_booking rid minute = (sample_booking rid ''confirmed'' minute)\<lparr>rv_service := Some ''s1''\<rparr>"

definition morning_sheet :: sheet_reads where
  "morning_sheet = \<lparr>sd_reservations = Inr [morning_booking ''b1'' 420, morning_booking ''b2'' 450],
     sd_courses = Inr [sample_course], sd_timezone = Inr ''UTC'', sd_resources = Inr [],
     sd_products = Inr [caddie_product]\<rparr>"

definition morning_facts :: auto_facts where
  "morning_facts = \<lparr>af_roster = [sample_stored, sample_stored\<lparr>cd_id := ''c2''\<rparr>], af_assignments = [],
     af_attendance = [], af_availabilities = [], af_confirmed = [], af_duties = []\<rparr>"

definition morning_replies :: auto_replies where
  "morning_replies = \<lparr>au_timezone = Inr ''UTC'', au_sheet_permitted = Inr (), au_sheet = morning_sheet,
     au_facts = (\<lambda>_. Inr morning_facts), au_deadline = (\<lambda>_. Inr None), au_filed = (\<lambda>_. Inr []),
     au_fees = Inr default_rank_fees\<rparr>"

text \<open>Stamps that name the sample day, and their reader.\<close>

definition morning_texts :: text_zones where
  "morning_texts = (\<lambda>_. \<lparr>zt_stamp = (\<lambda>t. (if t div minutes 1440 = 20635 then ''2026-07-01T'' else ''another day '')
       @ clock_text (nat ((t div minutes 1) mod 1440))),
     zt_clock = (\<lambda>t. clock_text (nat ((t div minutes 1) mod 1440))),
     zt_wall = (\<lambda>d h m. Some (d * minutes 1440 + minutes (h * 60 + m)))\<rparr>)"

definition morning_reader :: stamp_reader where
  "morning_reader s = (if s = ''2026-07-01T07:00'' then Some (20635 * minutes 1440 + minutes 420)
     else if s = ''2026-07-01T07:30'' then Some (20635 * minutes 1440 + minutes 450) else None)"

definition morning_store :: row_store where
  "morning_store aid u = (sample_store aid u)\<lparr>as_duration := Some 240\<rparr>"

definition morning_rounds :: "plannable_round list" where
  "morning_rounds = map (\<lambda>(rid, minute). \<lparr>pr_reservation = rid, pr_starts_at = 20635 * minutes 1440 + minutes minute,
     pr_duration = Some 240, pr_players = 4, pr_course = Some ''c1''\<rparr>) [(''b1'', 420), (''b2'', 450)]"

definition morning_write :: "str \<Rightarrow> str \<Rightarrow> int \<Rightarrow> upsert_assignment" where
  "morning_write cid rid minute = \<lparr>us_caddie = cid, us_reservation = Some rid, us_round_reference = None,
     us_scheduled_at = 20635 * minutes 1440 + minutes minute, us_status = Some ''assigned'', us_role = Some ''primary'',
     us_fee = Some 9000, us_currency = Some ''JPY'', us_score = None, us_notes = None\<rparr>"

definition morning_run :: "(assign_result result \<times> upsert_assignment list) option" where
  "morning_run = auto_assign_caddies utc_calendar sample_zone morning_texts morning_reader (\<lambda>_. (2026, 7)) (Inr ()) 0
     20635 False morning_replies (\<lambda>_ _. Inr ())"

lemma morning_reads_back: "reads_back morning_reader (morning_texts ''UTC'') utc_clock"
proof -
  have "(20635 * minutes 1440 + minutes 420) div minutes 1440 = 20635"
    "(20635 * minutes 1440 + minutes 450) div minutes 1440 = 20635" by code_simp+
  then show ?thesis
    by (auto simp: reads_back_def morning_reader_def morning_texts_def utc_clock_def split: if_splits)
qed

lemma morning_written:
  "map_option snd morning_run = Some [morning_write ''c1'' ''b1'' 420, morning_write ''c2'' ''b2'' 450]"
  by code_simp

definition morning_day :: tee_sheet where
  "morning_day = (case get_tee_sheet utc_calendar sample_zone morning_texts (Inr ())
      \<lparr>tq_date = 20635, tq_to = None, tq_course = None\<rparr> morning_sheet of
    Inr s \<Rightarrow> s | Inl _ \<Rightarrow> tee_sheet_new 0 [] [] [] [])"

lemma morning_premises:
  "auto_assign_caddies utc_calendar sample_zone morning_texts morning_reader (\<lambda>_. (2026, 7)) (Inr ()) 0 20635 False
      morning_replies (\<lambda>_ _. Inr ()) = Some (fst (the morning_run),
        [morning_write ''c1'' ''b1'' 420, morning_write ''c2'' ''b2'' 450])"
  "run_replies_ok utc_calendar sample_zone ''UTC'' 20635 morning_replies morning_facts []"
  "get_tee_sheet utc_calendar sample_zone morning_texts (au_sheet_permitted morning_replies)
      \<lparr>tq_date = 20635, tq_to = None, tq_course = None\<rparr> (au_sheet morning_replies) = Inr morning_day"
  "tenant_day_bounds utc_calendar sample_zone 20635 20635 ''UTC'' = Inr (20635 * minutes 1440, 20636 * minutes 1440)"
  "open_rounds morning_reader (live_within (20635 * minutes 1440, 20636 * minutes 1440) (af_assignments morning_facts))
      (ts_items morning_day) = Inr morning_rounds"
proof -
  have "r = Some (fst (the r), w)" if "map_option snd r = Some w" for r :: "('a \<times> 'b) option" and w
    using that by (cases r) auto
  from this [OF morning_written] show "auto_assign_caddies utc_calendar sample_zone morning_texts morning_reader (\<lambda>_. (2026, 7)) (Inr ()) 0 20635
      False morning_replies (\<lambda>_ _. Inr ()) = Some (fst (the morning_run),
        [morning_write ''c1'' ''b1'' 420, morning_write ''c2'' ''b2'' 450])"
    unfolding morning_run_def .
  have "distinct (map rv_id [morning_booking ''b1'' 420, morning_booking ''b2'' 450])"
    "distinct (map cd_id (af_roster morning_facts))" by code_simp+
  then show "run_replies_ok utc_calendar sample_zone ''UTC'' 20635 morning_replies morning_facts []"
    by (simp add: run_replies_ok_def morning_replies_def morning_sheet_def answers_def morning_facts_def)
  have "is_ok (get_tee_sheet utc_calendar sample_zone morning_texts (Inr ())
      \<lparr>tq_date = 20635, tq_to = None, tq_course = None\<rparr> morning_sheet)" by code_simp
  then have "get_tee_sheet utc_calendar sample_zone morning_texts (Inr ()) \<lparr>tq_date = 20635, tq_to = None, tq_course = None\<rparr>
     morning_sheet = Inr morning_day"
    by (auto simp: morning_day_def split: sum.splits)
  then show "get_tee_sheet utc_calendar sample_zone morning_texts (au_sheet_permitted morning_replies)
      \<lparr>tq_date = 20635, tq_to = None, tq_course = None\<rparr> (au_sheet morning_replies) = Inr morning_day"
    by (simp add: morning_replies_def)
  show "tenant_day_bounds utc_calendar sample_zone 20635 20635 ''UTC'' = Inr (20635 * minutes 1440, 20636 * minutes 1440)"
    by code_simp
  show "open_rounds morning_reader (live_within (20635 * minutes 1440, 20636 * minutes 1440) (af_assignments morning_facts))
      (ts_items morning_day) = Inr morning_rounds"
    by code_simp
qed

lemma utc_laws:
  "sample_zone ''UTC'' = Some utc_clock" "day_is_local utc_calendar utc_clock" "counts_days utc_calendar"
  "keeps_writes morning_store"
  by (auto simp: sample_zone_def day_is_local_def utc_clock_def utc_calendar_def minutes_def counts_days_def
      keeps_writes_def morning_store_def sample_store_def)

lemma utc_even_day: "even_day utc_clock (d * minutes 1440) d"
proof -
  have "(t div minutes 1) mod 1440 = (t - d * minutes 1440) div minutes 1 \<and> d * minutes 1440 \<le> t"
    if "t div minutes 1440 = d" for t
  proof -
    let ?q = "t div 60000000000"
    have "?q div 1440 = d" using that by (simp add: minutes_def zdiv_zmult2_eq [symmetric])
    then have "?q mod 1440 = ?q - d * 1440" using div_mult_mod_eq [of ?q 1440] by simp
    moreover have "(t - d * minutes 1440) div minutes 1 = ?q - d * 1440"
      using div_mult_self1 [of 60000000000 t "- d * 1440"] by (simp add: minutes_def algebra_simps)
    moreover have "d * minutes 1440 \<le> t"
      using that pos_mod_sign [of "minutes 1440" t] div_mult_mod_eq [of t "minutes 1440"] by (simp add: minutes_def)
    ultimately show ?thesis by (simp add: minutes_def)
  qed
  then show ?thesis by (auto simp: even_day_def utc_clock_def)
qed

theorem staffed_board_never_double_booked_witness:
  "apart_as_asked [[(''a1'', 240), (''a2'', 240)]] (morning_store ''a1'' (morning_write ''c1'' ''b1'' 420))
     (morning_store ''a2'' (morning_write ''c2'' ''b2'' 450))"
proof -
  let ?a = "morning_store ''a1'' (morning_write ''c1'' ''b1'' 420)" and ?b = "morning_store ''a2'' (morning_write ''c2'' ''b2'' 450)"
  let ?written = "[morning_write ''c1'' ''b1'' 420, morning_write ''c2'' ''b2'' 450]"
  have "staff_step utc_calendar sample_zone morning_texts morning_reader (\<lambda>_. (2026, 7)) ''UTC'' morning_store ([], [])
      (zip [''a1'', ''a2''] (map (planned_length morning_rounds) ?written) # [],
       [] @ map2 morning_store [''a1'', ''a2''] ?written)"
    by (rule by_plan [OF morning_premises]) simp_all
  moreover have "map (planned_length morning_rounds) ?written = [240, 240]" by code_simp
  ultimately have steps: "(staff_step utc_calendar sample_zone morning_texts morning_reader (\<lambda>_. (2026, 7)) ''UTC''
      morning_store)\<^sup>*\<^sup>* ([], []) ([[(''a1'', 240), (''a2'', 240)]], [?a, ?b])" by auto
  have ok: "board_ok utc_clock []" by (simp add: board_ok_def)
  have rows: "as_id ?a \<noteq> as_id ?b" "holds_the_round ?a" "holds_the_round ?b" "same_day utc_clock ?a ?b" by code_simp+
  show ?thesis
    by (rule staffed_board_never_double_booked [OF steps ok utc_laws(1-3) morning_reads_back utc_laws(4) _ _ rows,
          THEN conjunct1]) simp_all
qed

theorem auto_run_names_like_the_desk_witness:
  "create_caddie_assignment utc_calendar sample_zone (Inr ())
     (named_by_hand (morning_write ''c1'' ''b1'' 420) (hd (ts_items morning_day))) ''UTC''
     (Inr (day_facts_of morning_facts default_rank_fees)) = Inr (morning_write ''c1'' ''b1'' 420)"
proof -
  have i: "hd (ts_items morning_day) \<in> set (ts_items morning_day)"
    "us_reservation (morning_write ''c1'' ''b1'' 420) = Some (ti_id (hd (ts_items morning_day)))"
    by (rule hd_in_set, code_simp+)
  have day: "even_day utc_clock (fst (20635 * minutes 1440, 20636 * minutes 1440)) 20635"
    by (simp add: utc_even_day)
  have fees: "au_fees morning_replies = Inr default_rank_fees" by (simp add: morning_replies_def)
  show ?thesis
    by (rule auto_run_names_like_the_desk [OF morning_premises(1,2) fees morning_premises(3-5) utc_laws(1,3)
          morning_reads_back day _ _ i]) (simp_all add: morning_facts_def)
qed

end
