(* ===== verification/SlotMarks.thy ===== *)
theory SlotMarks
  imports FilingDeadline Cancellations TeeLedgerCorrect
begin

text \<open>
  The desk's marks on single tee times: the use cases of \<open>src/course/usecase/slot_overrides.rs\<close>
  over the table \<open>golf_slot_overrides\<close> (\<open>slot_override_repository.rs\<close>), with one row per
  tenant, course, day and tee time. As for the cancellations, the collation of the database is
  the argument \<open>ck\<close>, and whether a statement goes through is its reply.
\<close>

section \<open>The table\<close>

record mark_row =
  mk_tenant :: str
  mk_course :: str
  mk_date :: date
  mk_tee_time :: str
  mk_kind :: str
  mk_label :: "str option"
  mk_note :: "str option"

definition override_reconstitute ::
  "course_id \<Rightarrow> date \<Rightarrow> str \<Rightarrow> override_kind \<Rightarrow> str option \<Rightarrow> str option \<Rightarrow> slot_override" where
  "override_reconstitute c d tee_time kind label note =
     \<lparr>so_course = c, so_date = d, so_tee_time = tee_time, so_kind = kind, so_label = label, so_note = note\<rparr>"

record override_query =
  oq_date :: date
  oq_courses :: "course_id list"

definition clock_label :: "str \<Rightarrow> str" where
  "clock_label v = take_chars 5 v"

text \<open>What the unique key and every condition of a statement compare.\<close>

type_synonym mark_key = "nat list \<times> nat list \<times> date \<times> nat list"

definition row_key :: "collation \<Rightarrow> mark_row \<Rightarrow> mark_key" where
  "row_key ck r = (ck (mk_tenant r), ck (mk_course r), mk_date r, ck (mk_tee_time r))"

definition mark_key :: "collation \<Rightarrow> str \<Rightarrow> slot_override \<Rightarrow> mark_key" where
  "mark_key ck tenant m = (ck tenant, ck (so_course m), so_date m, ck (so_tee_time m))"

definition wanted_row :: "collation \<Rightarrow> str \<Rightarrow> override_query \<Rightarrow> mark_row \<Rightarrow> bool" where
  "wanted_row ck tenant q r \<longleftrightarrow> same_text ck (mk_tenant r) tenant \<and> mk_date r = oq_date q
     \<and> (oq_courses q = [] \<or> (\<exists>c \<in> set (oq_courses q). same_text ck (mk_course r) c))"

definition row_order :: "collation \<Rightarrow> mark_row \<Rightarrow> nat list \<times> nat list" where
  "row_order ck r = (ck (mk_course r), ck (mk_tee_time r))"

definition row_mark :: "mark_row \<Rightarrow> slot_override result" where
  "row_mark r =
     (case override_parse (mk_kind r) of Inl e \<Rightarrow> Inl e
      | Inr k \<Rightarrow> Inr (override_reconstitute (mk_course r) (mk_date r) (clock_label (mk_tee_time r)) k
          (mk_label r) (mk_note r)))"

definition list_marks ::
  "collation \<Rightarrow> str \<Rightarrow> override_query \<Rightarrow> mark_row list \<Rightarrow> slot_override list result" where
  "list_marks ck tenant q rows =
     collect_results (map row_mark
       (sort_by (\<lambda>r s. row_order ck r \<le> row_order ck s) (filter (wanted_row ck tenant q) rows)))"

definition mark_again :: "slot_override \<Rightarrow> mark_row \<Rightarrow> mark_row" where
  "mark_again m r =
     r\<lparr>mk_kind := override_as_str (so_kind m), mk_label := so_label m, mk_note := so_note m\<rparr>"

definition new_mark_row :: "str \<Rightarrow> slot_override \<Rightarrow> mark_row" where
  "new_mark_row tenant m =
     \<lparr>mk_tenant = tenant, mk_course = so_course m, mk_date = so_date m, mk_tee_time = so_tee_time m,
      mk_kind = override_as_str (so_kind m), mk_label = so_label m, mk_note = so_note m\<rparr>"

definition upsert_mark :: "collation \<Rightarrow> str \<Rightarrow> slot_override \<Rightarrow> mark_row list \<Rightarrow> mark_row list" where
  "upsert_mark ck tenant m rows =
     (if mark_key ck tenant m \<in> set (map (row_key ck) rows)
      then map (\<lambda>r. if row_key ck r = mark_key ck tenant m then mark_again m r else r) rows
      else rows @ [new_mark_row tenant m])"

text \<open>One transaction. A commit that reports an error may still have taken effect.\<close>

record band_replies =
  bd_begin :: "unit result"
  bd_statement :: "nat \<Rightarrow> unit result"
  bd_commit :: "unit result"
  bd_took_effect :: bool

definition upsert_marks ::
  "collation \<Rightarrow> band_replies \<Rightarrow> str \<Rightarrow> slot_override list \<Rightarrow> mark_row list
    \<Rightarrow> slot_override list result \<times> mark_row list" where
  "upsert_marks ck br tenant ms rows =
     (let marked = fold (upsert_mark ck tenant) ms rows in
      case bd_begin br of Inl e \<Rightarrow> (Inl e, rows) | Inr _ \<Rightarrow>
      (case first_refusal (bd_statement br) 0 (length ms) of Inl e \<Rightarrow> (Inl e, rows) | Inr _ \<Rightarrow>
      (case bd_commit br of
         Inl e \<Rightarrow> (Inl e, if bd_took_effect br then marked else rows)
       | Inr _ \<Rightarrow> (Inr ms, marked))))"

record delete_overrides =
  xo_course :: course_id
  xo_date :: date
  xo_tee_times :: "str list"

definition deleted_row :: "collation \<Rightarrow> str \<Rightarrow> delete_overrides \<Rightarrow> mark_row \<Rightarrow> bool" where
  "deleted_row ck tenant x r \<longleftrightarrow>
     same_text ck (mk_tenant r) tenant \<and> same_text ck (mk_course r) (xo_course x)
     \<and> mk_date r = xo_date x \<and> (\<exists>t \<in> set (xo_tee_times x). same_text ck (mk_tee_time r) (clock_label t))"

definition delete_marks ::
  "collation \<Rightarrow> unit result \<Rightarrow> str \<Rightarrow> delete_overrides \<Rightarrow> mark_row list \<Rightarrow> nat result \<times> mark_row list" where
  "delete_marks ck reply tenant x rows =
     (if xo_tee_times x = [] then (Inr 0, rows)
      else case reply of Inl e \<Rightarrow> (Inl e, rows)
      | Inr _ \<Rightarrow> (Inr (length (filter (deleted_row ck tenant x) rows)),
                  filter (\<lambda>r. \<not> deleted_row ck tenant x r) rows))"

section \<open>The use cases\<close>

definition list_slot_overrides ::
  "collation \<Rightarrow> str \<Rightarrow> unit result \<Rightarrow> override_query \<Rightarrow> mark_row list \<Rightarrow> slot_override list result" where
  "list_slot_overrides ck tenant permitted q rows =
     (case require_tenant tenant of Inl e \<Rightarrow> Inl e | Inr _ \<Rightarrow>
     (case permitted of Inl e \<Rightarrow> Inl e | Inr _ \<Rightarrow> list_marks ck tenant q rows))"

definition upsert_slot_overrides ::
  "collation \<Rightarrow> band_replies \<Rightarrow> str \<Rightarrow> unit result \<Rightarrow> upsert_overrides \<Rightarrow> mark_row list
    \<Rightarrow> slot_override list result \<times> mark_row list" where
  "upsert_slot_overrides ck br tenant permitted u rows =
     (case require_tenant tenant of Inl e \<Rightarrow> (Inl e, rows) | Inr _ \<Rightarrow>
     (case permitted of Inl e \<Rightarrow> (Inl e, rows) | Inr _ \<Rightarrow>
     (case into_overrides u of Inl e \<Rightarrow> (Inl e, rows) | Inr ms \<Rightarrow> upsert_marks ck br tenant ms rows)))"

definition delete_slot_overrides ::
  "collation \<Rightarrow> unit result \<Rightarrow> str \<Rightarrow> unit result \<Rightarrow> delete_overrides \<Rightarrow> mark_row list
    \<Rightarrow> nat result \<times> mark_row list" where
  "delete_slot_overrides ck reply tenant permitted x rows =
     (case require_tenant tenant of Inl e \<Rightarrow> (Inl e, rows) | Inr _ \<Rightarrow>
     (case permitted of Inl e \<Rightarrow> (Inl e, rows) | Inr _ \<Rightarrow>
      if xo_tee_times x = [] then (Inl (BadRequest ''at least one tee time is required''), rows)
      else delete_marks ck reply tenant x rows))"

section \<open>The table as a map\<close>

type_synonym mark_content = "str \<times> str option \<times> str option"

definition row_content :: "mark_row \<Rightarrow> mark_content" where
  "row_content r = (mk_kind r, mk_label r, mk_note r)"

definition mark_content :: "slot_override \<Rightarrow> mark_content" where
  "mark_content m = (override_as_str (so_kind m), so_label m, so_note m)"

definition marks_view :: "collation \<Rightarrow> mark_row list \<Rightarrow> mark_key \<Rightarrow> mark_content option" where
  "marks_view ck rows = map_of (map (\<lambda>r. (row_key ck r, row_content r)) rows)"

text \<open>One row per key, with a time of day and a kind that read back.\<close>

definition clock_text :: "str \<Rightarrow> bool" where
  "clock_text a \<longleftrightarrow> length a = 5 \<and> list_all (\<lambda>c. is_digit c \<or> c = CHR '':'') a"

definition row_ok :: "mark_row \<Rightarrow> bool" where
  "row_ok r \<longleftrightarrow> clock_text (mk_tee_time r) \<and> mk_kind r \<in> {''closed'', ''special_rate''}"

definition marks_ok :: "collation \<Rightarrow> mark_row list \<Rightarrow> bool" where
  "marks_ok ck rows \<longleftrightarrow> distinct (map (row_key ck) rows) \<and> list_all row_ok rows"

lemma row_key_again [simp]: "row_key ck (mark_again m r) = row_key ck r"
  by (simp add: row_key_def mark_again_def)

lemma row_key_new [simp]: "row_key ck (new_mark_row tenant m) = mark_key ck tenant m"
  by (simp add: row_key_def mark_key_def new_mark_row_def)

lemma row_content_marked [simp]:
  "row_content (mark_again m r) = mark_content m" "row_content (new_mark_row tenant m) = mark_content m"
  by (simp_all add: row_content_def mark_content_def mark_again_def new_mark_row_def)

lemma map_of_map_key:
  "map_of (map (\<lambda>r. (k r, if k r = key then x else f r)) rows) =
     (if key \<in> k ` set rows then (map_of (map (\<lambda>r. (k r, f r)) rows))(key \<mapsto> x)
      else map_of (map (\<lambda>r. (k r, f r)) rows))"
  by (induction rows) (auto simp: fun_eq_iff)

lemma marks_view_upsert:
  "marks_view ck (upsert_mark ck tenant m rows) = (marks_view ck rows)(mark_key ck tenant m \<mapsto> mark_content m)"
proof (cases "mark_key ck tenant m \<in> set (map (row_key ck) rows)")
  case True
  have "map (\<lambda>r. (row_key ck r, row_content r))
      (map (\<lambda>r. if row_key ck r = mark_key ck tenant m then mark_again m r else r) rows)
    = map (\<lambda>r. (row_key ck r, if row_key ck r = mark_key ck tenant m then mark_content m else row_content r)) rows"
    by simp
  then show ?thesis using True unfolding marks_view_def upsert_mark_def
    by (simp only: if_True map_of_map_key) simp
next
  case False
  then have "map_of (map (\<lambda>r. (row_key ck r, row_content r)) rows) (mark_key ck tenant m) = None"
    by (auto simp: map_of_eq_None_iff)
  with False show ?thesis
    by (auto simp: marks_view_def upsert_mark_def map_add_def fun_eq_iff split: option.splits)
qed

lemma marks_view_Some:
  assumes "distinct (map (row_key ck) rows)"
  shows "marks_view ck rows k = Some x \<longleftrightarrow> (\<exists>r \<in> set rows. row_key ck r = k \<and> row_content r = x)"
proof -
  have "distinct (map fst (map (\<lambda>r. (row_key ck r, row_content r)) rows))" using assms by (simp add: comp_def)
  from map_of_eq_Some_iff [OF this] show ?thesis by (auto simp: marks_view_def)
qed

lemma marks_view_None: "marks_view ck rows k = None \<longleftrightarrow> k \<notin> row_key ck ` set rows"
  by (simp add: marks_view_def map_of_eq_None_iff image_image)

lemma marks_view_delete:
  assumes "distinct (map (row_key ck) rows)"
  shows "marks_view ck (filter P rows) k =
    (if \<exists>r \<in> set rows. row_key ck r = k \<and> \<not> P r then None else marks_view ck rows k)"
proof (cases "\<exists>r \<in> set rows. row_key ck r = k \<and> \<not> P r")
  case True
  then obtain r where r: "r \<in> set rows" "row_key ck r = k" "\<not> P r" by blast
  have "k \<notin> row_key ck ` set (filter P rows)"
  proof
    assume "k \<in> row_key ck ` set (filter P rows)"
    then obtain s where s: "s \<in> set rows" "P s" "row_key ck s = k" by auto
    then have "s = r" using assms r by (auto simp: distinct_map dest: inj_onD)
    with s(2) r(3) show False by simp
  qed
  then have "marks_view ck (filter P rows) k = None" by (simp only: marks_view_None not_False_eq_True)
  with True show ?thesis by simp
next
  case False
  have "marks_view ck (filter P rows) k = marks_view ck rows k"
  proof (cases "marks_view ck rows k")
    case None
    then have "k \<notin> row_key ck ` set (filter P rows)" by (auto simp: marks_view_None)
    then have "marks_view ck (filter P rows) k = None" by (simp only: marks_view_None not_False_eq_True)
    with None show ?thesis by simp
  next
    case (Some x)
    then obtain r where r: "r \<in> set rows" "row_key ck r = k" "row_content r = x"
      by (auto simp: marks_view_Some [OF assms])
    with False have "r \<in> set (filter P rows)" by simp
    with r Some show ?thesis
      using marks_view_Some [OF distinct_map_filter [OF assms], of P k x] by metis
  qed
  then show ?thesis by (simp only: if_not_P [OF False])
qed

lemma upsert_mark_keys:
  "map (row_key ck) (upsert_mark ck tenant m rows) =
     (if mark_key ck tenant m \<in> set (map (row_key ck) rows) then map (row_key ck) rows
      else map (row_key ck) rows @ [mark_key ck tenant m])"
  by (auto simp: upsert_mark_def)

section \<open>Stored clocks\<close>

lemma clock_text_chars: "clock_text a \<Longrightarrow> list_all (\<lambda>c. \<not> continues c) a"
  by (auto simp: clock_text_def list_all_iff is_digit_def continues_def byte_of_def)

lemma clock_label_text: "clock_text a \<Longrightarrow> clock_label a = a"
  using clock_text_chars [of a] take_chars_ascii [of 5 a] by (simp add: clock_label_def clock_text_def)

lemma strict_clock_text:
  assumes "strict_clock msg v = Inr a"
  shows "clock_text a"
proof -
  have a: "length a = 5" "a ! 2 = CHR '':''" "list_all is_digit (take 2 a)" "list_all is_digit (drop 3 a)"
    using assms by (auto simp: strict_clock_def Let_def split: if_splits)
  have "a = take 2 a @ a ! 2 # drop 3 a" using a(1) id_take_nth_drop [of 2 a] by simp
  then have "set a = insert (a ! 2) (set (take 2 a) \<union> set (drop 3 a))"
    by (metis Un_insert_right list.simps(15) set_append)
  with a show ?thesis by (auto simp: clock_text_def list_all_iff)
qed

lemma override_try_new_facts:
  assumes "override_try_new c d t k l n = Inr m"
  shows "so_course m = c" "so_date m = d" "so_kind m = k" "clock_text (so_tee_time m)"
    "strict_clock ''tee times must look like HH:MM'' t = Inr (so_tee_time m)"
  using assms by (auto simp: override_try_new_def strict_clock_text split: sum.splits)

section \<open>The invariant\<close>

lemma override_as_str_known: "override_as_str k \<in> {''closed'', ''special_rate''}"
  by (cases k) simp_all

lemma marks_ok_upsert:
  assumes "marks_ok ck rows" "clock_text (so_tee_time m)"
  shows "marks_ok ck (upsert_mark ck tenant m rows)"
proof -
  have "row_ok (mark_again m r)" if "row_ok r" for r
    using that override_as_str_known [of "so_kind m"] by (simp add: row_ok_def mark_again_def)
  moreover have "row_ok (new_mark_row tenant m)"
    using assms(2) override_as_str_known [of "so_kind m"] by (simp add: row_ok_def new_mark_row_def)
  ultimately have "list_all row_ok (upsert_mark ck tenant m rows)"
    using assms(1) by (auto simp: upsert_mark_def marks_ok_def list_all_iff)
  moreover have "distinct (map (row_key ck) (upsert_mark ck tenant m rows))"
    using assms(1) by (simp only: upsert_mark_keys marks_ok_def split: if_split) simp
  ultimately show ?thesis by (simp add: marks_ok_def)
qed

lemma marks_ok_fold:
  "marks_ok ck rows \<Longrightarrow> \<forall>m \<in> set ms. clock_text (so_tee_time m)
    \<Longrightarrow> marks_ok ck (fold (upsert_mark ck tenant) ms rows)"
  by (induction ms arbitrary: rows) (auto intro: marks_ok_upsert)

lemma into_overrides_facts:
  assumes "into_overrides u = Inr ms"
  shows "m \<in> set ms \<Longrightarrow> so_course m = uo_course u \<and> so_date m = uo_date u \<and> so_kind m = uo_kind u
      \<and> clock_text (so_tee_time m)"
    "t \<in> set (uo_tee_times u) \<Longrightarrow> \<exists>m \<in> set ms. strict_clock ''tee times must look like HH:MM'' t = Inr (so_tee_time m)"
proof -
  let ?mark = "\<lambda>t. override_try_new (uo_course u) (uo_date u) t (uo_kind u) (uo_label u) (uo_note u)"
  have ms: "map ?mark (uo_tee_times u) = map Inr ms"
    using assms by (auto simp: into_overrides_def collect_results_all split: if_splits)
  { assume "m \<in> set ms"
    then have "Inr m \<in> ?mark ` set (uo_tee_times u)" using ms by (metis image_eqI list.set_map)
    then obtain t where "?mark t = Inr m" by auto
    from override_try_new_facts [OF this]
    show "so_course m = uo_course u \<and> so_date m = uo_date u \<and> so_kind m = uo_kind u
      \<and> clock_text (so_tee_time m)" by simp }
  { assume "t \<in> set (uo_tee_times u)"
    then have "?mark t \<in> Inr ` set ms" using ms by (metis image_eqI list.set_map)
    then obtain m where "m \<in> set ms" "?mark t = Inr m" by auto
    with override_try_new_facts(5) [of "uo_course u" "uo_date u" t "uo_kind u" "uo_label u" "uo_note u" m]
    show "\<exists>m \<in> set ms. strict_clock ''tee times must look like HH:MM'' t = Inr (so_tee_time m)" by blast }
qed

text \<open>What the desk's commands do to the table, one at a time.\<close>

inductive mark_step :: "collation \<Rightarrow> mark_row list \<Rightarrow> mark_row list \<Rightarrow> bool" for ck where
  marked: "upsert_slot_overrides ck br tenant permitted u rows = (answer, rows') \<Longrightarrow> mark_step ck rows rows'"
| cleared: "delete_slot_overrides ck reply tenant permitted x rows = (gone, rows') \<Longrightarrow> mark_step ck rows rows'"

inductive marked_by :: "collation \<Rightarrow> mark_row list \<Rightarrow> bool" for ck where
  unmarked: "marked_by ck []"
| next_mark: "marked_by ck rows \<Longrightarrow> mark_step ck rows rows' \<Longrightarrow> marked_by ck rows'"

lemma marks_ok_filter: "marks_ok ck rows \<Longrightarrow> marks_ok ck (filter P rows)"
  by (auto simp: marks_ok_def list_all_iff distinct_map_filter)

lemma marks_ok_step:
  assumes "mark_step ck rows rows'" "marks_ok ck rows"
  shows "marks_ok ck rows'"
  using assms
proof (cases rule: mark_step.cases)
  case (marked br tenant permitted u answer)
  then show ?thesis using assms(2) marks_ok_fold [OF assms(2)] into_overrides_facts(1) [of u]
    by (auto simp: upsert_slot_overrides_def upsert_marks_def Let_def split: sum.splits if_splits)
next
  case (cleared reply tenant permitted x gone)
  then show ?thesis using assms(2) marks_ok_filter [OF assms(2)]
    by (auto simp: delete_slot_overrides_def delete_marks_def split: sum.splits if_splits)
qed

lemma marked_by_ok: "marked_by ck rows \<Longrightarrow> marks_ok ck rows"
proof (induction rule: marked_by.induct)
  case unmarked
  then show ?case by (simp add: marks_ok_def)
next
  case (next_mark rows rows')
  then show ?case by (blast intro: marks_ok_step)
qed

section \<open>What the desk sees\<close>

text \<open>Two different times of day are different texts to the database.\<close>

definition clocks_apart :: "collation \<Rightarrow> bool" where
  "clocks_apart ck \<longleftrightarrow> (\<forall>a b. clock_text a \<longrightarrow> clock_text b \<longrightarrow> ck a = ck b \<longrightarrow> a = b)"

definition read_kind :: "str \<Rightarrow> override_kind" where
  "read_kind k = (if k = ''closed'' then SlotClosed else SpecialRate)"

lemma row_ok_mark:
  "row_ok r \<Longrightarrow> row_mark r = Inr (override_reconstitute (mk_course r) (mk_date r) (mk_tee_time r)
     (read_kind (mk_kind r)) (mk_label r) (mk_note r))"
  using override.parse_token [of SlotClosed] override.parse_token [of SpecialRate]
  by (auto simp: row_ok_def row_mark_def clock_label_text read_kind_def)

definition listed_mark :: "mark_row \<Rightarrow> slot_override" where
  "listed_mark r = override_reconstitute (mk_course r) (mk_date r) (mk_tee_time r)
     (read_kind (mk_kind r)) (mk_label r) (mk_note r)"

lemma list_marks_ok:
  assumes "marks_ok ck rows"
  shows "list_marks ck tenant q rows = Inr (map listed_mark
    (sort_by (\<lambda>r s. row_order ck r \<le> row_order ck s) (filter (wanted_row ck tenant q) rows)))"
proof -
  let ?rs = "sort_by (\<lambda>r s. row_order ck r \<le> row_order ck s) (filter (wanted_row ck tenant q) rows)"
  have "map row_mark ?rs = map Inr (map listed_mark ?rs)"
    using assms by (auto simp: marks_ok_def list_all_iff row_ok_mark listed_mark_def)
  then show ?thesis unfolding list_marks_def by (simp only: collect_results_Inr)
qed

lemma marks_view_fold:
  "marks_view ck (fold (upsert_mark ck tenant) ms rows) =
     fold (\<lambda>m v. v(mark_key ck tenant m \<mapsto> mark_content m)) ms (marks_view ck rows)"
  by (induction ms arbitrary: rows) (simp_all add: marks_view_upsert)

lemma fold_updates:
  "fold (\<lambda>m v. v(f m \<mapsto> g m)) ms v k = v k \<and> k \<notin> f ` set ms
    \<or> (\<exists>m \<in> set ms. f m = k \<and> fold (\<lambda>m v. v(f m \<mapsto> g m)) ms v k = Some (g m))"
  by (induction ms rule: rev_induct) auto

lemma upsert_success:
  assumes "upsert_slot_overrides ck br tenant (Inr ()) u rows = (Inr ms, rows')"
  shows "into_overrides u = Inr ms" "rows' = fold (upsert_mark ck tenant) ms rows" "require_tenant tenant = Inr ()"
  using assms by (auto simp: upsert_slot_overrides_def upsert_marks_def Let_def split: sum.splits)

text \<open>
  A band of tee times the desk has closed is off sale: after the command succeeds, on a table
  with any history, the marks listed for that course and day close every tee time the command
  named, in whatever form it was written.
\<close>

lemma closed_band_listed:
  assumes "clocks_apart ck" "marked_by ck rows"
    and "upsert_slot_overrides ck br tenant (Inr ()) u rows = (Inr ms, rows')"
    and "uo_kind u = SlotClosed" "t \<in> set (uo_tee_times u)"
    and "q = \<lparr>oq_date = uo_date u, oq_courses = [uo_course u]\<rparr>"
  shows "\<exists>marks. list_slot_overrides ck tenant (Inr ()) q rows' = Inr marks
    \<and> is_tee_time_closed marks t = Inr True"
proof -
  note ran = upsert_success [OF assms(3)]
  have ok: "marks_ok ck rows'" using marks_ok_fold [OF marked_by_ok [OF assms(2)]] into_overrides_facts(1) [OF ran(1)] ran(2) by blast
  obtain m where m: "m \<in> set ms" "strict_clock ''tee times must look like HH:MM'' t = Inr (so_tee_time m)"
    using into_overrides_facts(2) [OF ran(1) assms(5)] by blast
  let ?k = "mark_key ck tenant m"
  obtain m' where m': "m' \<in> set ms" "mark_key ck tenant m' = ?k" "marks_view ck rows' ?k = Some (mark_content m')"
    using fold_updates [of "mark_key ck tenant" mark_content ms "marks_view ck rows" ?k] m(1)
    unfolding ran(2) marks_view_fold by blast
  then obtain r where r: "r \<in> set rows'" "row_key ck r = ?k" "row_content r = mark_content m'"
    using marks_view_Some ok unfolding marks_ok_def by blast
  have kinds: "so_kind m' = SlotClosed" and mf: "so_course m = uo_course u" "so_date m = uo_date u" "clock_text (so_tee_time m)"
    using into_overrides_facts(1) [OF ran(1)] m(1) m'(1) assms(4) by auto
  have "row_ok r" using ok r(1) by (simp add: marks_ok_def list_all_iff)
  then have time: "mk_tee_time r = so_tee_time m"
    using assms(1) mf(3) r(2) by (auto simp: clocks_apart_def row_ok_def row_key_def mark_key_def)
  have "r \<in> set (filter (wanted_row ck tenant q) rows')"
    using r(1,2) mf assms(6) by (auto simp: wanted_row_def row_key_def mark_key_def same_text_def)
  moreover have "is_closed (listed_mark r)" "so_tee_time (listed_mark r) = so_tee_time m"
    using r(3) kinds time
    by (auto simp: listed_mark_def override_reconstitute_def is_closed_def row_content_def mark_content_def read_kind_def)
  ultimately have "\<exists>x \<in> set (map listed_mark (sort_by (\<lambda>r s. row_order ck r \<le> row_order ck s)
      (filter (wanted_row ck tenant q) rows'))). is_closed x \<and> so_tee_time x = so_tee_time m"
    by (metis image_eqI list.set_map set_sort_by)
  then show ?thesis
    using list_marks_ok [OF ok, of tenant q] ran(3) m(2)
    by (simp add: list_slot_overrides_def is_tee_time_closed_def)
qed

text \<open>A morning closed on an empty table, its first tee time written with seconds.\<close>

definition letters :: collation where "letters = map of_char"

definition granted_band :: band_replies where
  "granted_band = \<lparr>bd_begin = Inr (), bd_statement = (\<lambda>_. Inr ()), bd_commit = Inr (), bd_took_effect = True\<rparr>"

definition closed_morning :: upsert_overrides where
  "closed_morning = \<lparr>uo_course = ''east'', uo_date = 100, uo_tee_times = [''07:14:00'', ''07:21''],
     uo_kind = SlotClosed, uo_label = Some '' fog '', uo_note = None\<rparr>"

lemma letters_apart: "clocks_apart letters"
proof -
  have "inj (of_char :: char \<Rightarrow> nat)" by (rule inj_onI) simp
  then show ?thesis by (auto simp: clocks_apart_def letters_def dest: map_injective)
qed

definition morning_marks :: "slot_override list" where
  "morning_marks = map (\<lambda>t. override_reconstitute ''east'' 100 t SlotClosed (Some ''fog'') None) [''07:14'', ''07:21'']"

definition morning_rows :: "mark_row list" where
  "morning_rows = map (new_mark_row ''t1'') morning_marks"

lemma morning_closed:
  "upsert_slot_overrides letters granted_band ''t1'' (Inr ()) closed_morning [] = (Inr morning_marks, morning_rows)"
  by code_simp

text \<open>
  The table answers like a map from tee times to marks: a band that was written overwrites
  exactly its own tee times, a band that was cleared removes exactly its own and the count says
  how many there were, and after both the list of any day shows what is left, in the order of
  the columns and rows of the ledger.
\<close>

theorem marks_kept_like_a_map:
  assumes "marked_by ck rows"
    and "upsert_slot_overrides ck br tenant (Inr ()) u rows = (Inr ms, rows1)"
    and "delete_slot_overrides ck reply tenant (Inr ()) x rows1 = (Inr n, rows2)"
  shows "marks_view ck rows1 =
      fold (\<lambda>m v. v(mark_key ck tenant m \<mapsto> mark_content m)) ms (marks_view ck rows)
    \<and> marks_view ck rows2 = (marks_view ck rows1) |`
        (- {(ck tenant, ck (xo_course x), xo_date x, ck (clock_label t)) |t. t \<in> set (xo_tee_times x)})
    \<and> length rows1 = n + length rows2
    \<and> list_slot_overrides ck tenant' (Inr ()) q rows2 =
        (if trim tenant' = [] then Inl (BadRequest ''tenant id is required'')
         else Inr (map listed_mark (sort_by (\<lambda>r s. row_order ck r \<le> row_order ck s)
           (filter (wanted_row ck tenant' q) rows2))))"
proof -
  note ran = upsert_success [OF assms(2)]
  have ok: "marks_ok ck rows1" using marks_ok_fold [OF marked_by_ok [OF assms(1)]] into_overrides_facts(1) [OF ran(1)] ran(2) by blast
  have rows2: "rows2 = filter (\<lambda>r. \<not> deleted_row ck tenant x r) rows1"
      "n = length (filter (deleted_row ck tenant x) rows1)"
    using assms(3) by (auto simp: delete_slot_overrides_def delete_marks_def split: sum.splits if_splits)
  let ?K = "{(ck tenant, ck (xo_course x), xo_date x, ck (clock_label t)) |t. t \<in> set (xo_tee_times x)}"
  have gone: "deleted_row ck tenant x r \<longleftrightarrow> row_key ck r \<in> ?K" for r
    by (auto simp: deleted_row_def row_key_def same_text_def)
  have "marks_view ck rows2 k = ((marks_view ck rows1) |` (- ?K)) k" for k
  proof (cases "k \<in> ?K")
    case True
    then have "k \<notin> row_key ck ` set rows2" by (auto simp: rows2(1) gone)
    then show ?thesis using True marks_view_None [of ck rows2 k] by (simp only: restrict_map_def) simp
  next
    case False
    then have no: "\<not> (\<exists>r \<in> set rows1. row_key ck r = k \<and> \<not> \<not> deleted_row ck tenant x r)" by (auto simp: gone)
    have "marks_view ck rows2 k = marks_view ck rows1 k"
      unfolding rows2(1) using marks_view_delete [of ck rows1 "\<lambda>r. \<not> deleted_row ck tenant x r" k] ok no
      by (simp only: marks_ok_def if_False)
    with False show ?thesis by (simp only: restrict_map_def) simp
  qed
  then have "marks_view ck rows2 = (marks_view ck rows1) |` (- ?K)" by blast
  moreover have "length rows1 = n + length rows2"
    unfolding rows2 using sum_length_filter_compl [of "deleted_row ck tenant x" rows1] by simp
  moreover have "marks_ok ck rows2" unfolding rows2(1) using ok by (rule marks_ok_filter)
  ultimately show ?thesis
    using ran(2) list_marks_ok [of ck rows2 tenant' q]
    by (simp add: marks_view_fold list_slot_overrides_def require_tenant_def)
qed

definition clear_first :: delete_overrides where
  "clear_first = \<lparr>xo_course = ''east'', xo_date = 100, xo_tee_times = [''07:14:00'']\<rparr>"

lemma first_cleared:
  "delete_slot_overrides letters (Inr ()) ''t1'' (Inr ()) clear_first morning_rows = (Inr 1, drop 1 morning_rows)"
  by code_simp

theorem marks_kept_like_a_map_witness:
  "length morning_rows = 1 + length (drop 1 morning_rows)
    \<and> list_slot_overrides letters ''t1'' (Inr ()) \<lparr>oq_date = 100, oq_courses = []\<rparr> (drop 1 morning_rows)
      = Inr (map listed_mark (sort_by (\<lambda>r s. row_order letters r \<le> row_order letters s)
          (filter (wanted_row letters ''t1'' \<lparr>oq_date = 100, oq_courses = []\<rparr>) (drop 1 morning_rows))))"
proof -
  have "trim ''t1'' \<noteq> []" by code_simp
  then show ?thesis
    using marks_kept_like_a_map [OF unmarked morning_closed first_cleared, of "''t1''" "\<lparr>oq_date = 100, oq_courses = []\<rparr>"]
    by simp
qed

end
