(* ===== verification/CourseSchedule.thy ===== *)
theory CourseSchedule
  imports Catalog AssignmentOps
begin

text \<open>
  Keeping a course's week and the tee times it makes on sale: \<open>src/course/usecase/course_schedule.rs\<close>,
  with the watermark table of \<open>generated_through_repository.rs\<close>. Each use case is a function
  from the answers of its upstream calls to its result and the new \<open>book\<close>: the log of the writes
  that were confirmed upstream, latest last, and the tenant's watermarks, one per course. In a loop
  over the courses the call for the \<open>k\<close>-th course gets the \<open>k\<close>-th answer.
\<close>

section \<open>The week\<close>

definition band_le :: "availability_rule \<Rightarrow> availability_rule \<Rightarrow> bool" where
  "band_le a b \<longleftrightarrow> ru_weekday a < ru_weekday b \<or> (ru_weekday a = ru_weekday b \<and> ru_start a \<le> ru_start b)"

fun adjacent_overlap :: "availability_rule list \<Rightarrow> bool" where
  "adjacent_overlap (x # y # rest) \<longleftrightarrow>
     (ru_weekday x = ru_weekday y \<and> ru_start y < ru_end x) \<or> adjacent_overlap (y # rest)"
| "adjacent_overlap _ \<longleftrightarrow> False"

definition reject_overlaps :: "availability_rule list \<Rightarrow> unit result" where
  "reject_overlaps rules =
     (if adjacent_overlap (sort_by band_le rules)
      then Inl (BadRequest ''two bands on the same weekday overlap'') else Inr ())"

section \<open>The book\<close>

record generation_summary =
  gs_created :: int
  gs_updated :: int
  gs_deactivated :: int
  gs_unchanged :: int

record built_inventory =
  bi_summary :: generation_summary
  bi_through :: date

record saved_schedule =
  ss_rules :: "availability_rule list"
  ss_built :: "built_inventory option"

record watermark =
  wm_through :: date
  wm_checked :: date

datatype upstream_write =
    WeekStored resource_id str "availability_rule list" "int option option"
  | TeeTimesBuilt resource_id date date
  | HorizonStored booking_horizon
  | WindowSynced resource_id "int option"

record book =
  bk_log :: "upstream_write list"
  bk_marks :: "course_id \<rightharpoonup> watermark"

definition logged :: "upstream_write \<Rightarrow> book \<Rightarrow> book" where
  "logged w b = b\<lparr>bk_log := bk_log b @ [w]\<rparr>"

definition generate_slots ::
  "generation_summary result \<Rightarrow> resource_id \<Rightarrow> date \<Rightarrow> date \<Rightarrow> bool \<Rightarrow> book
    \<Rightarrow> generation_summary result \<times> book" where
  "generate_slots reply rid from til dry b =
     (case reply of Inl e \<Rightarrow> (Inl e, b)
      | Inr s \<Rightarrow> (Inr s, if dry then b else logged (TeeTimesBuilt rid from til) b))"

text \<open>The answer to the write of a watermark; one that reports an error may have taken effect.\<close>

type_synonym mark_reply = "bool \<times> unit result"

definition set_watermark ::
  "mark_reply \<Rightarrow> course_id \<Rightarrow> watermark \<Rightarrow> book \<Rightarrow> unit result \<times> book" where
  "set_watermark reply c m b =
     (snd reply, if is_ok (snd reply) \<or> fst reply then b\<lparr>bk_marks := (bk_marks b)(c \<mapsto> m)\<rparr> else b)"

section \<open>Which resource a course books against\<close>

definition booked_against :: "resource \<Rightarrow> resource_id" where
  "booked_against r = unwrap_or (rs_reservation_resource r) (rs_id r)"

definition live_course_resource :: "resource \<Rightarrow> bool" where
  "live_course_resource r \<longleftrightarrow> rs_active r \<and> rs_kind r = CourseKind"

definition course_resource_id :: "resource list \<Rightarrow> course_id \<Rightarrow> resource_id result" where
  "course_resource_id rs c =
     (case find (\<lambda>r. rs_course r = Some c) (filter live_course_resource rs) of
        Some r \<Rightarrow> Inr (booked_against r)
      | None \<Rightarrow> Inl (BadRequest ''this course is not linked to a reservation resource yet''))"

definition course_resources :: "resource list \<Rightarrow> (course_id \<times> resource_id) list" where
  "course_resources rs =
     List.map_filter (\<lambda>r. map_option (\<lambda>c. (c, booked_against r)) (rs_course r))
       (filter live_course_resource rs)"

definition course_today :: "zones \<Rightarrow> instant \<Rightarrow> str \<Rightarrow> date result" where
  "course_today zone now tz = tenant_date_at zone now tz"

section \<open>Reading and saving the week\<close>

definition get_course_schedule ::
  "unit result \<Rightarrow> resource list result \<Rightarrow> (resource_id \<Rightarrow> availability_rule list result) \<Rightarrow> course_id
    \<Rightarrow> availability_rule list result" where
  "get_course_schedule permitted resources week c =
     (case permitted of Inl e \<Rightarrow> Inl e | Inr _ \<Rightarrow>
     (case resources of Inl e \<Rightarrow> Inl e | Inr rs \<Rightarrow>
     (case course_resource_id rs c of Inl e \<Rightarrow> Inl e | Inr rid \<Rightarrow> week rid)))"

definition build_window ::
  "booking_horizon result \<Rightarrow> date result \<Rightarrow> generation_summary result \<Rightarrow> mark_reply
    \<Rightarrow> course_id \<Rightarrow> resource_id \<Rightarrow> book \<Rightarrow> built_inventory option result \<times> book" where
  "build_window horizon todays generated marked c rid b =
     (case horizon of Inl e \<Rightarrow> (Inl e, b) | Inr h \<Rightarrow>
     (case todays of Inl e \<Rightarrow> (Inl e, b) | Inr today \<Rightarrow>
      let edge = last_bookable_date today h in
      if edge < today then (Inr None, b)
      else (case generate_slots generated rid today edge False b of
          (Inl e, b1) \<Rightarrow> (Inl e, b1)
        | (Inr s, b1) \<Rightarrow>
            (Inr (Some \<lparr>bi_summary = s, bi_through = edge\<rparr>),
             snd (set_watermark marked c \<lparr>wm_through = edge, wm_checked = today\<rparr> b1)))))"

record save_replies =
  sv_courses :: "course list result"
  sv_timezone :: "str result"
  sv_resources :: "resource list result"
  sv_horizon :: "booking_horizon result"
  sv_stored :: "availability_rule list result"
  sv_generated :: "generation_summary result"
  sv_marked :: mark_reply

definition replace_course_schedule ::
  "zones \<Rightarrow> instant \<Rightarrow> unit result \<Rightarrow> course_id \<Rightarrow> availability_rule list \<Rightarrow> save_replies \<Rightarrow> book
    \<Rightarrow> saved_schedule result \<times> book" where
  "replace_course_schedule zone now permitted c rules rp b =
     (case permitted of Inl e \<Rightarrow> (Inl e, b) | Inr _ \<Rightarrow>
     (case reject_overlaps rules of Inl e \<Rightarrow> (Inl e, b) | Inr _ \<Rightarrow>
     (case sv_courses rp of Inl e \<Rightarrow> (Inl e, b) | Inr courses \<Rightarrow>
      if c \<notin> set (map co_id courses) then (Inl (NotFound ''course''), b)
      else case sv_timezone rp of Inl e \<Rightarrow> (Inl e, b) | Inr tz \<Rightarrow>
     (case (case sv_resources rp of Inl e \<Rightarrow> Inl e | Inr rs \<Rightarrow> course_resource_id rs c) of
        Inl e \<Rightarrow> (Inl e, b)
      | Inr rid \<Rightarrow>
          let rolling = (case sv_horizon rp of Inl _ \<Rightarrow> None | Inr h \<Rightarrow> Some (field_rolling_window_days h)) in
          (case sv_stored rp of Inl e \<Rightarrow> (Inl e, b)
           | Inr saved \<Rightarrow>
              let (built, b') = build_window (sv_horizon rp) (course_today zone now tz)
                    (sv_generated rp) (sv_marked rp) c rid (logged (WeekStored rid tz rules rolling) b)
              in (Inr \<lparr>ss_rules = saved, ss_built = result_or built None\<rparr>, b'))))))"

section \<open>Building a range by hand\<close>

definition MAX_GENERATION_DAYS :: int where "MAX_GENERATION_DAYS = 400"

definition generate_course_time_slots ::
  "unit result \<Rightarrow> resource list result \<Rightarrow> generation_summary result \<Rightarrow> course_id \<Rightarrow> date \<Rightarrow> date \<Rightarrow> bool
    \<Rightarrow> book \<Rightarrow> generation_summary result \<times> book" where
  "generate_course_time_slots permitted resources generated c from til dry b =
     (case permitted of Inl e \<Rightarrow> (Inl e, b) | Inr _ \<Rightarrow>
      if til < from then (Inl (BadRequest ''the end of the range must not be before its start''), b)
      else if MAX_GENERATION_DAYS \<le> til - from
      then (Inl (BadRequest ''generate at most 400 days at a time''), b)
      else case (case resources of Inl e \<Rightarrow> Inl e | Inr rs \<Rightarrow> course_resource_id rs c) of
        Inl e \<Rightarrow> (Inl e, b)
      | Inr rid \<Rightarrow> generate_slots generated rid from til dry b)"

section \<open>Keeping every course built out to the horizon\<close>

definition top_up_range :: "date option \<Rightarrow> date \<Rightarrow> date \<Rightarrow> (date \<times> date) option" where
  "top_up_range mark today edge =
     (if edge < today then None
      else case mark of
        None \<Rightarrow> Some (today, edge)
      | Some m \<Rightarrow> if edge \<le> m then None else Some (max (m + 1) today, edge))"

text \<open>One course's build and, once it is confirmed, its watermark. The flag says both went through.\<close>

definition build_course ::
  "generation_summary result \<Rightarrow> mark_reply \<Rightarrow> course_id \<Rightarrow> resource_id \<Rightarrow> date \<Rightarrow> date \<Rightarrow> date \<Rightarrow> book
    \<Rightarrow> bool \<times> book" where
  "build_course generated marked c rid from til today b =
     (case generate_slots generated rid from til False b of
        (Inl e, b1) \<Rightarrow> (False, b1)
      | (Inr s, b1) \<Rightarrow>
          (let (r, b2) = set_watermark marked c \<lparr>wm_through = til, wm_checked = today\<rparr> b1
           in (is_ok r, b2)))"

record extend_replies =
  ex_timezone :: "str result"
  ex_marks :: "unit result"
  ex_resources :: "resource list result"
  ex_horizon :: "booking_horizon result"
  ex_generated :: "nat \<Rightarrow> generation_summary result"
  ex_marked :: "nat \<Rightarrow> mark_reply"

fun extend_each ::
  "extend_replies \<Rightarrow> nat \<Rightarrow> (course_id \<rightharpoonup> watermark) \<Rightarrow> date \<Rightarrow> date \<Rightarrow> (course_id \<times> resource_id) list
    \<Rightarrow> book \<Rightarrow> course_id list \<times> book" where
  "extend_each rp k stored today edge [] b = ([], b)"
| "extend_each rp k stored today edge ((c, rid) # cs) b =
     (case top_up_range (map_option wm_through (stored c)) today edge of
        None \<Rightarrow> extend_each rp (Suc k) stored today edge cs b
      | Some (from, til) \<Rightarrow>
          (let (ok, b1) = build_course (ex_generated rp k) (ex_marked rp k) c rid from til today b;
               (rest, b2) = extend_each rp (Suc k) stored today edge cs b1
           in (if ok then c # rest else rest, b2)))"

definition extend_course_inventory ::
  "zones \<Rightarrow> instant \<Rightarrow> unit result \<Rightarrow> extend_replies \<Rightarrow> book \<Rightarrow> course_id list result \<times> book" where
  "extend_course_inventory zone now permitted rp b =
     (case permitted of Inl e \<Rightarrow> (Inl e, b) | Inr _ \<Rightarrow>
     (case ex_timezone rp of Inl e \<Rightarrow> (Inl e, b) | Inr tz \<Rightarrow>
     (case course_today zone now tz of Inl e \<Rightarrow> (Inl e, b) | Inr today \<Rightarrow>
     (case ex_marks rp of Inl e \<Rightarrow> (Inl e, b) | Inr _ \<Rightarrow>
     (case ex_resources rp of Inl e \<Rightarrow> (Inl e, b) | Inr rs \<Rightarrow>
      let stored = bk_marks b; courses = course_resources rs in
      if courses \<noteq> []
         \<and> list_all (\<lambda>(c, _). case stored c of None \<Rightarrow> False | Some m \<Rightarrow> today \<le> wm_checked m) courses
      then (Inr [], b)
      else case ex_horizon rp of Inl e \<Rightarrow> (Inl e, b)
      | Inr h \<Rightarrow>
          (let (extended, b') = extend_each rp 0 stored today (last_bookable_date today h) courses b
           in (Inr extended, b')))))))"

section \<open>The rolling window upstream\<close>

fun sync_each ::
  "(nat \<Rightarrow> bool result) \<Rightarrow> nat \<Rightarrow> int option \<Rightarrow> (course_id \<times> resource_id) list \<Rightarrow> book
    \<Rightarrow> course_id list \<times> book" where
  "sync_each reply k expected [] b = ([], b)"
| "sync_each reply k expected ((c, rid) # cs) b =
     (case reply k of
        Inr True \<Rightarrow>
          (let (rest, b') = sync_each reply (Suc k) expected cs (logged (WindowSynced rid expected) b)
           in (c # rest, b'))
      | _ \<Rightarrow> sync_each reply (Suc k) expected cs b)"

definition sync_rolling_window_opt_in ::
  "unit result \<Rightarrow> booking_horizon result \<Rightarrow> resource list result \<Rightarrow> (nat \<Rightarrow> bool result) \<Rightarrow> book
    \<Rightarrow> course_id list result \<times> book" where
  "sync_rolling_window_opt_in permitted horizon resources reply b =
     (case permitted of Inl e \<Rightarrow> (Inl e, b) | Inr _ \<Rightarrow>
     (case horizon of Inl e \<Rightarrow> (Inl e, b) | Inr h \<Rightarrow>
     (case resources of Inl e \<Rightarrow> (Inl e, b) | Inr rs \<Rightarrow>
      (let (synced, b') = sync_each reply 0 (field_rolling_window_days h) (course_resources rs) b
       in (Inr synced, b')))))"

section \<open>The booking horizon\<close>

record horizon_status =
  hs_horizon :: booking_horizon
  hs_through :: date
  hs_generated :: "course_id \<rightharpoonup> date option"

definition get_booking_horizon ::
  "zones \<Rightarrow> instant \<Rightarrow> unit result \<Rightarrow> booking_horizon result \<Rightarrow> str result \<Rightarrow> course list result
    \<Rightarrow> unit result \<Rightarrow> book \<Rightarrow> horizon_status result" where
  "get_booking_horizon zone now permitted horizon timezone courses marks b =
     (case permitted of Inl e \<Rightarrow> Inl e | Inr _ \<Rightarrow>
     (case horizon of Inl e \<Rightarrow> Inl e | Inr h \<Rightarrow>
     (case timezone of Inl e \<Rightarrow> Inl e | Inr tz \<Rightarrow>
     (case course_today zone now tz of Inl e \<Rightarrow> Inl e | Inr today \<Rightarrow>
     (case marks of Inl e \<Rightarrow> Inl e | Inr _ \<Rightarrow>
     (case courses of Inl e \<Rightarrow> Inl e | Inr cs \<Rightarrow>
        Inr \<lparr>hs_horizon = h, hs_through = last_bookable_date today h,
          hs_generated = map_of (map (\<lambda>c. (co_id c, map_option wm_through (bk_marks b (co_id c)))) cs)\<rparr>))))))"

record horizon_replies =
  hz_timezone :: "str result"
  hz_stored :: "booking_horizon result"
  hz_resources :: "resource list result"
  hz_generated :: "nat \<Rightarrow> generation_summary result"
  hz_marked :: "nat \<Rightarrow> mark_reply"

fun rebuild_each ::
  "horizon_replies \<Rightarrow> nat \<Rightarrow> date \<Rightarrow> date \<Rightarrow> (course_id \<times> resource_id) list \<Rightarrow> book \<Rightarrow> book" where
  "rebuild_each rp k today edge [] b = b"
| "rebuild_each rp k today edge ((c, rid) # cs) b =
     rebuild_each rp (Suc k) today edge cs
       (snd (build_course (hz_generated rp k) (hz_marked rp k) c rid today edge today b))"

definition set_booking_horizon ::
  "zones \<Rightarrow> instant \<Rightarrow> unit result \<Rightarrow> booking_horizon \<Rightarrow> horizon_replies \<Rightarrow> book
    \<Rightarrow> (booking_horizon \<times> date) result \<times> book" where
  "set_booking_horizon zone now permitted h rp b =
     (case permitted of Inl e \<Rightarrow> (Inl e, b) | Inr _ \<Rightarrow>
     (case hz_timezone rp of Inl e \<Rightarrow> (Inl e, b) | Inr tz \<Rightarrow>
     (case course_today zone now tz of Inl e \<Rightarrow> (Inl e, b) | Inr today \<Rightarrow>
     (case horizon_validate_on today h of Inl e \<Rightarrow> (Inl e, b) | Inr _ \<Rightarrow>
     (case hz_stored rp of Inl e \<Rightarrow> (Inl e, b) | Inr stored \<Rightarrow>
      let b1 = logged (HorizonStored h) b; edge = last_bookable_date today stored in
      (case hz_resources rp of Inl e \<Rightarrow> (Inl e, b1)
       | Inr rs \<Rightarrow> (Inr (stored, edge), rebuild_each rp 0 today edge (course_resources rs) b1)))))))"

end
