(* ===== verification/CourseScheduleCorrect.thy ===== *)
theory CourseScheduleCorrect
  imports CourseSchedule
begin

text \<open>
  Facts about the week and the book: which weeks are refused, that a watermark never claims a
  day that was not built, that no range is longer than one call may cover, and that the daily
  top-up brings every course to the far edge.
\<close>

section \<open>Overlapping bands\<close>

definition bands_apart :: "availability_rule \<Rightarrow> availability_rule \<Rightarrow> bool" where
  "bands_apart a b \<longleftrightarrow> ru_weekday a \<noteq> ru_weekday b \<or> ru_end a \<le> ru_start b \<or> ru_end b \<le> ru_start a"

definition band_ok :: "availability_rule \<Rightarrow> bool" where
  "band_ok a \<longleftrightarrow> ru_start a < ru_end a"

interpretation band: comparator band_le
  by standard (auto simp: band_le_def)

text \<open>In a sorted week it is enough to look at neighbours.\<close>

definition follows :: "availability_rule \<Rightarrow> availability_rule \<Rightarrow> bool" where
  "follows a b \<longleftrightarrow> ru_weekday a = ru_weekday b \<longrightarrow> ru_end a \<le> ru_start b"

lemma adjacent_overlap_iff:
  assumes "sorted_wrt band_le xs" "list_all band_ok xs"
  shows "adjacent_overlap xs \<longleftrightarrow> \<not> sorted_wrt follows xs"
  using assms
proof (induction xs rule: adjacent_overlap.induct)
  case (1 x y rest)
  have "follows x z" if "follows x y" "z \<in> set rest" "sorted_wrt follows (y # rest)" for z
  proof -
    have "band_le x y" "band_le y z" "follows y z" "band_ok y" using 1(2,3) that by auto
    with that(1) show ?thesis unfolding follows_def band_le_def band_ok_def by (metis order.trans nless_le less_asym)
  qed
  moreover have "follows x y \<longleftrightarrow> \<not> (ru_weekday x = ru_weekday y \<and> ru_start y < ru_end x)"
    by (auto simp: follows_def)
  ultimately show ?case using 1 by auto
qed auto

lemma follows_apart:
  assumes "band_le a b" "band_ok a" "band_ok b"
  shows "follows a b \<longleftrightarrow> bands_apart a b"
  using assms unfolding follows_def bands_apart_def band_le_def band_ok_def
  by (metis order.trans nless_le less_asym)

lemma sorted_follows_apart:
  "sorted_wrt band_le xs \<Longrightarrow> list_all band_ok xs \<Longrightarrow> sorted_wrt follows xs \<longleftrightarrow> sorted_wrt bands_apart xs"
  by (induction xs) (auto simp: list_all_iff follows_apart)

lemma sorted_wrt_perm:
  assumes "\<And>x y. R x y \<Longrightarrow> R y x" "mset xs = mset ys"
  shows "sorted_wrt R xs \<longleftrightarrow> sorted_wrt R ys"
  using assms(2)
proof (induction xs arbitrary: ys)
  case (Cons x xs)
  obtain as bs where ys: "ys = as @ x # bs"
    by (metis Cons.prems list.set_intros(1) set_mset_mset split_list)
  then have "mset xs = mset (as @ bs)" using Cons.prems by simp
  from Cons.IH [OF this] mset_eq_setD [OF this] show ?case
    by (auto simp: ys sorted_wrt_append dest: assms(1))
qed simp

text \<open>
  C8. A week is refused exactly when two of its bands on one weekday share a moment: sorting the
  bands and looking only at neighbours misses nothing and refuses nothing else.
\<close>

theorem overlaps_refused_exactly:
  assumes "list_all band_ok rules"
  shows "reject_overlaps rules =
    (if \<forall>i j. i < j \<and> j < length rules \<longrightarrow> bands_apart (rules ! i) (rules ! j) then Inr ()
     else Inl (BadRequest ''two bands on the same weekday overlap''))"
proof -
  let ?s = "sort_by band_le rules"
  have sorted: "sorted_wrt band_le ?s" and ok: "list_all band_ok ?s"
    using assms by (simp_all add: band.sorted_sort_by list_all_iff)
  have "sorted_wrt follows ?s \<longleftrightarrow> sorted_wrt bands_apart ?s"
    by (rule sorted_follows_apart [OF sorted ok])
  also have "\<dots> \<longleftrightarrow> sorted_wrt bands_apart rules"
    by (rule sorted_wrt_perm) (auto simp: bands_apart_def)
  also have "\<dots> \<longleftrightarrow> (\<forall>i j. i < j \<and> j < length rules \<longrightarrow> bands_apart (rules ! i) (rules ! j))"
    by (auto simp: sorted_wrt_iff_nth_less)
  finally show ?thesis using adjacent_overlap_iff [OF sorted ok] by (simp add: reject_overlaps_def)
qed

definition split_day :: "availability_rule list" where
  "split_day = map (\<lambda>(w, a, b). \<lparr>ru_id = None, ru_weekday = w, ru_start = a, ru_end = b, ru_capacity = 4,
     ru_interval = 8\<rparr>) [(6, ''13:00'', ''15:00''), (0, ''07:00'', ''11:00''), (6, ''07:00'', ''13:00'')]"

theorem overlaps_refused_exactly_witness:
  "reject_overlaps split_day =
    (if \<forall>i j. i < j \<and> j < length split_day \<longrightarrow> bands_apart (split_day ! i) (split_day ! j) then Inr ()
     else Inl (BadRequest ''two bands on the same weekday overlap''))
   \<and> reject_overlaps split_day = Inr ()"
proof -
  have "list_all band_ok split_day" by code_simp
  moreover have "reject_overlaps split_day = Inr ()" by code_simp
  ultimately show ?thesis using overlaps_refused_exactly [of split_day] by simp
qed

section \<open>What has been built\<close>

fun builds_day :: "resource_id \<Rightarrow> date \<Rightarrow> upstream_write \<Rightarrow> bool" where
  "builds_day rid d (TeeTimesBuilt r from til) \<longleftrightarrow> r = rid \<and> from \<le> d \<and> d \<le> til"
| "builds_day rid d _ \<longleftrightarrow> False"

definition day_built :: "book \<Rightarrow> resource_id \<Rightarrow> date \<Rightarrow> bool" where
  "day_built b rid d \<longleftrightarrow> list_ex (builds_day rid d) (bk_log b)"

fun range_ok :: "upstream_write \<Rightarrow> bool" where
  "range_ok (TeeTimesBuilt r from til) \<longleftrightarrow> from \<le> til \<and> til - from < MAX_GENERATION_DAYS"
| "range_ok _ \<longleftrightarrow> True"

definition mark_backed :: "(course_id \<times> resource_id) list \<Rightarrow> date \<Rightarrow> book \<Rightarrow> course_id \<Rightarrow> watermark \<Rightarrow> bool" where
  "mark_backed links today b c m \<longleftrightarrow> wm_checked m \<le> today
     \<and> (\<exists>rid. (c, rid) \<in> set links \<and> (\<forall>d. wm_checked m \<le> d \<and> d \<le> wm_through m \<longrightarrow> day_built b rid d))"

definition book_ok :: "(course_id \<times> resource_id) list \<Rightarrow> date \<Rightarrow> book \<Rightarrow> bool" where
  "book_ok links today b \<longleftrightarrow> list_all range_ok (bk_log b)
     \<and> (\<forall>c m. bk_marks b c = Some m \<longrightarrow> mark_backed links today b c m)"

lemma day_built_logged [simp]: "day_built (logged w b) rid d \<longleftrightarrow> day_built b rid d \<or> builds_day rid d w"
  by (auto simp: day_built_def logged_def)

lemma logged_marks [simp]: "bk_marks (logged w b) = bk_marks b"
  by (simp add: logged_def)

lemma mark_backed_logged: "mark_backed links today b c m \<Longrightarrow> mark_backed links today (logged w b) c m"
  by (auto simp: mark_backed_def)

lemma book_ok_later: "book_ok links t b \<Longrightarrow> t \<le> today \<Longrightarrow> book_ok links today b"
  by (fastforce simp: book_ok_def mark_backed_def)

lemma book_ok_logged: "book_ok links today b \<Longrightarrow> range_ok w \<Longrightarrow> book_ok links today (logged w b)"
  by (auto simp: book_ok_def mark_backed_logged) (simp add: logged_def)

text \<open>One course's build: what it logs, what it marks, and that the mark is backed.\<close>

lemma build_course_cases:
  fixes g k c rid "from" til today b
  obtains (refused) "snd (build_course g k c rid from til today b) = b" "fst (build_course g k c rid from til today b) = False"
      "\<not> is_ok g"
  | (unmarked) "snd (build_course g k c rid from til today b) = logged (TeeTimesBuilt rid from til) b"
      "fst (build_course g k c rid from til today b) = False" "\<not> is_ok (snd k)"
  | (marked) "snd (build_course g k c rid from til today b) = (logged (TeeTimesBuilt rid from til) b)
      \<lparr>bk_marks := (bk_marks b)(c \<mapsto> \<lparr>wm_through = til, wm_checked = today\<rparr>)\<rparr>"
      "fst (build_course g k c rid from til today b) = is_ok (snd k)"
  by (cases g; cases "snd k"; cases "fst k")
    (auto simp: build_course_def generate_slots_def set_watermark_def)

lemma day_built_marks [simp]: "day_built (b\<lparr>bk_marks := x\<rparr>) rid d = day_built b rid d"
  by (simp add: day_built_def)

lemma build_course_keeps: "day_built b r d \<Longrightarrow> day_built (snd (build_course g k c rid from til today b)) r d"
  by (cases rule: build_course_cases [of g k c rid "from" til today b]) auto

lemma build_course_other: "c' \<noteq> c \<Longrightarrow> bk_marks (snd (build_course g k c rid from til today b)) c' = bk_marks b c'"
  by (cases rule: build_course_cases [of g k c rid "from" til today b]) auto

lemma build_course_ok:
  assumes "book_ok links today b" "(c, rid) \<in> set links"
    and "from \<le> til" "til - from < MAX_GENERATION_DAYS"
    and "\<And>d. today \<le> d \<Longrightarrow> d < from \<Longrightarrow> day_built b rid d"
  shows "book_ok links today (snd (build_course g k c rid from til today b))"
proof (cases rule: build_course_cases [of g k c rid "from" til today b])
  case marked
  let ?b = "(logged (TeeTimesBuilt rid from til) b)\<lparr>bk_marks := (bk_marks b)(c \<mapsto> \<lparr>wm_through = til, wm_checked = today\<rparr>)\<rparr>"
  have "mark_backed links today ?b c \<lparr>wm_through = til, wm_checked = today\<rparr>"
    unfolding mark_backed_def using assms(2,5) by (auto simp: not_less intro!: exI [of _ rid]) (meson not_le_imp_less)
  moreover have "mark_backed links today ?b c' m" if "bk_marks b c' = Some m" for c' m
    using assms(1) that mark_backed_logged [of links today b c' m "TeeTimesBuilt rid from til"]
    by (auto simp: book_ok_def mark_backed_def)
  moreover have "list_all range_ok (bk_log ?b)"
    using assms(1,3,4) by (simp add: book_ok_def logged_def)
  ultimately show ?thesis unfolding marked by (auto simp: book_ok_def)
qed (use assms in \<open>simp_all add: book_ok_logged\<close>)

section \<open>The use cases one by one\<close>

definition links_ok :: "(course_id \<times> resource_id) list \<Rightarrow> bool" where
  "links_ok links \<longleftrightarrow> distinct (map fst links)"

fun horizon_ok :: "booking_horizon \<Rightarrow> bool" where
  "horizon_ok (HorizonDays n) \<longleftrightarrow> 1 \<le> n \<and> n \<le> HORIZON_MAX_DAYS"
| "horizon_ok (HorizonThrough d) \<longleftrightarrow> True"

lemma last_bookable_within: "horizon_ok h \<Longrightarrow> last_bookable_date today h - today < MAX_GENERATION_DAYS"
  by (cases h) (auto simp: HORIZON_MAX_DAYS_def MAX_GENERATION_DAYS_def)

lemma build_window_book:
  "snd (build_window horizon todays g k c rid b) =
     (case horizon of Inl e \<Rightarrow> b | Inr h \<Rightarrow> (case todays of Inl e \<Rightarrow> b | Inr today \<Rightarrow>
       if last_bookable_date today h < today then b
       else snd (build_course g k c rid today (last_bookable_date today h) today b)))"
  by (auto simp: build_window_def build_course_def Let_def split: sum.splits prod.splits)

lemma course_resource_linked: "course_resource_id rs c = Inr rid \<Longrightarrow> (c, rid) \<in> set (course_resources rs)"
proof -
  assume "course_resource_id rs c = Inr rid"
  then obtain r where r: "find (\<lambda>r. rs_course r = Some c) (filter live_course_resource rs) = Some r" "rid = booked_against r"
    by (auto simp: course_resource_id_def split: option.splits)
  then have "r \<in> set (filter live_course_resource rs)" "rs_course r = Some c"
    by (metis find_Some_iff nth_mem, metis (mono_tags) find_Some_iff)
  then show ?thesis using r(2)
    by (auto simp: course_resources_def List.map_filter_def intro!: image_eqI [of _ _ r])
qed

lemma save_ok:
  assumes "book_ok (course_resources rs) today b"
    and "course_today zone now tz = Inr today"
    and "\<forall>x. sv_timezone rp = Inr x \<longrightarrow> x = tz" "\<forall>x. sv_resources rp = Inr x \<longrightarrow> x = rs"
    and "\<forall>h. sv_horizon rp = Inr h \<longrightarrow> horizon_ok h"
  shows "book_ok (course_resources rs) today (snd (replace_course_schedule zone now permitted c rules rp b))"
proof -
  have "book_ok (course_resources rs) today
      (snd (build_window (sv_horizon rp) (Inr today) (sv_generated rp) (sv_marked rp) c rid b'))"
    if "book_ok (course_resources rs) today b'" "(c, rid) \<in> set (course_resources rs)" for rid b'
    unfolding build_window_book using that assms(5) last_bookable_within
    by (auto split: sum.splits intro!: build_course_ok)
  with assms show ?thesis
    by (auto simp: replace_course_schedule_def Let_def split_beta course_resource_linked book_ok_logged
        split: sum.splits)
qed

lemma generate_ok:
  assumes "book_ok links today b"
  shows "book_ok links today (snd (generate_course_time_slots permitted resources g c from til dry b))"
  using assms by (auto simp: generate_course_time_slots_def generate_slots_def book_ok_logged split: sum.splits)

lemma rebuild_each_ok:
  assumes "book_ok links today b" "set cs \<subseteq> set links" "today \<le> edge" "edge - today < MAX_GENERATION_DAYS"
  shows "book_ok links today (rebuild_each rp k today edge cs b)"
  using assms
proof (induction cs arbitrary: k b)
  case (Cons x cs)
  obtain c rid where x: "x = (c, rid)" by (cases x)
  show ?case using Cons.prems by (auto simp: x intro!: Cons.IH build_course_ok)
qed simp

lemma horizon_move_ok:
  assumes "book_ok (course_resources rs) today b"
    and "course_today zone now tz = Inr today"
    and "\<forall>x. hz_timezone rp = Inr x \<longrightarrow> x = tz" "\<forall>x. hz_resources rp = Inr x \<longrightarrow> x = rs"
    and "\<forall>x. hz_stored rp = Inr x \<longrightarrow> x = h" "horizon_ok h"
  shows "book_ok (course_resources rs) today (snd (set_booking_horizon zone now permitted h rp b))"
proof -
  have "today \<le> last_bookable_date today h" if "horizon_validate_on today h = Inr ()"
    using that assms(6) by (cases h) (auto simp: HORIZON_MAX_DAYS_def split: if_splits)
  moreover have "book_ok (course_resources rs) today (logged (HorizonStored h) b)"
    using assms(1) by (simp add: book_ok_logged)
  ultimately show ?thesis using assms last_bookable_within
    by (auto simp: set_booking_horizon_def Let_def split: sum.splits intro!: rebuild_each_ok)
qed

text \<open>The top-up starts where the watermark ends, so nothing between today and its first day is missing.\<close>

lemma top_up_range_facts:
  assumes "top_up_range (map_option wm_through mark) today edge = Some (from, til)"
  shows "til = edge" "today \<le> from" "from \<le> til"
    "\<lbrakk>today \<le> d; d < from\<rbrakk> \<Longrightarrow> \<exists>m. mark = Some m \<and> d \<le> wm_through m"
  using assms by (auto simp: top_up_range_def split: if_splits option.splits)

lemma top_up_covered:
  assumes "book_ok links today b" "links_ok links" "(c, rid) \<in> set links"
    and "bk_marks b c = Some m" "today \<le> d" "d \<le> wm_through m"
  shows "day_built b rid d"
proof -
  have "mark_backed links today b c m" using assms(1,4) by (simp add: book_ok_def)
  then obtain rid' where "(c, rid') \<in> set links" "\<forall>d. wm_checked m \<le> d \<and> d \<le> wm_through m \<longrightarrow> day_built b rid' d"
    "wm_checked m \<le> today" by (auto simp: mark_backed_def)
  moreover have "rid' = rid" using assms(2,3) \<open>(c, rid') \<in> set links\<close> by (auto simp: links_ok_def eq_key_imp_eq_value)
  ultimately show ?thesis using assms(5,6) by auto
qed

lemma extend_head:
  assumes "book_ok links today b" "links_ok links" "(c, rid) \<in> set links" "bk_marks b c = mark"
    and "edge - today < MAX_GENERATION_DAYS"
    and "top_up_range (map_option wm_through mark) today edge = Some (a, z)"
  shows "today \<le> d \<Longrightarrow> d < a \<Longrightarrow> day_built b rid d"
    and "book_ok links today (snd (build_course g k c rid a z today b))"
proof -
  note facts = top_up_range_facts [OF assms(6)]
  show gap: "today \<le> d \<Longrightarrow> d < a \<Longrightarrow> day_built b rid d" for d
    using facts(4) assms(4) top_up_covered [OF assms(1-3)] by blast
  show "book_ok links today (snd (build_course g k c rid a z today b))"
    by (rule build_course_ok [OF assms(1,3)]) (use facts(1-3) assms(5) gap in auto)
qed

lemma rest_unmarked:
  assumes "distinct (map fst ((c, rid) # cs))" "\<forall>c' \<in> fst ` set ((c, rid) # cs). bk_marks b c' = stored c'"
  shows "\<forall>c' \<in> fst ` set cs. bk_marks (snd (build_course g k c rid a z today b)) c' = stored c'"
proof
  fix c' assume c': "c' \<in> fst ` set cs"
  then have "c' \<noteq> c" using assms(1) by auto
  with c' assms(2) show "bk_marks (snd (build_course g k c rid a z today b)) c' = stored c'"
    by (auto simp: build_course_other)
qed

lemma extend_each_ok:
  assumes "book_ok links today b" "links_ok links" "set cs \<subseteq> set links" "distinct (map fst cs)"
    and "\<forall>c \<in> fst ` set cs. bk_marks b c = stored c" "edge - today < MAX_GENERATION_DAYS"
  shows "book_ok links today (snd (extend_each rp k stored today edge cs b))"
  using assms
proof (induction cs arbitrary: k b)
  case (Cons x cs)
  obtain c rid where x: "x = (c, rid)" by (cases x)
  show ?case
  proof (cases "top_up_range (map_option wm_through (stored c)) today edge")
    case None
    then show ?thesis using Cons by (simp add: x)
  next
    case (Some r)
    obtain a z where r: "r = (a, z)" by (cases r)
    let ?b = "snd (build_course (ex_generated rp k) (ex_marked rp k) c rid a z today b)"
    have "book_ok links today ?b"
      by (rule extend_head(2) [OF Cons.prems(1,2) _ _ Cons.prems(6) Some [unfolded r]])
        (use Cons.prems(3,5) in \<open>auto simp: x\<close>)
    moreover have "\<forall>c' \<in> fst ` set cs. bk_marks ?b c' = stored c'"
      using rest_unmarked Cons.prems(4,5) unfolding x by blast
    ultimately show ?thesis
      using Cons.IH [of ?b "Suc k"] Cons.prems by (simp add: x Some r Let_def split_beta)
  qed
qed simp

lemma extend_ok:
  assumes "book_ok (course_resources rs) today b" "links_ok (course_resources rs)"
    and "course_today zone now tz = Inr today"
    and "\<forall>x. ex_timezone rp = Inr x \<longrightarrow> x = tz" "\<forall>x. ex_resources rp = Inr x \<longrightarrow> x = rs"
    and "\<forall>h. ex_horizon rp = Inr h \<longrightarrow> horizon_ok h"
  shows "book_ok (course_resources rs) today (snd (extend_course_inventory zone now permitted rp b))"
proof -
  have "book_ok (course_resources rs) today
      (snd (extend_each rp 0 (bk_marks b) today (last_bookable_date today h) (course_resources rs) b))"
    if "horizon_ok h" for h
    using assms(1,2) last_bookable_within [OF that] by (intro extend_each_ok) (auto simp: links_ok_def)
  with assms show ?thesis
    by (auto simp: extend_course_inventory_def Let_def split_beta split: sum.splits)
qed

section \<open>Every history of the book\<close>

text \<open>
  A tenant's book over time: \<open>tz\<close> is its time zone and \<open>rs\<close> its resources, which the upstream
  reads answer when they answer at all; a stored horizon is one the reader accepts; the day
  never goes back. Any call may fail at any point.
\<close>

inductive book_step :: "zones \<Rightarrow> str \<Rightarrow> resource list \<Rightarrow> date \<times> book \<Rightarrow> date \<times> book \<Rightarrow> bool" for zone tz rs where
  week_saved: "\<lbrakk>course_today zone now tz = Inr today; t \<le> today;
      \<forall>x. sv_timezone rp = Inr x \<longrightarrow> x = tz; \<forall>x. sv_resources rp = Inr x \<longrightarrow> x = rs;
      \<forall>h. sv_horizon rp = Inr h \<longrightarrow> horizon_ok h;
      replace_course_schedule zone now permitted c rules rp b = (saved, b')\<rbrakk>
    \<Longrightarrow> book_step zone tz rs (t, b) (today, b')"
| range_built: "\<lbrakk>\<forall>x. resources = Inr x \<longrightarrow> x = rs;
      generate_course_time_slots permitted resources g c from til dry b = (summary, b')\<rbrakk>
    \<Longrightarrow> book_step zone tz rs (t, b) (t, b')"
| topped_up: "\<lbrakk>course_today zone now tz = Inr today; t \<le> today;
      \<forall>x. ex_timezone rp = Inr x \<longrightarrow> x = tz; \<forall>x. ex_resources rp = Inr x \<longrightarrow> x = rs;
      \<forall>h. ex_horizon rp = Inr h \<longrightarrow> horizon_ok h;
      extend_course_inventory zone now permitted rp b = (extended, b')\<rbrakk>
    \<Longrightarrow> book_step zone tz rs (t, b) (today, b')"
| horizon_moved: "\<lbrakk>course_today zone now tz = Inr today; t \<le> today;
      \<forall>x. hz_timezone rp = Inr x \<longrightarrow> x = tz; \<forall>x. hz_resources rp = Inr x \<longrightarrow> x = rs;
      \<forall>x. hz_stored rp = Inr x \<longrightarrow> x = h; horizon_ok h;
      set_booking_horizon zone now permitted h rp b = (moved, b')\<rbrakk>
    \<Longrightarrow> book_step zone tz rs (t, b) (today, b')"

definition empty_book :: book where
  "empty_book = \<lparr>bk_log = [], bk_marks = Map.empty\<rparr>"

lemma book_step_ok:
  assumes "book_step zone tz rs s s'" "links_ok (course_resources rs)" "book_ok (course_resources rs) (fst s) (snd s)"
  shows "book_ok (course_resources rs) (fst s') (snd s')"
  using assms
proof (cases rule: book_step.cases)
  case (week_saved now today t rp permitted c rules b saved b')
  with save_ok [OF book_ok_later [of _ t b today], of rs zone now tz rp permitted c rules] assms(3)
  show ?thesis by auto
next
  case (range_built resources permitted g c "from" til dry b summary b' t)
  with generate_ok [of "course_resources rs" t b permitted resources g c "from" til dry] assms(3)
  show ?thesis by auto
next
  case (topped_up now today t rp permitted b extended b')
  with extend_ok [OF book_ok_later [of _ t b today], of rs zone now tz rp permitted] assms(2,3)
  show ?thesis by auto
next
  case (horizon_moved now today t rp h permitted b moved b')
  with horizon_move_ok [OF book_ok_later [of _ t b today], of rs zone now tz rp h permitted] assms(3)
  show ?thesis by auto
qed

lemma book_history_ok:
  assumes "(book_step zone tz rs)\<^sup>*\<^sup>* (t0, empty_book) s" "links_ok (course_resources rs)"
  shows "book_ok (course_resources rs) (fst s) (snd s)"
  using assms(1)
proof (induction rule: rtranclp_induct)
  case base
  show ?case by (simp add: book_ok_def empty_book_def)
next
  case (step y z)
  then show ?case using book_step_ok assms(2) by blast
qed

text \<open>
  C6. However weeks are saved, horizons moved, ranges built and top-ups run, with any call
  failing anywhere: a course's watermark never claims a day whose tee times were not built, from
  the day it was last checked to the day it reaches.
\<close>

theorem watermark_claims_only_built_days:
  assumes "(book_step zone tz rs)\<^sup>*\<^sup>* (t0, empty_book) (t, b)" "distinct (map fst (course_resources rs))"
    and "bk_marks b c = Some m" "wm_checked m \<le> d" "d \<le> wm_through m"
  shows "wm_checked m \<le> t \<and> (\<exists>rid. (c, rid) \<in> set (course_resources rs) \<and> day_built b rid d)"
proof -
  have "mark_backed (course_resources rs) t b c m"
    using book_history_ok [OF assms(1)] assms(2,3) by (simp add: links_ok_def book_ok_def)
  then show ?thesis using assms(4,5) unfolding mark_backed_def by blast
qed

text \<open>
  C9. Whatever the history, no range the program has sent is one its own check would refuse: each
  ends on or after the day it starts and spans fewer days than one call may cover.
\<close>

theorem built_ranges_within_cap:
  assumes "(book_step zone tz rs)\<^sup>*\<^sup>* (t0, empty_book) (t, b)" "distinct (map fst (course_resources rs))"
    and "TeeTimesBuilt rid a z \<in> set (bk_log b)"
  shows "a \<le> z \<and> z - a < MAX_GENERATION_DAYS"
proof -
  have "list_all range_ok (bk_log b)"
    using book_history_ok [OF assms(1)] assms(2) by (simp add: links_ok_def book_ok_def)
  with assms(3) have "range_ok (TeeTimesBuilt rid a z)" unfolding list_all_iff by blast
  then show ?thesis by simp
qed

section \<open>The top-up reaches the edge\<close>

lemma extend_each_keeps: "day_built b r d \<Longrightarrow> day_built (snd (extend_each rp k stored today edge cs b)) r d"
proof (induction cs arbitrary: k b)
  case (Cons x cs)
  then show ?case
    by (cases x) (auto simp: Let_def split_beta build_course_keeps split: option.splits)
qed simp

definition all_granted :: "extend_replies \<Rightarrow> bool" where
  "all_granted rp \<longleftrightarrow> (\<forall>k. is_ok (ex_generated rp k) \<and> is_ok (snd (ex_marked rp k)))"

lemma build_course_granted:
  assumes "is_ok g" "is_ok (snd k)"
  shows "fst (build_course g k c rid from til today b)" "from \<le> d \<Longrightarrow> d \<le> til \<Longrightarrow>
    day_built (snd (build_course g k c rid from til today b)) rid d"
  using assms by (cases rule: build_course_cases [of g k c rid "from" til today b]; simp)+

lemma extend_each_reaches:
  assumes "book_ok links today b" "links_ok links" "set cs \<subseteq> set links" "distinct (map fst cs)"
    and "\<forall>c \<in> fst ` set cs. bk_marks b c = stored c" "edge - today < MAX_GENERATION_DAYS" "all_granted rp"
    and "(c, rid) \<in> set cs" "today \<le> d" "d \<le> edge"
  shows "day_built (snd (extend_each rp k stored today edge cs b)) rid d"
  using assms
proof (induction cs arbitrary: k b)
  case (Cons x cs)
  obtain c' rid' where x: "x = (c', rid')" by (cases x)
  have stored: "bk_marks b c' = stored c'" and link: "(c', rid') \<in> set links" using Cons.prems(3,5) by (auto simp: x)
  have others: "(c, rid) \<in> set cs" if "(c, rid) \<noteq> (c', rid')" using that Cons.prems(8) by (auto simp: x)
  show ?case
  proof (cases "top_up_range (map_option wm_through (stored c')) today edge")
    case None
    with Cons.prems(9,10) obtain m where m: "stored c' = Some m" "edge \<le> wm_through m"
      by (auto simp: top_up_range_def split: if_splits option.splits)
    have "day_built b rid' d"
      using top_up_covered [OF Cons.prems(1,2) link] m stored Cons.prems(9,10) by auto
    with None Cons others show ?thesis by (cases "(c, rid) = (c', rid')") (auto simp: x extend_each_keeps)
  next
    case (Some r)
    obtain a z where r: "r = (a, z)" by (cases r)
    let ?b = "snd (build_course (ex_generated rp k) (ex_marked rp k) c' rid' a z today b)"
    note head = extend_head [OF Cons.prems(1,2) link stored Cons.prems(6) Some [unfolded r]]
    have "is_ok (ex_generated rp k)" "is_ok (snd (ex_marked rp k))"
      using Cons.prems(7) by (auto simp: all_granted_def)
    then have here: "day_built ?b rid' d"
      using head(1) [of d] top_up_range_facts(1) [OF Some [unfolded r]] Cons.prems(9,10)
        build_course_granted(2) build_course_keeps by (cases "a \<le> d") auto
    have "day_built (snd (extend_each rp (Suc k) stored today edge cs ?b)) rid d"
    proof (cases "(c, rid) = (c', rid')")
      case True
      with here show ?thesis by (auto intro: extend_each_keeps)
    next
      case False
      have "\<forall>c'' \<in> fst ` set cs. bk_marks ?b c'' = stored c''"
        using rest_unmarked Cons.prems(4,5) unfolding x by blast
      then show ?thesis using Cons.IH [OF head(2)] Cons.prems others [OF False] by simp
    qed
    then show ?thesis by (simp add: x Some r Let_def split_beta)
  qed
qed simp

text \<open>
  C7. The top-up brings the whole club to the far edge: after any history, on a day some linked
  course has not been checked yet, a top-up whose calls go through leaves every linked course
  with tee times on every day from today to the last bookable one, however its watermark stood.
\<close>

theorem top_up_reaches_the_edge:
  assumes "(book_step zone tz rs)\<^sup>*\<^sup>* (t0, empty_book) (t, b)" "distinct (map fst (course_resources rs))"
    and "course_today zone now tz = Inr today" "t \<le> today"
    and "rp = \<lparr>ex_timezone = Inr tz, ex_marks = Inr (), ex_resources = Inr rs, ex_horizon = Inr h,
      ex_generated = g, ex_marked = k\<rparr>" "all_granted rp" "horizon_ok h"
    and "(c, rid) \<in> set (course_resources rs)" "case bk_marks b c of None \<Rightarrow> True | Some m \<Rightarrow> wm_checked m < today"
    and "extend_course_inventory zone now (Inr ()) rp b = (answer, b')"
  shows "is_ok answer \<and> (\<forall>(c, rid) \<in> set (course_resources rs). \<forall>d \<in> {today..last_bookable_date today h}.
    day_built b' rid d)"
proof -
  let ?links = "course_resources rs"
  have ok: "book_ok ?links today b"
    using book_history_ok [OF assms(1)] assms(2,4) book_ok_later by (simp add: links_ok_def)
  have links: "links_ok ?links" using assms(2) by (simp add: links_ok_def)
  have "\<not> list_all (\<lambda>(c, _). case bk_marks b c of None \<Rightarrow> False | Some m \<Rightarrow> today \<le> wm_checked m) ?links"
    using assms(8,9) by (auto simp: list_all_iff split: option.splits intro!: bexI [of _ "(c, rid)"])
  then have run: "answer = Inr (fst (extend_each rp 0 (bk_marks b) today (last_bookable_date today h) ?links b))"
      "b' = snd (extend_each rp 0 (bk_marks b) today (last_bookable_date today h) ?links b)"
    using assms(3,10) unfolding assms(5) by (auto simp: extend_course_inventory_def Let_def split_beta)
  show ?thesis
    using extend_each_reaches [OF ok links order.refl assms(2) _ last_bookable_within [OF assms(7)] assms(6)]
    by (auto simp: run)
qed

section \<open>One course through a few days\<close>

definition one_zone :: zones where "one_zone = (\<lambda>_. Some utc_clock)"

definition noon :: "date \<Rightarrow> instant" where "noon d = d * minutes 1440 + minutes 720"

definition east_links :: "resource list" where
  "east_links = [\<lparr>rs_id = ''r1'', rs_name = ''East'', rs_reservation_resource = None,
     rs_course = Some ''east'', rs_kind = CourseKind, rs_active = True\<rparr>]"

definition no_change :: generation_summary where
  "no_change = \<lparr>gs_created = 0, gs_updated = 0, gs_deactivated = 0, gs_unchanged = 0\<rparr>"

definition top_up_of :: "booking_horizon \<Rightarrow> extend_replies" where
  "top_up_of h = \<lparr>ex_timezone = Inr ''UTC'', ex_marks = Inr (), ex_resources = Inr east_links, ex_horizon = Inr h,
     ex_generated = (\<lambda>_. Inr no_change), ex_marked = (\<lambda>_. (True, Inr ()))\<rparr>"

definition east_book :: book where
  "east_book = \<lparr>bk_log = [TeeTimesBuilt ''r1'' 10 15],
     bk_marks = [''east'' \<mapsto> \<lparr>wm_through = 15, wm_checked = 10\<rparr>]\<rparr>"

lemma noon_day: "course_today one_zone (noon d) tz = Inr d"
  by (simp add: course_today_def tenant_date_at_def parse_tenant_timezone_def one_zone_def utc_clock_def noon_def
      minutes_def)

lemma east_linked: "course_resources east_links = [(''east'', ''r1'')]"
  by code_simp

lemma first_top_up: "extend_course_inventory one_zone (noon 10) (Inr ()) (top_up_of (HorizonDays 5)) empty_book =
    (Inr [''east''], east_book)"
  by (simp add: extend_course_inventory_def noon_day top_up_of_def east_linked empty_book_def top_up_range_def
      build_course_def generate_slots_def set_watermark_def logged_def east_book_def)

lemma east_history: "(book_step one_zone ''UTC'' east_links)\<^sup>*\<^sup>* (10, empty_book) (10, east_book)"
  by (rule r_into_rtranclp, rule topped_up [OF noon_day order.refl _ _ _ first_top_up])
    (simp_all add: top_up_of_def HORIZON_MAX_DAYS_def)

theorem watermark_claims_only_built_days_witness:
  "\<exists>rid. (''east'', rid) \<in> set (course_resources east_links) \<and> day_built east_book rid 12"
  using watermark_claims_only_built_days [OF east_history, of "''east''" "\<lparr>wm_through = 15, wm_checked = 10\<rparr>" 12]
  by (simp add: east_linked east_book_def)

theorem built_ranges_within_cap_witness: "(10::int) \<le> 15 \<and> 15 - 10 < MAX_GENERATION_DAYS"
  using built_ranges_within_cap [OF east_history, of "''r1''" 10 15] by (simp add: east_linked east_book_def)

theorem top_up_reaches_the_edge_witness:
  "is_ok (fst (extend_course_inventory one_zone (noon 12) (Inr ()) (top_up_of (HorizonDays 5)) east_book))
    \<and> day_built (snd (extend_course_inventory one_zone (noon 12) (Inr ()) (top_up_of (HorizonDays 5)) east_book)) ''r1'' 17"
proof -
  obtain answer b' where run: "extend_course_inventory one_zone (noon 12) (Inr ()) (top_up_of (HorizonDays 5)) east_book
      = (answer, b')" by (cases "extend_course_inventory one_zone (noon 12) (Inr ()) (top_up_of (HorizonDays 5)) east_book")
  have "all_granted (top_up_of (HorizonDays 5))" "horizon_ok (HorizonDays 5)"
    by (simp_all add: all_granted_def top_up_of_def HORIZON_MAX_DAYS_def)
  from top_up_reaches_the_edge [OF east_history _ noon_day _ top_up_of_def this _ _ run, of "''east''" "''r1''"]
  have "is_ok answer \<and> day_built b' ''r1'' 17" by (simp add: east_linked) (simp add: east_book_def)
  then show ?thesis by (simp only: run fst_conv snd_conv)
qed

section \<open>What the top-up does not do\<close>

text \<open>A week whose build failed is not built by the top-up: the watermark still covers the days
  whose tee times follow the week before.\<close>

definition failed_save :: save_replies where
  "failed_save = \<lparr>sv_courses = Inr [\<lparr>co_id = ''east'', co_name = ''East'', co_short_name = None, co_holes = 18,
       co_timezone = ''UTC'', co_interval = 8, co_active = True, co_open = None, co_close = None,
       co_created_at = None, co_updated_at = None\<rparr>],
     sv_timezone = Inr ''UTC'', sv_resources = Inr east_links, sv_horizon = Inr (HorizonThrough 15),
     sv_stored = Inr split_day, sv_generated = Inl (Provider ''timeout''), sv_marked = (True, Inr ())\<rparr>"

definition after_failed_save :: book where
  "after_failed_save = snd (replace_course_schedule one_zone (noon 10) (Inr ()) ''east'' split_day failed_save east_book)"

lemma failed_save_run:
  "replace_course_schedule one_zone (noon 10) (Inr ()) ''east'' split_day failed_save east_book =
     (Inr \<lparr>ss_rules = split_day, ss_built = None\<rparr>, logged (WeekStored ''r1'' ''UTC'' split_day (Some None)) east_book)"
proof -
  have "reject_overlaps split_day = Inr ()" "course_resource_id east_links ''east'' = Inr ''r1''" by code_simp+
  then show ?thesis
    by (simp add: replace_course_schedule_def failed_save_def noon_day build_window_def generate_slots_def
        HORIZON_MAX_DAYS_def)
qed

lemma failed_build_is_forgotten:
  "WeekStored ''r1'' ''UTC'' split_day (Some None) \<in> set (bk_log after_failed_save)"
  "extend_course_inventory one_zone (noon 11) (Inr ()) (top_up_of (HorizonThrough 15)) after_failed_save
     = (Inr [], after_failed_save)"
proof -
  have b: "after_failed_save = logged (WeekStored ''r1'' ''UTC'' split_day (Some None)) east_book"
    by (simp only: after_failed_save_def failed_save_run snd_conv)
  show "WeekStored ''r1'' ''UTC'' split_day (Some None) \<in> set (bk_log after_failed_save)"
    by (simp add: b logged_def)
  show "extend_course_inventory one_zone (noon 11) (Inr ()) (top_up_of (HorizonThrough 15)) after_failed_save
     = (Inr [], after_failed_save)"
    by (simp add: b extend_course_inventory_def noon_day top_up_of_def east_linked top_up_range_def east_book_def
        HORIZON_MAX_DAYS_def logged_def)
qed

text \<open>Under a fixed closing date the mark that spares the upstream reads is never renewed: the
  top-up leaves the book as it is and asks again on the next call.\<close>

lemma closing_date_never_checked:
  "extend_course_inventory one_zone (noon 11) (Inr ()) (top_up_of (HorizonThrough 15)) east_book = (Inr [], east_book)"
  "map_option wm_checked (bk_marks east_book ''east'') = Some 10"
  by (simp_all add: extend_course_inventory_def noon_day top_up_of_def east_linked top_up_range_def east_book_def
      HORIZON_MAX_DAYS_def)

text \<open>Bringing the edge nearer asks upstream for the days up to the new edge only; no request of the
  use case covers the days behind it, which were built before.\<close>

lemma nearer_edge_leaves_later_days:
  "bk_log (snd (set_booking_horizon one_zone (noon 10) (Inr ()) (HorizonThrough 12)
     \<lparr>hz_timezone = Inr ''UTC'', hz_stored = Inr (HorizonThrough 12), hz_resources = Inr east_links,
      hz_generated = (\<lambda>_. Inr no_change), hz_marked = (\<lambda>_. (True, Inr ()))\<rparr> east_book))
   = [TeeTimesBuilt ''r1'' 10 15, HorizonStored (HorizonThrough 12), TeeTimesBuilt ''r1'' 10 12]"
  by (simp add: set_booking_horizon_def noon_day east_linked east_book_def HORIZON_MAX_DAYS_def
      build_course_def generate_slots_def set_watermark_def logged_def)

end
