(* ===== verification/Bookings.thy ===== *)
theory Bookings
  imports SlotMarks TeeLedger Membership
begin

text \<open>
  Writing a booking and correcting it: \<open>src/course/usecase/create_reservation.rs\<close>,
  \<open>update_reservation_booking.rs\<close>, \<open>change_reservation_plan.rs\<close> and \<open>update_reservation_party.rs\<close>.
  A use case is a function from the answers of its reads to the request it sends upstream, or the
  error it stops with. The time zone database is an argument, as elsewhere: \<open>lt_at\<close> is the
  instant of a wall clock minute on a day, \<open>None\<close> where the clocks skip it, and \<open>lt_time\<close> the
  wall clock of an instant.
\<close>

section \<open>What the desk is told\<close>

definition SLOT_FILLED_MESSAGE :: str where
  "SLOT_FILLED_MESSAGE = utf8 [0xE3, 0x81, 0x93, 0xE3, 0x81, 0xAE, 0xE6, 0x9E, 0xA0, 0xE3, 0x81, 0xAF, 0xE3, 0x81, 0xA1,
     0xE3, 0x82, 0x87, 0xE3, 0x81, 0x86, 0xE3, 0x81, 0xA9, 0xE5, 0x9F, 0x8B, 0xE3, 0x81, 0xBE,
     0xE3, 0x82, 0x8A, 0xE3, 0x81, 0xBE, 0xE3, 0x81, 0x97, 0xE3, 0x81, 0x9F]"

definition SLOT_CLOSED_MESSAGE :: str where
  "SLOT_CLOSED_MESSAGE = utf8 [0xE3, 0x81, 0x93, 0xE3, 0x81, 0xAE, 0xE6, 0x99, 0x82, 0xE5, 0x88, 0xBB, 0xE3, 0x81, 0xAF,
     0xE5, 0xA3, 0xB2, 0xE3, 0x82, 0x8A, 0xE6, 0xAD, 0xA2, 0xE3, 0x82, 0x81, 0xE3, 0x81, 0xA7,
     0xE3, 0x81, 0x99, 0xE3, 0x80, 0x82, 0xE5, 0xA3, 0xB2, 0xE3, 0x82, 0x8A, 0xE6, 0xAD, 0xA2,
     0xE3, 0x82, 0x81, 0xE3, 0x82, 0x92, 0xE8, 0xA7, 0xA3, 0xE9, 0x99, 0xA4, 0xE3, 0x81, 0x99,
     0xE3, 0x82, 0x8B, 0xE3, 0x81, 0x8B, 0xE3, 0x80, 0x81, 0xE5, 0x88, 0xA5, 0xE3, 0x81, 0xAE,
     0xE6, 0x99, 0x82, 0xE5, 0x88, 0xBB, 0xE3, 0x82, 0x92, 0xE9, 0x81, 0xB8, 0xE3, 0x82, 0x93,
     0xE3, 0x81, 0xA7, 0xE3, 0x81, 0x8F, 0xE3, 0x81, 0xA0, 0xE3, 0x81, 0x95, 0xE3, 0x81, 0x84]"

definition NOT_READY_MESSAGE :: str where
  "NOT_READY_MESSAGE = utf8 [0xE3, 0x81, 0x93, 0xE3, 0x81, 0xAE, 0xE6, 0x96, 0xBD, 0xE8, 0xA8, 0xAD, 0xE3, 0x81, 0xA7,
     0xE3, 0x81, 0xAF, 0xE3, 0x81, 0xBE, 0xE3, 0x81, 0xA0, 0xE4, 0xBA, 0x88, 0xE7, 0xB4, 0x84,
     0xE3, 0x82, 0x92, 0xE5, 0x8F, 0x97, 0xE3, 0x81, 0x91, 0xE4, 0xBB, 0x98, 0xE3, 0x81, 0x91,
     0xE3, 0x82, 0x8B, 0xE6, 0xBA, 0x96, 0xE5, 0x82, 0x99, 0xE3, 0x81, 0x8C, 0xE3, 0x81, 0xA7,
     0xE3, 0x81, 0x8D, 0xE3, 0x81, 0xA6, 0xE3, 0x81, 0x84, 0xE3, 0x81, 0xBE, 0xE3, 0x81, 0x9B,
     0xE3, 0x82, 0x93, 0xE3, 0x80, 0x82, 0xE5, 0xB0, 0x8E, 0xE5, 0x85, 0xA5, 0xE6, 0x8B, 0x85,
     0xE5, 0xBD, 0x93, 0xE3, 0x81, 0xAB, 0xE3, 0x81, 0x94, 0xE9, 0x80, 0xA3, 0xE7, 0xB5, 0xA1,
     0xE3, 0x81, 0x8F, 0xE3, 0x81, 0xA0, 0xE3, 0x81, 0x95, 0xE3, 0x81, 0x84]"

definition OTHER_COURSE_MESSAGE :: str where
  "OTHER_COURSE_MESSAGE = utf8 [0xE9, 0x81, 0xB8, 0xE6, 0x8A, 0x9E, 0xE3, 0x81, 0x97, 0xE3, 0x81, 0x9F, 0xE5, 0x95, 0x86,
     0xE5, 0x93, 0x81, 0xE3, 0x81, 0xAF, 0xE3, 0x81, 0x93, 0xE3, 0x81, 0xAE, 0xE3, 0x82, 0xB3,
     0xE3, 0x83, 0xBC, 0xE3, 0x82, 0xB9, 0xE3, 0x81, 0xA7, 0xE3, 0x81, 0xAF, 0xE5, 0x88, 0xA9,
     0xE7, 0x94, 0xA8, 0xE3, 0x81, 0xA7, 0xE3, 0x81, 0x8D, 0xE3, 0x81, 0xBE, 0xE3, 0x81, 0x9B,
     0xE3, 0x82, 0x93, 0xE3, 0x80, 0x82, 0xE5, 0x95, 0x86, 0xE5, 0x93, 0x81, 0xE3, 0x82, 0x92,
     0xE9, 0x81, 0xB8, 0xE3, 0x81, 0xB3, 0xE7, 0x9B, 0xB4, 0xE3, 0x81, 0x97, 0xE3, 0x81, 0xA6,
     0xE3, 0x81, 0x8F, 0xE3, 0x81, 0xA0, 0xE3, 0x81, 0x95, 0xE3, 0x81, 0x84]"

definition MISMATCH_MESSAGE :: str where
  "MISMATCH_MESSAGE = utf8 [0xE9, 0x81, 0xB8, 0xE6, 0x8A, 0x9E, 0xE3, 0x81, 0x97, 0xE3, 0x81, 0x9F, 0xE3, 0x82, 0xB3,
     0xE3, 0x83, 0xBC, 0xE3, 0x82, 0xB9, 0xE3, 0x81, 0xA8, 0xE4, 0xBA, 0x88, 0xE7, 0xB4, 0x84,
     0xE6, 0x9E, 0xA0, 0xE3, 0x81, 0x8C, 0xE4, 0xB8, 0x80, 0xE8, 0x87, 0xB4, 0xE3, 0x81, 0x97,
     0xE3, 0x81, 0xBE, 0xE3, 0x81, 0x9B, 0xE3, 0x82, 0x93, 0xE3, 0x80, 0x82, 0xE5, 0x8F, 0xB0,
     0xE5, 0xB8, 0xB3, 0xE3, 0x82, 0x92, 0xE8, 0xAA, 0xAD, 0xE3, 0x81, 0xBF, 0xE8, 0xBE, 0xBC,
     0xE3, 0x81, 0xBF, 0xE7, 0x9B, 0xB4, 0xE3, 0x81, 0x97, 0xE3, 0x81, 0xA6, 0xE3, 0x81, 0x8F,
     0xE3, 0x81, 0xA0, 0xE3, 0x81, 0x95, 0xE3, 0x81, 0x84]"

definition NOT_INVENTORY_MESSAGE :: str where
  "NOT_INVENTORY_MESSAGE = utf8 [0xE9, 0x81, 0xB8, 0xE6, 0x8A, 0x9E, 0xE3, 0x81, 0x97, 0xE3, 0x81, 0x9F, 0xE4, 0xBA, 0x88,
     0xE7, 0xB4, 0x84, 0xE6, 0x9E, 0xA0, 0xE3, 0x81, 0xAF, 0xE3, 0x81, 0x93, 0xE3, 0x81, 0xAE,
     0xE3, 0x82, 0xB3, 0xE3, 0x83, 0xBC, 0xE3, 0x82, 0xB9, 0xE3, 0x81, 0xAE, 0xE5, 0x9C, 0xA8,
     0xE5, 0xBA, 0xAB, 0xE3, 0x81, 0xA7, 0xE3, 0x81, 0xAF, 0xE3, 0x81, 0x82, 0xE3, 0x82, 0x8A,
     0xE3, 0x81, 0xBE, 0xE3, 0x81, 0x9B, 0xE3, 0x82, 0x93, 0xE3, 0x80, 0x82, 0xE5, 0x8F, 0xB0,
     0xE5, 0xB8, 0xB3, 0xE3, 0x82, 0x92, 0xE8, 0xAA, 0xAD, 0xE3, 0x81, 0xBF, 0xE8, 0xBE, 0xBC,
     0xE3, 0x81, 0xBF, 0xE7, 0x9B, 0xB4, 0xE3, 0x81, 0x97, 0xE3, 0x81, 0xA6, 0xE3, 0x81, 0x8F,
     0xE3, 0x81, 0xA0, 0xE3, 0x81, 0x95, 0xE3, 0x81, 0x84]"

definition NO_PRODUCT_MESSAGE :: str where
  "NO_PRODUCT_MESSAGE = utf8 [0xE9, 0x81, 0xB8, 0xE3, 0x82, 0x93, 0xE3, 0x81, 0xA0, 0xE3, 0x83, 0x97, 0xE3, 0x83, 0xAC,
     0xE3, 0x83, 0xBC, 0xE5, 0x95, 0x86, 0xE5, 0x93, 0x81, 0xE3, 0x81, 0x8C, 0xE8, 0xA6, 0x8B,
     0xE3, 0x81, 0xA4, 0xE3, 0x81, 0x8B, 0xE3, 0x82, 0x8A, 0xE3, 0x81, 0xBE, 0xE3, 0x81, 0x9B,
     0xE3, 0x82, 0x93, 0xE3, 0x80, 0x82, 0xE5, 0x8F, 0xB0, 0xE5, 0xB8, 0xB3, 0xE3, 0x82, 0x92,
     0xE8, 0xAA, 0xAD, 0xE3, 0x81, 0xBF, 0xE8, 0xBE, 0xBC, 0xE3, 0x81, 0xBF, 0xE7, 0x9B, 0xB4,
     0xE3, 0x81, 0x97, 0xE3, 0x81, 0xA6, 0xE3, 0x81, 0x8B, 0xE3, 0x82, 0x89, 0xE3, 0x80, 0x81,
     0xE3, 0x82, 0x82, 0xE3, 0x81, 0x86, 0xE4, 0xB8, 0x80, 0xE5, 0xBA, 0xA6, 0xE3, 0x81, 0x8A,
     0xE8, 0xA9, 0xA6, 0xE3, 0x81, 0x97, 0xE3, 0x81, 0x8F, 0xE3, 0x81, 0xA0, 0xE3, 0x81, 0x95,
     0xE3, 0x81, 0x84]"

definition NO_VACANCY_TEXT :: str where
  "NO_VACANCY_TEXT = utf8 [0xE3, 0x81, 0x93, 0xE3, 0x81, 0xAE, 0xE6, 0x99, 0x82, 0xE9, 0x96, 0x93, 0xE5, 0xB8, 0xAF,
     0xE3, 0x81, 0xAF, 0xE7, 0xA9, 0xBA, 0xE3, 0x81, 0x8D, 0xE3, 0x81, 0x8C, 0xE3, 0x81, 0x82,
     0xE3, 0x82, 0x8A, 0xE3, 0x81, 0xBE, 0xE3, 0x81, 0x9B, 0xE3, 0x82, 0x93]"

section \<open>A tee time as an instant\<close>

record zone_times =
  lt_at :: "date \<Rightarrow> int \<Rightarrow> instant option"
  lt_time :: "instant \<Rightarrow> clock_time"

type_synonym local_times = "str \<Rightarrow> zone_times"

definition parse_tenant_tee_time ::
  "zones \<Rightarrow> local_times \<Rightarrow> date \<Rightarrow> str \<Rightarrow> str \<Rightarrow> instant result" where
  "parse_tenant_tee_time zone local_at d tee_time tz =
     (let bad = Inl (BadRequest ''tee time must look like HH:MM'') in
      case split_once (CHR '':'') tee_time of None \<Rightarrow> bad
      | Some (hour, minute) \<Rightarrow>
          if length hour \<noteq> 2 \<or> length minute \<noteq> 2 then bad
          else case (parse_u32 hour, parse_u32 minute) of
            (Some h, Some m) \<Rightarrow>
              if 23 < h \<or> 59 < m then bad
              else (case parse_tenant_timezone zone tz of Inl e \<Rightarrow> Inl e
                | Inr _ \<Rightarrow> (case lt_at (local_at tz) d (60 * h + m) of
                    None \<Rightarrow> Inl (Provider ''tee time does not exist in tenant timezone'')
                  | Some t \<Rightarrow> Inr t))
          | _ \<Rightarrow> bad)"

section \<open>The request\<close>

record create_input =
  ci_course :: course_id
  ci_resource :: resource_id
  ci_service :: "str option"
  ci_date :: date
  ci_tee_time :: str
  ci_duration :: int
  ci_quantity :: int
  ci_customer_name :: str
  ci_customer :: "customer_id option"
  ci_party :: party_details
  ci_notes :: "str option"

record new_reservation =
  nr_type :: str
  nr_service :: "str option"
  nr_resource :: "resource_id option"
  nr_starts_at :: instant
  nr_ends_at :: instant
  nr_timezone :: str
  nr_quantity :: int
  nr_customer_name :: str
  nr_customer :: "customer_id option"
  nr_course :: course_id
  nr_party :: party_details
  nr_notes :: "str option"
  nr_prepayment :: "str option"
  nr_seed_key :: "str option"

record created_reservation =
  cd_reservation :: reservation_id
  cd_warnings :: "str list"

section \<open>The checks\<close>

definition MAX_DURATION_MINUTES :: int where "MAX_DURATION_MINUTES = 24 * 60"

definition find_named_product :: "product list \<Rightarrow> str \<Rightarrow> product result" where
  "find_named_product products service =
     (case find (\<lambda>p. rp_service p = service) products of
        Some p \<Rightarrow> Inr p | None \<Rightarrow> Inl (BadRequest NO_PRODUCT_MESSAGE))"

definition product_for_service :: "product list result \<Rightarrow> str option \<Rightarrow> product option result" where
  "product_for_service products service =
     (case trimmed service of None \<Rightarrow> Inr None
      | Some sid \<Rightarrow> (case products of Inl e \<Rightarrow> Inl e
         | Inr ps \<Rightarrow> (case find_named_product ps sid of Inl e \<Rightarrow> Inl e | Inr p \<Rightarrow> Inr (Some p))))"

definition validate_product_course :: "product option \<Rightarrow> course_id \<Rightarrow> unit result" where
  "validate_product_course p c =
     (if (case p of None \<Rightarrow> False | Some p \<Rightarrow> \<not> is_sold_on p c)
      then Inl (BadRequest OTHER_COURSE_MESSAGE) else Inr ())"

definition refuse_closed :: "slot_override list result \<Rightarrow> create_input \<Rightarrow> unit result" where
  "refuse_closed marks i =
     (case marks of Inl e \<Rightarrow> Inl e
      | Inr ms \<Rightarrow> (case is_tee_time_closed ms (ci_tee_time i) of Inl e \<Rightarrow> Inl e
         | Inr shut \<Rightarrow> if shut then Inl (BadRequest SLOT_CLOSED_MESSAGE) else Inr ()))"

definition validate_course_resource :: "resource list \<Rightarrow> course_id \<Rightarrow> resource_id \<Rightarrow> unit result" where
  "validate_course_resource rs c rid =
     (case find (\<lambda>r. matches_reservation_resource r rid)
          (filter (\<lambda>r. rs_active r \<and> rs_kind r = CourseKind \<and> rs_course r = Some c) rs) of
        None \<Rightarrow> Inl (BadRequest MISMATCH_MESSAGE)
      | Some r \<Rightarrow>
          if unwrap_or (rs_reservation_resource r) (rs_id r) \<noteq> rid
          then Inl (BadRequest NOT_INVENTORY_MESSAGE) else Inr ())"

definition booked_at :: "reservation list \<Rightarrow> instant \<Rightarrow> course_id \<Rightarrow> resource_id \<Rightarrow> nat" where
  "booked_at bookings t c rid =
     length (filter (\<lambda>v. is_tee_sheet_candidate v \<and> rv_starts_at v = t
       \<and> (rv_course v = Some c \<or> rv_resource v = Some rid)) bookings)"

text \<open>\<open>sum\<close> and \<open>count() as i32\<close> wrap.\<close>

definition ensure_slot_available ::
  "time_slot list \<Rightarrow> reservation list \<Rightarrow> instant \<Rightarrow> course_id \<Rightarrow> resource_id \<Rightarrow> unit result" where
  "ensure_slot_available slots bookings t c rid =
     (let matching = filter (\<lambda>s. tl_starts_at s = t) slots in
      if \<not> list_ex tl_active matching then Inl (Conflict SLOT_FILLED_MESSAGE)
      else let capacity = wrap_i32 (sum_list (map tl_capacity matching));
               upstream = wrap_i32 (sum_list (map tl_available matching));
               booked = wrap_i32 (int (booked_at bookings t c rid));
               remaining = unwrap_or (reconcile_remaining (Some capacity) (Some upstream) booked) 0 in
        if remaining \<le> 0 then Inl (Conflict SLOT_FILLED_MESSAGE) else Inr ())"

text \<open>The policy's reservation type, or the tenant's first one.\<close>

definition reservation_type_id :: "str option result \<Rightarrow> str list result \<Rightarrow> str result" where
  "reservation_type_id policy types =
     (case policy of Inl e \<Rightarrow> Inl e
      | Inr p \<Rightarrow>
          (case trimmed p of Some t \<Rightarrow> Inr t
           | None \<Rightarrow> (case types of Inl e \<Rightarrow> Inl e
              | Inr [] \<Rightarrow> Inl (BadRequest NOT_READY_MESSAGE)
              | Inr (t # _) \<Rightarrow> Inr t)))"

fun contains_text :: "str \<Rightarrow> str \<Rightarrow> bool" where
  "contains_text part [] \<longleftrightarrow> part = []"
| "contains_text part (c # s) \<longleftrightarrow> take (length part) (c # s) = part \<or> contains_text part s"

fun normalize_inventory_conflict :: "course_error \<Rightarrow> course_error" where
  "normalize_inventory_conflict (UpstreamClient status message) =
     (if status = 409 \<or> (status = 400 \<and> contains_text NO_VACANCY_TEXT message)
      then Conflict SLOT_FILLED_MESSAGE else UpstreamClient status message)"
| "normalize_inventory_conflict e = e"

section \<open>Advice on the membership\<close>

fun breach_warning :: "play_breach option \<Rightarrow> str list" where
  "breach_warning (Some DayBreach) = [''member_play_window_day'']"
| "breach_warning (Some TimeBreach) = [''member_play_window_time'']"
| "breach_warning None = []"

definition member_play_window_warnings ::
  "calendar \<Rightarrow> zones \<Rightarrow> local_times \<Rightarrow> customer_id option \<Rightarrow> play_window list result \<Rightarrow> plan_id option result
    \<Rightarrow> instant \<Rightarrow> str \<Rightarrow> str list" where
  "member_play_window_warnings cal zone local_at customer windows plan t tz =
     (case customer of None \<Rightarrow> [] | Some _ \<Rightarrow>
     (case windows of Inl _ \<Rightarrow> [] | Inr ws \<Rightarrow>
      if ws = [] then []
      else case plan of Inr (Some p) \<Rightarrow>
        (case zone tz of None \<Rightarrow> []
         | Some clk \<Rightarrow> breach_warning (breach_for ws (Some p) (cal_weekday cal (clk_local_date clk t))
             (lt_time (local_at tz) t)))
      | _ \<Rightarrow> []))"

section \<open>Taking a booking\<close>

record create_reads =
  kr_products :: "product list result"
  kr_marks :: "slot_override list result"
  kr_timezone :: "str result"
  kr_resources :: "resource list result"
  kr_slots :: "time_slot list result"
  kr_bookings :: "reservation list result"
  kr_policy :: "str option result"
  kr_types :: "str list result"

definition tee_time_request :: "create_input \<Rightarrow> str \<Rightarrow> instant \<Rightarrow> str \<Rightarrow> new_reservation" where
  "tee_time_request i tz t type_id =
     \<lparr>nr_type = type_id, nr_service = ci_service i, nr_resource = Some (ci_resource i), nr_starts_at = t,
      nr_ends_at = t + minutes (ci_duration i), nr_timezone = tz, nr_quantity = ci_quantity i,
      nr_customer_name = trim (ci_customer_name i), nr_customer = ci_customer i, nr_course = ci_course i,
      nr_party = ci_party i, nr_notes = ci_notes i, nr_prepayment = Some ''none'', nr_seed_key = None\<rparr>"

definition booking_request ::
  "calendar \<Rightarrow> zones \<Rightarrow> local_times \<Rightarrow> unit result \<Rightarrow> create_input \<Rightarrow> create_reads \<Rightarrow> new_reservation result" where
  "booking_request cal zone local_at permitted i rd =
     (case permitted of Inl e \<Rightarrow> Inl e | Inr _ \<Rightarrow>
      if trim (ci_customer_name i) = [] then Inl (BadRequest ''customer name is required'')
      else if ci_quantity i \<le> 0 then Inl (BadRequest ''quantity must be positive'')
      else if ci_duration i \<le> 0 \<or> MAX_DURATION_MINUTES < ci_duration i
      then Inl (BadRequest ''duration must be between 1 minute and 24 hours'')
      else case product_for_service (kr_products rd) (ci_service i) of Inl e \<Rightarrow> Inl e | Inr product \<Rightarrow>
     (case validate_product_course product (ci_course i) of Inl e \<Rightarrow> Inl e | Inr _ \<Rightarrow>
     (case refuse_closed (kr_marks rd) i of Inl e \<Rightarrow> Inl e | Inr _ \<Rightarrow>
     (case kr_timezone rd of Inl e \<Rightarrow> Inl e | Inr tz \<Rightarrow>
     (case parse_tenant_tee_time zone local_at (ci_date i) (ci_tee_time i) tz of Inl e \<Rightarrow> Inl e | Inr t \<Rightarrow>
     (case kr_resources rd of Inl e \<Rightarrow> Inl e | Inr rs \<Rightarrow>
     (case validate_course_resource rs (ci_course i) (ci_resource i) of Inl e \<Rightarrow> Inl e | Inr _ \<Rightarrow>
     (case tenant_day_bounds cal zone (ci_date i) (ci_date i) tz of Inl e \<Rightarrow> Inl e | Inr _ \<Rightarrow>
     (case kr_slots rd of Inl e \<Rightarrow> Inl e | Inr slots \<Rightarrow>
     (case kr_bookings rd of Inl e \<Rightarrow> Inl e | Inr bookings \<Rightarrow>
     (case ensure_slot_available slots bookings t (ci_course i) (ci_resource i) of Inl e \<Rightarrow> Inl e | Inr _ \<Rightarrow>
     (case reservation_type_id (kr_policy rd) (kr_types rd) of Inl e \<Rightarrow> Inl e
      | Inr type_id \<Rightarrow> Inr (tee_time_request i tz t type_id)))))))))))))"

text \<open>The result, and the request that was sent if the checks passed.\<close>

definition create_reservation ::
  "calendar \<Rightarrow> zones \<Rightarrow> local_times \<Rightarrow> unit result \<Rightarrow> create_input \<Rightarrow> create_reads \<Rightarrow> reservation_id result
    \<Rightarrow> play_window list result \<Rightarrow> plan_id option result
    \<Rightarrow> created_reservation result \<times> new_reservation option" where
  "create_reservation cal zone local_at permitted i rd created windows plan =
     (case booking_request cal zone local_at permitted i rd of Inl e \<Rightarrow> (Inl e, None)
      | Inr n \<Rightarrow>
         (case created of
            Inl e \<Rightarrow> (Inl (normalize_inventory_conflict e), Some n)
          | Inr rid \<Rightarrow> (Inr \<lparr>cd_reservation = rid, cd_warnings = member_play_window_warnings cal zone local_at
               (nr_customer n) windows plan (nr_starts_at n) (nr_timezone n)\<rparr>, Some n)))"

section \<open>Correcting a booking\<close>

record booking_input =
  bk_customer_name :: str
  bk_customer :: "customer_id option"
  bk_quantity :: int

definition seats_for :: "product list \<Rightarrow> str \<Rightarrow> int option" where
  "seats_for products service =
     (case find (\<lambda>p. rp_service p = service) products of None \<Rightarrow> None | Some p \<Rightarrow> rp_max_players p)"

definition update_reservation_booking ::
  "unit result \<Rightarrow> reservation_id \<Rightarrow> booking_input \<Rightarrow> reservation result \<Rightarrow> product list result
    \<Rightarrow> booking_input result" where
  "update_reservation_booking permitted rid i stored products =
     (case permitted of Inl e \<Rightarrow> Inl e | Inr _ \<Rightarrow>
      if trim rid = [] then Inl (BadRequest ''reservation id is required'')
      else if trim (bk_customer_name i) = [] then Inl (BadRequest ''customer name is required'')
      else if bk_quantity i \<le> 0 then Inl (BadRequest ''quantity must be positive'')
      else case stored of Inl e \<Rightarrow> Inl e | Inr v \<Rightarrow>
        let request = i\<lparr>bk_customer_name := trim (bk_customer_name i)\<rparr> in
        (case rv_service v of None \<Rightarrow> Inr request
         | Some sid \<Rightarrow>
            (case products of Inl e \<Rightarrow> Inl e
             | Inr ps \<Rightarrow>
                 if (case seats_for ps sid of None \<Rightarrow> False | Some m \<Rightarrow> m < bk_quantity i)
                 then Inl (BadRequest ''the plan seats fewer players than this booking has'')
                 else Inr request)))"

definition change_reservation_plan ::
  "unit result \<Rightarrow> reservation_id \<Rightarrow> service_id \<Rightarrow> reservation result \<Rightarrow> product list result
    \<Rightarrow> (service_id \<times> instant) result" where
  "change_reservation_plan permitted rid sid stored products =
     (case permitted of Inl e \<Rightarrow> Inl e | Inr _ \<Rightarrow>
      if trim rid = [] then Inl (BadRequest ''reservation id is required'')
      else if trim sid = [] then Inl (BadRequest ''plan is required'')
      else case stored of Inl e \<Rightarrow> Inl e | Inr v \<Rightarrow>
     (case products of Inl e \<Rightarrow> Inl e | Inr ps \<Rightarrow>
     (case find (\<lambda>p. rp_service p = sid) ps of
        None \<Rightarrow> Inl (NotFound ''plan not found'')
      | Some p \<Rightarrow>
          if (case rv_course v of None \<Rightarrow> False | Some c \<Rightarrow> \<not> is_sold_on p c)
          then Inl (BadRequest ''the plan is not sold on this booking's course'')
          else if (case rp_max_players p of None \<Rightarrow> False | Some m \<Rightarrow> m < rv_quantity v)
          then Inl (BadRequest ''the plan seats fewer players than this booking has'')
          else Inr (sid, rv_starts_at v + minutes (rp_duration p)))))"

definition update_reservation_party ::
  "unit result \<Rightarrow> reservation_id \<Rightarrow> party_details \<Rightarrow> party_details result" where
  "update_reservation_party permitted rid party =
     (case permitted of Inl e \<Rightarrow> Inl e | Inr _ \<Rightarrow>
      if trim rid = [] then Inl (BadRequest ''reservation id is required'') else Inr party)"

end
