(* ===== verification/BookingsCorrect.thy ===== *)
theory BookingsCorrect
  imports Bookings CourseScheduleCorrect
begin

text \<open>
  When a booking is written: exactly which ones the checks let through, that a tee time the desk
  has closed is never sold, and that one desk booking after the other never sells a tee time past
  its capacity.
\<close>

section \<open>The checks one by one\<close>

definition plan_allows :: "product list \<Rightarrow> str option \<Rightarrow> course_id \<Rightarrow> bool" where
  "plan_allows ps service c \<longleftrightarrow>
     (case trimmed service of None \<Rightarrow> True
      | Some sid \<Rightarrow> (case find (\<lambda>p. rp_service p = sid) ps of None \<Rightarrow> False | Some p \<Rightarrow> is_sold_on p c))"

definition stands_open :: "slot_override list \<Rightarrow> str \<Rightarrow> bool" where
  "stands_open ms tee_time \<longleftrightarrow> is_tee_time_closed ms tee_time = Inr False"

definition own_inventory :: "resource list \<Rightarrow> course_id \<Rightarrow> resource_id \<Rightarrow> bool" where
  "own_inventory rs c rid \<longleftrightarrow>
     (case find (\<lambda>r. matches_reservation_resource r rid)
        (filter (\<lambda>r. rs_active r \<and> rs_kind r = CourseKind \<and> rs_course r = Some c) rs) of
        None \<Rightarrow> False | Some r \<Rightarrow> unwrap_or (rs_reservation_resource r) (rs_id r) = rid)"

definition capacity_at :: "time_slot list \<Rightarrow> instant \<Rightarrow> int" where
  "capacity_at slots t = sum_list (map tl_capacity (filter (\<lambda>s. tl_starts_at s = t) slots))"

definition available_at :: "time_slot list \<Rightarrow> instant \<Rightarrow> int" where
  "available_at slots t = sum_list (map tl_available (filter (\<lambda>s. tl_starts_at s = t) slots))"

definition has_room :: "time_slot list \<Rightarrow> reservation list \<Rightarrow> instant \<Rightarrow> course_id \<Rightarrow> resource_id \<Rightarrow> bool" where
  "has_room slots bookings t c rid \<longleftrightarrow> (\<exists>s \<in> set slots. tl_starts_at s = t \<and> tl_active s)
     \<and> int (booked_at bookings t c rid) < capacity_at slots t \<and> 0 < available_at slots t"

text \<open>The sums of a minute stay in the machine word.\<close>

definition counts_fit :: "time_slot list \<Rightarrow> reservation list \<Rightarrow> instant \<Rightarrow> course_id \<Rightarrow> resource_id \<Rightarrow> bool" where
  "counts_fit slots bookings t c rid \<longleftrightarrow> 0 \<le> capacity_at slots t \<and> in_i32 (capacity_at slots t)
     \<and> in_i32 (available_at slots t) \<and> in_i32 (int (booked_at bookings t c rid))"

lemma ensure_slot_available_iff:
  assumes "counts_fit slots bookings t c rid"
  shows "ensure_slot_available slots bookings t c rid = Inr () \<longleftrightarrow> has_room slots bookings t c rid"
    and "ensure_slot_available slots bookings t c rid = Inr () \<or>
      ensure_slot_available slots bookings t c rid = Inl (Conflict SLOT_FILLED_MESSAGE)"
proof -
  let ?c = "capacity_at slots t" and ?a = "available_at slots t" and ?b = "int (booked_at bookings t c rid)"
  have fits: "wrap_i32 ?c = ?c" "wrap_i32 ?a = ?a" "wrap_i32 ?b = ?b" "wrap_i32 (?c - ?b) = ?c - ?b"
    using assms by (auto simp: counts_fit_def in_i32_def i32_min_def i32_max_def intro!: wrap_i32_id)
  have active: "list_ex tl_active (filter (\<lambda>s. tl_starts_at s = t) slots) \<longleftrightarrow>
      (\<exists>s \<in> set slots. tl_starts_at s = t \<and> tl_active s)"
    by (auto simp: list_ex_iff)
  have "unwrap_or (reconcile_remaining (Some ?c) (Some ?a) ?b) 0 = min ?a (max (?c - ?b) 0)"
    by (simp add: reconcile_remaining_def fits unwrap_or_def)
  then show "ensure_slot_available slots bookings t c rid = Inr () \<longleftrightarrow> has_room slots bookings t c rid"
    using fits unfolding ensure_slot_available_def Let_def active capacity_at_def [symmetric]
      available_at_def [symmetric] has_room_def by auto
  show "ensure_slot_available slots bookings t c rid = Inr () \<or>
      ensure_slot_available slots bookings t c rid = Inl (Conflict SLOT_FILLED_MESSAGE)"
    by (simp add: ensure_slot_available_def Let_def)
qed

lemma plan_check_iff:
  "(\<exists>product. product_for_service (Inr ps) service = Inr product \<and> validate_product_course product c = Inr ())
    \<longleftrightarrow> plan_allows ps service c"
  by (auto simp: product_for_service_def find_named_product_def validate_product_course_def plan_allows_def
      split: option.splits if_splits)

lemma refuse_closed_iff: "refuse_closed (Inr ms) i = Inr () \<longleftrightarrow> stands_open ms (ci_tee_time i)"
  by (auto simp: refuse_closed_def stands_open_def split: sum.splits if_splits)

lemma validate_course_resource_iff: "validate_course_resource rs c rid = Inr () \<longleftrightarrow> own_inventory rs c rid"
  by (auto simp: validate_course_resource_def own_inventory_def split: option.splits)

lemma booking_requestE:
  assumes "booking_request cal zone local_at permitted i rd = Inr n"
  obtains tz t rs slots bookings type_id ms where
    "kr_timezone rd = Inr tz" "kr_marks rd = Inr ms" "kr_resources rd = Inr rs" "kr_slots rd = Inr slots"
    "kr_bookings rd = Inr bookings"
    "parse_tenant_tee_time zone local_at (ci_date i) (ci_tee_time i) tz = Inr t"
    "refuse_closed (Inr ms) i = Inr ()" "validate_course_resource rs (ci_course i) (ci_resource i) = Inr ()"
    "ensure_slot_available slots bookings t (ci_course i) (ci_resource i) = Inr ()"
    "n = tee_time_request i tz t type_id"
  using assms by (auto simp: booking_request_def refuse_closed_def split: sum.splits if_splits)

lemma upstream_refusal:
  "normalize_inventory_conflict e =
     (if \<exists>m. e = UpstreamClient 409 m \<or> e = UpstreamClient 400 m \<and> contains_text NO_VACANCY_TEXT m
      then Conflict SLOT_FILLED_MESSAGE else e)"
  by (cases e rule: normalize_inventory_conflict.cases) auto

text \<open>
  C16. The desk's booking is sent exactly when it should be: with every read answered, a request goes upstream if
  and only if it names a customer, players and a sane duration, its plan exists and is sold on the course, the
  desk has not closed the tee time, the resource is the course's own inventory, the minute has a live row, fewer
  groups stand on it than it holds, upstream still has room and the club has a reservation type. The request then
  says what the desk typed: the trimmed name, the course, the plan, the resource, the players, the party and the
  notes, from the tee time for the duration, with nothing to pay before. What is answered is then upstream's word:
  its new booking, or its refusal, told as a filled slot where it says so; with nothing sent it is a refusal.
\<close>

theorem booking_sent_exactly:
  assumes "rd = \<lparr>kr_products = Inr ps, kr_marks = Inr ms, kr_timezone = Inr tz, kr_resources = Inr rs,
      kr_slots = Inr slots, kr_bookings = Inr bookings, kr_policy = Inr policy, kr_types = Inr types\<rparr>"
    and "tenant_day_bounds cal zone (ci_date i) (ci_date i) tz = Inr day"
    and "parse_tenant_tee_time zone local_at (ci_date i) (ci_tee_time i) tz = Inr t"
    and "counts_fit slots bookings t (ci_course i) (ci_resource i)"
  shows "snd (create_reservation cal zone local_at (Inr ()) i rd created windows plan) =
    (if trim (ci_customer_name i) \<noteq> [] \<and> 0 < ci_quantity i \<and> 0 < ci_duration i
        \<and> ci_duration i \<le> 24 * 60 \<and> plan_allows ps (ci_service i) (ci_course i)
        \<and> stands_open ms (ci_tee_time i) \<and> own_inventory rs (ci_course i) (ci_resource i)
        \<and> has_room slots bookings t (ci_course i) (ci_resource i)
        \<and> (trimmed policy \<noteq> None \<or> types \<noteq> [])
     then Some \<lparr>nr_type = (case trimmed policy of Some type_id \<Rightarrow> type_id | None \<Rightarrow> hd types),
       nr_service = ci_service i, nr_resource = Some (ci_resource i),
       nr_starts_at = t, nr_ends_at = t + ci_duration i * 60000000000, nr_timezone = tz,
       nr_quantity = ci_quantity i, nr_customer_name = trim (ci_customer_name i), nr_customer = ci_customer i,
       nr_course = ci_course i, nr_party = ci_party i, nr_notes = ci_notes i,
       nr_prepayment = Some ''none'', nr_seed_key = None\<rparr>
     else None)
    \<and> (case (snd (create_reservation cal zone local_at (Inr ()) i rd created windows plan), created) of
        (None, _) \<Rightarrow> \<exists>e. fst (create_reservation cal zone local_at (Inr ()) i rd created windows plan) = Inl e
      | (Some _, Inr rid) \<Rightarrow> \<exists>warnings. fst (create_reservation cal zone local_at (Inr ()) i rd created windows plan)
          = Inr \<lparr>cd_reservation = rid, cd_warnings = warnings\<rparr>
      | (Some _, Inl e) \<Rightarrow> fst (create_reservation cal zone local_at (Inr ()) i rd created windows plan)
          = Inl (if \<exists>m. e = UpstreamClient 409 m \<or> e = UpstreamClient 400 m \<and> contains_text NO_VACANCY_TEXT m
                 then Conflict SLOT_FILLED_MESSAGE else e))"
proof (rule conjI, goal_cases)
  case 1
  let ?ok = "reservation_type_id (Inr policy) (Inr types)"
  have type_id: "?ok = (if trimmed policy \<noteq> None \<or> types \<noteq> []
      then Inr (case trimmed policy of Some type_id \<Rightarrow> type_id | None \<Rightarrow> hd types) else Inl (BadRequest NOT_READY_MESSAGE))"
    by (auto simp: reservation_type_id_def split: option.splits list.splits)
  have sent: "snd (create_reservation cal zone local_at (Inr ()) i rd created windows plan) =
      (case booking_request cal zone local_at (Inr ()) i rd of Inl e \<Rightarrow> None | Inr n \<Rightarrow> Some n)"
    by (auto simp: create_reservation_def split: sum.splits)
  have day: "24 * 60 = MAX_DURATION_MINUTES" by (simp add: MAX_DURATION_MINUTES_def)
  note request = tee_time_request_def [of i tz t "case trimmed policy of Some type_id \<Rightarrow> type_id | None \<Rightarrow> hd types",
      unfolded minutes_def, symmetric]
  note iffs = plan_check_iff [of ps "ci_service i" "ci_course i", symmetric] refuse_closed_iff [of ms i, symmetric]
    validate_course_resource_iff [of rs "ci_course i" "ci_resource i", symmetric]
    ensure_slot_available_iff(1) [OF assms(4), symmetric]
  show ?case
    unfolding sent iffs request day using type_id
    by (auto simp: booking_request_def assms(1-3) not_less split: sum.splits if_splits)
next
  case 2
  show ?case
    unfolding create_reservation_def upstream_refusal
    by (cases "booking_request cal zone local_at (Inr ()) i rd"; cases created) simp_all
qed

section \<open>A closed tee time\<close>

lemma same_clock_closed:
  assumes "strict_clock ''tee times must look like HH:MM'' a = strict_clock ''tee times must look like HH:MM'' b"
  shows "is_tee_time_closed ms a = is_tee_time_closed ms b"
  using assms by (simp add: is_tee_time_closed_def)

text \<open>
  C14. A tee time the desk has closed is never sold: once the band was closed, on a table of marks
  with any history, no booking of that course and day for any of its tee times, in whatever form
  the time is written, is sent upstream, whatever the other reads answer.
\<close>

theorem closed_tee_time_never_sold:
  assumes "clocks_apart ck" "marked_by ck rows"
    and "upsert_slot_overrides ck br tenant (Inr ()) u rows = (Inr ms, rows')"
    and "uo_kind u = SlotClosed" "t \<in> set (uo_tee_times u)"
    and "ci_course i = uo_course u" "ci_date i = uo_date u"
    and "strict_clock ''tee times must look like HH:MM'' (ci_tee_time i) = strict_clock ''tee times must look like HH:MM'' t"
    and "kr_marks rd = list_marks ck tenant \<lparr>oq_date = ci_date i, oq_courses = [ci_course i]\<rparr> rows'"
  shows "snd (create_reservation cal zone local_at permitted i rd created windows plan) = None"
proof -
  obtain marks where "list_slot_overrides ck tenant (Inr ()) \<lparr>oq_date = uo_date u, oq_courses = [uo_course u]\<rparr> rows'
      = Inr marks" "is_tee_time_closed marks t = Inr True"
    using closed_band_listed [OF assms(1-5) refl] by blast
  then have "kr_marks rd = Inr marks" "is_tee_time_closed marks (ci_tee_time i) = Inr True"
    using assms(6,7,9) same_clock_closed [OF assms(8)]
    by (auto simp: list_slot_overrides_def split: sum.splits)
  then have "refuse_closed (kr_marks rd) i = Inl (BadRequest SLOT_CLOSED_MESSAGE)"
    by (simp add: refuse_closed_def)
  then show ?thesis
    by (auto simp: create_reservation_def booking_request_def split: sum.splits if_splits)
qed

section \<open>One booking after the other\<close>

text \<open>
  A day's inventory \<open>rows_of\<close> and the bookings upstream keeps. Upstream lists what was written:
  \<open>listed\<close> is the booking a request becomes, on the request's own start, course and resource.
\<close>

definition lists_back :: "(new_reservation \<Rightarrow> reservation_id \<Rightarrow> reservation) \<Rightarrow> bool" where
  "lists_back listed \<longleftrightarrow> (\<forall>n rid. rv_starts_at (listed n rid) = nr_starts_at n
     \<and> rv_course (listed n rid) = Some (nr_course n) \<and> rv_resource (listed n rid) = nr_resource n)"

inductive sale_step :: "calendar \<Rightarrow> zones \<Rightarrow> local_times \<Rightarrow> resource list \<Rightarrow> (resource_id \<Rightarrow> time_slot list)
    \<Rightarrow> (new_reservation \<Rightarrow> reservation_id \<Rightarrow> reservation) \<Rightarrow> reservation list \<Rightarrow> reservation list \<Rightarrow> bool"
  for cal zone local_at rs rows_of listed where
  sold: "\<lbrakk>create_reservation cal zone local_at permitted i rd (Inr rid) windows plan = (answer, Some n);
      kr_resources rd = Inr rs; kr_slots rd = Inr (rows_of (ci_resource i)); kr_bookings rd = Inr store\<rbrakk>
    \<Longrightarrow> sale_step cal zone local_at rs rows_of listed store (store @ [listed n rid])"
| called_off: "sale_step cal zone local_at rs rows_of listed store (filter keep store)"

definition within_capacity :: "(course_id \<times> resource_id) list \<Rightarrow> (resource_id \<Rightarrow> time_slot list)
    \<Rightarrow> reservation list \<Rightarrow> bool" where
  "within_capacity links rows_of store \<longleftrightarrow> (\<forall>(c, rid) \<in> set links. \<forall>t.
     int (booked_at store t c rid) \<le> capacity_at (rows_of rid) t)"

lemma own_inventory_linked:
  assumes "own_inventory rs c rid"
  shows "(c, rid) \<in> set (course_resources rs)"
proof -
  let ?rs = "filter (\<lambda>r. rs_active r \<and> rs_kind r = CourseKind \<and> rs_course r = Some c) rs"
  obtain r where r: "find (\<lambda>r. matches_reservation_resource r rid) ?rs = Some r"
      "unwrap_or (rs_reservation_resource r) (rs_id r) = rid"
    using assms by (auto simp: own_inventory_def split: option.splits)
  then have "r \<in> set ?rs" by (metis find_Some_iff nth_mem)
  with r(2) show ?thesis
    by (auto simp: course_resources_def List.map_filter_def live_course_resource_def booked_against_def
        intro!: image_eqI [of _ _ r])
qed

lemma booked_at_append: "booked_at (store @ [v]) t c rid = booked_at store t c rid
    + (if is_tee_sheet_candidate v \<and> rv_starts_at v = t \<and> (rv_course v = Some c \<or> rv_resource v = Some rid) then 1 else 0)"
  by (simp add: booked_at_def)

lemma booked_at_filter: "booked_at (filter keep store) t c rid \<le> booked_at store t c rid"
  unfolding booked_at_def by (induction store) auto

definition rows_fit :: "(resource_id \<Rightarrow> time_slot list) \<Rightarrow> bool" where
  "rows_fit rows_of \<longleftrightarrow> (\<forall>rid t. 0 \<le> capacity_at (rows_of rid) t \<and> in_i32 (capacity_at (rows_of rid) t)
     \<and> in_i32 (available_at (rows_of rid) t))"

lemma same_snd: "distinct (map snd xs) \<Longrightarrow> (a, z) \<in> set xs \<Longrightarrow> (b, z) \<in> set xs \<Longrightarrow> a = b"
  by (induction xs) (auto simp: rev_image_eqI)

lemma sale_step_within:
  assumes "sale_step cal zone local_at rs rows_of listed store store'"
    and "within_capacity (course_resources rs) rows_of store" "lists_back listed" "rows_fit rows_of"
    and "distinct (map fst (course_resources rs))" "distinct (map snd (course_resources rs))"
  shows "within_capacity (course_resources rs) rows_of store'"
  using assms(1)
proof (cases rule: sale_step.cases)
  case (called_off keep)
  then show ?thesis
    using assms(2) booked_at_filter [of keep store] unfolding within_capacity_def
    by (fastforce intro: order_trans [rotated] simp: of_nat_mono)
next
  case (sold permitted i rd rid windows plan answer n)
  have "booking_request cal zone local_at permitted i rd = Inr n"
    using sold(2) by (auto simp: create_reservation_def split: sum.splits)
  then obtain tz t type_id where t: "validate_course_resource rs (ci_course i) (ci_resource i) = Inr ()"
      "ensure_slot_available (rows_of (ci_resource i)) store t (ci_course i) (ci_resource i) = Inr ()"
      "n = tee_time_request i tz t type_id"
    using sold(3-5) by (auto elim!: booking_requestE)
  let ?c = "ci_course i" and ?r = "ci_resource i"
  have link: "(?c, ?r) \<in> set (course_resources rs)"
    using t(1) own_inventory_linked validate_course_resource_iff by blast
  have "int (booked_at store t ?c ?r) \<le> capacity_at (rows_of ?r) t"
    using assms(2) link unfolding within_capacity_def by blast
  moreover have "0 \<le> capacity_at (rows_of ?r) t" "in_i32 (capacity_at (rows_of ?r) t)"
      "in_i32 (available_at (rows_of ?r) t)"
    using assms(4) unfolding rows_fit_def by blast+
  ultimately have "counts_fit (rows_of ?r) store t ?c ?r"
    by (simp add: counts_fit_def in_i32_def i32_min_def)
  from ensure_slot_available_iff(1) [OF this] t(2)
  have room: "int (booked_at store t ?c ?r) < capacity_at (rows_of ?r) t" by (simp add: has_room_def)
  have v: "rv_starts_at (listed n rid) = t" "rv_course (listed n rid) = Some ?c" "rv_resource (listed n rid) = Some ?r"
    using assms(3) t(3) by (simp_all add: lists_back_def tee_time_request_def)
  have "int (booked_at (store @ [listed n rid]) t' c r) \<le> capacity_at (rows_of r) t'"
    if l: "(c, r) \<in> set (course_resources rs)" for c r t'
  proof (cases "t' = t \<and> (c = ?c \<or> r = ?r)")
    case True
    have "c = ?c \<and> r = ?r"
      using True l link assms(5,6) by (auto simp: eq_key_imp_eq_value same_snd)
    then show ?thesis using True room by (simp add: booked_at_append)
  next
    case False
    then have "booked_at (store @ [listed n rid]) t' c r = booked_at store t' c r"
      using v by (auto simp: booked_at_append)
    then show ?thesis using assms(2) l unfolding within_capacity_def by auto
  qed
  then show ?thesis unfolding sold(1) within_capacity_def by auto
qed

text \<open>
  C15. Desk bookings taken one after the other never sell a tee time past its capacity: as long as
  each course books against one resource of its own and upstream lists what was written, no
  history of bookings and call-offs from an empty day puts more groups on a minute than its rows
  hold, whatever upstream says is still available.
\<close>

theorem bookings_stay_within_capacity:
  assumes "(sale_step cal zone local_at rs rows_of listed)\<^sup>*\<^sup>* [] store"
    and "lists_back listed" "rows_fit rows_of"
    and "distinct (map fst (course_resources rs))" "distinct (map snd (course_resources rs))"
    and "(c, rid) \<in> set (course_resources rs)"
  shows "int (booked_at store t c rid) \<le> capacity_at (rows_of rid) t"
proof -
  have "within_capacity (course_resources rs) rows_of store"
    using assms(1)
  proof (induction rule: rtranclp_induct)
    case base
    show ?case using assms(3) by (auto simp: within_capacity_def booked_at_def rows_fit_def)
  next
    case (step y z)
    show ?case by (rule sale_step_within [OF step(2,3) assms(2-5)])
  qed
  with assms(6) show ?thesis unfolding within_capacity_def by blast
qed

section \<open>A morning at the desk\<close>

definition plain_times :: local_times where
  "plain_times = (\<lambda>_. \<lparr>lt_at = (\<lambda>d m. Some (d * minutes 1440 + minutes m)), lt_time = (\<lambda>t. t mod minutes 1440)\<rparr>)"

definition east_row :: time_slot where
  "east_row = \<lparr>tl_id = ''s1'', tl_starts_at = 100 * minutes 1440 + minutes 434,
     tl_ends_at = 100 * minutes 1440 + minutes 442, tl_capacity = 1, tl_reserved = 0, tl_held = 0,
     tl_available = 1, tl_active = True\<rparr>"

definition phone_booking :: create_input where
  "phone_booking = \<lparr>ci_course = ''east'', ci_resource = ''r1'', ci_service = Some ''p4'', ci_date = 100,
     ci_tee_time = ''07:14'', ci_duration = 240, ci_quantity = 5, ci_customer_name = '' Honda '', ci_customer = None,
     ci_party = no_party, ci_notes = None\<rparr>"

definition four_ball :: product where
  "four_ball = \<lparr>rp_id = ''1'', rp_tenant = None, rp_service = ''p4'', rp_name = None, rp_play = SelfPlay,
     rp_holes = 18, rp_duration = 240, rp_courses = [''east''], rp_scope_declared = True, rp_max_players = Some 4\<rparr>"

definition morning_reads :: create_reads where
  "morning_reads = \<lparr>kr_products = Inr [four_ball], kr_marks = Inr [], kr_timezone = Inr ''UTC'',
     kr_resources = Inr east_links, kr_slots = Inr [east_row], kr_bookings = Inr [], kr_policy = Inr None,
     kr_types = Inr [''t1'']\<rparr>"

definition morning_request :: new_reservation where
  "morning_request = tee_time_request phone_booking ''UTC'' (100 * minutes 1440 + minutes 434) ''t1''"

lemma morning_reading:
  "tenant_day_bounds utc_calendar one_zone (ci_date phone_booking) (ci_date phone_booking) ''UTC''
    = Inr (100 * minutes 1440, 101 * minutes 1440)"
  "parse_tenant_tee_time one_zone plain_times (ci_date phone_booking) (ci_tee_time phone_booking) ''UTC''
    = Inr (100 * minutes 1440 + minutes 434)"
  by code_simp+

lemma morning_fits: "counts_fit [east_row] [] (100 * minutes 1440 + minutes 434) c rid"
  by (simp add: counts_fit_def capacity_at_def available_at_def east_row_def booked_at_def in_i32_def i32_min_def
      i32_max_def)

text \<open>Taken, and answered.\<close>

lemma morning_sold:
  "create_reservation utc_calendar one_zone plain_times (Inr ()) phone_booking morning_reads (Inr ''b1'') (Inr []) (Inr None)
    = (Inr \<lparr>cd_reservation = ''b1'', cd_warnings = []\<rparr>, Some morning_request)"
  by code_simp

theorem booking_sent_exactly_witness:
  "\<exists>n. snd (create_reservation utc_calendar one_zone plain_times (Inr ()) phone_booking morning_reads
        (Inl (UpstreamClient 409 ''taken'')) (Inr []) (Inr None)) = Some n
     \<and> nr_customer_name n = ''Honda'' \<and> nr_ends_at n = nr_starts_at n + 240 * 60000000000
     \<and> fst (create_reservation utc_calendar one_zone plain_times (Inr ()) phone_booking morning_reads
        (Inl (UpstreamClient 409 ''taken'')) (Inr []) (Inr None)) = Inl (Conflict SLOT_FILLED_MESSAGE)"
proof -
  let ?t = "100 * minutes 1440 + minutes 434"
  have checks: "trim (ci_customer_name phone_booking) = ''Honda''" "plan_allows [four_ball] (ci_service phone_booking) (ci_course phone_booking)"
      "stands_open [] (ci_tee_time phone_booking)" "own_inventory east_links (ci_course phone_booking) (ci_resource phone_booking)"
    by code_simp+
  have room: "has_room [east_row] [] ?t (ci_course phone_booking) (ci_resource phone_booking)"
    by (simp add: has_room_def east_row_def capacity_at_def available_at_def booked_at_def)
  have input: "0 < ci_quantity phone_booking" "ci_duration phone_booking = 240"
    by (simp_all add: phone_booking_def)
  have "trimmed None = None" by (simp add: trimmed_def)
  then show ?thesis
    using booking_sent_exactly [OF morning_reads_def morning_reading morning_fits, of "Inl (UpstreamClient 409 ''taken'')"
        "Inr []" "Inr None", THEN conjunct1]
      booking_sent_exactly [OF morning_reads_def morning_reading morning_fits, of "Inl (UpstreamClient 409 ''taken'')"
        "Inr []" "Inr None", THEN conjunct2]
    by (simp add: checks room input)
qed

theorem closed_tee_time_never_sold_witness:
  "snd (create_reservation utc_calendar one_zone plain_times (Inr ()) phone_booking
     (morning_reads\<lparr>kr_marks := list_marks letters ''t1'' \<lparr>oq_date = 100, oq_courses = [''east'']\<rparr> morning_rows\<rparr>)
     (Inr ''b1'') (Inr []) (Inr None)) = None"
proof -
  have "strict_clock ''tee times must look like HH:MM'' (ci_tee_time phone_booking) =
      strict_clock ''tee times must look like HH:MM'' ''07:14:00''" by code_simp
  from closed_tee_time_never_sold [OF letters_apart unmarked morning_closed _ _ _ _ this]
  show ?thesis by (simp add: closed_morning_def phone_booking_def)
qed

definition listed_booking :: "new_reservation \<Rightarrow> reservation_id \<Rightarrow> reservation" where
  "listed_booking n rid = (reservation_reconstitute rid ''R1'' (nr_service n) None None ''confirmed''
     (nr_starts_at n) (nr_ends_at n) (nr_quantity n) None (nr_notes n))
     \<lparr>rv_course := Some (nr_course n), rv_resource := nr_resource n\<rparr>"

theorem bookings_stay_within_capacity_witness:
  "int (booked_at [listed_booking morning_request ''b1''] (100 * minutes 1440 + minutes 434) ''east'' ''r1'')
    \<le> capacity_at [east_row] (100 * minutes 1440 + minutes 434)"
proof -
  from morning_sold have "sale_step utc_calendar one_zone plain_times east_links (\<lambda>_. [east_row]) listed_booking []
      ([] @ [listed_booking morning_request ''b1''])"
    by (rule sold) (simp_all add: morning_reads_def)
  then have "(sale_step utc_calendar one_zone plain_times east_links (\<lambda>_. [east_row]) listed_booking)\<^sup>*\<^sup>* []
      [listed_booking morning_request ''b1'']" by auto
  moreover have "lists_back listed_booking"
    by (simp add: lists_back_def listed_booking_def reservation_reconstitute_def)
  moreover have "rows_fit (\<lambda>_. [east_row])"
    by (simp add: rows_fit_def capacity_at_def available_at_def east_row_def in_i32_def i32_min_def i32_max_def)
  moreover have "course_resources east_links = [(''east'', ''r1'')]" by code_simp
  ultimately show ?thesis
    using bookings_stay_within_capacity [of utc_calendar one_zone plain_times east_links "\<lambda>_. [east_row]" listed_booking
        "[listed_booking morning_request ''b1'']" "''east''" "''r1''"] by simp
qed

section \<open>What taking a booking does not check\<close>

text \<open>The plan's seats: \<open>morning_sold\<close> books five players on a plan of four, which no later correction allows.\<close>

lemma seats_unchecked_when_sold:
  "update_reservation_booking (Inr ()) ''b1''
     \<lparr>bk_customer_name = ''Honda'', bk_customer = None, bk_quantity = nr_quantity morning_request\<rparr>
     (Inr (listed_booking morning_request ''b1'')) (Inr [four_ball])
    = Inl (BadRequest ''the plan seats fewer players than this booking has'')"
  by code_simp

text \<open>A row upstream has retired: its group is sold beside a live row that is full.\<close>

lemma retired_room_is_sold:
  "ensure_slot_available [east_row\<lparr>tl_available := 0\<rparr>, east_row\<lparr>tl_active := False\<rparr>]
     [listed_booking morning_request ''b1''] (100 * minutes 1440 + minutes 434) ''east'' ''r1'' = Inr ()"
  by code_simp

end
