(* ===== verification/CustomerVisits.thy ===== *)
theory CustomerVisits
  imports TeeLedger Cancellations
begin

text \<open>
  What a customer's play adds up to: \<open>src/course/domain/customer_visits.rs\<close>, \<open>visit_checkin.rs\<close>,
  \<open>customer_grade.rs\<close>, the customer's page (\<open>get_customer_visits.rs\<close>) and the nightly sweep over the
  whole tenant (\<open>refresh_customer_summaries.rs\<close>). Upstream listings are functions from the offset
  to the page; hash sets are sets and hash maps partial maps, with the order of their keys an
  argument where the code walks them. Money is \<open>i64\<close> and wraps; the counts are bounded by the rows
  that are read, far below their words.
\<close>

section \<open>One booking read as golf\<close>

datatype visit_kind = Visited | Upcoming | NoShow | VisitCancelled | OtherVisit

fun visit_kind_as_str :: "visit_kind \<Rightarrow> str" where
  "visit_kind_as_str Visited = ''visited''"
| "visit_kind_as_str Upcoming = ''upcoming''"
| "visit_kind_as_str NoShow = ''no_show''"
| "visit_kind_as_str VisitCancelled = ''cancelled''"
| "visit_kind_as_str OtherVisit = ''other''"

definition counts_as_play :: "visit_kind \<Rightarrow> bool" where
  "counts_as_play k \<longleftrightarrow> k = Visited"

definition CANCELLED_STATUSES :: "str list" where
  "CANCELLED_STATUSES = [''cancelled'', ''rejected'', ''cancel_requested'']"

definition UNSETTLED_STATUSES :: "str list" where
  "UNSETTLED_STATUSES = [''waiting'', ''suspended'']"

definition classify :: "instant \<Rightarrow> reservation \<Rightarrow> visit_kind" where
  "classify now r =
     (if billing_cancelled (rv_billing r) \<or> rv_status r \<in> set CANCELLED_STATUSES then VisitCancelled
      else if rv_status r = ''no_show'' then NoShow
      else if rv_status r \<in> set UNSETTLED_STATUSES then OtherVisit
      else if now < rv_starts_at r then Upcoming else Visited)"

record visit =
  vi_id :: reservation_id
  vi_number :: str
  vi_starts_at :: instant
  vi_course :: "course_id option"
  vi_players :: int
  vi_amount :: int
  vi_currency :: "str option"
  vi_status :: str
  vi_kind :: visit_kind
  vi_booked :: bool
  vi_checked_in :: bool

definition from_reservation :: "instant \<Rightarrow> reservation \<Rightarrow> visit" where
  "from_reservation now r =
     \<lparr>vi_id = rv_id r, vi_number = rv_number r, vi_starts_at = rv_starts_at r, vi_course = rv_course r,
      vi_players = party_size r, vi_amount = bl_price (rv_billing r), vi_currency = bl_currency (rv_billing r),
      vi_status = rv_status r, vi_kind = classify now r, vi_booked = True, vi_checked_in = False\<rparr>"

definition as_guest :: "reservation \<Rightarrow> visit" where
  "as_guest r =
     \<lparr>vi_id = rv_id r, vi_number = rv_number r, vi_starts_at = rv_starts_at r, vi_course = rv_course r,
      vi_players = 0, vi_amount = 0, vi_currency = None, vi_status = rv_status r, vi_kind = Visited,
      vi_booked = False, vi_checked_in = True\<rparr>"

definition confirm_attended :: "visit \<Rightarrow> visit" where
  "confirm_attended v = v\<lparr>vi_checked_in := True,
     vi_kind := (if vi_kind v \<in> {Upcoming, OtherVisit, NoShow} then Visited else vi_kind v)\<rparr>"

section \<open>What the rows add up to\<close>

record visit_summary =
  vm_visits :: nat
  vm_players :: int
  vm_total_amount :: int
  vm_unpriced :: nat
  vm_spend_per_player :: "int option"
  vm_cancelled :: nat
  vm_no_shows :: nat
  vm_upcoming :: nat
  vm_first :: "instant option"
  vm_last :: "instant option"

definition no_visits :: visit_summary where
  "no_visits = \<lparr>vm_visits = 0, vm_players = 0, vm_total_amount = 0, vm_unpriced = 0,
     vm_spend_per_player = None, vm_cancelled = 0, vm_no_shows = 0, vm_upcoming = 0,
     vm_first = None, vm_last = None\<rparr>"

text \<open>The loop of \<open>summarize\<close>: the summary so far and the players of the priced rounds.\<close>

definition count_played :: "visit \<Rightarrow> visit_summary \<times> int \<Rightarrow> visit_summary \<times> int" where
  "count_played v acc =
     (let (s, priced) = acc; seats = max (vi_players v) 0 in
      (s\<lparr>vm_visits := vm_visits s + 1,
         vm_players := (if vi_booked v then wrap_i64 (vm_players s + seats) else vm_players s),
         vm_total_amount := wrap_i64 (vm_total_amount s + vi_amount v),
         vm_unpriced := (if 0 < vi_amount v then vm_unpriced s else vm_unpriced s + 1),
         vm_last := Some (case vm_last s of None \<Rightarrow> vi_starts_at v
           | Some t \<Rightarrow> if vi_starts_at v \<le> t then t else vi_starts_at v),
         vm_first := Some (case vm_first s of None \<Rightarrow> vi_starts_at v
           | Some t \<Rightarrow> if t \<le> vi_starts_at v then t else vi_starts_at v)\<rparr>,
       if 0 < vi_amount v then wrap_i64 (priced + seats) else priced))"

fun count_visit :: "visit \<Rightarrow> visit_summary \<times> int \<Rightarrow> visit_summary \<times> int" where
  "count_visit v (s, priced) =
     (case vi_kind v of
        Visited \<Rightarrow> count_played v (s, priced)
      | VisitCancelled \<Rightarrow> (s\<lparr>vm_cancelled := vm_cancelled s + 1\<rparr>, priced)
      | NoShow \<Rightarrow> (s\<lparr>vm_no_shows := vm_no_shows s + 1\<rparr>, priced)
      | Upcoming \<Rightarrow> (s\<lparr>vm_upcoming := vm_upcoming s + 1\<rparr>, priced)
      | OtherVisit \<Rightarrow> (s, priced))"

definition summarize :: "visit list \<Rightarrow> bool \<Rightarrow> visit_summary" where
  "summarize visits truncated =
     (let (s, priced) = fold count_visit visits (no_visits, 0);
          s' = (if 0 < priced then s\<lparr>vm_spend_per_player := Some (quotient_i (vm_total_amount s) priced)\<rparr> else s)
      in if truncated then s'\<lparr>vm_first := None\<rparr> else s')"

definition DEFAULT_VISIT_HISTORY_LIMIT :: int where "DEFAULT_VISIT_HISTORY_LIMIT = 50"
definition MAX_VISIT_HISTORY_LIMIT :: int where "MAX_VISIT_HISTORY_LIMIT = 200"
definition VISIT_HISTORY_PAGE :: nat where "VISIT_HISTORY_PAGE = 500"
definition MAX_VISIT_HISTORY_ROWS :: nat where "MAX_VISIT_HISTORY_ROWS = 2000"

record visit_history =
  vh_visits :: "visit list"
  vh_summary :: visit_summary
  vh_truncated :: bool

definition own_visit :: "instant \<Rightarrow> str set \<Rightarrow> reservation \<Rightarrow> visit" where
  "own_visit now attended r =
     (if rv_id r \<in> attended then confirm_attended (from_reservation now r) else from_reservation now r)"

definition later_visit_first :: "visit \<Rightarrow> visit \<Rightarrow> bool" where
  "later_visit_first a b \<longleftrightarrow> vi_starts_at b \<le> vi_starts_at a"

definition build_with_checkins ::
  "reservation list \<Rightarrow> reservation list \<Rightarrow> str set \<Rightarrow> instant \<Rightarrow> int \<Rightarrow> bool \<Rightarrow> visit_history" where
  "build_with_checkins own guests attended now limit truncated =
     (let every = sort_by later_visit_first (map (own_visit now attended) own @ map as_guest guests) in
      \<lparr>vh_visits = take (nat (clamp 1 MAX_VISIT_HISTORY_LIMIT limit)) every,
       vh_summary = summarize every truncated, vh_truncated = truncated\<rparr>)"

definition build_history :: "reservation list \<Rightarrow> instant \<Rightarrow> int \<Rightarrow> bool \<Rightarrow> visit_history" where
  "build_history own now limit truncated = build_with_checkins own [] {} now limit truncated"

section \<open>Checking in\<close>

record visit_checkin =
  vk_reservation :: reservation_id
  vk_player_index :: int
  vk_customer :: "customer_id option"
  vk_player_name :: str
  vk_played_on :: date
  vk_checked_in_at :: instant
  vk_checked_in_by :: "str option"

record new_checkin =
  nk_player_index :: int
  nk_customer :: "customer_id option"
  nk_player_name :: str

definition MAX_NAME_LENGTH :: nat where "MAX_NAME_LENGTH = 120"

definition new_checkin_try_new :: "int \<Rightarrow> customer_id option \<Rightarrow> str \<Rightarrow> new_checkin result" where
  "new_checkin_try_new seat customer name =
     (if int MAX_PARTY_PLAYERS \<le> seat then Inl (BadRequest ''player index is outside the group'')
      else if trim name = []
      then Inl (BadRequest ''a checked-in player needs the name the group was written under'')
      else if MAX_NAME_LENGTH < char_count (trim name) then Inl (BadRequest ''player name is too long'')
      else Inr \<lparr>nk_player_index = seat, nk_customer = customer, nk_player_name = trim name\<rparr>)"

record checkin_request =
  kq_reservation :: reservation_id
  kq_played_on :: date
  kq_players :: "new_checkin list"

definition checkin_request_try_new ::
  "reservation_id \<Rightarrow> date \<Rightarrow> new_checkin list \<Rightarrow> checkin_request result" where
  "checkin_request_try_new rid day players =
     (if players = [] then Inl (BadRequest ''a check-in needs at least one player'')
      else if MAX_PARTY_PLAYERS < length players
      then Inl (BadRequest ''a group may not hold more than 8 players'')
      else if length (remdups_adj (sort (map nk_player_index players))) \<noteq> length players
      then Inl (BadRequest ''the same seat was checked in twice'')
      else Inr \<lparr>kq_reservation = rid, kq_played_on = day, kq_players = players\<rparr>)"

definition record_visit_checkin ::
  "zones \<Rightarrow> unit result \<Rightarrow> reservation_id \<Rightarrow> new_checkin list \<Rightarrow> reservation result \<Rightarrow> str result
    \<Rightarrow> checkin_request result" where
  "record_visit_checkin zone permitted rid players booking timezone =
     (case permitted of Inl e \<Rightarrow> Inl e | Inr _ \<Rightarrow>
     (case booking of Inl e \<Rightarrow> Inl e | Inr r \<Rightarrow>
     (case timezone of Inl e \<Rightarrow> Inl e | Inr tz \<Rightarrow>
     (case tenant_date_at zone (rv_starts_at r) tz of Inl e \<Rightarrow> Inl e
      | Inr day \<Rightarrow> checkin_request_try_new rid day players))))"

text \<open>
  The table, in the order of its primary key: the row's tenant and the check-in. A seat that is
  checked in again keeps its row and its time, and takes the new name. Which texts count as the same
  is the database's collation \<open>ck\<close>.
\<close>

type_synonym checkin_row = "str \<times> visit_checkin"

definition same_seat :: "collation \<Rightarrow> str \<Rightarrow> reservation_id \<Rightarrow> new_checkin \<Rightarrow> checkin_row \<Rightarrow> bool" where
  "same_seat ck tenant rid p row \<longleftrightarrow> same_text ck (fst row) tenant
     \<and> same_text ck (vk_reservation (snd row)) rid \<and> vk_player_index (snd row) = nk_player_index p"

definition checkin_seat ::
  "collation \<Rightarrow> str \<Rightarrow> instant \<Rightarrow> str option \<Rightarrow> checkin_request \<Rightarrow> new_checkin \<Rightarrow> checkin_row list \<Rightarrow> checkin_row list" where
  "checkin_seat ck tenant now staff q p rows =
     (if list_ex (same_seat ck tenant (kq_reservation q) p) rows
      then map (\<lambda>row. if same_seat ck tenant (kq_reservation q) p row
        then (fst row, (snd row)\<lparr>vk_customer := nk_customer p, vk_player_name := nk_player_name p\<rparr>) else row) rows
      else rows @ [(tenant, \<lparr>vk_reservation = kq_reservation q, vk_player_index = nk_player_index p,
        vk_customer = nk_customer p, vk_player_name = nk_player_name p, vk_played_on = kq_played_on q,
        vk_checked_in_at = now, vk_checked_in_by = staff\<rparr>)])"

definition seat_order :: "visit_checkin \<Rightarrow> visit_checkin \<Rightarrow> bool" where
  "seat_order a b \<longleftrightarrow> vk_player_index a \<le> vk_player_index b"

definition list_reservation_checkins ::
  "collation \<Rightarrow> str \<Rightarrow> reservation_id \<Rightarrow> checkin_row list \<Rightarrow> visit_checkin list" where
  "list_reservation_checkins ck tenant rid rows = sort_by seat_order (map snd
     (filter (\<lambda>row. same_text ck (fst row) tenant \<and> same_text ck (vk_reservation (snd row)) rid) rows))"

definition record_visit_checkins ::
  "collation \<Rightarrow> str \<Rightarrow> instant \<Rightarrow> str option \<Rightarrow> checkin_request \<Rightarrow> checkin_row list
    \<Rightarrow> visit_checkin list \<times> checkin_row list" where
  "record_visit_checkins ck tenant now staff q rows =
     (let rows' = fold (checkin_seat ck tenant now staff q) (kq_players q) rows
      in (list_reservation_checkins ck tenant (kq_reservation q) rows', rows'))"

definition latest_checkin_first :: "visit_checkin \<Rightarrow> visit_checkin \<Rightarrow> bool" where
  "latest_checkin_first a b \<longleftrightarrow> vk_played_on b < vk_played_on a
     \<or> vk_played_on a = vk_played_on b \<and> vk_checked_in_at b \<le> vk_checked_in_at a"

definition list_customer_checkins :: "collation \<Rightarrow> str \<Rightarrow> customer_id \<Rightarrow> checkin_row list \<Rightarrow> visit_checkin list" where
  "list_customer_checkins ck tenant c rows = sort_by latest_checkin_first (map snd
     (filter (\<lambda>row. same_text ck (fst row) tenant
        \<and> (case vk_customer (snd row) of None \<Rightarrow> False | Some c' \<Rightarrow> same_text ck c' c)) rows))"

definition list_linked_checkins :: "collation \<Rightarrow> str \<Rightarrow> nat \<Rightarrow> nat \<Rightarrow> checkin_row list \<Rightarrow> visit_checkin list" where
  "list_linked_checkins ck tenant limit offset rows = take limit (drop offset (map snd
     (filter (\<lambda>row. same_text ck (fst row) tenant \<and> vk_customer (snd row) \<noteq> None) rows)))"

section \<open>The club's ladder\<close>

definition MAX_GRADE_RULES :: nat where "MAX_GRADE_RULES = 10"

record grade_rule =
  gu_name :: str
  gu_min_visits :: nat
  gu_min_spend :: "int option"
  gu_min_total :: "int option"

definition grade_rule_try_new :: "str \<Rightarrow> nat \<Rightarrow> int option \<Rightarrow> int option \<Rightarrow> grade_rule result" where
  "grade_rule_try_new name visits spend total_amount =
     (if trim name = [] then Inl (BadRequest ''grade name is required'')
      else if MAX_NAME_LENGTH < char_count (trim name)
      then Inl (BadRequest ''text must be at most 120 characters'')
      else if (case spend of None \<Rightarrow> False | Some v \<Rightarrow> v < 0) \<or> (case total_amount of None \<Rightarrow> False | Some v \<Rightarrow> v < 0)
      then Inl (BadRequest ''grade thresholds must not be negative'')
      else Inr \<lparr>gu_name = trim name, gu_min_visits = visits, gu_min_spend = spend, gu_min_total = total_amount\<rparr>)"

definition is_reached_by :: "grade_rule \<Rightarrow> visit_summary \<Rightarrow> bool" where
  "is_reached_by r s \<longleftrightarrow> gu_min_visits r \<le> vm_visits s
     \<and> (case gu_min_spend r of None \<Rightarrow> True
        | Some required \<Rightarrow> (case vm_spend_per_player s of None \<Rightarrow> False | Some actual \<Rightarrow> required \<le> actual))
     \<and> (case gu_min_total r of None \<Rightarrow> True | Some required \<Rightarrow> required \<le> vm_total_amount s)"

fun repeats_name :: "str list \<Rightarrow> grade_rule list \<Rightarrow> bool" where
  "repeats_name seen [] \<longleftrightarrow> False"
| "repeats_name seen (r # rs) \<longleftrightarrow> gu_name r \<in> set seen \<or> repeats_name (gu_name r # seen) rs"

definition grade_rules_try_new :: "grade_rule list \<Rightarrow> grade_rule list result" where
  "grade_rules_try_new rules =
     (if MAX_GRADE_RULES < length rules then Inl (BadRequest ''too many customer grades'')
      else if repeats_name [] rules then Inl (BadRequest ''each customer grade must have its own name'')
      else Inr rules)"

datatype grade_verdict = Graded str | BelowLowest | GradeUnknown | NotConfigured

fun verdict_as_str :: "grade_verdict \<Rightarrow> str" where
  "verdict_as_str (Graded _) = ''graded''"
| "verdict_as_str BelowLowest = ''below_lowest''"
| "verdict_as_str GradeUnknown = ''unknown''"
| "verdict_as_str NotConfigured = ''not_configured''"

fun verdict_name :: "grade_verdict \<Rightarrow> str option" where
  "verdict_name (Graded name) = Some name"
| "verdict_name _ = None"

definition grade_for :: "grade_rule list \<Rightarrow> visit_summary \<Rightarrow> bool \<Rightarrow> grade_verdict" where
  "grade_for rules s truncated =
     (if rules = [] then NotConfigured
      else if truncated then GradeUnknown
      else case find (\<lambda>r. is_reached_by r s) rules of Some r \<Rightarrow> Graded (gu_name r) | None \<Rightarrow> BelowLowest)"

section \<open>Reading page by page\<close>

text \<open>
  The loop that reads a listing: the next offset is what has been read, a short page is the last
  one, and the cap ends a listing that goes on, saying so. Whether it ends depends on the pages, so
  it is a partial function.
\<close>

definition page_offset :: "nat \<Rightarrow> nat" where
  "page_offset n = min n 4294967295"

partial_function (option) read_pages ::
  "nat \<Rightarrow> nat \<Rightarrow> (nat \<Rightarrow> 'a list result) \<Rightarrow> 'a list \<Rightarrow> ('a list \<times> bool) result option" where
  "read_pages page cap fetch acc =
     (case fetch (page_offset (length acc)) of
        Inl e \<Rightarrow> Some (Inl e)
      | Inr rows \<Rightarrow>
          if length rows < page then Some (Inr (acc @ rows, False))
          else if cap \<le> length (acc @ rows) then Some (Inr (acc @ rows, True))
          else read_pages page cap fetch (acc @ rows))"

section \<open>The customer's page\<close>

definition MAX_GUEST_VISIT_LOOKUPS :: nat where "MAX_GUEST_VISIT_LOOKUPS = 100"

record visit_report =
  vp_history :: visit_history
  vp_grade :: grade_verdict

text \<open>Which of the check-ins are at the customer's own bookings, and which name somebody else's.\<close>

definition attended_at :: "str set \<Rightarrow> visit_checkin list \<Rightarrow> str set" where
  "attended_at booked seen = set (filter (\<lambda>rid. rid \<in> booked) (map vk_reservation seen))"

definition note_guest :: "str set \<Rightarrow> visit_checkin \<Rightarrow> str list \<Rightarrow> str list" where
  "note_guest booked k ids =
     (if vk_reservation k \<in> booked \<or> vk_reservation k \<in> set ids then ids else ids @ [vk_reservation k])"

definition guest_ids :: "str set \<Rightarrow> visit_checkin list \<Rightarrow> str list" where
  "guest_ids booked seen = fold (note_guest booked) seen []"

definition load_guest_reservations :: "(reservation_id \<Rightarrow> reservation result) \<Rightarrow> str list \<Rightarrow> reservation list" where
  "load_guest_reservations fetch ids =
     List.map_filter (\<lambda>i. case fetch i of Inl _ \<Rightarrow> None | Inr r \<Rightarrow> Some r) ids"

text \<open>\<open>None\<close> is a read that never ends.\<close>

definition get_customer_visits ::
  "unit result \<Rightarrow> int option \<Rightarrow> instant \<Rightarrow> (nat \<Rightarrow> reservation list result) \<Rightarrow> visit_checkin list result
    \<Rightarrow> (reservation_id \<Rightarrow> reservation result) \<Rightarrow> grade_rule list result \<Rightarrow> visit_report result option" where
  "get_customer_visits permitted limit now listing checkins fetch ladder =
     (case permitted of Inl e \<Rightarrow> Some (Inl e) | Inr _ \<Rightarrow>
     (case read_pages VISIT_HISTORY_PAGE MAX_VISIT_HISTORY_ROWS listing [] of
        None \<Rightarrow> None
      | Some (Inl e) \<Rightarrow> Some (Inl e)
      | Some (Inr (own, truncated)) \<Rightarrow>
          Some (case checkins of Inl e \<Rightarrow> Inl e | Inr seen \<Rightarrow>
            let booked = rv_id ` set own;
                ids = guest_ids booked seen;
                guests = load_guest_reservations fetch (take MAX_GUEST_VISIT_LOOKUPS ids);
                history = build_with_checkins own guests (attended_at booked seen) now
                  (clamp 1 MAX_VISIT_HISTORY_LIMIT (unwrap_or limit DEFAULT_VISIT_HISTORY_LIMIT))
                  (truncated \<or> MAX_GUEST_VISIT_LOOKUPS < length ids)
            in (case ladder of Inl e \<Rightarrow> Inl e
                | Inr rules \<Rightarrow> Inr \<lparr>vp_history = history,
                    vp_grade = grade_for rules (vh_summary history) (vh_truncated history)\<rparr>))))"

section \<open>The nightly sweep\<close>

definition SWEEP_PAGE :: nat where "SWEEP_PAGE = 500"
definition MAX_SWEEP_ROWS :: nat where "MAX_SWEEP_ROWS = 50000"

record customer_summary =
  cs_customer :: customer_id
  cs_summary :: visit_summary
  cs_truncated :: bool
  cs_computed_at :: instant

record summary_refresh =
  sf_reservations :: nat
  sf_checkins :: nat
  sf_customers :: nat
  sf_truncated :: bool

definition bookings_by_id :: "reservation list \<Rightarrow> (reservation_id \<rightharpoonup> reservation)" where
  "bookings_by_id rs = fold (\<lambda>r m. m(rv_id r \<mapsto> r)) rs Map.empty"

definition booked_by_customer :: "reservation list \<Rightarrow> (customer_id \<rightharpoonup> reservation list)" where
  "booked_by_customer rs = fold (\<lambda>r m. case rv_customer r of None \<Rightarrow> m
     | Some c \<Rightarrow> m(c \<mapsto> unwrap_or (m c) [] @ [r])) rs Map.empty"

type_synonym arrivals = "(customer_id \<rightharpoonup> str set) \<times> (customer_id \<rightharpoonup> reservation list)"

definition note_arrival ::
  "(customer_id \<rightharpoonup> reservation list) \<Rightarrow> (reservation_id \<rightharpoonup> reservation) \<Rightarrow> visit_checkin \<Rightarrow> arrivals \<Rightarrow> arrivals" where
  "note_arrival booked by_id k acc =
     (case vk_customer k of None \<Rightarrow> acc
      | Some c \<Rightarrow>
          if vk_reservation k \<in> rv_id ` set (unwrap_or (booked c) [])
          then ((fst acc)(c \<mapsto> insert (vk_reservation k) (unwrap_or (fst acc c) {})), snd acc)
          else (case by_id (vk_reservation k) of None \<Rightarrow> acc
            | Some r \<Rightarrow> (fst acc, (snd acc)(c \<mapsto> unwrap_or (snd acc c) [] @ [r]))))"

definition summary_row ::
  "(customer_id \<rightharpoonup> reservation list) \<Rightarrow> arrivals \<Rightarrow> instant \<Rightarrow> bool \<Rightarrow> customer_id \<Rightarrow> customer_summary" where
  "summary_row booked seen now truncated c =
     (let history = build_with_checkins (unwrap_or (booked c) []) (unwrap_or (snd seen c) [])
            (unwrap_or (fst seen c) {}) now 1 truncated
      in \<lparr>cs_customer = c, cs_summary = vh_summary history, cs_truncated = truncated, cs_computed_at = now\<rparr>)"

text \<open>\<open>walk\<close> lists the keys of a hash map in the order it is walked.\<close>

definition sweep_arrivals :: "reservation list \<Rightarrow> visit_checkin list \<Rightarrow> arrivals" where
  "sweep_arrivals rs checkins =
     fold (note_arrival (booked_by_customer rs) (bookings_by_id rs)) checkins (Map.empty, Map.empty)"

definition summary_rows ::
  "((customer_id \<rightharpoonup> reservation list) \<Rightarrow> customer_id list) \<Rightarrow> reservation list \<Rightarrow> visit_checkin list \<Rightarrow> instant
    \<Rightarrow> bool \<Rightarrow> customer_summary list" where
  "summary_rows walk rs checkins now truncated =
     (let booked = booked_by_customer rs;
          seen = sweep_arrivals rs checkins;
          customers = walk booked @ filter (\<lambda>c. booked c = None) (walk (snd seen))
      in map (summary_row booked seen now truncated) customers)"

definition sweep ::
  "((customer_id \<rightharpoonup> reservation list) \<Rightarrow> customer_id list) \<Rightarrow> instant \<Rightarrow> (nat \<Rightarrow> reservation list result)
    \<Rightarrow> (nat \<Rightarrow> visit_checkin list result) \<Rightarrow> (customer_summary list \<Rightarrow> nat result)
    \<Rightarrow> (summary_refresh result \<times> customer_summary list) option" where
  "sweep walk now listing checkin_pages store =
     (case read_pages SWEEP_PAGE MAX_SWEEP_ROWS listing [] of
        None \<Rightarrow> None
      | Some (Inl e) \<Rightarrow> Some (Inl e, [])
      | Some (Inr (rs, truncated)) \<Rightarrow>
     (case read_pages SWEEP_PAGE MAX_SWEEP_ROWS checkin_pages [] of
        None \<Rightarrow> None
      | Some (Inl e) \<Rightarrow> Some (Inl e, [])
      | Some (Inr (ks, _)) \<Rightarrow>
          (let rows = summary_rows walk rs ks now truncated in
           Some (case store rows of Inl e \<Rightarrow> (Inl e, rows)
             | Inr written \<Rightarrow> (Inr \<lparr>sf_reservations = length rs, sf_checkins = length ks,
                 sf_customers = written, sf_truncated = truncated\<rparr>, rows)))))"

end
