(* ===== verification/CustomerSummaries.thy ===== *)
theory CustomerSummaries
  imports CustomerVisits
begin

text \<open>
  The ledger ranked by play: the club's ladder as it is stored
  (\<open>customer_grade_rules_repository.rs\<close>, \<open>customer_grade_rules.rs\<close>), the figures kept per customer
  (\<open>customer_summary.rs\<close>, \<open>customer_summary_repository.rs\<close>), the refresh that writes them
  (\<open>refresh_customer_summaries.rs\<close>) and the call list that reads them (\<open>list_customer_summaries.rs\<close>).
  Tables are lists of rows in the order of their primary key, \<open>ck\<close> is the database's collation and
  \<open>earliest\<close> the first instant the date library can hold.
\<close>

section \<open>The stored ladder\<close>

record rung_row =
  rr_tenant :: str
  rr_name :: str
  rr_position :: int
  rr_min_visits :: nat
  rr_min_spend :: "int option"
  rr_min_total :: "int option"

definition position_order :: "rung_row \<Rightarrow> rung_row \<Rightarrow> bool" where
  "position_order a b \<longleftrightarrow> rr_position a \<le> rr_position b"

fun read_rungs :: "rung_row list \<Rightarrow> grade_rule list result" where
  "read_rungs [] = Inr []"
| "read_rungs (r # rs) =
     (case grade_rule_try_new (rr_name r) (rr_min_visits r) (rr_min_spend r) (rr_min_total r) of
        Inl e \<Rightarrow> Inl e
      | Inr rule \<Rightarrow> (case read_rungs rs of Inl e \<Rightarrow> Inl e | Inr rules \<Rightarrow> Inr (rule # rules)))"

definition get_customer_grade_rules :: "collation \<Rightarrow> str \<Rightarrow> rung_row list \<Rightarrow> grade_rule list result" where
  "get_customer_grade_rules ck tenant rows =
     read_rungs (sort_by position_order (filter (\<lambda>r. same_text ck (rr_tenant r) tenant) rows))"

definition is_rung :: "collation \<Rightarrow> str \<Rightarrow> str \<Rightarrow> rung_row \<Rightarrow> bool" where
  "is_rung ck tenant name r \<longleftrightarrow> same_text ck (rr_tenant r) tenant \<and> same_text ck (rr_name r) name"

definition upsert_rung :: "collation \<Rightarrow> str \<Rightarrow> int \<times> grade_rule \<Rightarrow> rung_row list \<Rightarrow> rung_row list" where
  "upsert_rung ck tenant pr rows =
     (let (position, rule) = pr in
      if list_ex (is_rung ck tenant (gu_name rule)) rows
      then map (\<lambda>r. if is_rung ck tenant (gu_name rule) r
        then r\<lparr>rr_position := position, rr_min_visits := gu_min_visits rule,
               rr_min_spend := gu_min_spend rule, rr_min_total := gu_min_total rule\<rparr> else r) rows
      else rows @ [\<lparr>rr_tenant = tenant, rr_name = gu_name rule, rr_position = position,
        rr_min_visits = gu_min_visits rule, rr_min_spend = gu_min_spend rule, rr_min_total = gu_min_total rule\<rparr>])"

text \<open>The names the statement deletes: those of the tenant that no rung of the new ladder spells.\<close>

definition dropped_names :: "collation \<Rightarrow> str \<Rightarrow> grade_rule list \<Rightarrow> rung_row list \<Rightarrow> str list" where
  "dropped_names ck tenant rules rows =
     filter (\<lambda>name. name \<notin> gu_name ` set rules)
       (map rr_name (filter (\<lambda>r. same_text ck (rr_tenant r) tenant) rows))"

definition replace_grade_rows :: "collation \<Rightarrow> str \<Rightarrow> grade_rule list \<Rightarrow> rung_row list \<Rightarrow> rung_row list" where
  "replace_grade_rows ck tenant rules rows =
     fold (upsert_rung ck tenant) (zip (map int [0..<length rules]) rules)
       (filter (\<lambda>r. \<not> (same_text ck (rr_tenant r) tenant
          \<and> list_ex (same_text ck (rr_name r)) (dropped_names ck tenant rules rows))) rows)"

text \<open>One transaction: either the whole ladder is replaced or nothing is.\<close>

definition replace_customer_grade_rules ::
  "collation \<Rightarrow> unit result \<Rightarrow> unit result \<Rightarrow> str \<Rightarrow> grade_rule list \<Rightarrow> rung_row list
    \<Rightarrow> grade_rule list result \<times> rung_row list" where
  "replace_customer_grade_rules ck permitted committed tenant rules rows =
     (case permitted of Inl e \<Rightarrow> (Inl e, rows)
      | Inr _ \<Rightarrow> (case committed of Inl e \<Rightarrow> (Inl e, rows)
         | Inr _ \<Rightarrow> (Inr rules, replace_grade_rows ck tenant rules rows)))"

definition read_customer_grade_rules ::
  "collation \<Rightarrow> unit result \<Rightarrow> str \<Rightarrow> rung_row list \<Rightarrow> grade_rule list result" where
  "read_customer_grade_rules ck permitted tenant rows =
     (case permitted of Inl e \<Rightarrow> Inl e | Inr _ \<Rightarrow> get_customer_grade_rules ck tenant rows)"

section \<open>The figures kept per customer\<close>

definition DEFAULT_SUMMARY_PAGE :: nat where "DEFAULT_SUMMARY_PAGE = 25"
definition MAX_SUMMARY_PAGE :: nat where "MAX_SUMMARY_PAGE = 100"

datatype summary_sort = ByTotalAmount | ByVisits | ByLastVisit | BySpendPerPlayer

fun summary_sort_as_str :: "summary_sort \<Rightarrow> str" where
  "summary_sort_as_str ByTotalAmount = ''total_amount''"
| "summary_sort_as_str ByVisits = ''visits''"
| "summary_sort_as_str ByLastVisit = ''last_visit''"
| "summary_sort_as_str BySpendPerPlayer = ''spend_per_player''"

text \<open>The column of the table, read of a row.\<close>

fun summary_column :: "summary_sort \<Rightarrow> customer_summary \<Rightarrow> int option" where
  "summary_column ByTotalAmount s = Some (vm_total_amount (cs_summary s))"
| "summary_column ByVisits s = Some (int (vm_visits (cs_summary s)))"
| "summary_column ByLastVisit s = vm_last (cs_summary s)"
| "summary_column BySpendPerPlayer s = vm_spend_per_player (cs_summary s)"

definition summary_sort_parse :: "str \<Rightarrow> summary_sort result" where
  "summary_sort_parse v =
     (if v = ''total_amount'' then Inr ByTotalAmount
      else if v = ''visits'' then Inr ByVisits
      else if v = ''last_visit'' then Inr ByLastVisit
      else if v = ''spend_per_player'' then Inr BySpendPerPlayer
      else Inl (BadRequest ''unknown customer summary sort''))"

record summary_query =
  sy_sort :: summary_sort
  sy_descending :: bool
  sy_min_days :: "nat option"
  sy_max_days :: "nat option"
  sy_min_visits :: "nat option"
  sy_min_total :: "int option"
  sy_include_never :: bool
  sy_limit :: nat
  sy_offset :: nat

definition default_summary_query :: summary_query where
  "default_summary_query = \<lparr>sy_sort = ByTotalAmount, sy_descending = True, sy_min_days = None, sy_max_days = None,
     sy_min_visits = None, sy_min_total = None, sy_include_never = False, sy_limit = DEFAULT_SUMMARY_PAGE, sy_offset = 0\<rparr>"

text \<open>\<open>None\<close> is a panic: the date library has no instant that long ago.\<close>

definition days_before :: "instant \<Rightarrow> instant \<Rightarrow> nat option \<Rightarrow> instant option option" where
  "days_before earliest now days =
     (case days of None \<Rightarrow> Some None
      | Some d \<Rightarrow> if now - minutes (1440 * int d) < earliest then None else Some (Some (now - minutes (1440 * int d))))"

definition last_visit_before :: "instant \<Rightarrow> instant \<Rightarrow> summary_query \<Rightarrow> instant option option" where
  "last_visit_before earliest now q = days_before earliest now (sy_min_days q)"

definition last_visit_after :: "instant \<Rightarrow> instant \<Rightarrow> summary_query \<Rightarrow> instant option option" where
  "last_visit_after earliest now q = days_before earliest now (sy_max_days q)"

definition summary_query_validate :: "summary_query \<Rightarrow> unit result" where
  "summary_query_validate q =
     (case (sy_min_days q, sy_max_days q) of
        (Some low, Some high) \<Rightarrow>
          if high < low then Inl (BadRequest ''the days-since-last-visit window is empty'') else Inr ()
      | _ \<Rightarrow> Inr ())"

definition summary_with_paging :: "nat option \<Rightarrow> nat option \<Rightarrow> summary_query \<Rightarrow> summary_query" where
  "summary_with_paging limit offset q =
     q\<lparr>sy_limit := min (max (unwrap_or limit DEFAULT_SUMMARY_PAGE) 1) MAX_SUMMARY_PAGE,
       sy_offset := unwrap_or offset 0\<rparr>"

text \<open>The table: the row's tenant and its figures. A refresh replaces every figure of a row it has.\<close>

type_synonym summary_table = "(str \<times> customer_summary) list"

definition is_customer :: "collation \<Rightarrow> str \<Rightarrow> customer_id \<Rightarrow> str \<times> customer_summary \<Rightarrow> bool" where
  "is_customer ck tenant c row \<longleftrightarrow> same_text ck (fst row) tenant \<and> same_text ck (cs_customer (snd row)) c"

definition upsert_summary :: "collation \<Rightarrow> str \<Rightarrow> customer_summary \<Rightarrow> summary_table \<Rightarrow> summary_table" where
  "upsert_summary ck tenant s rows =
     (if list_ex (is_customer ck tenant (cs_customer s)) rows
      then map (\<lambda>row. if is_customer ck tenant (cs_customer s) row
        then (fst row, (snd row)\<lparr>cs_summary := cs_summary s, cs_truncated := cs_truncated s,
          cs_computed_at := cs_computed_at s\<rparr>) else row) rows
      else rows @ [(tenant, s)])"

definition UPSERT_CHUNK :: nat where "UPSERT_CHUNK = 200"

text \<open>\<open>reply i\<close> is how the database answers the statement of the \<open>i\<close>-th chunk.\<close>

fun write_chunks ::
  "collation \<Rightarrow> str \<Rightarrow> (nat \<Rightarrow> unit result) \<Rightarrow> nat \<Rightarrow> customer_summary list list \<Rightarrow> nat \<Rightarrow> summary_table
    \<Rightarrow> nat result \<times> summary_table" where
  "write_chunks ck tenant reply i [] written rows = (Inr written, rows)"
| "write_chunks ck tenant reply i (c # cs) written rows =
     (case reply i of Inl e \<Rightarrow> (Inl e, rows)
      | Inr _ \<Rightarrow> write_chunks ck tenant reply (Suc i) cs (written + length c) (fold (upsert_summary ck tenant) c rows))"

definition upsert_customer_summaries ::
  "collation \<Rightarrow> str \<Rightarrow> (nat \<Rightarrow> unit result) \<Rightarrow> customer_summary list \<Rightarrow> summary_table \<Rightarrow> nat result \<times> summary_table" where
  "upsert_customer_summaries ck tenant reply ss rows = write_chunks ck tenant reply 0 (chunks UPSERT_CHUNK ss) 0 rows"

text \<open>The segment, and the order of the list: a missing figure last, ties by the customer's id.\<close>

definition keeps_summary ::
  "collation \<Rightarrow> str \<Rightarrow> summary_query \<Rightarrow> instant option \<Rightarrow> instant option \<Rightarrow> str \<times> customer_summary \<Rightarrow> bool" where
  "keeps_summary ck tenant q before after row \<longleftrightarrow>
     (let s = cs_summary (snd row) in
      same_text ck (fst row) tenant
      \<and> (sy_include_never q \<or> vm_last s \<noteq> None)
      \<and> (case before of None \<Rightarrow> True | Some t \<Rightarrow> (case vm_last s of None \<Rightarrow> False | Some l \<Rightarrow> l \<le> t))
      \<and> (case after of None \<Rightarrow> True | Some t \<Rightarrow> (case vm_last s of None \<Rightarrow> False | Some l \<Rightarrow> t \<le> l))
      \<and> (case sy_min_visits q of None \<Rightarrow> True | Some n \<Rightarrow> n \<le> vm_visits s)
      \<and> (case sy_min_total q of None \<Rightarrow> True | Some n \<Rightarrow> n \<le> vm_total_amount s))"

definition ranked_before :: "collation \<Rightarrow> summary_query \<Rightarrow> str \<times> customer_summary \<Rightarrow> str \<times> customer_summary \<Rightarrow> bool" where
  "ranked_before ck q a b \<longleftrightarrow>
     (case (summary_column (sy_sort q) (snd a), summary_column (sy_sort q) (snd b)) of
        (Some x, Some y) \<Rightarrow>
          if x = y then ck (cs_customer (snd a)) \<le> ck (cs_customer (snd b))
          else if sy_descending q then y < x else x < y
      | (Some _, None) \<Rightarrow> True
      | (None, Some _) \<Rightarrow> False
      | (None, None) \<Rightarrow> ck (cs_customer (snd a)) \<le> ck (cs_customer (snd b)))"

definition list_summaries ::
  "collation \<Rightarrow> instant \<Rightarrow> str \<Rightarrow> summary_query \<Rightarrow> instant \<Rightarrow> summary_table \<Rightarrow> customer_summary list option" where
  "list_summaries ck earliest tenant q now rows =
     (case last_visit_before earliest now q of None \<Rightarrow> None | Some before \<Rightarrow>
     (case last_visit_after earliest now q of None \<Rightarrow> None | Some after \<Rightarrow>
        Some (map snd (take (sy_limit q) (drop (sy_offset q)
          (sort_by (ranked_before ck q) (filter (keeps_summary ck tenant q before after) rows)))))))"

definition count_summaries ::
  "collation \<Rightarrow> instant \<Rightarrow> str \<Rightarrow> summary_query \<Rightarrow> instant \<Rightarrow> summary_table \<Rightarrow> nat option" where
  "count_summaries ck earliest tenant q now rows =
     (case last_visit_before earliest now q of None \<Rightarrow> None | Some before \<Rightarrow>
     (case last_visit_after earliest now q of None \<Rightarrow> None | Some after \<Rightarrow>
        Some (length (filter (keeps_summary ck tenant q before after) rows))))"

section \<open>The refreshes\<close>

datatype run_status = RunRunning | RunSucceeded | RunFailed

fun run_status_as_str :: "run_status \<Rightarrow> str" where
  "run_status_as_str RunRunning = ''running''"
| "run_status_as_str RunSucceeded = ''succeeded''"
| "run_status_as_str RunFailed = ''failed''"

definition run_status_from_stored :: "str \<Rightarrow> run_status" where
  "run_status_from_stored v =
     (if v = ''succeeded'' then RunSucceeded else if v = ''failed'' then RunFailed else RunRunning)"

interpretation run_status: wire_enum run_status_as_str run_status_from_stored
proof
  fix s show "run_status_from_stored (run_status_as_str s) = s" by (cases s) (simp_all add: run_status_from_stored_def)
qed

record summary_run =
  su_id :: int
  su_tenant :: str
  su_started_at :: instant
  su_finished_at :: "instant option"
  su_status :: str
  su_reservations :: int
  su_customers :: int
  su_error :: "str option"

definition start_summary_run :: "int \<Rightarrow> instant \<Rightarrow> str \<Rightarrow> summary_run list \<Rightarrow> summary_run list" where
  "start_summary_run fresh now tenant runs = runs @ [\<lparr>su_id = fresh, su_tenant = tenant, su_started_at = now,
     su_finished_at = None, su_status = run_status_as_str RunRunning, su_reservations = 0, su_customers = 0, su_error = None\<rparr>]"

definition finish_summary_run ::
  "int \<Rightarrow> instant \<Rightarrow> run_status \<Rightarrow> int \<Rightarrow> int \<Rightarrow> str option \<Rightarrow> summary_run list \<Rightarrow> summary_run list" where
  "finish_summary_run run now status scanned written why runs =
     map (\<lambda>r. if su_id r = run then r\<lparr>su_finished_at := Some now, su_status := run_status_as_str status,
       su_reservations := scanned, su_customers := written, su_error := why\<rparr> else r) runs"

definition later_run :: "summary_run \<Rightarrow> summary_run \<Rightarrow> bool" where
  "later_run a b \<longleftrightarrow> su_started_at b < su_started_at a
     \<or> su_started_at a = su_started_at b \<and> su_id b \<le> su_id a"

definition latest_summary_run :: "collation \<Rightarrow> str \<Rightarrow> summary_run list \<Rightarrow> summary_run option" where
  "latest_summary_run ck tenant runs =
     (case sort_by later_run (filter (\<lambda>r. same_text ck (su_tenant r) tenant) runs) of [] \<Rightarrow> None | r # _ \<Rightarrow> Some r)"

text \<open>What the database and upstream answer to one refresh.\<close>

record refresh_replies =
  fp_permitted :: "unit result"
  fp_started :: "unit result"
  fp_finished :: "unit result"
  fp_chunk :: "nat \<Rightarrow> unit result"
  fp_reservations :: "nat \<Rightarrow> reservation list result"
  fp_checkins :: "nat \<Rightarrow> visit_checkin list result"

definition CAP_REACHED :: str where
  "CAP_REACHED = ''reached the sweep cap; figures are a partial count''"

text \<open>\<open>show\<close> prints an error; \<open>fresh\<close> is the id of the run, \<open>begun\<close> and \<open>ended\<close> the database's clock.\<close>

definition refresh_customer_summaries ::
  "collation \<Rightarrow> (course_error \<Rightarrow> str) \<Rightarrow> ((customer_id \<rightharpoonup> reservation list) \<Rightarrow> customer_id list) \<Rightarrow> refresh_replies \<Rightarrow> str \<Rightarrow> instant
    \<Rightarrow> int \<Rightarrow> instant \<Rightarrow> instant \<Rightarrow> summary_table \<times> summary_run list
    \<Rightarrow> (summary_refresh result \<times> summary_table \<times> summary_run list) option" where
  "refresh_customer_summaries ck print walk reply tenant now fresh begun ended store =
     (case fp_permitted reply of Inl e \<Rightarrow> Some (Inl e, store) | Inr _ \<Rightarrow>
     (case fp_started reply of Inl e \<Rightarrow> Some (Inl e, store) | Inr _ \<Rightarrow>
     (let runs = start_summary_run fresh begun tenant (snd store);
          upsert = (\<lambda>ss. upsert_customer_summaries ck tenant (fp_chunk reply) ss (fst store))
      in case sweep walk now (fp_reservations reply) (fp_checkins reply) (\<lambda>ss. fst (upsert ss)) of
           None \<Rightarrow> None
         | Some (Inr r, ss) \<Rightarrow> Some (case fp_finished reply of
               Inl e \<Rightarrow> (Inl e, snd (upsert ss), runs)
             | Inr _ \<Rightarrow> (Inr r, snd (upsert ss), finish_summary_run fresh ended RunSucceeded
                 (int (sf_reservations r)) (int (sf_customers r))
                 (if sf_truncated r then Some CAP_REACHED else None) runs))
         | Some (Inl e, ss) \<Rightarrow> Some (case fp_finished reply of
               Inl e' \<Rightarrow> (Inl e', snd (upsert ss), runs)
             | Inr _ \<Rightarrow> (Inl e, snd (upsert ss), finish_summary_run fresh ended RunFailed 0 0 (Some (print e)) runs)))))"

section \<open>The call list\<close>

record 'customer summary_entry =
  se_summary :: customer_summary
  se_customer :: "'customer option"
  se_grade :: grade_verdict

record 'customer summary_page =
  sp_entries :: "'customer summary_entry list"
  sp_total :: nat
  sp_last_run :: "summary_run option"

definition summary_entry_of :: "grade_rule list \<Rightarrow> (customer_id \<Rightarrow> 'customer result) \<Rightarrow> customer_summary \<Rightarrow> 'customer summary_entry" where
  "summary_entry_of ladder person row =
     \<lparr>se_summary = row,
      se_customer = (case person (cs_customer row) of Inl _ \<Rightarrow> None | Inr p \<Rightarrow> Some p),
      se_grade = grade_for ladder (cs_summary row) (cs_truncated row)\<rparr>"

text \<open>\<open>None\<close> is a panic. The reads of the tables are taken to succeed.\<close>

definition list_customer_summaries ::
  "collation \<Rightarrow> instant \<Rightarrow> unit result \<Rightarrow> (customer_id \<Rightarrow> 'customer result) \<Rightarrow> str \<Rightarrow> summary_query \<Rightarrow> instant
    \<Rightarrow> rung_row list \<Rightarrow> summary_table \<times> summary_run list \<Rightarrow> 'customer summary_page result option" where
  "list_customer_summaries ck earliest permitted person tenant q now rungs store =
     (case permitted of Inl e \<Rightarrow> Some (Inl e) | Inr _ \<Rightarrow>
     (case summary_query_validate q of Inl e \<Rightarrow> Some (Inl e) | Inr _ \<Rightarrow>
     (case list_summaries ck earliest tenant q now (fst store) of None \<Rightarrow> None | Some rows \<Rightarrow>
     (case count_summaries ck earliest tenant q now (fst store) of None \<Rightarrow> None | Some total_rows \<Rightarrow>
        Some (case get_customer_grade_rules ck tenant rungs of Inl e \<Rightarrow> Inl e
          | Inr ladder \<Rightarrow> Inr \<lparr>sp_entries = map (summary_entry_of ladder person) rows,
              sp_total = total_rows, sp_last_run = latest_summary_run ck tenant (snd store)\<rparr>)))))"

end
