(* ===== verification/CustomerVisitsCorrect.thy ===== *)
theory CustomerVisitsCorrect
  imports CustomerVisits
begin

text \<open>
  The reads of a customer's play always end, the figures do not depend on the order the rows came
  in, and the nightly sweep writes the figures the customer's own page shows.
\<close>

section \<open>The reads end\<close>

lemma read_pages_ends:
  assumes "0 < page"
  shows "\<exists>r. read_pages page cap fetch acc = Some r"
proof (induction "cap - length acc" arbitrary: acc rule: less_induct)
  case less
  show ?case
  proof (cases "fetch (page_offset (length acc))")
    case (Inr rows)
    show ?thesis
    proof (cases "length rows < page \<or> cap \<le> length (acc @ rows)")
      case False
      then have "page \<le> length rows" "length acc + length rows < cap" by auto
      then have "cap - length (acc @ rows) < cap - length acc" using assms by auto
      from less [OF this] show ?thesis using False Inr by (simp add: read_pages.simps)
    qed (auto simp: Inr read_pages.simps)
  qed (simp add: read_pages.simps)
qed

text \<open>
  C19. Reading a customer's or the tenant's play always ends, with an answer or an error, whatever
  upstream's pages hold: endless pages, pages longer than asked, or pages that never get short.
\<close>

theorem visit_reads_end:
  "(\<exists>r. get_customer_visits permitted limit now listing checkins fetch ladder = Some r)
    \<and> (\<exists>r. sweep walk now tenant_listing checkin_pages store = Some r)"
proof -
  have pos: "0 < VISIT_HISTORY_PAGE" "0 < SWEEP_PAGE" by (simp_all add: VISIT_HISTORY_PAGE_def SWEEP_PAGE_def)
  obtain r1 where "read_pages VISIT_HISTORY_PAGE MAX_VISIT_HISTORY_ROWS listing [] = Some r1"
    using read_pages_ends [OF pos(1)] by blast
  moreover obtain r2 where "read_pages SWEEP_PAGE MAX_SWEEP_ROWS tenant_listing [] = Some r2"
    using read_pages_ends [OF pos(2)] by blast
  moreover obtain r3 where "read_pages SWEEP_PAGE MAX_SWEEP_ROWS checkin_pages [] = Some r3"
    using read_pages_ends [OF pos(2)] by blast
  ultimately show ?thesis
    by (auto simp: get_customer_visits_def sweep_def Let_def split: sum.splits prod.splits)
qed

text \<open>A listing shorter than the cap is read whole.\<close>

definition pages_of :: "nat \<Rightarrow> 'a list \<Rightarrow> nat \<Rightarrow> 'a list result" where
  "pages_of page xs offset = Inr (take page (drop offset xs))"

lemma read_pages_from:
  assumes "0 < page" "length xs < cap" "cap \<le> 4294967295"
  shows "k \<le> length xs \<Longrightarrow> read_pages page cap (pages_of page xs) (take k xs) = Some (Inr (xs, False))"
proof (induction "length xs - k" arbitrary: k rule: less_induct)
  case less
  have offset: "page_offset k = k" "min (length xs) k = k" using less.prems assms by (auto simp: page_offset_def)
  have joined: "take k xs @ take page (drop k xs) = take (k + page) xs" by (simp add: take_add)
  show ?case
  proof (cases "length xs - k < page")
    case True
    then show ?thesis
      using less.prems by (subst read_pages.simps) (simp add: offset pages_of_def joined)
  next
    case False
    then have "read_pages page cap (pages_of page xs) (take (k + page) xs) = Some (Inr (xs, False))"
      using less.hyps [of "k + page"] assms(1) by simp
    then show ?thesis
      using False assms less.prems by (subst read_pages.simps) (simp add: offset pages_of_def joined)
  qed
qed

lemma read_whole:
  "0 < page \<Longrightarrow> length xs < cap \<Longrightarrow> cap \<le> 4294967295 \<Longrightarrow> read_pages page cap (pages_of page xs) [] = Some (Inr (xs, False))"
  using read_pages_from [of page xs cap 0] by simp

section \<open>The figures\<close>

definition later :: "instant \<Rightarrow> instant option \<Rightarrow> instant option" where
  "later t latest = Some (case latest of None \<Rightarrow> t | Some u \<Rightarrow> if t \<le> u then u else t)"

definition earlier :: "instant \<Rightarrow> instant option \<Rightarrow> instant option" where
  "earlier t first = Some (case first of None \<Rightarrow> t | Some u \<Rightarrow> if u \<le> t then u else t)"

definition seats :: "visit \<Rightarrow> int" where "seats v = max (vi_players v) 0"

lemma later_commute: "later s (later t x) = later t (later s x)"
  by (auto simp: later_def split: option.splits)

lemma earlier_commute: "earlier s (earlier t x) = earlier t (earlier s x)"
  by (auto simp: earlier_def split: option.splits)

lemma count_played_fields:
  "vm_visits (fst (count_played v (s, p))) = vm_visits s + 1"
  "vm_players (fst (count_played v (s, p))) = (if vi_booked v then wrap_i64 (vm_players s + seats v) else vm_players s)"
  "vm_total_amount (fst (count_played v (s, p))) = wrap_i64 (vm_total_amount s + vi_amount v)"
  "vm_unpriced (fst (count_played v (s, p))) = vm_unpriced s + (if 0 < vi_amount v then 0 else 1)"
  "vm_spend_per_player (fst (count_played v (s, p))) = vm_spend_per_player s"
  "vm_cancelled (fst (count_played v (s, p))) = vm_cancelled s"
  "vm_no_shows (fst (count_played v (s, p))) = vm_no_shows s"
  "vm_upcoming (fst (count_played v (s, p))) = vm_upcoming s"
  "vm_first (fst (count_played v (s, p))) = earlier (vi_starts_at v) (vm_first s)"
  "vm_last (fst (count_played v (s, p))) = later (vi_starts_at v) (vm_last s)"
  "snd (count_played v (s, p)) = (if 0 < vi_amount v then wrap_i64 (p + seats v) else p)"
  by (simp_all add: count_played_def Let_def seats_def earlier_def later_def)

text \<open>What one row adds to each figure.\<close>

lemma count_visit_fields:
  "vm_visits (fst (count_visit v acc)) = vm_visits (fst acc) + (if vi_kind v = Visited then 1 else 0)"
  "vm_players (fst (count_visit v acc)) =
     (if vi_kind v = Visited \<and> vi_booked v then wrap_i64 (vm_players (fst acc) + seats v) else vm_players (fst acc))"
  "vm_total_amount (fst (count_visit v acc)) =
     (if vi_kind v = Visited then wrap_i64 (vm_total_amount (fst acc) + vi_amount v) else vm_total_amount (fst acc))"
  "vm_unpriced (fst (count_visit v acc)) =
     vm_unpriced (fst acc) + (if vi_kind v = Visited \<and> \<not> 0 < vi_amount v then 1 else 0)"
  "vm_spend_per_player (fst (count_visit v acc)) = vm_spend_per_player (fst acc)"
  "vm_cancelled (fst (count_visit v acc)) = vm_cancelled (fst acc) + (if vi_kind v = VisitCancelled then 1 else 0)"
  "vm_no_shows (fst (count_visit v acc)) = vm_no_shows (fst acc) + (if vi_kind v = NoShow then 1 else 0)"
  "vm_upcoming (fst (count_visit v acc)) = vm_upcoming (fst acc) + (if vi_kind v = Upcoming then 1 else 0)"
  "vm_first (fst (count_visit v acc)) = (if vi_kind v = Visited then earlier (vi_starts_at v) (vm_first (fst acc)) else vm_first (fst acc))"
  "vm_last (fst (count_visit v acc)) = (if vi_kind v = Visited then later (vi_starts_at v) (vm_last (fst acc)) else vm_last (fst acc))"
  "snd (count_visit v acc) = (if vi_kind v = Visited \<and> 0 < vi_amount v then wrap_i64 (snd acc + seats v) else snd acc)"
  by (cases acc; cases "vi_kind v"; simp add: count_played_fields; fail)+

lemma count_visit_commute: "count_visit x \<circ> count_visit y = count_visit y \<circ> count_visit x"
proof
  fix acc :: "visit_summary \<times> int"
  have eq: "a = b" if "fst a = fst b" "snd a = snd b" for a b :: "visit_summary \<times> int"
    using that by (simp add: prod_eq_iff)
  have "count_visit x (count_visit y acc) = count_visit y (count_visit x acc)"
  proof (intro eq visit_summary.equality)
    show "snd (count_visit x (count_visit y acc)) = snd (count_visit y (count_visit x acc))"
      by (simp add: count_visit_fields ac_simps)
  qed (simp_all add: count_visit_fields earlier_commute [of "vi_starts_at x"] later_commute [of "vi_starts_at x"] ac_simps)
  then show "(count_visit x \<circ> count_visit y) acc = (count_visit y \<circ> count_visit x) acc" by simp
qed

lemma summarize_permuted:
  assumes "mset xs = mset ys"
  shows "summarize xs t = summarize ys t"
proof -
  have "fold count_visit xs = fold count_visit ys"
    using count_visit_commute assms by (rule fold_multiset_equiv)
  then show ?thesis by (simp only: summarize_def)
qed

lemma build_summary:
  "vh_summary (build_with_checkins own guests attended now limit t) =
     summarize (map (own_visit now attended) own @ map as_guest guests) t"
proof -
  let ?rows = "map (own_visit now attended) own @ map as_guest guests"
  have "summarize (sort_by later_visit_first ?rows) t = summarize ?rows t"
    by (rule summarize_permuted) (rule mset_sort_by)
  then show ?thesis by (simp add: build_with_checkins_def Let_def)
qed

section \<open>The page's guests and arrivals\<close>

lemma guest_ids_from:
  "distinct (ids @ filter (\<lambda>i. i \<notin> booked) (map vk_reservation ks)) \<Longrightarrow>
    fold (note_guest booked) ks ids = ids @ filter (\<lambda>i. i \<notin> booked) (map vk_reservation ks)"
  by (induction ks arbitrary: ids) (auto simp: note_guest_def)

lemma guest_ids_distinct:
  "distinct (filter (\<lambda>i. i \<notin> booked) (map vk_reservation ks)) \<Longrightarrow>
    guest_ids booked ks = filter (\<lambda>i. i \<notin> booked) (map vk_reservation ks)"
  using guest_ids_from [of "[]"] by (simp add: guest_ids_def)

section \<open>The sweep's maps\<close>

lemma booked_fold:
  "fold (\<lambda>r m. case rv_customer r of None \<Rightarrow> m | Some c \<Rightarrow> m(c \<mapsto> unwrap_or (m c) [] @ [r])) rs m c =
     (if \<exists>r \<in> set rs. rv_customer r = Some c
      then Some (unwrap_or (m c) [] @ filter (\<lambda>r. rv_customer r = Some c) rs) else m c)"
proof (induction rs arbitrary: m)
  case (Cons r rs)
  show ?case
    by (cases "rv_customer r") (auto simp: Cons.IH unwrap_or_def empty_filter_conv split: option.splits)
qed simp

lemma booked_by_customer_eq:
  "unwrap_or (booked_by_customer rs c) [] = filter (\<lambda>r. rv_customer r = Some c) rs"
  "booked_by_customer rs c = None \<longleftrightarrow> (\<forall>r \<in> set rs. rv_customer r \<noteq> Some c)"
  unfolding booked_by_customer_def booked_fold by (auto simp: unwrap_or_def empty_filter_conv)

lemma bookings_fold_other: "k \<notin> rv_id ` set rs \<Longrightarrow> fold (\<lambda>r m. m(rv_id r \<mapsto> r)) rs m k = m k"
  by (induction rs arbitrary: m) auto

lemma bookings_fold_in:
  "distinct (map rv_id rs) \<Longrightarrow> r \<in> set rs \<Longrightarrow> fold (\<lambda>r m. m(rv_id r \<mapsto> r)) rs m (rv_id r) = Some r"
  by (induction rs arbitrary: m) (auto simp: bookings_fold_other)

lemma bookings_by_id_in: "distinct (map rv_id rs) \<Longrightarrow> r \<in> set rs \<Longrightarrow> bookings_by_id rs (rv_id r) = Some r"
  by (simp add: bookings_by_id_def bookings_fold_in)

definition own_arrival :: "(customer_id \<rightharpoonup> reservation list) \<Rightarrow> customer_id \<Rightarrow> visit_checkin \<Rightarrow> bool" where
  "own_arrival booked c k \<longleftrightarrow> vk_reservation k \<in> rv_id ` set (unwrap_or (booked c) [])"

lemma note_arrival_effect:
  "unwrap_or (fst (note_arrival booked by_id k acc) c) {} = unwrap_or (fst acc c) {} \<union>
     (if vk_customer k = Some c \<and> own_arrival booked c k then {vk_reservation k} else {})"
  "unwrap_or (snd (note_arrival booked by_id k acc) c) [] = unwrap_or (snd acc c) [] @
     (if vk_customer k = Some c \<and> \<not> own_arrival booked c k
      then (case by_id (vk_reservation k) of None \<Rightarrow> [] | Some r \<Rightarrow> [r]) else [])"
  by (cases "vk_customer k"; cases "by_id (vk_reservation k)"; simp add: note_arrival_def own_arrival_def; fail)+

lemma arrivals_fold:
  "unwrap_or (fst (fold (note_arrival booked by_id) ks acc) c) {} = unwrap_or (fst acc c) {} \<union>
     vk_reservation ` {k \<in> set ks. vk_customer k = Some c \<and> own_arrival booked c k}"
  by (induction ks arbitrary: acc) (auto simp: note_arrival_effect)

lemma guests_fold:
  "unwrap_or (snd (fold (note_arrival booked by_id) ks acc) c) [] = unwrap_or (snd acc c) [] @
     List.map_filter (\<lambda>k. by_id (vk_reservation k))
       (filter (\<lambda>k. vk_customer k = Some c \<and> \<not> own_arrival booked c k) ks)"
  by (induction ks arbitrary: acc) (simp_all add: note_arrival_effect map_filter_simps split: option.split)

lemma map_filter_known: "(\<And>x. x \<in> set xs \<Longrightarrow> f x = Some (g x)) \<Longrightarrow> List.map_filter f xs = map g xs"
  by (induction xs) (simp_all add: map_filter_simps)

text \<open>
  C18. One number under one label: for a customer whose history both reads reach the end of, the
  nightly sweep writes the very figures the customer's own page shows, however upstream orders
  its answers and the hash maps their keys, as long as nobody was checked in twice at one booking
  of somebody else.
\<close>

theorem sweep_agrees_with_the_page:
  assumes "distinct (map rv_id rs)" "length rs < MAX_SWEEP_ROWS" "length ks < MAX_SWEEP_ROWS"
    and "own = filter (\<lambda>r. rv_customer r = Some c) rs" "length own < MAX_VISIT_HISTORY_ROWS"
    and "mset seen = mset (filter (\<lambda>k. vk_customer k = Some c) ks)"
    and "vk_reservation ` set seen \<subseteq> rv_id ` set rs"
    and "distinct (filter (\<lambda>i. i \<notin> rv_id ` set own) (map vk_reservation seen))"
    and "length (filter (\<lambda>i. i \<notin> rv_id ` set own) (map vk_reservation seen)) \<le> MAX_GUEST_VISIT_LOOKUPS"
    and "\<forall>r \<in> set rs. fetch (rv_id r) = Inr r"
    and "set (walk (booked_by_customer rs)) = dom (booked_by_customer rs)"
    and "set (walk (snd (sweep_arrivals rs ks))) = dom (snd (sweep_arrivals rs ks))" "own \<noteq> [] \<or> seen \<noteq> []"
    and "sweep walk now (pages_of SWEEP_PAGE rs) (pages_of SWEEP_PAGE ks) store = Some (answer, rows)"
    and "get_customer_visits (Inr ()) limit now (pages_of VISIT_HISTORY_PAGE own) (Inr seen) fetch (Inr ladder)
      = Some (Inr report)"
  shows "\<exists>row \<in> set rows. cs_customer row = c \<and> cs_summary row = vh_summary (vp_history report)
    \<and> \<not> cs_truncated row \<and> \<not> vh_truncated (vp_history report)"
proof -
  let ?booked = "booked_by_customer rs" and ?ids = "rv_id ` set own"
  let ?seen = "sweep_arrivals rs ks"
  let ?mine = "filter (\<lambda>k. vk_customer k = Some c) ks" and ?guest = "\<lambda>k. vk_reservation k \<notin> ?ids"
  let ?booking = "\<lambda>i. the (bookings_by_id rs i)"
  have caps: "0 < SWEEP_PAGE" "MAX_SWEEP_ROWS \<le> 4294967295" "0 < VISIT_HISTORY_PAGE" "MAX_VISIT_HISTORY_ROWS \<le> 4294967295"
    by (simp_all add: SWEEP_PAGE_def MAX_SWEEP_ROWS_def VISIT_HISTORY_PAGE_def MAX_VISIT_HISTORY_ROWS_def)
  have rows: "rows = summary_rows walk rs ks now False"
    using assms(14) unfolding sweep_def read_whole [OF caps(1) assms(2) caps(2)] read_whole [OF caps(1) assms(3) caps(2)]
    by (auto simp: Let_def split: sum.splits)
  have own: "unwrap_or (?booked c) [] = own" unfolding assms(4) by (rule booked_by_customer_eq)
  have set_seen: "set seen = set ?mine" using assms(6) by (rule mset_eq_setD)
  have known: "bookings_by_id rs i = Some (?booking i) \<and> fetch i = Inr (?booking i)" if "i \<in> rv_id ` set rs" for i
    using that bookings_by_id_in [OF assms(1)] assms(10) by auto
  have mine: "own_arrival ?booked c k \<longleftrightarrow> \<not> ?guest k" for k by (simp add: own_arrival_def own)
  have attended: "unwrap_or (fst ?seen c) {} = attended_at ?ids seen"
    using set_seen by (auto simp: sweep_arrivals_def arrivals_fold mine attended_at_def)
  have "List.map_filter (\<lambda>k. bookings_by_id rs (vk_reservation k)) (filter ?guest ?mine)
      = map (\<lambda>k. ?booking (vk_reservation k)) (filter ?guest ?mine)"
    by (rule map_filter_known) (use known assms(7) set_seen in auto)
  then have guests: "unwrap_or (snd ?seen c) [] = map (\<lambda>k. ?booking (vk_reservation k)) (filter ?guest ?mine)"
    by (simp add: sweep_arrivals_def guests_fold mine conj_commute)
  let ?pg = "filter (\<lambda>i. i \<notin> ?ids) (map vk_reservation seen)"
  have pg: "load_guest_reservations fetch (take MAX_GUEST_VISIT_LOOKUPS ?pg) = map ?booking ?pg"
  proof -
    have "(case fetch i of Inl _ \<Rightarrow> None | Inr r \<Rightarrow> Some r) = Some (?booking i)" if "i \<in> set ?pg" for i
      using that known [of i] assms(7) by auto
    from map_filter_known [OF this] show ?thesis
      using assms(9) unfolding load_guest_reservations_def by (simp only: take_all)
  qed
  have report: "vp_history report = build_with_checkins own (map ?booking ?pg) (attended_at ?ids seen) now
      (clamp 1 MAX_VISIT_HISTORY_LIMIT (unwrap_or limit DEFAULT_VISIT_HISTORY_LIMIT)) False"
    using assms(15,9) unfolding get_customer_visits_def read_whole [OF caps(3) assms(5) caps(4)]
    by (auto simp: Let_def guest_ids_distinct [OF assms(8)] pg)
  have "mset (map ?booking ?pg) = image_mset (\<lambda>k. ?booking (vk_reservation k)) (filter_mset ?guest (mset seen))"
    by (simp add: filter_map comp_def flip: mset_filter)
  also have "\<dots> = mset (map (\<lambda>k. ?booking (vk_reservation k)) (filter ?guest ?mine))"
    by (simp only: mset_map mset_filter assms(6))
  finally have "mset (map ?booking ?pg) = mset (map (\<lambda>k. ?booking (vk_reservation k)) (filter ?guest ?mine))" .
  then have same: "summarize (map (own_visit now att) own @ map as_guest (map ?booking ?pg)) False =
      summarize (map (own_visit now att) own @ map as_guest (map (\<lambda>k. ?booking (vk_reservation k)) (filter ?guest ?mine))) False" for att
    by (intro summarize_permuted) (simp only: mset_append mset_map)
  let ?row = "summary_row ?booked ?seen now False c"
  have row: "cs_customer ?row = c" "\<not> cs_truncated ?row" by (simp_all add: summary_row_def Let_def)
  have figures: "cs_summary ?row = vh_summary (vp_history report)"
    by (simp only: summary_row_def Let_def report build_summary own attended guests same customer_summary.select_convs)
  have "c \<in> set (walk ?booked @ filter (\<lambda>c. ?booked c = None) (walk (snd ?seen)))"
  proof (cases "own = []")
    case True
    then obtain k where "k \<in> set ?mine" using assms(13) set_seen by (metis list.set_sel(1))
    with True have "unwrap_or (snd ?seen c) [] \<noteq> []" unfolding guests by (auto simp: filter_empty_conv)
    then have "snd ?seen c \<noteq> None" by (cases "snd ?seen c") (auto simp: unwrap_or_def)
    moreover have "?booked c = None" using True unfolding assms(4) booked_by_customer_eq(2) by (simp add: filter_empty_conv)
    ultimately show ?thesis using assms(12) by auto
  next
    case False
    then have "?booked c \<noteq> None" unfolding assms(4) booked_by_customer_eq(2) by (simp add: filter_empty_conv)
    then show ?thesis using assms(11) by auto
  qed
  then have "?row \<in> set rows" unfolding rows summary_rows_def Let_def set_map by blast
  moreover have "\<not> vh_truncated (vp_history report)" unfolding report by (simp add: build_with_checkins_def Let_def)
  ultimately show ?thesis using row figures by blast
qed

section \<open>A regular and a guest\<close>

definition played_booking :: "str \<Rightarrow> str \<Rightarrow> instant \<Rightarrow> reservation" where
  "played_booking rid c t = (reservation_reconstitute rid rid None None None ''completed'' t t 4 None None)
     \<lparr>rv_customer := Some c, rv_billing := no_billing\<lparr>bl_price := 40000\<rparr>\<rparr>"

definition seat_of :: "str \<Rightarrow> int \<Rightarrow> str \<Rightarrow> visit_checkin" where
  "seat_of rid seat c = \<lparr>vk_reservation = rid, vk_player_index = seat, vk_customer = Some c, vk_player_name = c,
     vk_played_on = 1, vk_checked_in_at = 5, vk_checked_in_by = None\<rparr>"

definition club_bookings :: "reservation list" where
  "club_bookings = [played_booking ''b2'' ''c2'' 20, played_booking ''b1'' ''c1'' 10]"

definition fetch_booking :: "reservation_id \<Rightarrow> reservation result" where
  "fetch_booking rid = (case find (\<lambda>r. rv_id r = rid) club_bookings of Some r \<Rightarrow> Inr r | None \<Rightarrow> Inl (NotFound rid))"

definition walk_customers :: "(customer_id \<rightharpoonup> reservation list) \<Rightarrow> customer_id list" where
  "walk_customers m = filter (\<lambda>c. m c \<noteq> None) [''c1'', ''c2'']"

text \<open>The two reads, with the listings already whole.\<close>

definition page_of :: "visit_checkin list \<Rightarrow> visit_report result option" where
  "page_of seen = get_customer_visits (Inr ()) None 50 (pages_of VISIT_HISTORY_PAGE [played_booking ''b1'' ''c1'' 10])
     (Inr seen) fetch_booking (Inr [])"

definition swept :: "visit_checkin list \<Rightarrow> (summary_refresh result \<times> customer_summary list) option" where
  "swept ks = sweep walk_customers 50 (pages_of SWEEP_PAGE club_bookings) (pages_of SWEEP_PAGE ks) (\<lambda>rows. Inr (length rows))"

lemma read_sample_page: "read_pages VISIT_HISTORY_PAGE MAX_VISIT_HISTORY_ROWS (pages_of VISIT_HISTORY_PAGE [a]) [] = Some (Inr ([a], False))"
  by (rule read_whole) (simp_all add: VISIT_HISTORY_PAGE_def MAX_VISIT_HISTORY_ROWS_def)

lemma read_sample_sweep: "length xs \<le> 9 \<Longrightarrow> read_pages SWEEP_PAGE MAX_SWEEP_ROWS (pages_of SWEEP_PAGE xs) [] = Some (Inr (xs, False))"
  by (rule read_whole) (simp_all add: SWEEP_PAGE_def MAX_SWEEP_ROWS_def)

lemma swept_eq: "length ks \<le> 9 \<Longrightarrow> swept ks = Some (Inr \<lparr>sf_reservations = 2, sf_checkins = length ks,
     sf_customers = length (summary_rows walk_customers club_bookings ks 50 False), sf_truncated = False\<rparr>,
     summary_rows walk_customers club_bookings ks 50 False)"
  by (simp add: swept_def sweep_def read_sample_sweep Let_def club_bookings_def)

definition page_shown :: "visit_checkin list \<Rightarrow> visit_report" where
  "page_shown seen = (let ids = guest_ids {''b1''} seen;
      history = build_with_checkins [played_booking ''b1'' ''c1'' 10]
        (load_guest_reservations fetch_booking (take MAX_GUEST_VISIT_LOOKUPS ids)) (attended_at {''b1''} seen) 50 50
        (MAX_GUEST_VISIT_LOOKUPS < length ids)
    in \<lparr>vp_history = history, vp_grade = NotConfigured\<rparr>)"

lemma played_booking_id: "rv_id (played_booking rid c t) = rid"
  by (simp add: played_booking_def reservation_reconstitute_def)

lemma page_of_eq: "page_of seen = Some (Inr (page_shown seen))"
  by (simp add: page_of_def get_customer_visits_def read_sample_page Let_def page_shown_def grade_for_def played_booking_id
      clamp_def MAX_VISIT_HISTORY_LIMIT_def DEFAULT_VISIT_HISTORY_LIMIT_def unwrap_or_def)

text \<open>A customer checked in at two seats of somebody else's booking has one visit on the page and
  two in the list the desk calls from.\<close>

lemma guest_at_two_seats_counted_twice:
  "(case page_of [seat_of ''b2'' 1 ''c1'', seat_of ''b2'' 2 ''c1''] of
      Some (Inr p) \<Rightarrow> vm_visits (vh_summary (vp_history p)) = 2 | _ \<Rightarrow> False)"
  "(case swept [seat_of ''b2'' 1 ''c1'', seat_of ''b2'' 2 ''c1''] of
      Some (_, row # _) \<Rightarrow> cs_customer row = ''c1'' \<and> vm_visits (cs_summary row) = 3 | _ \<Rightarrow> False)"
proof -
  have "vm_visits (vh_summary (vp_history (page_shown [seat_of ''b2'' 1 ''c1'', seat_of ''b2'' 2 ''c1'']))) = 2" by code_simp
  then show "(case page_of [seat_of ''b2'' 1 ''c1'', seat_of ''b2'' 2 ''c1''] of
      Some (Inr p) \<Rightarrow> vm_visits (vh_summary (vp_history p)) = 2 | _ \<Rightarrow> False)" by (simp only: page_of_eq option.case sum.case)
  have "case summary_rows walk_customers club_bookings [seat_of ''b2'' 1 ''c1'', seat_of ''b2'' 2 ''c1''] 50 False of
      row # _ \<Rightarrow> cs_customer row = ''c1'' \<and> vm_visits (cs_summary row) = 3 | _ \<Rightarrow> False" by code_simp
  then show "(case swept [seat_of ''b2'' 1 ''c1'', seat_of ''b2'' 2 ''c1''] of
      Some (_, row # _) \<Rightarrow> cs_customer row = ''c1'' \<and> vm_visits (cs_summary row) = 3 | _ \<Rightarrow> False)"
    by (simp add: swept_eq)
qed

lemma sweep_agrees_with_the_page_witness:
  "(\<lambda>answer report. \<exists>row \<in> set (summary_rows walk_customers club_bookings [seat_of ''b2'' 1 ''c1''] 50 False).
      cs_customer row = ''c1'' \<and> cs_summary row = vh_summary (vp_history report)
      \<and> \<not> cs_truncated row \<and> \<not> vh_truncated (vp_history report))
    (fst (the (swept [seat_of ''b2'' 1 ''c1'']))) (page_shown [seat_of ''b2'' 1 ''c1''])"
proof -
  let ?ks = "[seat_of ''b2'' 1 ''c1'']" and ?own = "[played_booking ''b1'' ''c1'' 10]"
  have ids: "map rv_id club_bookings = [''b2'', ''b1'']" "map rv_customer club_bookings = [Some ''c2'', Some ''c1'']" by code_simp+
  have own: "?own = filter (\<lambda>r. rv_customer r = Some ''c1'') club_bookings"
    by (simp add: club_bookings_def played_booking_def)
  have booked: "booked_by_customer club_bookings = [''c2'' \<mapsto> [played_booking ''b2'' ''c2'' 20], ''c1'' \<mapsto> ?own]"
    by (simp add: booked_by_customer_def club_bookings_def played_booking_def unwrap_or_def)
  have guests: "snd (sweep_arrivals club_bookings ?ks) = [''c1'' \<mapsto> [played_booking ''b2'' ''c2'' 20]]"
    unfolding sweep_arrivals_def booked
    by (simp add: note_arrival_def seat_of_def unwrap_or_def bookings_by_id_def club_bookings_def played_booking_id)
  have sweep: "sweep walk_customers 50 (pages_of SWEEP_PAGE club_bookings) (pages_of SWEEP_PAGE ?ks) (\<lambda>rows. Inr (length rows))
      = Some (fst (the (swept ?ks)), summary_rows walk_customers club_bookings ?ks 50 False)"
    by (simp add: swept_eq flip: swept_def)
  have page: "get_customer_visits (Inr ()) None 50 (pages_of VISIT_HISTORY_PAGE ?own) (Inr ?ks) fetch_booking (Inr [])
      = Some (Inr (page_shown ?ks))" using page_of_eq by (simp add: page_of_def)
  have fetch: "\<forall>r \<in> set club_bookings. fetch_booking (rv_id r) = Inr r"
    by (simp add: fetch_booking_def club_bookings_def played_booking_id)
  have walks: "set (walk_customers (booked_by_customer club_bookings)) = dom (booked_by_customer club_bookings)"
    "set (walk_customers (snd (sweep_arrivals club_bookings ?ks))) = dom (snd (sweep_arrivals club_bookings ?ks))"
    unfolding booked guests by (auto simp: walk_customers_def)
  show ?thesis
    by (rule sweep_agrees_with_the_page [OF _ _ _ own _ _ _ _ _ fetch walks _ sweep page])
      (simp_all add: MAX_SWEEP_ROWS_def MAX_VISIT_HISTORY_ROWS_def MAX_GUEST_VISIT_LOOKUPS_def
        club_bookings_def played_booking_id seat_of_def)
qed

text \<open>A check-in listing that is cut off at its cap is not told from one that was read to the end.\<close>

lemma cut_checkins_look_whole:
  assumes "read_pages SWEEP_PAGE MAX_SWEEP_ROWS listing [] = Some (Inr (rs, False))"
    and "read_pages SWEEP_PAGE MAX_SWEEP_ROWS checkin_pages [] = Some (Inr (ks, True))"
    and "store (summary_rows walk rs ks now False) = Inr written"
  shows "\<exists>r rows. sweep walk now listing checkin_pages store = Some (Inr r, rows) \<and> \<not> sf_truncated r
    \<and> (\<forall>row \<in> set rows. \<not> cs_truncated row)"
  using assms by (auto simp: sweep_def summary_rows_def summary_row_def Let_def)

end
