(* ===== verification/CustomerSummariesCorrect.thy ===== *)
theory CustomerSummariesCorrect
  imports CustomerSummaries CustomerVisitsCorrect
begin

text \<open>
  A ladder that is saved reads back as it was arranged, a refresh puts its figures on the call list,
  and the list's pages are the segment the desk asked for.
\<close>

section \<open>The ladder reads back\<close>

definition tenant_rungs :: "collation \<Rightarrow> str \<Rightarrow> rung_row list \<Rightarrow> rung_row list" where
  "tenant_rungs ck tenant rows = filter (\<lambda>r. same_text ck (rr_tenant r) tenant) rows"

text \<open>The table's unique key: one row per tenant and name, as the collation compares them.\<close>

definition rungs_once :: "collation \<Rightarrow> rung_row list \<Rightarrow> bool" where
  "rungs_once ck rows \<longleftrightarrow> distinct (map (\<lambda>r. (ck (rr_tenant r), ck (rr_name r))) rows)"

definition rung_of :: "rung_row \<Rightarrow> int \<times> grade_rule" where
  "rung_of r = (rr_position r, \<lparr>gu_name = rr_name r, gu_min_visits = rr_min_visits r,
     gu_min_spend = rr_min_spend r, gu_min_total = rr_min_total r\<rparr>)"

definition rule_stands :: "grade_rule \<Rightarrow> bool" where
  "rule_stands r \<longleftrightarrow> grade_rule_try_new (gu_name r) (gu_min_visits r) (gu_min_spend r) (gu_min_total r) = Inr r"

lemma accepted_rule_stands: "grade_rule_try_new name v s t = Inr r \<Longrightarrow> rule_stands r"
  by (auto simp: rule_stands_def grade_rule_try_new_def split: if_splits)

lemma read_rungs_standing: "\<forall>r \<in> set rows. rule_stands (snd (rung_of r)) \<Longrightarrow> read_rungs rows = Inr (map (snd \<circ> rung_of) rows)"
  by (induction rows) (simp_all add: rule_stands_def rung_of_def)

text \<open>What is left of a tenant's rows while the ladder is written: the rungs written so far, exactly
  as arranged, and rows spelled as a rung that is still to come.\<close>

definition ladder_written :: "collation \<Rightarrow> str \<Rightarrow> (int \<times> grade_rule) list \<Rightarrow> str set \<Rightarrow> rung_row list \<Rightarrow> bool" where
  "ladder_written ck tenant written coming rows \<longleftrightarrow> rungs_once ck rows
     \<and> set written \<subseteq> rung_of ` set (tenant_rungs ck tenant rows)
     \<and> (\<forall>r \<in> set (tenant_rungs ck tenant rows). rung_of r \<in> set written \<or> rr_name r \<in> coming)"

lemma upsert_rung_rows:
  assumes "rungs_once ck rows"
  shows "rungs_once ck (upsert_rung ck tenant pr rows)"
    "filter (\<lambda>r. \<not> same_text ck (rr_tenant r) tenant) (upsert_rung ck tenant pr rows)
      = filter (\<lambda>r. \<not> same_text ck (rr_tenant r) tenant) rows"
proof -
  obtain p rule where pr: "pr = (p, rule)" by fastforce
  show "rungs_once ck (upsert_rung ck tenant pr rows)"
  proof (cases "list_ex (is_rung ck tenant (gu_name rule)) rows")
    case True
    then show ?thesis using assms by (simp add: upsert_rung_def pr rungs_once_def comp_def if_distrib cong: map_cong if_cong)
  next
    case False
    then show ?thesis
      using assms by (auto simp: upsert_rung_def pr rungs_once_def list_ex_iff is_rung_def same_text_def)
  qed
  show "filter (\<lambda>r. \<not> same_text ck (rr_tenant r) tenant) (upsert_rung ck tenant pr rows)
      = filter (\<lambda>r. \<not> same_text ck (rr_tenant r) tenant) rows"
  proof -
    have "filter (\<lambda>r. \<not> same_text ck (rr_tenant r) tenant)
        (map (\<lambda>r. if is_rung ck tenant (gu_name rule) r then r\<lparr>rr_position := p, rr_min_visits := gu_min_visits rule,
          rr_min_spend := gu_min_spend rule, rr_min_total := gu_min_total rule\<rparr> else r) rows)
      = filter (\<lambda>r. \<not> same_text ck (rr_tenant r) tenant) rows"
      by (induction rows) (auto simp: is_rung_def)
    then show ?thesis by (simp add: upsert_rung_def pr same_text_def)
  qed
qed

lemma upsert_rung_written:
  assumes "ladder_written ck tenant written (insert (gu_name rule) coming) rows"
    and "\<forall>w \<in> set written. ck (gu_name (snd w)) \<noteq> ck (gu_name rule)" "\<forall>n \<in> coming. ck n \<noteq> ck (gu_name rule)"
  shows "ladder_written ck tenant (written @ [(p, rule)]) coming (upsert_rung ck tenant (p, rule) rows)"
proof -
  let ?is = "is_rung ck tenant (gu_name rule)"
  define put where "put = (\<lambda>r. if ?is r then r\<lparr>rr_position := p, rr_min_visits := gu_min_visits rule,
      rr_min_spend := gu_min_spend rule, rr_min_total := gu_min_total rule\<rparr> else r)"
  from assms(1) have once: "rungs_once ck rows" and kept: "set written \<subseteq> rung_of ` set (tenant_rungs ck tenant rows)"
    and all: "\<forall>r \<in> set (tenant_rungs ck tenant rows). rung_of r \<in> set written \<or> rr_name r = gu_name rule \<or> rr_name r \<in> coming"
    by (auto simp: ladder_written_def)
  have spelled: "rr_name r = gu_name rule" if "r \<in> set rows" "?is r" for r
  proof -
    from that all have "rung_of r \<in> set written \<or> rr_name r = gu_name rule \<or> rr_name r \<in> coming"
      by (simp add: tenant_rungs_def is_rung_def)
    moreover have "ck (gu_name (snd (rung_of r))) = ck (gu_name rule)" using that(2)
      by (simp add: rung_of_def is_rung_def same_text_def)
    ultimately show ?thesis using assms(2,3) by (auto simp: rung_of_def)
  qed
  have put: "rung_of (put r) = (if ?is r then (p, rule) else rung_of r)" "rr_tenant (put r) = rr_tenant r" if "r \<in> set rows" for r
    using spelled [OF that] by (simp_all add: rung_of_def put_def)
  have other: "\<not> ?is r" if "rung_of r \<in> set written" for r
    using that assms(2) by (auto simp: is_rung_def same_text_def rung_of_def)
  show ?thesis
  proof (cases "list_ex ?is rows")
    case True
    then have new: "upsert_rung ck tenant (p, rule) rows = map put rows" by (simp add: upsert_rung_def put_def)
    then have mine: "set (tenant_rungs ck tenant (upsert_rung ck tenant (p, rule) rows)) = put ` set (tenant_rungs ck tenant rows)"
      using put(2) by (auto simp: tenant_rungs_def)
    obtain r0 where r0: "r0 \<in> set (tenant_rungs ck tenant rows)" "?is r0" "r0 \<in> set rows"
      using True by (auto simp: list_ex_iff tenant_rungs_def is_rung_def)
    have "(p, rule) \<in> rung_of ` put ` set (tenant_rungs ck tenant rows)"
      by (rule image_eqI [of _ _ "put r0"]) (use put(1) [OF r0(3)] r0(1,2) in auto)
    moreover have "w \<in> rung_of ` put ` set (tenant_rungs ck tenant rows)" if w: "w \<in> set written" for w
    proof -
      from kept w obtain r where r: "r \<in> set (tenant_rungs ck tenant rows)" "w = rung_of r" by auto
      then have "\<not> ?is r" using other w by simp
      then have "w = rung_of (put r)" using r(2) by (simp add: put_def)
      then show ?thesis using r(1) by (intro image_eqI [of w rung_of "put r"] imageI)
    qed
    moreover have "rung_of (put r) \<in> set (written @ [(p, rule)]) \<or> rr_name (put r) \<in> coming"
      if "r \<in> set (tenant_rungs ck tenant rows)" for r
    proof (cases "?is r")
      case True then show ?thesis using put(1) [of r] that by (simp add: tenant_rungs_def)
    next
      case False
      then have "rr_name r \<noteq> gu_name rule" using that by (auto simp: tenant_rungs_def is_rung_def same_text_def)
      then show ?thesis using all that False by (auto simp: put_def)
    qed
    ultimately show ?thesis
      using upsert_rung_rows(1) [OF once] unfolding ladder_written_def mine by auto
  next
    case False
    let ?new = "\<lparr>rr_tenant = tenant, rr_name = gu_name rule, rr_position = p, rr_min_visits = gu_min_visits rule,
        rr_min_spend = gu_min_spend rule, rr_min_total = gu_min_total rule\<rparr>"
    from False have "upsert_rung ck tenant (p, rule) rows = rows @ [?new]" by (simp add: upsert_rung_def)
    then have mine: "set (tenant_rungs ck tenant (upsert_rung ck tenant (p, rule) rows)) = insert ?new (set (tenant_rungs ck tenant rows))"
      by (auto simp: tenant_rungs_def same_text_def)
    have new: "rung_of ?new = (p, rule)" by (simp add: rung_of_def)
    have "rung_of r \<in> set written \<or> rr_name r \<in> coming" if r: "r \<in> set (tenant_rungs ck tenant rows)" for r
    proof -
      have "rr_name r \<noteq> gu_name rule" using False r by (auto simp: list_ex_iff tenant_rungs_def is_rung_def same_text_def)
      then show ?thesis using all r by auto
    qed
    then show ?thesis
      using upsert_rung_rows(1) [OF once] kept new unfolding ladder_written_def mine by auto
  qed
qed

lemma ladder_fold:
  assumes "ladder_written ck tenant written (gu_name ` snd ` set prs) rows"
    and "distinct (map (\<lambda>w. ck (gu_name (snd w))) (written @ prs))"
  shows "ladder_written ck tenant (written @ prs) {} (fold (upsert_rung ck tenant) prs rows)"
  using assms
proof (induction prs arbitrary: written rows)
  case (Cons pr prs)
  obtain p rule where pr: "pr = (p, rule)" by fastforce
  have "ck (gu_name rule) \<notin> (\<lambda>w. ck (gu_name (snd w))) ` set written"
    "ck (gu_name rule) \<notin> (\<lambda>w. ck (gu_name (snd w))) ` set prs" using Cons.prems(2) by (simp_all add: pr)
  then have "\<forall>w \<in> set written. ck (gu_name (snd w)) \<noteq> ck (gu_name rule)"
    and "\<forall>w \<in> set prs. ck (gu_name (snd w)) \<noteq> ck (gu_name rule)" unfolding image_iff by metis+
  then have "\<forall>w \<in> set written. ck (gu_name (snd w)) \<noteq> ck (gu_name rule)"
    and "\<forall>n \<in> gu_name ` snd ` set prs. ck n \<noteq> ck (gu_name rule)" by blast+
  then have "ladder_written ck tenant (written @ [(p, rule)]) (gu_name ` snd ` set prs) (upsert_rung ck tenant (p, rule) rows)"
    using Cons.prems(1) by (intro upsert_rung_written) (simp_all add: pr)
  from Cons.IH [OF this] Cons.prems(2) show ?case by (simp add: pr)
qed simp

definition ladder_positions :: "grade_rule list \<Rightarrow> (int \<times> grade_rule) list" where
  "ladder_positions rules = zip (map int [0..<length rules]) rules"

lemma ladder_positions_snd: "map snd (ladder_positions rules) = rules" "distinct (map fst (ladder_positions rules))"
  by (simp_all add: ladder_positions_def distinct_map)

lemma ladder_positions_sorted: "sorted_wrt (key_le fst) (ladder_positions rules)"
  by (simp add: ladder_positions_def sorted_wrt_iff_nth_less key_le_def)

lemma position_order_key: "position_order = key_le rr_position"
  by (simp add: fun_eq_iff position_order_def key_le_def)

lemma rows_kept_start:
  assumes "rungs_once ck rows"
  shows "ladder_written ck tenant [] (gu_name ` set rules)
    (filter (\<lambda>r. \<not> (same_text ck (rr_tenant r) tenant
       \<and> list_ex (same_text ck (rr_name r)) (dropped_names ck tenant rules rows))) rows)"
proof -
  have "rr_name r \<in> gu_name ` set rules" if "r \<in> set rows" "same_text ck (rr_tenant r) tenant"
    "\<not> list_ex (same_text ck (rr_name r)) (dropped_names ck tenant rules rows)" for r
  proof (rule ccontr)
    assume "rr_name r \<notin> gu_name ` set rules"
    then have "rr_name r \<in> set (dropped_names ck tenant rules rows)" using that(1,2) by (auto simp: dropped_names_def)
    then show False using that(3) by (auto simp: list_ex_iff same_text_def)
  qed
  then show ?thesis
    using assms by (auto simp: ladder_written_def tenant_rungs_def rungs_once_def distinct_map_filter)
qed

lemma tenant_ladder_listed:
  assumes "rungs_once ck rows" "rung_of ` set (tenant_rungs ck tenant rows) = set (ladder_positions rules)"
  shows "map rung_of (sort_by position_order (tenant_rungs ck tenant rows)) = ladder_positions rules"
proof -
  let ?mine = "tenant_rungs ck tenant rows"
  have "distinct (map (\<lambda>r. (ck (rr_tenant r), ck (rr_name r))) ?mine)"
    using assms(1) by (simp add: rungs_once_def tenant_rungs_def distinct_map_filter)
  then have keys: "inj_on (\<lambda>r. (ck (rr_tenant r), ck (rr_name r))) (set ?mine)" and "distinct ?mine"
    by (simp_all add: distinct_map)
  have "inj_on rung_of (set ?mine)"
  proof (rule inj_onI)
    fix x y
    assume x: "x \<in> set ?mine" and y: "y \<in> set ?mine" and "rung_of x = rung_of y"
    then have "(ck (rr_tenant x), ck (rr_name x)) = (ck (rr_tenant y), ck (rr_name y))"
      by (simp add: rung_of_def tenant_rungs_def same_text_def)
    from inj_onD [OF keys this x y] show "x = y" .
  qed
  with \<open>distinct ?mine\<close> have "distinct (map rung_of ?mine)" by (simp add: distinct_map)
  moreover have "distinct (ladder_positions rules)" using ladder_positions_snd(2) [of rules] by (simp only: distinct_map)
  ultimately have same: "mset (map rung_of ?mine) = mset (ladder_positions rules)"
    using assms(2) set_eq_iff_mset_eq_distinct by (metis list.set_map)
  show ?thesis
  proof (rule by_key.sorted_unique)
    show "sorted_wrt (key_le fst) (map rung_of (sort_by position_order ?mine))"
      using by_key.sorted_sort_by [of rr_position ?mine] by (simp add: position_order_key sorted_wrt_map key_le_def [abs_def] rung_of_def)
    show "mset (map rung_of (sort_by position_order ?mine)) = mset (ladder_positions rules)"
      using same by simp
    fix x y
    assume "x \<in> set (map rung_of (sort_by position_order ?mine))" "y \<in> set (map rung_of (sort_by position_order ?mine))"
      and "key_le fst x y" "key_le fst y x"
    then have "x \<in> set (ladder_positions rules)" "y \<in> set (ladder_positions rules)" "fst x = fst y"
      using assms(2) by (auto simp: key_le_def)
    then show "x = y" using ladder_positions_snd(2) [of rules] by (auto simp: distinct_map dest: inj_onD)
  qed (rule ladder_positions_sorted)
qed

lemma rows_kept_other:
  "rungs_once ck rows \<Longrightarrow> filter (\<lambda>r. \<not> same_text ck (rr_tenant r) tenant) (fold (upsert_rung ck tenant) prs rows)
    = filter (\<lambda>r. \<not> same_text ck (rr_tenant r) tenant) rows"
  by (induction prs arbitrary: rows) (simp_all add: upsert_rung_rows)

text \<open>
  C20. A club's ladder is a round trip through its table: whatever the club had saved before, the
  rungs it arranges are read back as they were, in their order, as long as the database can tell
  their names apart; and no other club's rungs are touched.
\<close>

theorem saved_ladder_reads_back:
  assumes "rungs_once ck rows" "distinct (map (ck \<circ> gu_name) rules)" "\<forall>r \<in> set rules. rule_stands r"
    and "replace_customer_grade_rules ck permitted committed tenant rules rows = (Inr answer, rows')"
  shows "answer = rules \<and> get_customer_grade_rules ck tenant rows' = Inr rules \<and> rungs_once ck rows'
    \<and> filter (\<lambda>r. \<not> same_text ck (rr_tenant r) tenant) rows' = filter (\<lambda>r. \<not> same_text ck (rr_tenant r) tenant) rows"
proof -
  let ?start = "filter (\<lambda>r. \<not> (same_text ck (rr_tenant r) tenant
       \<and> list_ex (same_text ck (rr_name r)) (dropped_names ck tenant rules rows))) rows"
  from assms(4) have rows': "answer = rules" "rows' = fold (upsert_rung ck tenant) (ladder_positions rules) ?start"
    by (auto simp: replace_customer_grade_rules_def replace_grade_rows_def ladder_positions_def split: sum.splits)
  have "set rules = snd ` set (ladder_positions rules)" by (metis ladder_positions_snd(1) set_map)
  then have start: "ladder_written ck tenant [] (gu_name ` snd ` set (ladder_positions rules)) ?start"
    using rows_kept_start [OF assms(1)] by metis
  have names: "map (\<lambda>w. ck (gu_name (snd w))) (ladder_positions rules) = map (ck \<circ> gu_name) rules"
    unfolding ladder_positions_snd(1) [of rules, symmetric, THEN arg_cong, of "map (ck \<circ> gu_name)"] by (simp add: comp_def)
  have "ladder_written ck tenant (ladder_positions rules) {} rows'"
    using ladder_fold [OF start] assms(2) by (simp add: names rows')
  then have once: "rungs_once ck rows'" and rungs: "rung_of ` set (tenant_rungs ck tenant rows') = set (ladder_positions rules)"
    by (auto simp: ladder_written_def)
  have ladder: "map rung_of (sort_by position_order (tenant_rungs ck tenant rows')) = ladder_positions rules"
    using once rungs by (rule tenant_ladder_listed)
  have "\<forall>r \<in> set (sort_by position_order (tenant_rungs ck tenant rows')). rule_stands (snd (rung_of r))"
  proof
    fix r
    assume "r \<in> set (sort_by position_order (tenant_rungs ck tenant rows'))"
    then have "snd (rung_of r) \<in> snd ` set (ladder_positions rules)" using rungs by auto
    then show "rule_stands (snd (rung_of r))" using assms(3) by (metis ladder_positions_snd(1) set_map)
  qed
  from read_rungs_standing [OF this]
  have "get_customer_grade_rules ck tenant rows' = Inr (map snd (map rung_of (sort_by position_order (tenant_rungs ck tenant rows'))))"
    by (simp add: get_customer_grade_rules_def tenant_rungs_def)
  then have "get_customer_grade_rules ck tenant rows' = Inr rules" unfolding ladder by (simp only: ladder_positions_snd(1))
  moreover have "filter (\<lambda>r. \<not> same_text ck (rr_tenant r) tenant) rows' = filter (\<lambda>r. \<not> same_text ck (rr_tenant r) tenant) rows"
  proof -
    have "rungs_once ck ?start" using start by (simp add: ladder_written_def)
    from rows_kept_other [OF this, of tenant] show ?thesis unfolding rows'(2) by (simp add: conj_commute cong: conj_cong)
  qed
  ultimately show ?thesis using once rows'(1) by simp
qed

text \<open>A club with two rungs the database cannot tell apart keeps only one of them, though it is told
  that both were saved.\<close>

definition rung :: "str \<Rightarrow> nat \<Rightarrow> grade_rule" where
  "rung name n = \<lparr>gu_name = name, gu_min_visits = n, gu_min_spend = None, gu_min_total = None\<rparr>"

definition caseless :: collation where
  "caseless s = map (\<lambda>c. if of_char c < (97::nat) then of_char c + 32 else of_char c) s"

lemma rungs_alike_are_lost:
  "grade_rules_try_new [rung ''Gold'' 10, rung ''gold'' 5] = Inr [rung ''Gold'' 10, rung ''gold'' 5]"
  "fst (replace_customer_grade_rules caseless (Inr ()) (Inr ()) ''t1'' [rung ''Gold'' 10, rung ''gold'' 5] [])
     = Inr [rung ''Gold'' 10, rung ''gold'' 5]"
  "get_customer_grade_rules caseless ''t1''
     (snd (replace_customer_grade_rules caseless (Inr ()) (Inr ()) ''t1'' [rung ''Gold'' 10, rung ''gold'' 5] []))
     = Inr [rung ''Gold'' 5]"
  by code_simp+

theorem saved_ladder_reads_back_witness:
  "get_customer_grade_rules caseless ''t1'' (snd (replace_customer_grade_rules caseless (Inr ()) (Inr ()) ''t1''
      [rung ''Silver'' 5, rung ''Gold'' 10] (replace_grade_rows caseless ''t1'' [rung ''Gold'' 10, rung ''Bronze'' 1] [])))
    = Inr [rung ''Silver'' 5, rung ''Gold'' 10]"
proof -
  let ?old = "replace_grade_rows caseless ''t1'' [rung ''Gold'' 10, rung ''Bronze'' 1] []"
  have old: "rungs_once caseless ?old" by code_simp
  have names: "distinct (map (caseless \<circ> gu_name) [rung ''Silver'' 5, rung ''Gold'' 10])" by code_simp
  have "rule_stands (rung ''Silver'' 5)" "rule_stands (rung ''Gold'' 10)" by code_simp+
  then have stands: "\<forall>r \<in> set [rung ''Silver'' 5, rung ''Gold'' 10]. rule_stands r" by simp
  have saved: "replace_customer_grade_rules caseless (Inr ()) (Inr ()) ''t1'' [rung ''Silver'' 5, rung ''Gold'' 10] ?old
      = (Inr [rung ''Silver'' 5, rung ''Gold'' 10],
         snd (replace_customer_grade_rules caseless (Inr ()) (Inr ()) ''t1'' [rung ''Silver'' 5, rung ''Gold'' 10] ?old))"
    by (simp add: replace_customer_grade_rules_def)
  show ?thesis using saved_ladder_reads_back [OF old names stands saved] by (elim conjE)
qed

section \<open>What a refresh writes\<close>

definition summaries_once :: "collation \<Rightarrow> summary_table \<Rightarrow> bool" where
  "summaries_once ck rows \<longleftrightarrow> distinct (map (\<lambda>row. (ck (fst row), ck (cs_customer (snd row)))) rows)"

definition carries :: "collation \<Rightarrow> str \<Rightarrow> customer_summary \<Rightarrow> str \<times> customer_summary \<Rightarrow> bool" where
  "carries ck tenant s row \<longleftrightarrow> is_customer ck tenant (cs_customer s) row \<and> cs_summary (snd row) = cs_summary s
     \<and> cs_truncated (snd row) = cs_truncated s"

lemma upsert_summary_once: "summaries_once ck rows \<Longrightarrow> summaries_once ck (upsert_summary ck tenant s rows)"
proof (cases "list_ex (is_customer ck tenant (cs_customer s)) rows")
  case True
  then show "summaries_once ck rows \<Longrightarrow> summaries_once ck (upsert_summary ck tenant s rows)"
    by (simp add: upsert_summary_def summaries_once_def comp_def if_distrib cong: map_cong if_cong)
next
  case False
  then show "summaries_once ck rows \<Longrightarrow> summaries_once ck (upsert_summary ck tenant s rows)"
    by (auto simp: upsert_summary_def summaries_once_def list_ex_iff is_customer_def same_text_def)
qed

lemma upsert_summary_shows: "\<exists>row \<in> set (upsert_summary ck tenant s rows). carries ck tenant s row"
proof (cases "list_ex (is_customer ck tenant (cs_customer s)) rows")
  case True
  then obtain row where row: "row \<in> set rows" "is_customer ck tenant (cs_customer s) row" by (auto simp: list_ex_iff)
  let ?new = "(fst row, (snd row)\<lparr>cs_summary := cs_summary s, cs_truncated := cs_truncated s, cs_computed_at := cs_computed_at s\<rparr>)"
  have "?new \<in> set (upsert_summary ck tenant s rows)" using True row by (auto simp: upsert_summary_def image_iff intro!: bexI [of _ row])
  moreover have "carries ck tenant s ?new" using row(2) by (simp add: carries_def is_customer_def)
  ultimately show ?thesis by blast
qed (auto simp: upsert_summary_def carries_def is_customer_def same_text_def)

lemma upsert_summary_keeps:
  "row \<in> set rows \<Longrightarrow> \<not> is_customer ck tenant (cs_customer s) row \<Longrightarrow> row \<in> set (upsert_summary ck tenant s rows)"
  by (auto simp: upsert_summary_def image_iff)

lemma carries_other:
  "carries ck tenant s row \<Longrightarrow> ck (cs_customer s) \<noteq> ck (cs_customer s') \<Longrightarrow> \<not> is_customer ck tenant (cs_customer s') row"
  by (auto simp: carries_def is_customer_def same_text_def)

lemma upsert_fold_keeps:
  "row \<in> set rows \<Longrightarrow> \<forall>s \<in> set ss. \<not> is_customer ck tenant (cs_customer s) row
    \<Longrightarrow> row \<in> set (fold (upsert_summary ck tenant) ss rows)"
  by (induction ss arbitrary: rows) (simp_all add: upsert_summary_keeps)

lemma upsert_fold_once: "summaries_once ck rows \<Longrightarrow> summaries_once ck (fold (upsert_summary ck tenant) ss rows)"
  by (induction ss arbitrary: rows) (simp_all add: upsert_summary_once)

lemma upsert_fold_shows:
  "distinct (map (\<lambda>s. ck (cs_customer s)) ss) \<Longrightarrow> s \<in> set ss
    \<Longrightarrow> \<exists>row \<in> set (fold (upsert_summary ck tenant) ss rows). carries ck tenant s row"
proof (induction ss arbitrary: rows)
  case (Cons a ss)
  show ?case
  proof (cases "s \<in> set ss")
    case True
    then show ?thesis using Cons by simp
  next
    case False
    then have "s = a" using Cons.prems by simp
    obtain row where row: "row \<in> set (upsert_summary ck tenant a rows)" "carries ck tenant a row"
      using upsert_summary_shows by blast
    have "\<not> is_customer ck tenant (cs_customer b) row" if "b \<in> set ss" for b
    proof -
      have "ck (cs_customer b) \<in> (\<lambda>s. ck (cs_customer s)) ` set ss" using that by simp
      then have "ck (cs_customer a) \<noteq> ck (cs_customer b)" using Cons.prems(1) by auto
      then show ?thesis by (rule carries_other [OF row(2)])
    qed
    then show ?thesis using upsert_fold_keeps [OF row(1)] row(2) \<open>s = a\<close> by auto
  qed
qed simp

lemma write_chunks_ok:
  "write_chunks ck tenant reply i cs n rows = (Inr m, rows') \<Longrightarrow>
    m = n + length (concat cs) \<and> rows' = fold (upsert_summary ck tenant) (concat cs) rows"
proof (induction cs arbitrary: i n rows)
  case (Cons c cs)
  then have "write_chunks ck tenant reply (Suc i) cs (n + length c) (fold (upsert_summary ck tenant) c rows) = (Inr m, rows')"
    by (simp split: sum.splits)
  from Cons.IH [OF this] show ?case by simp
qed simp

lemma upsert_summaries_ok:
  "upsert_customer_summaries ck tenant reply ss rows = (Inr m, rows')
    \<Longrightarrow> m = length ss \<and> rows' = fold (upsert_summary ck tenant) ss rows"
  using chunks_join [of UPSERT_CHUNK ss] write_chunks_ok [of ck tenant reply 0 "chunks UPSERT_CHUNK ss" 0 rows m rows']
  by (simp add: upsert_customer_summaries_def UPSERT_CHUNK_def)

lemma sweep_stored:
  assumes "sweep walk now listing checkins store = Some (r, ss)"
    and "sweep walk now listing checkins (\<lambda>ss. Inr (length ss)) = Some (Inr r', ss')"
  shows "ss = ss' \<and> r = (case store ss of Inl e \<Rightarrow> Inl e | Inr n \<Rightarrow> Inr (r'\<lparr>sf_customers := n\<rparr>))"
  using assms by (auto simp: sweep_def Let_def split: option.splits sum.splits)

section \<open>The call list\<close>

interpretation ranked: comparator "ranked_before ck q" for ck q
  by unfold_locales (auto simp: ranked_before_def split: option.splits if_splits)

lemma ranked_before_antisym:
  "ranked_before ck q a b \<Longrightarrow> ranked_before ck q b a \<Longrightarrow> ck (cs_customer (snd a)) = ck (cs_customer (snd b))"
  by (auto simp: ranked_before_def split: option.splits if_splits)

lemma summaries_once_inj:
  "summaries_once ck rows \<Longrightarrow> a \<in> set rows \<Longrightarrow> b \<in> set rows \<Longrightarrow> same_text ck (fst a) (fst b)
    \<Longrightarrow> same_text ck (cs_customer (snd a)) (cs_customer (snd b)) \<Longrightarrow> a = b"
  unfolding summaries_once_def distinct_map same_text_def
  by (elim conjE) (drule inj_onD [of _ _ a b]; simp)

definition summary_page_query :: "nat \<Rightarrow> nat \<Rightarrow> summary_query \<Rightarrow> summary_query" where
  "summary_page_query n i q = summary_with_paging (Some n) (Some (i * n)) q"

lemma summary_page_query_fields [simp]:
  "sy_sort (summary_page_query n i q) = sy_sort q" "sy_descending (summary_page_query n i q) = sy_descending q"
  "sy_min_days (summary_page_query n i q) = sy_min_days q" "sy_max_days (summary_page_query n i q) = sy_max_days q"
  "sy_min_visits (summary_page_query n i q) = sy_min_visits q" "sy_min_total (summary_page_query n i q) = sy_min_total q"
  "sy_include_never (summary_page_query n i q) = sy_include_never q"
  "sy_limit (summary_page_query n i q) = min (max n 1) MAX_SUMMARY_PAGE" "sy_offset (summary_page_query n i q) = i * n"
  by (simp_all add: summary_page_query_def summary_with_paging_def unwrap_or_def)

lemma summary_page_query_same [simp]:
  "ranked_before ck (summary_page_query n i q) = ranked_before ck q"
  "keeps_summary ck tenant (summary_page_query n i q) = keeps_summary ck tenant q"
  "last_visit_before earliest now (summary_page_query n i q) = last_visit_before earliest now q"
  "last_visit_after earliest now (summary_page_query n i q) = last_visit_after earliest now q"
  unfolding fun_eq_iff ranked_before_def keeps_summary_def last_visit_before_def last_visit_after_def summary_page_query_fields
  by (rule refl allI)+

text \<open>Paging through the call list shows every customer of the segment once, in the asked order with
  missing figures last.\<close>

theorem call_list_pages_complete:
  assumes "summaries_once ck rows" "\<And>i. mset (storage i) = mset rows" "1 \<le> n" "n \<le> MAX_SUMMARY_PAGE"
    and "last_visit_before earliest now q = Some before" "last_visit_after earliest now q = Some after"
    and "length (filter (keeps_summary ck tenant q before after) rows) \<le> k * n"
  shows "\<exists>listing. sorted_wrt (ranked_before ck q) listing
    \<and> mset listing = mset (filter (keeps_summary ck tenant q before after) rows)
    \<and> concat (map (\<lambda>i. the (list_summaries ck earliest tenant (summary_page_query n i q) now (storage i))) [0..<k])
        = map snd listing"
proof (intro exI conjI)
  let ?kept = "filter (keeps_summary ck tenant q before after)"
  let ?mine = "filter (\<lambda>row. same_text ck (fst row) tenant)"
  show "sorted_wrt (ranked_before ck q) (sort_by (ranked_before ck q) (?kept rows))" by (rule ranked.sorted_sort_by)
  show "mset (sort_by (ranked_before ck q) (?kept rows)) = mset (?kept rows)" by simp
  have "keeps_summary ck tenant q before after row \<Longrightarrow> same_text ck (fst row) tenant" for row
    by (simp only: keeps_summary_def Let_def)
  then have mine: "?kept xs = ?kept (?mine xs)" for xs by (auto intro!: filter_cong)
  have "concat (map (\<lambda>i. take n (drop (i * n) (sort_by (ranked_before ck q) (?kept (?mine (storage i)))))) [0..<k])
      = sort_by (ranked_before ck q) (?kept (?mine rows))"
  proof (rule ranked.pages_complete)
    show "mset (?mine (storage i)) = mset (?mine rows)" for i using assms(2) by simp
    show "length (?kept (?mine rows)) \<le> k * n" using assms(7) by (simp only: mine [symmetric])
    fix x y
    assume "x \<in> set (?mine rows)" "y \<in> set (?mine rows)" "ranked_before ck q x y" "ranked_before ck q y x"
    then show "x = y" using ranked_before_antisym [of ck q x y]
      by (intro summaries_once_inj [OF assms(1)]) (auto simp: same_text_def)
  qed
  then have joined: "concat (map (\<lambda>i. take n (drop (i * n) (sort_by (ranked_before ck q) (?kept (storage i))))) [0..<k])
      = sort_by (ranked_before ck q) (?kept rows)" by (simp only: mine [symmetric])
  have page: "the (list_summaries ck earliest tenant (summary_page_query n i q) now (storage i))
      = map snd (take n (drop (i * n) (sort_by (ranked_before ck q) (?kept (storage i)))))" for i
    using assms(3,4) by (simp add: list_summaries_def assms(5,6) min_def)
  show "concat (map (\<lambda>i. the (list_summaries ck earliest tenant (summary_page_query n i q) now (storage i))) [0..<k])
      = map snd (sort_by (ranked_before ck q) (?kept rows))"
    by (simp only: page joined [symmetric] map_concat map_map comp_def)
qed

interpretation run_order: comparator later_run
  by unfold_locales (auto simp: later_run_def)

text \<open>The run that started last is the one the list speaks of.\<close>

lemma latest_run_is:
  assumes "run \<in> set runs" "same_text ck (su_tenant run) tenant"
    and "\<forall>r \<in> set runs. r \<noteq> run \<longrightarrow> su_started_at r < su_started_at run"
  shows "latest_summary_run ck tenant runs = Some run"
proof -
  let ?mine = "filter (\<lambda>r. same_text ck (su_tenant r) tenant) runs"
  have "run \<in> set (sort_by later_run ?mine)" using assms(1,2) by simp
  then obtain r rs where sorted: "sort_by later_run ?mine = r # rs" by (cases "sort_by later_run ?mine") auto
  then have "later_run r run" using assms(1,2) by (intro run_order.head_least [of ?mine]) auto
  moreover have "r \<in> set runs" using sorted set_sort_by [of later_run ?mine] by auto
  ultimately have "r = run" using assms(3) by (force simp: later_run_def)
  then show ?thesis by (simp add: latest_summary_run_def sorted)
qed

lemma listed_row:
  assumes "list_customer_summaries ck earliest (Inr ()) person tenant q now rungs store = Some (Inr shown)"
    and "last_visit_before earliest now q = Some before" "last_visit_after earliest now q = Some after"
    and "sy_offset q = 0" "sp_total shown \<le> sy_limit q" "get_customer_grade_rules ck tenant rungs = Inr ladder"
  shows "sp_entries shown = map (\<lambda>row. summary_entry_of ladder person (snd row))
      (sort_by (ranked_before ck q) (filter (keeps_summary ck tenant q before after) (fst store)))"
    "sp_last_run shown = latest_summary_run ck tenant (snd store)"
  using assms by (auto simp: list_customer_summaries_def list_summaries_def count_summaries_def split: sum.splits)

lemma finished_run:
  assumes "\<forall>run \<in> set runs. su_id run \<noteq> fresh \<and> su_started_at run < begun"
  shows "\<exists>run. latest_summary_run ck tenant (finish_summary_run fresh ended status scanned written why
      (start_summary_run fresh begun tenant runs)) = Some run \<and> su_status run = run_status_as_str status
      \<and> su_customers run = written \<and> su_finished_at run = Some ended"
proof -
  let ?run = "\<lparr>su_id = fresh, su_tenant = tenant, su_started_at = begun, su_finished_at = Some ended,
      su_status = run_status_as_str status, su_reservations = scanned, su_customers = written, su_error = why\<rparr>"
  have "finish_summary_run fresh ended status scanned written why (start_summary_run fresh begun tenant runs) = runs @ [?run]"
    using assms by (simp add: finish_summary_run_def start_summary_run_def map_idI)
  moreover have "latest_summary_run ck tenant (runs @ [?run]) = Some ?run"
    using assms by (intro latest_run_is) (auto simp: same_text_def)
  ultimately show ?thesis by simp
qed

text \<open>
  C17. What a refresh works out is what the call list shows: every customer of the sweep whom the
  desk's filter keeps is on the list with the figures of the sweep and the grade the club's ladder
  gives them, each once, and the list says that this refresh was the last and that it succeeded. The whole
  segment is asked for on one page, and no two customers' ids compare equal in the database.
\<close>

theorem refresh_reaches_the_call_list:
  assumes "sweep walk now (fp_reservations reply) (fp_checkins reply) (\<lambda>ss. Inr (length ss)) = Some (Inr counted, ss)"
    and "distinct (map (\<lambda>s. ck (cs_customer s)) ss)" "summaries_once ck (fst store)"
    and "\<forall>run \<in> set (snd store). su_id run \<noteq> fresh \<and> su_started_at run < begun"
    and "refresh_customer_summaries ck print walk reply tenant now fresh begun ended store = Some (Inr r, store')"
    and "list_customer_summaries ck earliest (Inr ()) person tenant q today rungs store' = Some (Inr shown)"
    and "last_visit_before earliest today q = Some before" "last_visit_after earliest today q = Some after"
    and "sy_offset q = 0" "sp_total shown \<le> sy_limit q" "get_customer_grade_rules ck tenant rungs = Inr ladder"
  shows "(\<forall>s \<in> set ss. keeps_summary ck tenant q before after (tenant, s) \<longrightarrow> (\<exists>e \<in> set (sp_entries shown).
        same_text ck (cs_customer (se_summary e)) (cs_customer s) \<and> cs_summary (se_summary e) = cs_summary s
        \<and> se_grade e = grade_for ladder (cs_summary s) (cs_truncated s)))
    \<and> distinct (map (\<lambda>e. ck (cs_customer (se_summary e))) (sp_entries shown))
    \<and> (\<exists>run. sp_last_run shown = Some run \<and> su_status run = ''succeeded'' \<and> su_customers run = int (length ss))"
proof -
  have "\<exists>n. upsert_customer_summaries ck tenant (fp_chunk reply) ss (fst store) = (Inr n, fst store')
      \<and> snd store' = finish_summary_run fresh ended RunSucceeded (int (sf_reservations r)) (int n)
          (if sf_truncated r then Some CAP_REACHED else None) (start_summary_run fresh begun tenant (snd store))"
    using assms(5) by (auto simp: refresh_customer_summaries_def Let_def prod_eq_iff split: sum.splits option.splits
        dest!: sweep_stored [OF _ assms(1)])
  then have table: "fst store' = fold (upsert_summary ck tenant) ss (fst store)"
    and runs: "snd store' = finish_summary_run fresh ended RunSucceeded (int (sf_reservations r)) (int (length ss))
          (if sf_truncated r then Some CAP_REACHED else None) (start_summary_run fresh begun tenant (snd store))"
    by (auto dest: upsert_summaries_ok)
  note listed = listed_row [OF assms(6-11)]
  have once: "summaries_once ck (fst store')" unfolding table by (rule upsert_fold_once [OF assms(3)])
  have "\<exists>e \<in> set (sp_entries shown). same_text ck (cs_customer (se_summary e)) (cs_customer s)
      \<and> cs_summary (se_summary e) = cs_summary s \<and> se_grade e = grade_for ladder (cs_summary s) (cs_truncated s)"
    if s: "s \<in> set ss" and kept: "keeps_summary ck tenant q before after (tenant, s)" for s
  proof -
    obtain row where row: "row \<in> set (fst store')" "carries ck tenant s row"
      unfolding table using upsert_fold_shows [OF assms(2) s] by blast
    then have "keeps_summary ck tenant q before after row"
      using kept by (simp add: keeps_summary_def carries_def is_customer_def Let_def)
    then have "summary_entry_of ladder person (snd row) \<in> set (sp_entries shown)" using row(1) by (auto simp: listed(1))
    then show ?thesis using row(2) by (intro bexI) (auto simp: summary_entry_of_def carries_def is_customer_def)
  qed
  moreover have "distinct (map (\<lambda>e. ck (cs_customer (se_summary e))) (sp_entries shown))"
  proof -
    let ?kept = "filter (keeps_summary ck tenant q before after) (fst store')"
    have "inj_on (\<lambda>row. ck (cs_customer (snd row))) (set ?kept)"
    proof (rule inj_onI)
      fix x y
      assume "x \<in> set ?kept" "y \<in> set ?kept" "ck (cs_customer (snd x)) = ck (cs_customer (snd y))"
      then show "x = y"
        by (intro summaries_once_inj [OF once]) (auto simp: keeps_summary_def Let_def same_text_def)
    qed
    moreover have "distinct ?kept" using once by (simp add: summaries_once_def distinct_map)
    ultimately show ?thesis by (simp add: listed(1) comp_def summary_entry_of_def distinct_map)
  qed
  moreover have "\<exists>run. sp_last_run shown = Some run \<and> su_status run = ''succeeded'' \<and> su_customers run = int (length ss)"
    unfolding listed(2) runs using finished_run [OF assms(4)] by (metis run_status_as_str.simps(2))
  ultimately show ?thesis by blast
qed

section \<open>A night at the club\<close>

definition night_reply :: refresh_replies where
  "night_reply = \<lparr>fp_permitted = Inr (), fp_started = Inr (), fp_finished = Inr (), fp_chunk = (\<lambda>_. Inr ()),
     fp_reservations = pages_of SWEEP_PAGE club_bookings, fp_checkins = pages_of SWEEP_PAGE []\<rparr>"

definition night_rows :: "customer_summary list" where
  "night_rows = summary_rows walk_customers club_bookings [] 50 False"

definition night_store :: "summary_table \<times> summary_run list" where
  "night_store = (snd (upsert_customer_summaries caseless ''t1'' (\<lambda>_. Inr ()) night_rows []),
     finish_summary_run 1 51 RunSucceeded 2 2 None (start_summary_run 1 50 ''t1'' []))"

definition shown_list :: "summary_query \<Rightarrow> str summary_page" where
  "shown_list q = (case list_customer_summaries caseless 0 (Inr ()) (\<lambda>c. Inr c) ''t1'' q 60 [] night_store of
     Some (Inr p) \<Rightarrow> p | _ \<Rightarrow> \<lparr>sp_entries = [], sp_total = 0, sp_last_run = None\<rparr>)"

lemma night_sweep: "sweep walk_customers 50 (pages_of SWEEP_PAGE club_bookings) (pages_of SWEEP_PAGE []) store =
    Some (case store night_rows of Inl e \<Rightarrow> Inl e | Inr n \<Rightarrow> Inr \<lparr>sf_reservations = 2, sf_checkins = 0,
      sf_customers = n, sf_truncated = False\<rparr>, night_rows)"
proof -
  have "length club_bookings = 2" by (simp add: club_bookings_def)
  then show ?thesis
    using read_sample_sweep [of club_bookings] read_sample_sweep [of "[] :: visit_checkin list"]
    by (simp add: sweep_def night_rows_def split: sum.split)
qed

lemma night_refresh: "refresh_customer_summaries caseless (\<lambda>_. []) walk_customers night_reply ''t1'' 50 1 50 51 ([], []) =
    Some (Inr \<lparr>sf_reservations = 2, sf_checkins = 0, sf_customers = 2, sf_truncated = False\<rparr>, night_store)"
proof -
  have "fst (upsert_customer_summaries caseless ''t1'' (\<lambda>_. Inr ()) night_rows []) = Inr 2" by code_simp
  then show ?thesis by (simp add: refresh_customer_summaries_def night_reply_def night_sweep night_store_def)
qed

lemma night_list: "list_customer_summaries caseless 0 (Inr ()) (\<lambda>c. Inr c) ''t1'' q 60 [] night_store = Some (Inr (shown_list q))"
  if "sy_min_days q = None" "sy_max_days q = None"
  using that by (simp add: shown_list_def list_customer_summaries_def summary_query_validate_def list_summaries_def
      count_summaries_def last_visit_before_def last_visit_after_def days_before_def get_customer_grade_rules_def)

theorem refresh_reaches_the_call_list_witness:
  "distinct (map (\<lambda>e. caseless (cs_customer (se_summary e))) (sp_entries (shown_list default_summary_query)))
    \<and> (\<exists>run. sp_last_run (shown_list default_summary_query) = Some run \<and> su_status run = ''succeeded''
        \<and> su_customers run = int (length night_rows))"
proof -
  have keys: "distinct (map (\<lambda>s. caseless (cs_customer s)) night_rows)" by code_simp
  have size: "sp_total (shown_list default_summary_query) \<le> sy_limit default_summary_query" by code_simp
  have sweep: "sweep walk_customers 50 (fp_reservations night_reply) (fp_checkins night_reply) (\<lambda>ss. Inr (length ss)) =
    Some (Inr \<lparr>sf_reservations = 2, sf_checkins = 0, sf_customers = length night_rows, sf_truncated = False\<rparr>, night_rows)"
    by (simp add: night_reply_def night_sweep)
  have list: "list_customer_summaries caseless 0 (Inr ()) (\<lambda>c. Inr c) ''t1'' default_summary_query 60 [] night_store
      = Some (Inr (shown_list default_summary_query))" by (rule night_list) (simp_all add: default_summary_query_def)
  have "summaries_once caseless (fst (([], []) :: summary_table \<times> summary_run list))" by (simp add: summaries_once_def)
  from refresh_reaches_the_call_list [OF sweep keys this _ night_refresh list, of None None "[]"]
  show ?thesis
    using size by (simp add: last_visit_before_def last_visit_after_def days_before_def default_summary_query_def
        get_customer_grade_rules_def)
qed

text \<open>Sorted by their last visit in the default direction, the customer who was here last comes first and
  the longest absence last.\<close>

lemma longest_absence_is_last:
  "map (\<lambda>e. (cs_customer (se_summary e), vm_last (cs_summary (se_summary e))))
      (sp_entries (shown_list (default_summary_query\<lparr>sy_sort := ByLastVisit\<rparr>)))
    = [(''c2'', Some 20), (''c1'', Some 10)]"
  by code_simp

text \<open>A filter that reaches back before the first instant the date library holds panics.\<close>

lemma too_long_an_absence_panics:
  assumes "sy_min_days q = Some d" "sy_max_days q = None" "now - minutes (1440 * int d) < earliest"
  shows "list_customer_summaries ck earliest (Inr ()) person tenant q now rungs store = None"
  using assms by (simp add: list_customer_summaries_def summary_query_validate_def list_summaries_def last_visit_before_def
      days_before_def)

text \<open>A customer the sweep no longer finds keeps the figures of an earlier one.\<close>

lemma lost_customer_keeps_figures:
  assumes "upsert_customer_summaries ck tenant reply ss rows = (Inr n, rows')" "row \<in> set rows"
    and "\<forall>s \<in> set ss. \<not> is_customer ck tenant (cs_customer s) row"
  shows "row \<in> set rows'"
  using upsert_summaries_ok [OF assms(1)] upsert_fold_keeps [OF assms(2,3)] by simp

end
