(* ===== verification/ShiftStore.thy ===== *)
theory ShiftStore
  imports ShiftPlan Cancellations
begin

text \<open>
  CourseBoard's table of confirmed shifts:
  \<open>src/course/infrastructure/caddie_shift_repository.rs\<close>. A table is the list of its rows in the order of
  their primary key, with the texts as they are stored; \<open>ck\<close> is the database's collation and
  \<open>now i\<close> its clock during the \<open>i\<close>-th statement of a transaction.
\<close>

section \<open>Rows\<close>

definition WRITE_CHUNK :: nat where "WRITE_CHUNK = 200"

record shift_row =
  hw_tenant :: str
  hw_date :: date
  hw_caddie :: str
  hw_course :: "str option"
  hw_working :: bool
  hw_span :: str
  hw_rounds :: int
  hw_origin :: str
  hw_note :: "str option"
  hw_updated_by :: "str option"
  hw_updated_at :: instant
  hw_field_shift :: "str option"
  hw_synced_at :: "instant option"

type_synonym shift_table = "shift_row list"

definition to_shift :: "shift_row \<Rightarrow> caddie_shift" where
  "to_shift r = shift_reconstitute (hw_caddie r) (hw_date r) (id_from_optional (hw_course r)) (hw_working r)
     (span_parse (hw_span r)) (hw_rounds r) (origin_parse (hw_origin r)) (hw_note r) (hw_updated_by r)
     (Some (hw_updated_at r))"

text \<open>The unique key: one row per tenant, day and caddie.\<close>

definition is_day :: "collation \<Rightarrow> str \<Rightarrow> caddie_id \<Rightarrow> date \<Rightarrow> shift_row \<Rightarrow> bool" where
  "is_day ck tenant cid d r \<longleftrightarrow> same_text ck (hw_tenant r) tenant \<and> hw_date r = d \<and> same_text ck (hw_caddie r) cid"

definition in_range :: "collation \<Rightarrow> str \<Rightarrow> date \<Rightarrow> date \<Rightarrow> shift_row \<Rightarrow> bool" where
  "in_range ck tenant first final r \<longleftrightarrow> same_text ck (hw_tenant r) tenant \<and> first \<le> hw_date r \<and> hw_date r \<le> final"

definition day_order :: "collation \<Rightarrow> shift_row \<Rightarrow> shift_row \<Rightarrow> bool" where
  "day_order ck a b \<longleftrightarrow> hw_date a < hw_date b \<or> hw_date a = hw_date b \<and> ck (hw_caddie a) \<le> ck (hw_caddie b)"

section \<open>Reading\<close>

definition list_shifts :: "collation \<Rightarrow> str \<Rightarrow> date \<Rightarrow> date \<Rightarrow> shift_table \<Rightarrow> caddie_shift list" where
  "list_shifts ck tenant first final rows =
     map to_shift (sort_by (day_order ck) (filter (in_range ck tenant first final) rows))"

definition get_shift :: "collation \<Rightarrow> str \<Rightarrow> caddie_id \<Rightarrow> date \<Rightarrow> shift_table \<Rightarrow> caddie_shift option" where
  "get_shift ck tenant cid d rows = map_option to_shift (find (is_day ck tenant cid d) rows)"

definition field_shift_links ::
  "collation \<Rightarrow> str \<Rightarrow> date \<Rightarrow> date \<Rightarrow> shift_table \<Rightarrow> field_shift_link list" where
  "field_shift_links ck tenant first final rows =
     map (\<lambda>r. field_shift_link_new (hw_caddie r) (hw_date r) (hw_field_shift r))
       (sort_by (day_order ck) (filter (\<lambda>r. in_range ck tenant first final r \<and> hw_field_shift r \<noteq> None) rows))"

text \<open>A day Field has not been told about since it last changed.\<close>

definition behind_field :: "shift_row \<Rightarrow> bool" where
  "behind_field r \<longleftrightarrow> (case hw_synced_at r of None \<Rightarrow> True | Some t \<Rightarrow> t < hw_updated_at r)"

definition unsynced_shifts ::
  "collation \<Rightarrow> str \<Rightarrow> date \<Rightarrow> date \<Rightarrow> nat \<Rightarrow> shift_table \<Rightarrow> unsynced_shift list" where
  "unsynced_shifts ck tenant first final limit rows =
     map (\<lambda>r. \<lparr>us_shift = to_shift r, us_field_shift = hw_field_shift r\<rparr>)
       (take limit (sort_by (day_order ck)
         (filter (\<lambda>r. in_range ck tenant first final r \<and> behind_field r) rows)))"

definition count_unsynced :: "collation \<Rightarrow> str \<Rightarrow> date \<Rightarrow> date \<Rightarrow> shift_table \<Rightarrow> nat" where
  "count_unsynced ck tenant first final rows =
     length (filter (\<lambda>r. in_range ck tenant first final r \<and> behind_field r) rows)"

section \<open>Writing\<close>

text \<open>One row of the \<open>INSERT ... ON DUPLICATE KEY UPDATE\<close>: a day that is there keeps its caddie's
  spelling, its Field shift and its stamp.\<close>

definition new_row :: "str \<Rightarrow> instant \<Rightarrow> caddie_shift \<Rightarrow> shift_row" where
  "new_row tenant now s = \<lparr>hw_tenant = tenant, hw_date = sh_date s, hw_caddie = sh_caddie s, hw_course = sh_course s,
     hw_working = sh_working s, hw_span = span_as_str (sh_span s), hw_rounds = sh_rounds s,
     hw_origin = origin_as_str (sh_origin s), hw_note = sh_note s, hw_updated_by = sh_updated_by s,
     hw_updated_at = now, hw_field_shift = None, hw_synced_at = None\<rparr>"

definition overwrite_row :: "instant \<Rightarrow> caddie_shift \<Rightarrow> shift_row \<Rightarrow> shift_row" where
  "overwrite_row now s r = r\<lparr>hw_course := sh_course s, hw_working := sh_working s, hw_span := span_as_str (sh_span s),
     hw_rounds := sh_rounds s, hw_origin := origin_as_str (sh_origin s), hw_note := sh_note s,
     hw_updated_by := sh_updated_by s, hw_updated_at := now\<rparr>"

definition save_shift :: "collation \<Rightarrow> str \<Rightarrow> instant \<Rightarrow> caddie_shift \<Rightarrow> shift_table \<Rightarrow> shift_table" where
  "save_shift ck tenant now s rows =
     (if list_ex (is_day ck tenant (sh_caddie s) (sh_date s)) rows
      then map (\<lambda>r. if is_day ck tenant (sh_caddie s) (sh_date s) r then overwrite_row now s r else r) rows
      else rows @ [new_row tenant now s])"

fun save_chunks :: "collation \<Rightarrow> str \<Rightarrow> (nat \<Rightarrow> instant) \<Rightarrow> nat \<Rightarrow> caddie_shift list list \<Rightarrow> shift_table \<Rightarrow> shift_table" where
  "save_chunks ck tenant now i [] rows = rows"
| "save_chunks ck tenant now i (c # cs) rows =
     save_chunks ck tenant now (Suc i) cs (fold (save_shift ck tenant (now i)) c rows)"

text \<open>One transaction: \<open>committed\<close> is whether it goes through.\<close>

definition save_shifts ::
  "collation \<Rightarrow> str \<Rightarrow> (nat \<Rightarrow> instant) \<Rightarrow> unit result \<Rightarrow> caddie_shift list \<Rightarrow> shift_table \<Rightarrow> nat result \<times> shift_table" where
  "save_shifts ck tenant now committed shifts rows =
     (if shifts = [] then (Inr 0, rows)
      else case committed of Inl e \<Rightarrow> (Inl e, rows)
        | Inr _ \<Rightarrow> (Inr (length shifts), save_chunks ck tenant now 0 (chunks WRITE_CHUNK shifts) rows))"

text \<open>The \<open>CASE\<close> takes the first link that names the row's day.\<close>

definition names_row :: "collation \<Rightarrow> field_shift_link \<Rightarrow> shift_row \<Rightarrow> bool" where
  "names_row ck l r \<longleftrightarrow> same_text ck (hw_caddie r) (fl_caddie l) \<and> hw_date r = fl_date l"

definition set_links :: "collation \<Rightarrow> str \<Rightarrow> instant \<Rightarrow> field_shift_link list \<Rightarrow> shift_table \<Rightarrow> shift_table" where
  "set_links ck tenant now links rows =
     map (\<lambda>r. if same_text ck (hw_tenant r) tenant
       then (case find (\<lambda>l. names_row ck l r) links of None \<Rightarrow> r
         | Some l \<Rightarrow> r\<lparr>hw_field_shift := fl_field_shift l, hw_synced_at := Some now\<rparr>)
       else r) rows"

fun set_link_chunks ::
  "collation \<Rightarrow> str \<Rightarrow> (nat \<Rightarrow> instant) \<Rightarrow> nat \<Rightarrow> field_shift_link list list \<Rightarrow> shift_table \<Rightarrow> shift_table" where
  "set_link_chunks ck tenant now i [] rows = rows"
| "set_link_chunks ck tenant now i (c # cs) rows =
     set_link_chunks ck tenant now (Suc i) cs (set_links ck tenant (now i) c rows)"

definition set_field_shift_links ::
  "collation \<Rightarrow> str \<Rightarrow> (nat \<Rightarrow> instant) \<Rightarrow> unit result \<Rightarrow> field_shift_link list \<Rightarrow> shift_table \<Rightarrow> unit result \<times> shift_table" where
  "set_field_shift_links ck tenant now committed links rows =
     (if links = [] then (Inr (), rows)
      else case committed of Inl e \<Rightarrow> (Inl e, rows)
        | Inr _ \<Rightarrow> (Inr (), set_link_chunks ck tenant now 0 (chunks WRITE_CHUNK links) rows))"

definition mark_month_unsynced :: "collation \<Rightarrow> str \<Rightarrow> date \<Rightarrow> date \<Rightarrow> shift_table \<Rightarrow> shift_table" where
  "mark_month_unsynced ck tenant first final rows =
     map (\<lambda>r. if in_range ck tenant first final r then r\<lparr>hw_synced_at := None\<rparr> else r) rows"

end
