(* ===== verification/ShiftMirror.thy ===== *)
theory ShiftMirror
  imports ShiftStore ShiftHours FilingDeadline TeeLedger
begin

text \<open>
  Telling Field who is at work: \<open>mirror_shift_to_field.rs\<close> with its gateway
  \<open>field_staff_shift_gateway.rs\<close>, the desk's edit of a day (\<open>update_caddie_shift.rs\<close>) and the batches that
  push a confirmed month (\<open>sync_caddie_shifts_to_field.rs\<close>). Field is a parameter: \<open>reply\<close> answers a call after
  the calls that went before it, and the state of an operation is that log beside the table.
\<close>

section \<open>The calls\<close>

record staff_shift_input =
  fi_date :: date
  fi_start :: str
  fi_end :: str
  fi_type :: "str option"
  fi_notes :: "str option"

datatype field_call =
    PatchShift str str staff_shift_input
  | PostShift str staff_shift_input
  | DeleteShift str str

text \<open>What a call is answered: the id of the shift it is about, or an error.\<close>

type_synonym field_replies = "field_call list \<Rightarrow> field_call \<Rightarrow> str result"

definition send :: "field_replies \<Rightarrow> field_call \<Rightarrow> field_call list \<Rightarrow> str result \<times> field_call list" where
  "send reply c calls = (reply calls c, calls @ [c])"

fun is_missing :: "course_error \<Rightarrow> bool" where
  "is_missing (NotFound _) = True"
| "is_missing (UpstreamClient code _) = (code = 404)"
| "is_missing _ = False"

definition present :: "str option \<Rightarrow> str option" where
  "present v = (case v of None \<Rightarrow> None | Some s \<Rightarrow> if trim s = [] then None else Some (trim s))"

definition upsert_shift ::
  "field_replies \<Rightarrow> str \<Rightarrow> str option \<Rightarrow> staff_shift_input \<Rightarrow> field_call list \<Rightarrow> str result \<times> field_call list" where
  "upsert_shift reply staff existing i calls =
     (if trim staff = [] then (Inl (BadRequest ''a shift needs the staff member it is filed under''), calls)
      else case present existing of
        None \<Rightarrow> send reply (PostShift (trim staff) i) calls
      | Some fid \<Rightarrow>
          (case send reply (PatchShift (trim staff) fid i) calls of
             (Inr answered, calls') \<Rightarrow> (Inr answered, calls')
           | (Inl e, calls') \<Rightarrow>
               if is_missing e then send reply (PostShift (trim staff) i) calls' else (Inl e, calls')))"

definition delete_shift ::
  "field_replies \<Rightarrow> str \<Rightarrow> str \<Rightarrow> field_call list \<Rightarrow> unit result \<times> field_call list" where
  "delete_shift reply staff fid calls =
     (if trim staff = [] \<or> trim fid = []
      then (Inl (BadRequest ''a shift can only be withdrawn by staff member and shift id''), calls)
      else case send reply (DeleteShift (trim staff) (trim fid)) calls of
        (Inr _, calls') \<Rightarrow> (Inr (), calls')
      | (Inl e, calls') \<Rightarrow> (if is_missing e then Inr () else Inl e, calls'))"

section \<open>One day\<close>

datatype field_intent = FileHours shift_hours | Withdraw

type_synonym course_hours = "course_id \<rightharpoonup> availability_rule list"

definition bands_on :: "availability_rule list \<Rightarrow> int \<Rightarrow> opening_band list" where
  "bands_on rules weekday = List.map_filter
     (\<lambda>r. case band_try_new (ru_start r) (ru_end r) of Inl _ \<Rightarrow> None | Inr b \<Rightarrow> Some b)
     (filter (\<lambda>r. ru_weekday r = weekday) rules)"

definition bands_for :: "calendar \<Rightarrow> course_hours \<Rightarrow> course_id \<Rightarrow> date \<Rightarrow> opening_band list" where
  "bands_for cal hours course d =
     (case hours course of None \<Rightarrow> [] | Some rules \<Rightarrow> bands_on rules (courseboard_weekday cal d))"

definition intent_for :: "calendar \<Rightarrow> caddie_shift \<Rightarrow> default_hours \<Rightarrow> course_hours \<Rightarrow> field_intent result" where
  "intent_for cal s defaults hours =
     (if \<not> sh_working s then Inr Withdraw
      else let bands = (case sh_course s of Some c \<Rightarrow> bands_for cal hours c (sh_date s) | None \<Rightarrow> [])
           in (case hours_for_span (sh_span s) bands defaults of Inl e \<Rightarrow> Inl e | Inr h \<Rightarrow> Inr (FileHours h)))"

definition shift_input :: "caddie_shift \<Rightarrow> shift_hours \<Rightarrow> staff_shift_input" where
  "shift_input s h = \<lparr>fi_date = sh_date s, fi_start = hours_start h, fi_end = hours_end h, fi_type = None,
     fi_notes = sh_note s\<rparr>"

definition mirror_shift ::
  "field_replies \<Rightarrow> calendar \<Rightarrow> str option \<Rightarrow> caddie_shift \<Rightarrow> str option \<Rightarrow> default_hours \<Rightarrow> course_hours
    \<Rightarrow> field_call list \<Rightarrow> field_shift_link result \<times> field_call list" where
  "mirror_shift reply cal staff s existing defaults hours calls =
     (let link = field_shift_link_new (sh_caddie s) (sh_date s) in
      case present staff of
        None \<Rightarrow> (Inr (link existing), calls)
      | Some st \<Rightarrow>
          (case intent_for cal s defaults hours of
             Inl e \<Rightarrow> (Inl e, calls)
           | Inr (FileHours h) \<Rightarrow>
               (case upsert_shift reply st existing (shift_input s h) calls of
                  (Inl e, calls') \<Rightarrow> (Inl e, calls')
                | (Inr filed, calls') \<Rightarrow> (Inr (link (Some filed)), calls'))
           | Inr Withdraw \<Rightarrow>
               (case existing of
                  None \<Rightarrow> (Inr (link None), calls)
                | Some fid \<Rightarrow>
                    (case delete_shift reply st fid calls of
                       (Inl e, calls') \<Rightarrow> (Inl e, calls')
                     | (Inr _, calls') \<Rightarrow> (Inr (link None), calls')))))"

section \<open>The courses' weeks\<close>

definition SCHEDULE_READS :: nat where "SCHEDULE_READS = 8"

definition course_resource :: "course_id set \<Rightarrow> resource \<Rightarrow> (course_id \<times> resource_id) option" where
  "course_resource wanted r =
     (if rs_active r \<and> rs_kind r = CourseKind
      then (case rs_course r of None \<Rightarrow> None
        | Some c \<Rightarrow> if c \<in> wanted then Some (c, unwrap_or (rs_reservation_resource r) (rs_id r)) else None)
      else None)"

text \<open>The reads of one group are started together; the first of them that fails ends the whole read.\<close>

fun read_group ::
  "(resource_id \<Rightarrow> availability_rule list result) \<Rightarrow> (course_id \<times> resource_id) list \<Rightarrow> course_hours \<Rightarrow> course_hours result" where
  "read_group schedule [] hours = Inr hours"
| "read_group schedule ((c, rid) # rest) hours =
     (case schedule rid of Inl e \<Rightarrow> Inl e | Inr rules \<Rightarrow> read_group schedule rest (hours(c \<mapsto> rules)))"

fun read_groups ::
  "(resource_id \<Rightarrow> availability_rule list result) \<Rightarrow> (course_id \<times> resource_id) list list \<Rightarrow> course_hours \<Rightarrow> course_hours result" where
  "read_groups schedule [] hours = Inr hours"
| "read_groups schedule (g # gs) hours =
     (case read_group schedule g hours of Inl e \<Rightarrow> Inl e | Inr hours' \<Rightarrow> read_groups schedule gs hours')"

text \<open>\<open>walk\<close> lists the pairs of a hash map in the order it is walked.\<close>

definition opening_hours ::
  "((course_id \<rightharpoonup> resource_id) \<Rightarrow> (course_id \<times> resource_id) list) \<Rightarrow> resource list result
    \<Rightarrow> (resource_id \<Rightarrow> availability_rule list result) \<Rightarrow> course_id set \<Rightarrow> course_hours result" where
  "opening_hours walk resources schedule wanted =
     (if wanted = {} then Inr Map.empty
      else case resources of Inl e \<Rightarrow> Inl e
        | Inr rs \<Rightarrow> read_groups schedule
            (chunks SCHEDULE_READS (walk (collect_map (List.map_filter (course_resource wanted) rs)))) Map.empty)"

section \<open>The desk's edit of a day\<close>

text \<open>What upstream and the database answer; \<open>None\<close> for the mirror is the write-back switched off.\<close>

record edit_reads =
  ef_permitted :: "unit result"
  ef_workable :: "course_id list result"
  ef_filed :: "availability list result"
  ef_roster :: "(caddie list \<times> str list) result"
  ef_linked :: "unit result"
  ef_defaults :: "default_hours result"
  ef_resources :: "resource list result"
  ef_schedule :: "resource_id \<Rightarrow> availability_rule list result"
  ef_saved :: "unit result"
  ef_stored :: "unit result"

definition staff_of :: "caddie list \<times> str list \<Rightarrow> caddie_id \<Rightarrow> str option" where
  "staff_of roster cid =
     (case find (\<lambda>c. cd_id c = cid) (fst roster) of None \<Rightarrow> None
      | Some c \<Rightarrow> (case cd_staff_id c of None \<Rightarrow> None
         | Some st \<Rightarrow> if st \<in> set (snd roster) then Some st else None))"

definition existing_link :: "caddie_id \<Rightarrow> date \<Rightarrow> field_shift_link list \<Rightarrow> str option" where
  "existing_link cid d links =
     (case find (\<lambda>l. fl_caddie l = cid \<and> fl_date l = d) links of None \<Rightarrow> None | Some l \<Rightarrow> fl_field_shift l)"

definition update_caddie_shift ::
  "collation \<Rightarrow> field_replies \<Rightarrow> calendar \<Rightarrow> ((course_id \<rightharpoonup> resource_id) \<Rightarrow> (course_id \<times> resource_id) list)
    \<Rightarrow> bool \<Rightarrow> edit_reads \<Rightarrow> str \<Rightarrow> caddie_id \<Rightarrow> date \<Rightarrow> shift_edit \<Rightarrow> str option \<Rightarrow> instant \<Rightarrow> instant
    \<Rightarrow> shift_table \<times> field_call list \<Rightarrow> caddie_shift result \<times> shift_table \<times> field_call list" where
  "update_caddie_shift ck reply cal walk mirror_on reads tenant cid d edit by_whom saved_at linked_at st =
     (let (rows, calls) = st in
      case ef_permitted reads of Inl e \<Rightarrow> (Inl e, st) | Inr _ \<Rightarrow>
      (case ef_workable reads of Inl e \<Rightarrow> (Inl e, st) | Inr workable \<Rightarrow>
      (case ef_filed reads of Inl e \<Rightarrow> (Inl e, st) | Inr filed \<Rightarrow>
      (case shift_edit_apply edit cid d workable
              (map_option av_status (find (\<lambda>a. av_date a = d) filed)) by_whom of
         Inl e \<Rightarrow> (Inl e, st)
       | Inr s \<Rightarrow>
         if \<not> mirror_on then
           (case save_shifts ck tenant (\<lambda>_. saved_at) (ef_saved reads) [s] rows of
              (Inl e, rows') \<Rightarrow> (Inl e, rows', calls) | (Inr _, rows') \<Rightarrow> (Inr s, rows', calls))
         else
         (case ef_roster reads of Inl e \<Rightarrow> (Inl e, st) | Inr roster \<Rightarrow>
         (case ef_linked reads of Inl e \<Rightarrow> (Inl e, st) | Inr _ \<Rightarrow>
         (case ef_defaults reads of Inl e \<Rightarrow> (Inl e, st) | Inr defaults \<Rightarrow>
         (case opening_hours walk (ef_resources reads) (ef_schedule reads) (set_option (sh_course s)) of
            Inl e \<Rightarrow> (Inl e, st)
          | Inr hours \<Rightarrow>
            (case mirror_shift reply cal (staff_of roster cid) s
                    (existing_link cid d (field_shift_links ck tenant d d rows)) defaults hours calls of
               (Inl e, calls') \<Rightarrow> (Inl e, rows, calls')
             | (Inr link, calls') \<Rightarrow>
               (case save_shifts ck tenant (\<lambda>_. saved_at) (ef_saved reads) [s] rows of
                  (Inl e, rows') \<Rightarrow> (Inl e, rows', calls')
                | (Inr _, rows') \<Rightarrow>
                  (case set_field_shift_links ck tenant (\<lambda>_. linked_at) (ef_stored reads) [link] rows' of
                     (Inl e, rows'') \<Rightarrow> (Inl e, rows'', calls')
                   | (Inr _, rows'') \<Rightarrow> (Inr s, rows'', calls'))))))))))))"

section \<open>Pushing a month\<close>

definition BATCH :: nat where "BATCH = 200"
definition CONCURRENCY :: nat where "CONCURRENCY = 8"

record sync_progress =
  fp_filed :: nat
  fp_withdrawn :: nat
  fp_unlinkable :: nat
  fp_failed :: nat
  fp_remaining :: nat

definition nothing_to_do :: sync_progress where
  "nothing_to_do = \<lparr>fp_filed = 0, fp_withdrawn = 0, fp_unlinkable = 0, fp_failed = 0, fp_remaining = 0\<rparr>"

fun is_permanent :: "course_error \<Rightarrow> bool" where
  "is_permanent (UpstreamClient _ _) = True"
| "is_permanent (BadRequest _) = True"
| "is_permanent (NotFound _) = True"
| "is_permanent _ = False"

datatype push_outcome = PushFiled | PushWithdrawn | PushUnlinkable

definition push_outcome_of :: "unsynced_shift \<Rightarrow> str option \<Rightarrow> push_outcome" where
  "push_outcome_of entry staff =
     (if staff = None then PushUnlinkable
      else if sh_working (us_shift entry) then PushFiled else PushWithdrawn)"

fun count_outcome :: "push_outcome \<Rightarrow> sync_progress \<Rightarrow> sync_progress" where
  "count_outcome PushFiled p = p\<lparr>fp_filed := fp_filed p + 1\<rparr>"
| "count_outcome PushWithdrawn p = p\<lparr>fp_withdrawn := fp_withdrawn p + 1\<rparr>"
| "count_outcome PushUnlinkable p = p\<lparr>fp_unlinkable := fp_unlinkable p + 1\<rparr>"

text \<open>One day of the batch: the links to store, the counts and the calls made.\<close>

type_synonym push_state = "field_shift_link list \<times> sync_progress \<times> field_call list"

definition push_day ::
  "(str option \<Rightarrow> unsynced_shift \<Rightarrow> field_call list \<Rightarrow> field_shift_link result \<times> field_call list)
    \<Rightarrow> (caddie_id \<Rightarrow> str option) \<Rightarrow> unsynced_shift \<Rightarrow> push_state \<Rightarrow> push_state" where
  "push_day mirror staff entry acc =
     (let (links, counts, calls) = acc;
          st = staff (sh_caddie (us_shift entry))
      in case mirror st entry calls of
           (Inr link, calls') \<Rightarrow> (links @ [link], count_outcome (push_outcome_of entry st) counts, calls')
         | (Inl e, calls') \<Rightarrow>
             (if is_permanent e
              then links @ [field_shift_link_new (sh_caddie (us_shift entry)) (sh_date (us_shift entry)) (us_field_shift entry)]
              else links, counts\<lparr>fp_failed := fp_failed counts + 1\<rparr>, calls'))"

record sync_reads =
  yf_permitted :: "unit result"
  yf_marked :: "unit result"
  yf_batch :: "unit result"
  yf_roster :: "(caddie list \<times> str list) result"
  yf_defaults :: "default_hours result"
  yf_resources :: "resource list result"
  yf_schedule :: "resource_id \<Rightarrow> availability_rule list result"
  yf_stored :: "unit result"
  yf_counted :: "unit result"

definition linked_staff :: "caddie list \<times> str list \<Rightarrow> caddie_id \<Rightarrow> str option" where
  "linked_staff roster =
     collect_map (List.map_filter (\<lambda>c. case cd_staff_id c of None \<Rightarrow> None
        | Some st \<Rightarrow> if st \<in> set (snd roster) then Some (cd_id c, st) else None) (fst roster))"

text \<open>
  One call. \<open>meanwhile\<close> is what other requests do to the table between the read of the batch and
  the write of its links, and \<open>now\<close> the clock of that write.
\<close>

definition sync_caddie_shifts ::
  "collation \<Rightarrow> field_replies \<Rightarrow> calendar \<Rightarrow> ((course_id \<rightharpoonup> resource_id) \<Rightarrow> (course_id \<times> resource_id) list)
    \<Rightarrow> bool \<Rightarrow> sync_reads \<Rightarrow> str \<Rightarrow> date \<times> date \<Rightarrow> bool \<Rightarrow> (nat \<Rightarrow> instant) \<Rightarrow> (shift_table \<Rightarrow> shift_table)
    \<Rightarrow> shift_table \<times> field_call list \<Rightarrow> sync_progress result \<times> shift_table \<times> field_call list" where
  "sync_caddie_shifts ck reply cal walk mirror_on reads tenant month resend now meanwhile st =
     (let (rows, calls) = st; (first, final) = month in
      case yf_permitted reads of Inl e \<Rightarrow> (Inl e, st) | Inr _ \<Rightarrow>
      if \<not> mirror_on then (Inr nothing_to_do, st) else
      (case (if resend then yf_marked reads else Inr ()) of Inl e \<Rightarrow> (Inl e, st) | Inr _ \<Rightarrow>
      (let rows1 = (if resend then mark_month_unsynced ck tenant first final rows else rows);
           batch = unsynced_shifts ck tenant first final BATCH rows1
       in case yf_batch reads of Inl e \<Rightarrow> (Inl e, rows1, calls) | Inr _ \<Rightarrow>
          if batch = [] then (Inr nothing_to_do, rows1, calls) else
          (case yf_roster reads of Inl e \<Rightarrow> (Inl e, rows1, calls) | Inr roster \<Rightarrow>
          (case yf_defaults reads of Inl e \<Rightarrow> (Inl e, rows1, calls) | Inr defaults \<Rightarrow>
          (case opening_hours walk (yf_resources reads) (yf_schedule reads)
                  (set (List.map_filter (\<lambda>entry. sh_course (us_shift entry)) batch)) of
             Inl e \<Rightarrow> (Inl e, rows1, calls)
           | Inr hours \<Rightarrow>
             (let mirror = (\<lambda>staff entry. mirror_shift reply cal staff (us_shift entry) (us_field_shift entry) defaults hours);
                  (links, counts, calls') = fold (push_day mirror (linked_staff roster)) batch ([], nothing_to_do, calls);
                  rows2 = meanwhile rows1
              in case set_field_shift_links ck tenant now (yf_stored reads) links rows2 of
                   (Inl e, rows3) \<Rightarrow> (Inl e, rows3, calls')
                 | (Inr _, rows3) \<Rightarrow>
                     (case yf_counted reads of Inl e \<Rightarrow> (Inl e, rows3, calls')
                      | Inr _ \<Rightarrow> (Inr (counts\<lparr>fp_remaining := count_unsynced ck tenant first final rows3\<rparr>), rows3, calls')))))))))"

definition sync_behind ::
  "collation \<Rightarrow> unit result \<Rightarrow> bool \<Rightarrow> str \<Rightarrow> date \<times> date \<Rightarrow> shift_table \<Rightarrow> nat result" where
  "sync_behind ck permitted mirror_on tenant month rows =
     (case permitted of Inl e \<Rightarrow> Inl e
      | Inr _ \<Rightarrow> if \<not> mirror_on then Inr 0 else Inr (count_unsynced ck tenant (fst month) (snd month) rows))"

end
