(* ===== verification/MonthRun.thy ===== *)
theory MonthRun
  imports ShiftMirror ShiftPlanCorrect AutoAssign
begin

text \<open>
  Confirming a month: the club's planning rules as they are stored
  (\<open>src/course/infrastructure/shift_rules_repository.rs\<close>), the run that plans a month from the filed
  requests and, when the desk says so, writes it (\<open>src/course/usecase/generate_caddie_shifts.rs\<close>), and the
  board's read of the confirmed days (\<open>list_caddie_shifts.rs\<close>).
\<close>

section \<open>The club's rules\<close>

record rules_row =
  pl_weekdays :: str
  pl_consecutive :: int
  pl_rounds :: int
  pl_min_rest :: int
  pl_unfiled :: str
  pl_start :: nat
  pl_end :: nat
  pl_midday :: nat

type_synonym rules_table = "str \<rightharpoonup> rules_row"

definition get_shift_policy :: "rules_table \<Rightarrow> str \<Rightarrow> shift_policy" where
  "get_shift_policy table tenant =
     (case table tenant of None \<Rightarrow> default_policy
      | Some r \<Rightarrow> with_unfiled_request
          (with_min_rest_days_per_month
            (with_max_rounds_per_day
              (with_max_consecutive_work_days (policy_parse_csv (pl_weekdays r)) (pl_consecutive r))
              (pl_rounds r))
            (pl_min_rest r))
          (unfiled_parse (pl_unfiled r)))"

text \<open>The hours are columns this statement does not name: a new row gets the migration's defaults.\<close>

definition upsert_shift_policy :: "str \<Rightarrow> shift_policy \<Rightarrow> rules_table \<Rightarrow> rules_table" where
  "upsert_shift_policy tenant p table =
     (let old = (case table tenant of Some r \<Rightarrow> r
           | None \<Rightarrow> \<lparr>pl_weekdays = '''', pl_consecutive = 0, pl_rounds = 0, pl_min_rest = 0, pl_unfiled = '''',
               pl_start = 420, pl_end = 1020, pl_midday = 720\<rparr>)
      in table(tenant \<mapsto> old\<lparr>pl_weekdays := policy_as_csv p, pl_consecutive := wrap_i32 (sp_max_consecutive p),
           pl_rounds := sp_max_rounds p, pl_min_rest := wrap_i32 (sp_min_rest p),
           pl_unfiled := unfiled_as_str (sp_unfiled p)\<rparr>))"

definition get_default_working_hours :: "rules_table \<Rightarrow> str \<Rightarrow> default_hours" where
  "get_default_working_hours table tenant =
     (case table tenant of None \<Rightarrow> club_default
      | Some r \<Rightarrow> (case hours_try_new (pl_start r) (pl_end r) of Inl _ \<Rightarrow> club_default
          | Inr full \<Rightarrow> result_or (default_hours_try_new full (pl_midday r)) club_default))"

definition get_shift_rules :: "unit result \<Rightarrow> rules_table \<Rightarrow> str \<Rightarrow> shift_policy result" where
  "get_shift_rules permitted table tenant =
     (case permitted of Inl e \<Rightarrow> Inl e | Inr _ \<Rightarrow> Inr (get_shift_policy table tenant))"

definition update_shift_rules ::
  "unit result \<Rightarrow> unit result \<Rightarrow> str \<Rightarrow> shift_policy \<Rightarrow> rules_table \<Rightarrow> shift_policy result \<times> rules_table" where
  "update_shift_rules permitted stored tenant p table =
     (case permitted of Inl e \<Rightarrow> (Inl e, table) | Inr _ \<Rightarrow>
     (case stored of Inl e \<Rightarrow> (Inl e, table) | Inr _ \<Rightarrow> (Inr p, upsert_shift_policy tenant p table)))"

section \<open>The run\<close>

datatype shift_plan_mode = Preview | Apply

text \<open>A caddie's place on a course (\<open>CaddieCourseMembership\<close> of \<open>caddie_ops.rs\<close>).\<close>

record course_membership =
  cm_id :: str
  cm_caddie :: caddie_id
  cm_course :: course_id
  cm_primary :: bool

record generated_month =
  gm_month :: year_month
  gm_days_written :: nat
  gm_pinned_kept :: nat
  gm_unplaced :: "str list"
  gm_statutory :: nat
  gm_overworked :: "str list"
  gm_warning :: "deadline_warning option"
  gm_shifts :: "caddie_shift list"

record month_reads =
  mr_permitted :: "unit result"
  mr_today :: "date result"
  mr_roster :: "caddie list result"
  mr_filed :: "availability list result"
  mr_existing :: "unit result"
  mr_policy :: "unit result"
  mr_memberships :: "caddie_id list \<Rightarrow> (caddie_id \<rightharpoonup> course_membership list) result"
  mr_saved :: "unit result"
  mr_deadline :: "availability_deadline option result"

definition month_dates :: "date \<Rightarrow> date \<Rightarrow> date list" where
  "month_dates first final = [first..final]"

definition requests_by_caddie :: "availability list \<Rightarrow> caddie_id \<rightharpoonup> (date \<rightharpoonup> shift_request)" where
  "requests_by_caddie filed = fold (\<lambda>a m.
     m(av_caddie a \<mapsto> (unwrap_or (m (av_caddie a)) Map.empty)
        (av_date a \<mapsto> \<lparr>rq_status = av_status a, rq_two_round = av_two_round_request a\<rparr>))) filed Map.empty"

definition main_courses :: "(caddie_id \<rightharpoonup> course_membership list) \<Rightarrow> caddie_id \<rightharpoonup> course_id" where
  "main_courses memberships cid =
     (case memberships cid of None \<Rightarrow> None | Some ms \<Rightarrow> map_option cm_course (find cm_primary ms))"

text \<open>A request is taken out of the map by the first caddie it belongs to.\<close>

fun shift_seeds ::
  "(caddie_id \<rightharpoonup> course_id) \<Rightarrow> (caddie_id \<rightharpoonup> (date \<rightharpoonup> shift_request)) \<Rightarrow> caddie list \<Rightarrow> shift_seed list" where
  "shift_seeds mains requests [] = []"
| "shift_seeds mains requests (c # cs) =
     \<lparr>sd_caddie = cd_id c, sd_name = cd_display_name c, sd_assignable = is_assignable c,
      sd_can_two = cd_can_two_rounds c, sd_max_rounds = cd_max_rounds c, sd_main_course = mains (cd_id c),
      sd_requests = unwrap_or (requests (cd_id c)) Map.empty\<rparr>
     # shift_seeds mains (requests(cd_id c := None)) cs"

definition unsubmitted_warning ::
  "availability_deadline option \<Rightarrow> date \<Rightarrow> shift_seed list \<Rightarrow> availability list \<Rightarrow> deadline_warning option" where
  "unsubmitted_warning deadline today seeds filed =
     (case deadline of None \<Rightarrow> None
      | Some dl \<Rightarrow> if \<not> has_passed today dl then None
          else (let names = map sd_name (filter (\<lambda>s. sd_caddie s \<notin> set (map av_caddie filed)) (filter sd_assignable seeds))
                in if names = [] then None else Some \<lparr>dw_deadline = dl_date dl, dw_unsubmitted = names\<rparr>))"

text \<open>
  \<open>None\<close> is the panic of a month without bounds. The existing days are read from six days before
  the month, as the code reads them.
\<close>

definition generate_caddie_shifts ::
  "collation \<Rightarrow> calendar \<Rightarrow> month_reads \<Rightarrow> rules_table \<Rightarrow> str \<Rightarrow> year_month \<Rightarrow> shift_plan_mode \<Rightarrow> (nat \<Rightarrow> instant)
    \<Rightarrow> shift_table \<Rightarrow> (generated_month result \<times> shift_table) option" where
  "generate_caddie_shifts ck cal reads rules tenant ym mode now rows =
     (case mr_permitted reads of Inl e \<Rightarrow> Some (Inl e, rows) | Inr _ \<Rightarrow>
     (case mr_today reads of Inl e \<Rightarrow> Some (Inl e, rows) | Inr today \<Rightarrow>
     (case year_month_bounds cal ym of None \<Rightarrow> None | Some (first, final) \<Rightarrow>
     (case mr_roster reads of Inl e \<Rightarrow> Some (Inl e, rows) | Inr roster \<Rightarrow>
     (case mr_filed reads of Inl e \<Rightarrow> Some (Inl e, rows) | Inr filed \<Rightarrow>
     (case mr_existing reads of Inl e \<Rightarrow> Some (Inl e, rows) | Inr _ \<Rightarrow>
     (case mr_policy reads of Inl e \<Rightarrow> Some (Inl e, rows) | Inr _ \<Rightarrow>
     (case mr_memberships reads (map cd_id roster) of Inl e \<Rightarrow> Some (Inl e, rows) | Inr memberships \<Rightarrow>
     (let existing = list_shifts ck tenant (first - MAX_CONSECUTIVE_WORK_DAYS) final rows;
          seeds = shift_seeds (main_courses memberships) (requests_by_caddie filed) roster;
          plan = plan_month_shifts cal (month_dates first final) seeds existing (get_shift_policy rules tenant);
          (written, rows') = (case mode of
             Apply \<Rightarrow> save_shifts ck tenant now (mr_saved reads) (mp_shifts plan) rows
           | Preview \<Rightarrow> (Inr (length (mp_shifts plan)), rows))
      in case written of Inl e \<Rightarrow> Some (Inl e, rows')
         | Inr n \<Rightarrow> (case mr_deadline reads of Inl e \<Rightarrow> Some (Inl e, rows')
            | Inr deadline \<Rightarrow> Some (Inr \<lparr>gm_month = ym, gm_days_written = n, gm_pinned_kept = mp_pinned_kept plan,
                gm_unplaced = mp_unplaced plan, gm_statutory = mp_statutory_rest plan,
                gm_overworked = mp_overworked plan,
                gm_warning = unsubmitted_warning deadline today seeds filed,
                gm_shifts = mp_shifts plan\<rparr>, rows')))))))))))"

definition list_caddie_shifts ::
  "collation \<Rightarrow> unit result \<Rightarrow> str \<Rightarrow> date \<Rightarrow> date \<Rightarrow> shift_table \<Rightarrow> caddie_shift list result" where
  "list_caddie_shifts ck permitted tenant first final rows =
     (if final < first then Inl (BadRequest ''the range starts after it ends'')
      else case permitted of Inl e \<Rightarrow> Inl e | Inr _ \<Rightarrow> Inr (list_shifts ck tenant first final rows))"

section \<open>The rules as they are stored\<close>

lemma policy_ok_stored: "policy_ok (get_shift_policy table tenant)"
  by (auto simp: get_shift_policy_def policy_parse_csv_def intro!: policy_rules split: option.split)

text \<open>The club's rules read back as they were set.\<close>

theorem rules_read_back:
  assumes "policy_ok p" "sp_min_rest p \<le> 2147483647"
  shows "get_shift_policy (upsert_shift_policy tenant p table) tenant = p"
proof -
  have ids: "wrap_i32 (sp_max_consecutive p) = sp_max_consecutive p" "wrap_i32 (sp_min_rest p) = sp_min_rest p"
    using assms by (auto simp: policy_ok_def MAX_CONSECUTIVE_WORK_DAYS_def in_i32_def i32_min_def i32_max_def intro!: wrap_i32_id)
  have "get_shift_policy (upsert_shift_policy tenant p table) tenant
    = (policy_parse_csv (policy_as_csv p))\<lparr>sp_max_consecutive := sp_max_consecutive p,
        sp_max_rounds := sp_max_rounds p, sp_min_rest := sp_min_rest p, sp_unfiled := sp_unfiled p\<rparr>"
    using assms by (simp add: get_shift_policy_def upsert_shift_policy_def ids policy_ok_def clamp_def
        with_max_consecutive_work_days_def with_max_rounds_per_day_def with_min_rest_days_per_month_def
        with_unfiled_request_def Let_def unfiled.parse_as_str split: option.split)
  then show ?thesis using policy_csv_roundtrip [of p] by simp
qed

lemma hours_always_usable: "defaults_ok (get_default_working_hours table tenant)"
proof -
  have "defaults_ok club_default" by code_simp
  then show ?thesis
    by (auto simp: get_default_working_hours_def result_or_def dest: default_hours_try_new_ok
        split: option.split sum.split)
qed

end
