(* ===== verification/ShiftMirrorCorrect.thy ===== *)
theory ShiftMirrorCorrect
  imports ShiftMirror
begin

text \<open>
  What telling Field promises: the desk's edit reaches Field before it is stored and touches no other
  day, every call of the batch push takes up to two hundred days off the queue when Field answers, and
  a stored day stays the columns of a well-formed shift. \<open>day_key\<close> is the table's unique key.
\<close>

section \<open>The table\<close>

definition day_key :: "collation \<Rightarrow> shift_row \<Rightarrow> nat list \<times> date \<times> nat list" where
  "day_key ck r = (ck (hw_tenant r), hw_date r, ck (hw_caddie r))"

definition shifts_once :: "collation \<Rightarrow> shift_table \<Rightarrow> bool" where
  "shifts_once ck rows \<longleftrightarrow> distinct (map (day_key ck) rows)"

lemma shifts_onceD:
  "shifts_once ck rows \<Longrightarrow> a \<in> set rows \<Longrightarrow> b \<in> set rows \<Longrightarrow> day_key ck a = day_key ck b \<Longrightarrow> a = b"
  by (auto simp: shifts_once_def distinct_map inj_on_def)

lemma is_day_key: "is_day ck tenant cid d r \<longleftrightarrow> day_key ck r = (ck tenant, d, ck cid)"
  by (auto simp: is_day_def day_key_def same_text_def)

lemma to_shift_sel [simp]: "sh_caddie (to_shift r) = hw_caddie r" "sh_date (to_shift r) = hw_date r"
  by (simp_all add: to_shift_def shift_reconstitute_def)

lemma link_new_sel [simp]:
  "fl_caddie (field_shift_link_new c d f) = c" "fl_date (field_shift_link_new c d f) = d"
  by (simp_all add: field_shift_link_new_def)

lemma day_key_updates [simp]:
  "day_key ck (overwrite_row t s r) = day_key ck r"
  "day_key ck (r\<lparr>hw_field_shift := f, hw_synced_at := y\<rparr>) = day_key ck r"
  "day_key ck (r\<lparr>hw_synced_at := y\<rparr>) = day_key ck r"
  by (simp_all add: day_key_def overwrite_row_def)

lemma chunks_single: "xs \<noteq> [] \<Longrightarrow> length xs \<le> n \<Longrightarrow> chunks n xs = [xs]"
proof -
  assume xs: "xs \<noteq> []" "length xs \<le> n"
  then have "(length xs + n - 1) div n = 1"
    by (cases "length xs") (auto simp: div_eq_dividend_iff intro!: div_nat_eqI)
  then show ?thesis using xs by (simp add: chunks_def)
qed

section \<open>Pushing a month\<close>

definition queued :: "collation \<Rightarrow> str \<Rightarrow> date \<Rightarrow> date \<Rightarrow> shift_row \<Rightarrow> bool" where
  "queued ck tenant first final r \<longleftrightarrow> in_range ck tenant first final r \<and> behind_field r"

definition batch_rows :: "collation \<Rightarrow> str \<Rightarrow> date \<Rightarrow> date \<Rightarrow> shift_table \<Rightarrow> shift_row list" where
  "batch_rows ck tenant first final rows =
     take BATCH (sort_by (day_order ck) (filter (queued ck tenant first final) rows))"

lemma queued_abs: "queued ck tenant first final = (\<lambda>r. in_range ck tenant first final r \<and> behind_field r)"
  by (simp add: fun_eq_iff queued_def)

lemma count_unsynced_queued: "count_unsynced ck tenant first final rows = length (filter (queued ck tenant first final) rows)"
  by (simp add: count_unsynced_def queued_abs)

lemma unsynced_shifts_batch:
  "unsynced_shifts ck tenant first final BATCH rows
   = map (\<lambda>r. \<lparr>us_shift = to_shift r, us_field_shift = hw_field_shift r\<rparr>) (batch_rows ck tenant first final rows)"
  by (simp add: unsynced_shifts_def batch_rows_def queued_abs)

lemma batch_rows_queued: "r \<in> set (batch_rows ck tenant first final rows) \<Longrightarrow> r \<in> set rows \<and> queued ck tenant first final r"
  by (auto simp: batch_rows_def dest: in_set_takeD)

lemma intent_error_permanent: "intent_for cal s defaults hours = Inl e \<Longrightarrow> is_permanent e"
  by (auto simp: intent_for_def hours_for_span_def default_span_hours_def hours_try_new_def Let_def
      split: if_splits sum.splits list.splits shift_span.splits option.splits)

text \<open>What one push leaves for the table: a link for the day, or nothing when Field did not answer.\<close>

definition dealt_with :: "(field_shift_link result \<times> field_call list) \<Rightarrow> caddie_shift \<Rightarrow> bool" where
  "dealt_with res s \<longleftrightarrow> (case fst res of Inr l \<Rightarrow> fl_caddie l = sh_caddie s \<and> fl_date l = sh_date s
     | Inl e \<Rightarrow> is_permanent e)"

definition always_answers :: "field_replies \<Rightarrow> bool" where
  "always_answers reply \<longleftrightarrow> (\<forall>before c. case reply before c of Inl e \<Rightarrow> is_permanent e | Inr _ \<Rightarrow> True)"

lemma answersD: "always_answers reply \<Longrightarrow> reply before c = Inl e \<Longrightarrow> is_permanent e"
  by (auto simp: always_answers_def split: sum.splits)

lemma upsert_error:
  assumes "always_answers reply"
  shows "fst (upsert_shift reply st f i calls) = Inl e \<Longrightarrow> is_permanent e"
    and "fst (delete_shift reply st fid calls) = Inl e \<Longrightarrow> is_permanent e"
  using answersD [OF assms]
  by (auto simp: upsert_shift_def delete_shift_def send_def split: if_splits option.splits sum.splits)

lemma mirror_deals:
  assumes answers: "always_answers reply"
  shows "dealt_with (mirror_shift reply cal staff s f defaults hours calls) s"
proof (cases "present staff")
  case None
  then show ?thesis by (simp add: mirror_shift_def dealt_with_def)
next
  case (Some st)
  show ?thesis
  proof (cases "intent_for cal s defaults hours")
    case (Inl e)
    then show ?thesis using Some intent_error_permanent [OF Inl] by (simp add: mirror_shift_def dealt_with_def)
  next
    case (Inr what)
    show ?thesis
    proof (cases what)
      case (FileHours h)
      then show ?thesis using Some Inr upsert_error(1) [OF answers, of st f "shift_input s h" calls]
        by (auto simp: mirror_shift_def dealt_with_def split: sum.splits prod.splits)
    next
      case Withdraw
      then show ?thesis using Some Inr upsert_error(2) [OF answers, of st "the f" calls]
        by (cases f) (auto simp: mirror_shift_def dealt_with_def Let_def split: sum.splits prod.splits)
    qed
  qed
qed

lemma push_days_name_each:
  assumes "\<And>st en before. en \<in> set batch \<Longrightarrow> dealt_with (mirror st en before) (us_shift en)"
  shows "\<exists>ls counts' calls'. fold (push_day mirror staff) batch (links, counts, calls) = (links @ ls, counts', calls')
    \<and> map (\<lambda>l. (fl_caddie l, fl_date l)) ls
      = map (\<lambda>en. (sh_caddie (us_shift en), sh_date (us_shift en))) batch"
  using assms
proof (induction batch arbitrary: links counts calls)
  case (Cons en batch)
  have step: "\<exists>l counts' calls'. push_day mirror staff en (links, counts, calls) = (links @ [l], counts', calls')
      \<and> fl_caddie l = sh_caddie (us_shift en) \<and> fl_date l = sh_date (us_shift en)"
    using Cons.prems [of en "staff (sh_caddie (us_shift en))" calls]
    by (auto simp: push_day_def dealt_with_def Let_def split: sum.splits prod.splits)
  then obtain l counts1 calls1 where l: "push_day mirror staff en (links, counts, calls) = (links @ [l], counts1, calls1)"
      "fl_caddie l = sh_caddie (us_shift en)" "fl_date l = sh_date (us_shift en)" by blast
  obtain ls counts2 calls2 where
      "fold (push_day mirror staff) batch (links @ [l], counts1, calls1) = ((links @ [l]) @ ls, counts2, calls2)"
      "map (\<lambda>l. (fl_caddie l, fl_date l)) ls = map (\<lambda>en. (sh_caddie (us_shift en), sh_date (us_shift en))) batch"
    using Cons.IH [of "links @ [l]" counts1 calls1] Cons.prems by auto
  then show ?case using l by (intro exI [of _ "l # ls"]) auto
qed simp

text \<open>Storing the links of a batch stamps exactly the rows of the batch.\<close>

definition stamped :: "instant \<Rightarrow> (shift_row \<Rightarrow> str option) \<Rightarrow> shift_row set \<Rightarrow> shift_row \<Rightarrow> shift_row" where
  "stamped now f S r = (if r \<in> S then r\<lparr>hw_field_shift := f r, hw_synced_at := Some now\<rparr> else r)"

lemma set_links_stamps:
  assumes once: "shifts_once ck rows" and sub: "\<And>b. b \<in> set bs \<Longrightarrow> b \<in> set rows \<and> same_text ck (hw_tenant b) tenant"
    and named: "map (\<lambda>l. (fl_caddie l, fl_date l)) ls = map (\<lambda>b. (hw_caddie b, hw_date b)) bs"
  shows "\<exists>f. set_links ck tenant now ls rows = map (stamped now f (set bs)) rows"
proof -
  have same: "(\<exists>l \<in> set ls. names_row ck l r) \<longleftrightarrow> r \<in> set bs" if r: "r \<in> set rows" "same_text ck (hw_tenant r) tenant" for r
  proof -
    have sets: "(\<lambda>l. (fl_caddie l, fl_date l)) ` set ls = (\<lambda>b. (hw_caddie b, hw_date b)) ` set bs"
      using named by (metis list.set_map)
    have "(\<exists>l \<in> set ls. names_row ck l r)
        \<longleftrightarrow> (\<exists>p \<in> (\<lambda>l. (fl_caddie l, fl_date l)) ` set ls. ck (hw_caddie r) = ck (fst p) \<and> hw_date r = snd p)"
      by (auto simp: names_row_def same_text_def)
    also have "\<dots> \<longleftrightarrow> (\<exists>b \<in> set bs. ck (hw_caddie r) = ck (hw_caddie b) \<and> hw_date r = hw_date b)"
      unfolding sets by auto
    also have "\<dots> \<longleftrightarrow> r \<in> set bs"
    proof
      assume "\<exists>b \<in> set bs. ck (hw_caddie r) = ck (hw_caddie b) \<and> hw_date r = hw_date b"
      then obtain b where b: "b \<in> set bs" "ck (hw_caddie r) = ck (hw_caddie b)" "hw_date r = hw_date b" by blast
      then have "day_key ck r = day_key ck b" using r(2) sub [OF b(1)] by (simp add: day_key_def same_text_def)
      then show "r \<in> set bs" using shifts_onceD [OF once r(1)] sub [OF b(1)] b(1) by metis
    qed blast
    finally show ?thesis .
  qed
  define f where "f r = (case find (\<lambda>l. names_row ck l r) ls of Some l \<Rightarrow> fl_field_shift l | None \<Rightarrow> None)" for r
  have "(if same_text ck (hw_tenant r) tenant
       then (case find (\<lambda>l. names_row ck l r) ls of None \<Rightarrow> r
         | Some l \<Rightarrow> r\<lparr>hw_field_shift := fl_field_shift l, hw_synced_at := Some now\<rparr>) else r)
     = stamped now f (set bs) r" if r: "r \<in> set rows" for r
  proof (cases "same_text ck (hw_tenant r) tenant")
    case True
    show ?thesis
    proof (cases "find (\<lambda>l. names_row ck l r) ls")
      case None
      then have "r \<notin> set bs" using same [OF r True] by (auto simp: find_None_iff)
      then show ?thesis using True None by (simp add: stamped_def)
    next
      case (Some l)
      then have "r \<in> set bs" using same [OF r True] by (auto simp: find_Some_iff)
      then show ?thesis using True Some by (simp add: stamped_def f_def)
    qed
  next
    case False
    then have "r \<notin> set bs" using sub by blast
    with False show ?thesis by (simp add: stamped_def)
  qed
  then show ?thesis by (auto simp: set_links_def intro!: exI [of _ f])
qed

lemma stamped_sel [simp]:
  "hw_tenant (stamped t f S r) = hw_tenant r" "hw_date (stamped t f S r) = hw_date r"
  "hw_caddie (stamped t f S r) = hw_caddie r" "hw_updated_at (stamped t f S r) = hw_updated_at r"
  "day_key ck (stamped t f S r) = day_key ck r"
  by (simp_all add: stamped_def day_key_def)

lemma queued_stamped:
  "hw_updated_at r \<le> t \<Longrightarrow> queued ck tenant first final (stamped t f S r) \<longleftrightarrow> queued ck tenant first final r \<and> r \<notin> S"
  by (auto simp: queued_def in_range_def behind_field_def stamped_def)

lemma stamping_counts:
  assumes "distinct rows" "S \<subseteq> set rows" "\<And>r. r \<in> S \<Longrightarrow> queued ck tenant first final r"
    and "\<And>r. r \<in> set rows \<Longrightarrow> hw_updated_at r \<le> t"
  shows "count_unsynced ck tenant first final (map (stamped t f S) rows)
    = count_unsynced ck tenant first final rows - card S"
proof -
  have "length (filter (queued ck tenant first final) (map (stamped t f S) rows))
      = length (filter (\<lambda>r. queued ck tenant first final (stamped t f S r)) rows)"
    by (simp add: filter_map comp_def)
  also have "filter (\<lambda>r. queued ck tenant first final (stamped t f S r)) rows
      = filter (\<lambda>r. queued ck tenant first final r \<and> r \<notin> S) rows"
    using assms(4) by (intro filter_cong refl) (simp add: queued_stamped)
  also have "length \<dots> = card {r \<in> set rows. queued ck tenant first final r \<and> r \<notin> S}"
    using distinct_card [OF distinct_filter [OF assms(1)], of "\<lambda>r. queued ck tenant first final r \<and> r \<notin> S"] by simp
  also have "card {r \<in> set rows. queued ck tenant first final r \<and> r \<notin> S}
      = card ({r \<in> set rows. queued ck tenant first final r} - S)"
    by (rule arg_cong [where f = card]) blast
  also have "\<dots> = card {r \<in> set rows. queued ck tenant first final r} - card S"
    using assms(2,3) by (intro card_Diff_subset) (auto intro: finite_subset)
  finally show ?thesis
    using distinct_card [OF distinct_filter [OF assms(1)], of "queued ck tenant first final"]
    by (simp add: count_unsynced_queued)
qed

text \<open>What a call reads besides the table, every read answered.\<close>

definition reads_go_through :: "((course_id \<rightharpoonup> resource_id) \<Rightarrow> (course_id \<times> resource_id) list) \<Rightarrow> sync_reads \<Rightarrow> bool" where
  "reads_go_through walk reads \<longleftrightarrow> yf_permitted reads = Inr () \<and> yf_marked reads = Inr () \<and> yf_batch reads = Inr ()
     \<and> \<not> isl (yf_roster reads) \<and> \<not> isl (yf_defaults reads) \<and> yf_stored reads = Inr () \<and> yf_counted reads = Inr ()
     \<and> (\<forall>wanted. \<not> isl (opening_hours walk (yf_resources reads) (yf_schedule reads) wanted))"

abbreviation (input) days_left :: "collation \<Rightarrow> str \<Rightarrow> date \<times> date \<Rightarrow> shift_table \<Rightarrow> nat" where
  "days_left ck tenant month rows \<equiv> count_unsynced ck tenant (fst month) (snd month) rows"

lemma one_push:
  assumes once: "shifts_once ck rows" and reads: "reads_go_through walk reads" and answers: "always_answers reply"
    and clock: "\<And>r. r \<in> set rows \<Longrightarrow> hw_updated_at r \<le> now 0"
  shows "\<exists>p f S calls'. sync_caddie_shifts ck reply cal walk True reads tenant month False now id (rows, calls)
      = (Inr p, map (stamped (now 0) f S) rows, calls')
    \<and> fp_remaining p = days_left ck tenant month rows - BATCH
    \<and> days_left ck tenant month (map (stamped (now 0) f S) rows) = days_left ck tenant month rows - BATCH"
proof -
  obtain first final where month: "month = (first, final)" by (cases month)
  define batch where "batch = unsynced_shifts ck tenant first final BATCH rows"
  define bs where "bs = batch_rows ck tenant first final rows"
  have batch: "batch = map (\<lambda>r. \<lparr>us_shift = to_shift r, us_field_shift = hw_field_shift r\<rparr>) bs"
    by (simp add: batch_def bs_def unsynced_shifts_batch)
  obtain roster where roster: "yf_roster reads = Inr roster" using reads by (cases "yf_roster reads") (auto simp: reads_go_through_def)
  obtain defaults where defaults: "yf_defaults reads = Inr defaults"
    using reads by (cases "yf_defaults reads") (auto simp: reads_go_through_def)
  obtain hours where hours: "opening_hours walk (yf_resources reads) (yf_schedule reads)
      (set (List.map_filter (\<lambda>entry. sh_course (us_shift entry)) batch)) = Inr hours"
    using reads unfolding reads_go_through_def by (metis sum.collapse(2))
  have distinct: "distinct rows" using once by (auto simp: shifts_once_def distinct_map)
  have card: "card (set bs) = min BATCH (days_left ck tenant month rows)"
  proof -
    have "distinct bs" using distinct by (simp add: bs_def batch_rows_def)
    then show ?thesis by (simp add: distinct_card bs_def batch_rows_def month count_unsynced_queued min.commute)
  qed
  show ?thesis
  proof (cases "batch = []")
    case True
    then have "days_left ck tenant month rows = 0"
      using batch card by (simp add: BATCH_def)
    moreover have "map (stamped (now 0) (\<lambda>_. None) {}) rows = rows"
      by (simp add: stamped_def map_idI)
    ultimately show ?thesis using reads True
      by (intro exI [of _ nothing_to_do] exI [of _ "\<lambda>_. None"] exI [of _ "{}"] exI [of _ calls])
        (simp add: sync_caddie_shifts_def reads_go_through_def month batch_def [symmetric] Let_def nothing_to_do_def)
  next
    case False
    define mirror where "mirror = (\<lambda>staff (entry :: unsynced_shift). mirror_shift reply cal staff (us_shift entry) (us_field_shift entry) defaults hours)"
    have deals: "dealt_with (mirror st en before) (us_shift en)" for st en before
      unfolding mirror_def by (rule mirror_deals [OF answers])
    obtain ls counts calls' where pushed: "fold (push_day mirror (linked_staff roster)) batch ([], nothing_to_do, calls) = (ls, counts, calls')"
        and named: "map (\<lambda>l. (fl_caddie l, fl_date l)) ls = map (\<lambda>en. (sh_caddie (us_shift en), sh_date (us_shift en))) batch"
      using push_days_name_each [where batch = batch and mirror = mirror and staff = "linked_staff roster"
          and links = "[]" and counts = nothing_to_do and calls = calls] deals by auto
    have named': "map (\<lambda>l. (fl_caddie l, fl_date l)) ls = map (\<lambda>b. (hw_caddie b, hw_date b)) bs"
      using named by (simp add: batch comp_def)
    have few: "ls \<noteq> []" "length ls \<le> WRITE_CHUNK"
      using False named' map_eq_imp_length_eq [OF named'] batch
      by (auto simp: bs_def batch_rows_def BATCH_def WRITE_CHUNK_def)
    have members: "b \<in> set rows \<and> same_text ck (hw_tenant b) tenant" "queued ck tenant first final b" if "b \<in> set bs" for b
      using batch_rows_queued [OF that [unfolded bs_def]] by (auto simp: queued_def in_range_def)
    obtain f where stamps: "set_links ck tenant (now 0) ls rows = map (stamped (now 0) f (set bs)) rows"
      using set_links_stamps [OF once _ named', of tenant "now 0"] members by blast
    have left: "count_unsynced ck tenant first final (map (stamped (now 0) f (set bs)) rows)
        = days_left ck tenant month rows - BATCH"
    proof -
      have "set bs \<subseteq> set rows" using members(1) by blast
      then show ?thesis
        using stamping_counts [OF distinct _ members(2), where S = "set bs" and t = "now 0" and f = f] clock card
        by (auto simp: month min_def)
    qed
    have "sync_caddie_shifts ck reply cal walk True reads tenant month False now id (rows, calls)
      = (Inr (counts\<lparr>fp_remaining := days_left ck tenant month rows - BATCH\<rparr>), map (stamped (now 0) f (set bs)) rows, calls')"
      using reads False few pushed
      by (simp add: sync_caddie_shifts_def reads_go_through_def month batch_def [symmetric] Let_def roster defaults hours
          mirror_def [symmetric] set_field_shift_links_def chunks_single stamps left [unfolded month, simplified])
    then show ?thesis using left by (auto simp: month)
  qed
qed

section \<open>A sample desk\<close>

definition letters_of :: collation where "letters_of = map of_char"

definition desk_caddie :: caddie where
  "desk_caddie = caddie_reconstitute ''a'' ''Aoi'' (Some ''st1'') True Regular RankB ''active'' 8000 ''JPY'' 2 True 0 0 None 0"

definition desk_row :: shift_row where
  "desk_row = \<lparr>hw_tenant = ''t'', hw_date = 20654, hw_caddie = ''a'', hw_course = Some ''east'', hw_working = True,
     hw_span = ''full_day'', hw_rounds = 1, hw_origin = ''generated'', hw_note = None, hw_updated_by = None,
     hw_updated_at = 100, hw_field_shift = None, hw_synced_at = None\<rparr>"

definition desk_table :: shift_table where
  "desk_table = [desk_row, desk_row\<lparr>hw_date := 20655, hw_field_shift := Some ''f9''\<rparr>]"

text \<open>A Field that files everything under the number of the call.\<close>

definition filing_field :: field_replies where
  "filing_field before c = Inr (CHR ''f'' # show_nat (length before))"

definition no_walk :: "(course_id \<rightharpoonup> resource_id) \<Rightarrow> (course_id \<times> resource_id) list" where
  "no_walk m = []"

definition sync_all :: sync_reads where
  "sync_all = \<lparr>yf_permitted = Inr (), yf_marked = Inr (), yf_batch = Inr (), yf_roster = Inr ([desk_caddie], [''st1'']),
     yf_defaults = Inr club_default, yf_resources = Inr [], yf_schedule = (\<lambda>_. Inr []), yf_stored = Inr (), yf_counted = Inr ()\<rparr>"

definition edit_all :: edit_reads where
  "edit_all = \<lparr>ef_permitted = Inr (), ef_workable = Inr [''east''], ef_filed = Inr [], ef_roster = Inr ([desk_caddie], [''st1'']),
     ef_linked = Inr (), ef_defaults = Inr club_default, ef_resources = Inr [], ef_schedule = (\<lambda>_. Inr []),
     ef_saved = Inr (), ef_stored = Inr ()\<rparr>"

lemma desk_once: "shifts_once letters_of desk_table" by code_simp

lemma sync_all_goes_through: "reads_go_through no_walk sync_all"
  by (simp add: reads_go_through_def sync_all_def opening_hours_def no_walk_def chunks_def SCHEDULE_READS_def)

lemma filing_answers: "always_answers filing_field"
  by (simp add: always_answers_def filing_field_def)

text \<open>The screen calls again and again; each call reads anew and has its own clock.\<close>

definition push_again ::
  "collation \<Rightarrow> field_replies \<Rightarrow> calendar \<Rightarrow> ((course_id \<rightharpoonup> resource_id) \<Rightarrow> (course_id \<times> resource_id) list)
    \<Rightarrow> str \<Rightarrow> date \<times> date \<Rightarrow> sync_reads \<times> (nat \<Rightarrow> instant) \<Rightarrow> shift_table \<times> field_call list \<Rightarrow> shift_table \<times> field_call list" where
  "push_again ck reply cal walk tenant month call st =
     snd (sync_caddie_shifts ck reply cal walk True (fst call) tenant month False (snd call) id st)"

text \<open>
  C22. However many days of the month Field is behind on, every call of the push that goes through
  takes two hundred of them off the queue, or all that are left, as long as Field answers each request
  (even by refusing it) and nobody edits the month meanwhile: enough calls finish the month, and no
  day is added or lost on the way.
\<close>

theorem push_reaches_every_day:
  assumes "shifts_once ck rows" "always_answers reply"
    and "\<And>call. call \<in> set visits \<Longrightarrow> reads_go_through walk (fst call)"
    and "\<And>call r. call \<in> set visits \<Longrightarrow> r \<in> set rows \<Longrightarrow> hw_updated_at r \<le> snd call 0"
  shows "let rows' = fst (fold (push_again ck reply cal walk tenant month) visits (rows, made))
    in count_unsynced ck tenant (fst month) (snd month) rows'
        = count_unsynced ck tenant (fst month) (snd month) rows - BATCH * length visits
      \<and> map (day_key ck) rows' = map (day_key ck) rows"
  using assms
proof (induction visits arbitrary: rows made)
  case (Cons call visits)
  obtain p f S made' where step: "sync_caddie_shifts ck reply cal walk True (fst call) tenant month False (snd call) id (rows, made)
      = (Inr p, map (stamped (snd call 0) f S) rows, made')"
    "days_left ck tenant month (map (stamped (snd call 0) f S) rows) = days_left ck tenant month rows - BATCH"
    using one_push [of ck rows walk "fst call" reply "snd call" cal tenant month made] Cons.prems by auto
  define rows1 where "rows1 = map (stamped (snd call 0) f S) rows"
  have first: "push_again ck reply cal walk tenant month call (rows, made) = (rows1, made')"
    using step(1) by (simp add: push_again_def rows1_def)
  have keys: "map (day_key ck) rows1 = map (day_key ck) rows" by (simp add: rows1_def)
  have clock: "hw_updated_at r \<le> snd c 0" if "c \<in> set visits" "r \<in> set rows1" for c r
    using that Cons.prems(4) [of c] by (auto simp: rows1_def)
  have left: "days_left ck tenant month rows1 = days_left ck tenant month rows - BATCH"
    using step(2) by (simp add: rows1_def)
  have once: "shifts_once ck rows1" using keys Cons.prems(1) by (simp add: shifts_once_def)
  show ?case
    using Cons.IH [OF once Cons.prems(2) _ clock, of made'] Cons.prems(3) keys left by (simp add: first Let_def)
qed simp

theorem push_reaches_every_day_witness:
  "count_unsynced letters_of ''t'' 20635 20665 desk_table = 2
   \<and> count_unsynced letters_of ''t'' 20635 20665 (fst (push_again letters_of filing_field utc_calendar no_walk ''t''
        (20635, 20665) (sync_all, \<lambda>_. 200) (desk_table, []))) = 0"
proof -
  have clock: "hw_updated_at r \<le> snd call 0" if "call \<in> set [(sync_all, \<lambda>_ :: nat. 200)]" "r \<in> set desk_table" for call r
    using that by (auto simp: desk_table_def desk_row_def)
  have reads: "reads_go_through no_walk (fst call)" if "call \<in> set [(sync_all, \<lambda>_ :: nat. 200 :: instant)]" for call
    using that sync_all_goes_through by simp
  have two: "count_unsynced letters_of ''t'' 20635 20665 desk_table = 2" by code_simp
  from push_reaches_every_day [where visits = "[(sync_all, \<lambda>_ :: nat. 200)]", OF desk_once filing_answers reads clock,
      where cal = utc_calendar and tenant = "''t''" and month = "(20635, 20665)" and made = "[]"]
  show ?thesis using two by (simp add: Let_def BATCH_def)
qed

section \<open>The desk's edit\<close>

lemma save_one:
  "save_shifts ck tenant now committed [s] rows
   = (case committed of Inl e \<Rightarrow> (Inl e, rows) | Inr _ \<Rightarrow> (Inr 1, save_shift ck tenant (now 0) s rows))"
  by (simp add: save_shifts_def chunks_single WRITE_CHUNK_def split: sum.split)

lemma link_one:
  "set_field_shift_links ck tenant now committed [l] rows
   = (case committed of Inl e \<Rightarrow> (Inl e, rows) | Inr _ \<Rightarrow> (Inr (), set_links ck tenant (now 0) [l] rows))"
  by (simp add: set_field_shift_links_def chunks_single WRITE_CHUNK_def split: sum.split)

text \<open>
  What Field has agreed to when a day is stored with the link \<open>stored\<close>: nothing was asked of it for a caddie
  with nobody to be filed under; a working day was filed, under the shift it had or anew, over hours that
  \<open>filed\<close> allows; a day off was withdrawn.
\<close>

definition field_agrees ::
  "field_replies \<Rightarrow> str option \<Rightarrow> (shift_hours \<Rightarrow> bool) \<Rightarrow> caddie_shift \<Rightarrow> str option \<Rightarrow> field_call list \<Rightarrow> field_call list
    \<Rightarrow> str option \<Rightarrow> bool" where
  "field_agrees reply staff filed s existing calls calls' stored \<longleftrightarrow>
     (case present staff of
        None \<Rightarrow> calls' = calls \<and> stored = trimmed existing
      | Some st \<Rightarrow>
          if sh_working s
          then (\<exists>h fid. filed h \<and> stored = trimmed (Some fid) \<and>
            (let input = \<lparr>fi_date = sh_date s, fi_start = hours_start h, fi_end = hours_end h, fi_type = None,
                   fi_notes = sh_note s\<rparr>;
                 post = PostShift (trim st) input
             in case present existing of
               None \<Rightarrow> calls' = calls @ [post] \<and> reply calls post = Inr fid
             | Some old \<Rightarrow> let patch = PatchShift (trim st) old input in
                 calls' = calls @ [patch] \<and> reply calls patch = Inr fid
                 \<or> (\<exists>e. reply calls patch = Inl e \<and> is_missing e \<and> calls' = calls @ [patch, post]
                      \<and> reply (calls @ [patch]) post = Inr fid)))
          else stored = None
            \<and> (case existing of None \<Rightarrow> calls' = calls
               | Some fid \<Rightarrow> calls' = calls @ [DeleteShift (trim st) (trim fid)]
                   \<and> (case reply calls (DeleteShift (trim st) (trim fid)) of Inr _ \<Rightarrow> True | Inl e \<Rightarrow> is_missing e)))"

lemma upsert_agrees:
  "upsert_shift reply st existing i calls = (Inr fid, calls') \<Longrightarrow>
     (case present existing of
        None \<Rightarrow> calls' = calls @ [PostShift (trim st) i] \<and> reply calls (PostShift (trim st) i) = Inr fid
      | Some old \<Rightarrow>
          calls' = calls @ [PatchShift (trim st) old i] \<and> reply calls (PatchShift (trim st) old i) = Inr fid
          \<or> (\<exists>e. reply calls (PatchShift (trim st) old i) = Inl e \<and> is_missing e
               \<and> calls' = calls @ [PatchShift (trim st) old i, PostShift (trim st) i]
               \<and> reply (calls @ [PatchShift (trim st) old i]) (PostShift (trim st) i) = Inr fid))"
  by (auto simp: upsert_shift_def send_def split: if_splits option.splits sum.splits)

lemma delete_agrees:
  "delete_shift reply st fid calls = (Inr x, calls') \<Longrightarrow>
     calls' = calls @ [DeleteShift (trim st) (trim fid)]
       \<and> (case reply calls (DeleteShift (trim st) (trim fid)) of Inr _ \<Rightarrow> True | Inl e \<Rightarrow> is_missing e)"
  by (auto simp: delete_shift_def send_def split: if_splits sum.splits)

lemma mirror_agrees:
  assumes "mirror_shift reply cal staff s existing defaults hours calls = (Inr link, calls')"
  shows "fl_caddie link = sh_caddie s \<and> fl_date link = sh_date s
    \<and> field_agrees reply staff
        (\<lambda>h. hours_for_span (sh_span s) (case sh_course s of Some c \<Rightarrow> bands_for cal hours c (sh_date s) | None \<Rightarrow> [])
           defaults = Inr h) s existing calls calls' (fl_field_shift link)"
proof (cases "present staff")
  case None
  then show ?thesis using assms by (auto simp: mirror_shift_def field_agrees_def field_shift_link_new_def)
next
  case (Some st)
  show ?thesis
  proof (cases "sh_working s")
    case True
    then obtain h where intent: "intent_for cal s defaults hours = Inr (FileHours h)"
      using assms Some by (auto simp: mirror_shift_def intent_for_def Let_def split: sum.splits)
    then have h: "hours_for_span (sh_span s) (case sh_course s of Some c \<Rightarrow> bands_for cal hours c (sh_date s) | None \<Rightarrow> [])
        defaults = Inr h"
      using True by (simp add: intent_for_def Let_def split: sum.splits)
    obtain fid where up: "upsert_shift reply st existing (shift_input s h) calls = (Inr fid, calls')"
        and link: "link = field_shift_link_new (sh_caddie s) (sh_date s) (Some fid)"
      using assms Some intent by (auto simp: mirror_shift_def Let_def split: sum.splits prod.splits)
    show ?thesis
      unfolding field_agrees_def Some option.case if_P [OF True] Let_def shift_input_def [symmetric]
      using upsert_agrees [OF up] h by (auto simp: link field_shift_link_new_def)
  next
    case False
    then have "intent_for cal s defaults hours = Inr Withdraw" by (simp add: intent_for_def)
    then show ?thesis using assms Some False delete_agrees [of reply st "the existing" calls]
      by (cases existing) (auto simp: mirror_shift_def field_agrees_def field_shift_link_new_def trimmed_def Let_def
          split: sum.splits prod.splits)
  qed
qed

text \<open>Saving one day leaves one row for it and every other row alone.\<close>

definition holds_shift :: "caddie_shift \<Rightarrow> shift_row \<Rightarrow> bool" where
  "holds_shift s r \<longleftrightarrow>
     hw_course r = sh_course s \<and> hw_working r = sh_working s \<and> hw_span r = span_as_str (sh_span s)
     \<and> hw_rounds r = sh_rounds s \<and> hw_origin r = origin_as_str (sh_origin s) \<and> hw_note r = sh_note s
     \<and> hw_updated_by r = sh_updated_by s"

definition written_row :: "instant \<Rightarrow> instant \<Rightarrow> caddie_shift \<Rightarrow> str option \<Rightarrow> shift_row \<Rightarrow> bool" where
  "written_row saved_at linked_at s stored r \<longleftrightarrow>
     holds_shift s r \<and> hw_updated_at r = saved_at \<and> hw_field_shift r = stored \<and> hw_synced_at r = Some linked_at"

abbreviation (input) day_of :: "collation \<Rightarrow> str \<Rightarrow> caddie_shift \<Rightarrow> shift_row \<Rightarrow> bool" where
  "day_of ck tenant s \<equiv> is_day ck tenant (sh_caddie s) (sh_date s)"

lemma filter_map_if:
  assumes "\<And>r. P (f r) \<longleftrightarrow> P r"
  shows "filter P (map (\<lambda>r. if P r then f r else r) rows) = map f (filter P rows)"
    and "filter (\<lambda>r. \<not> P r) (map (\<lambda>r. if P r then f r else r) rows) = filter (\<lambda>r. \<not> P r) rows"
  using assms by (induction rows) auto

lemma the_day:
  assumes "shifts_once ck rows"
  shows "filter (is_day ck tenant cid d) rows = [] \<or> (\<exists>r. filter (is_day ck tenant cid d) rows = [r])"
proof -
  have "distinct (map (day_key ck) (filter (is_day ck tenant cid d) rows))"
    using assms by (simp add: shifts_once_def distinct_map_filter)
  moreover have "\<forall>x \<in> set (map (day_key ck) (filter (is_day ck tenant cid d) rows)). x = (ck tenant, d, ck cid)"
    by (auto simp: is_day_key)
  ultimately show ?thesis
    by (cases "filter (is_day ck tenant cid d) rows" rule: remdups_adj.cases) auto
qed

lemma is_day_updates [simp]:
  "is_day ck tenant cid d (overwrite_row t s r) \<longleftrightarrow> is_day ck tenant cid d r"
  "is_day ck tenant cid d (r\<lparr>hw_field_shift := f, hw_synced_at := y\<rparr>) \<longleftrightarrow> is_day ck tenant cid d r"
  by (simp_all add: is_day_key day_key_def overwrite_row_def)

lemma holds_written [simp]: "holds_shift s (overwrite_row t s r)" "holds_shift s (new_row tenant t s)"
  "hw_updated_at (overwrite_row t s r) = t" "hw_updated_at (new_row tenant t s) = t"
  by (simp_all add: holds_shift_def overwrite_row_def new_row_def)

lemma save_shift_day:
  assumes once: "shifts_once ck rows"
  shows "\<exists>r. filter (day_of ck tenant s) (save_shift ck tenant t s rows) = [r] \<and> holds_shift s r \<and> hw_updated_at r = t"
    and "filter (\<lambda>r. \<not> day_of ck tenant s r) (save_shift ck tenant t s rows) = filter (\<lambda>r. \<not> day_of ck tenant s r) rows"
    and "shifts_once ck (save_shift ck tenant t s rows)"
proof -
  let ?day = "day_of ck tenant s"
  have "(\<exists>r. filter ?day (save_shift ck tenant t s rows) = [r] \<and> holds_shift s r \<and> hw_updated_at r = t)
    \<and> filter (\<lambda>r. \<not> ?day r) (save_shift ck tenant t s rows) = filter (\<lambda>r. \<not> ?day r) rows
    \<and> shifts_once ck (save_shift ck tenant t s rows)"
  proof (cases "filter ?day rows")
    case Nil
    have new: "?day (new_row tenant t s)" by (simp add: is_day_def new_row_def same_text_def)
    have none: "\<not> list_ex ?day rows" using Nil by (auto simp: list_ex_iff filter_empty_conv)
    then have saved: "save_shift ck tenant t s rows = rows @ [new_row tenant t s]" by (simp add: save_shift_def)
    have "day_key ck (new_row tenant t s) \<notin> day_key ck ` set rows"
      using none new by (auto simp: list_ex_iff is_day_key)
    then show ?thesis using once Nil new by (simp add: saved shifts_once_def)
  next
    case (Cons r0 rest)
    then have some: "list_ex ?day rows" by (metis filter_eq_Cons_iff in_set_conv_decomp list_ex_iff)
    then have saved: "save_shift ck tenant t s rows = map (\<lambda>r. if ?day r then overwrite_row t s r else r) rows"
      by (simp add: save_shift_def)
    have "filter ?day rows = [r0]" using the_day [OF once, of tenant "sh_caddie s" "sh_date s"] Cons by auto
    moreover have "map (day_key ck) (save_shift ck tenant t s rows) = map (day_key ck) rows" by (simp add: saved)
    then have "shifts_once ck (save_shift ck tenant t s rows)" using once by (simp only: shifts_once_def)
    ultimately show ?thesis
      using filter_map_if [where P = ?day and f = "overwrite_row t s" and rows = rows] by (simp add: saved)
  qed
  then show "\<exists>r. filter ?day (save_shift ck tenant t s rows) = [r] \<and> holds_shift s r \<and> hw_updated_at r = t"
    "filter (\<lambda>r. \<not> ?day r) (save_shift ck tenant t s rows) = filter (\<lambda>r. \<not> ?day r) rows"
    "shifts_once ck (save_shift ck tenant t s rows)" by blast+
qed

text \<open>The saved row keeps the link and the stamp the day had.\<close>

lemma save_shift_link:
  assumes "shifts_once ck rows" "filter (day_of ck tenant s) (save_shift ck tenant t s rows) = [r]"
  shows "case filter (day_of ck tenant s) rows of
      [] \<Rightarrow> hw_field_shift r = None \<and> hw_synced_at r = None
    | r0 # _ \<Rightarrow> hw_field_shift r = hw_field_shift r0 \<and> hw_synced_at r = hw_synced_at r0"
proof (cases "filter (day_of ck tenant s) rows")
  case Nil
  then have "\<not> list_ex (day_of ck tenant s) rows" by (auto simp: list_ex_iff filter_empty_conv)
  then have "filter (day_of ck tenant s) (rows @ [new_row tenant t s]) = [r]"
    using assms(2) by (simp add: save_shift_def)
  then have "r = new_row tenant t s" using Nil by (simp split: if_splits)
  then show ?thesis using Nil by (simp add: new_row_def)
next
  case (Cons r0 rest)
  then have "list_ex (day_of ck tenant s) rows" by (metis filter_eq_Cons_iff in_set_conv_decomp list_ex_iff)
  then have "map (overwrite_row t s) (filter (day_of ck tenant s) rows) = [r]"
    using assms(2) filter_map_if(1) [where P = "day_of ck tenant s" and f = "overwrite_row t s" and rows = rows]
    by (simp add: save_shift_def)
  then show ?thesis using Cons by (auto simp: overwrite_row_def)
qed

lemma set_one_link:
  assumes "fl_caddie l = cid" "fl_date l = d"
  shows "set_links ck tenant now [l] rows = map (\<lambda>r. if is_day ck tenant cid d r
     then r\<lparr>hw_field_shift := fl_field_shift l, hw_synced_at := Some now\<rparr> else r) rows"
  using assms by (auto simp: set_links_def names_row_def is_day_def)

lemma save_and_link:
  fixes tenant saved_at linked_at
  assumes once: "shifts_once ck rows" and l: "fl_caddie l = sh_caddie s" "fl_date l = sh_date s"
  defines "rows' \<equiv> set_links ck tenant linked_at [l] (save_shift ck tenant saved_at s rows)"
  shows "(\<exists>r. filter (day_of ck tenant s) rows' = [r] \<and> written_row saved_at linked_at s (fl_field_shift l) r)
    \<and> filter (\<lambda>r. \<not> day_of ck tenant s r) rows' = filter (\<lambda>r. \<not> day_of ck tenant s r) rows"
proof -
  define put where "put r = r\<lparr>hw_field_shift := fl_field_shift l, hw_synced_at := Some linked_at\<rparr>" for r :: shift_row
  have put: "day_of ck tenant s (put r) \<longleftrightarrow> day_of ck tenant s r" for r by (simp add: put_def)
  have rows': "rows' = map (\<lambda>r. if day_of ck tenant s r then put r else r) (save_shift ck tenant saved_at s rows)"
    by (simp add: rows'_def set_one_link [OF l] put_def)
  have "written_row saved_at linked_at s (fl_field_shift l) (put r)" if "holds_shift s r" "hw_updated_at r = saved_at" for r
    using that by (simp add: put_def written_row_def holds_shift_def)
  then show ?thesis
    using filter_map_if [where P = "day_of ck tenant s" and f = put] put save_shift_day [OF once, where tenant = tenant and s = s and t = saved_at]
    by (auto simp: rows')
qed

text \<open>The day the edit asks for, as the guards of the domain let it through.\<close>

definition accepted_edit ::
  "edit_reads \<Rightarrow> shift_edit \<Rightarrow> caddie_id \<Rightarrow> date \<Rightarrow> str option \<Rightarrow> caddie_shift \<Rightarrow> bool" where
  "accepted_edit reads edit cid d by_whom s \<longleftrightarrow>
     (\<exists>workable filed. ef_workable reads = Inr workable \<and> ef_filed reads = Inr filed
        \<and> shift_edit_apply edit cid d workable (map_option av_status (find (\<lambda>a. av_date a = d) filed)) by_whom = Inr s)"

lemma accepted_edit_named:
  assumes "accepted_edit reads edit cid d by_whom s"
  shows "sh_caddie s = cid \<and> sh_date s = d \<and> shift_ok s"
proof -
  obtain workable f where run: "shift_edit_apply edit cid d workable f by_whom = Inr s"
    using assms unfolding accepted_edit_def by blast
  then have "sh_caddie s = cid \<and> sh_date s = d"
    by (auto simp: shift_edit_apply_def Let_def split: if_splits)
  then show ?thesis using shift_edit_ok [OF run] by blast
qed

text \<open>The hours of a day: of its span, in the course's opening bands of that weekday, or the club's defaults.\<close>

definition hours_asked ::
  "calendar \<Rightarrow> ((course_id \<rightharpoonup> resource_id) \<Rightarrow> (course_id \<times> resource_id) list) \<Rightarrow> edit_reads \<Rightarrow> caddie_shift
    \<Rightarrow> shift_hours \<Rightarrow> bool" where
  "hours_asked cal walk reads s h \<longleftrightarrow>
     (\<exists>defaults hours. ef_defaults reads = Inr defaults
        \<and> opening_hours walk (ef_resources reads) (ef_schedule reads) (set_option (sh_course s)) = Inr hours
        \<and> hours_for_span (sh_span s)
            (case sh_course s of Some c \<Rightarrow> bands_for cal hours c (sh_date s) | None \<Rightarrow> []) defaults = Inr h)"

text \<open>Field was told of the day before its row was written.\<close>

definition field_was_told ::
  "collation \<Rightarrow> field_replies \<Rightarrow> calendar \<Rightarrow> ((course_id \<rightharpoonup> resource_id) \<Rightarrow> (course_id \<times> resource_id) list) \<Rightarrow> edit_reads
    \<Rightarrow> str \<Rightarrow> shift_table \<Rightarrow> caddie_shift \<Rightarrow> field_call list \<Rightarrow> field_call list \<Rightarrow> str option \<Rightarrow> bool" where
  "field_was_told ck reply cal walk reads tenant rows s calls calls' stored \<longleftrightarrow>
     (\<exists>roster. ef_roster reads = Inr roster
        \<and> field_agrees reply (staff_of roster (sh_caddie s)) (hours_asked cal walk reads s) s
            (existing_link (sh_caddie s) (sh_date s) (field_shift_links ck tenant (sh_date s) (sh_date s) rows))
            calls calls' stored)"

lemma field_agrees_mono:
  assumes "field_agrees reply staff filed s existing calls calls' stored" "\<And>h. filed h \<Longrightarrow> filed' h"
  shows "field_agrees reply staff filed' s existing calls calls' stored"
proof (cases "present staff")
  case (Some st)
  show ?thesis
  proof (cases "sh_working s")
    case True
    show ?thesis
      using assms unfolding field_agrees_def Some option.case if_P [OF True] by blast
  next
    case False
    show ?thesis using assms(1) unfolding field_agrees_def Some option.case if_not_P [OF False] .
  qed
qed (use assms in \<open>simp add: field_agrees_def\<close>)

lemma mirror_told:
  assumes "mirror_shift reply cal (staff_of roster cid) s (existing_link cid d (field_shift_links ck tenant d d rows))
      defaults hours calls = (Inr link, calls')"
    and "ef_roster reads = Inr roster" "ef_defaults reads = Inr defaults"
    and "opening_hours walk (ef_resources reads) (ef_schedule reads) (set_option (sh_course s)) = Inr hours"
    and "sh_caddie s = cid \<and> sh_date s = d \<and> shift_ok s"
  shows "fl_caddie link = sh_caddie s \<and> fl_date link = sh_date s
    \<and> field_was_told ck reply cal walk reads tenant rows s calls calls' (fl_field_shift link)"
  unfolding field_was_told_def
  using mirror_agrees [OF assms(1)] assms(2-5)
  by (auto simp: hours_asked_def intro: field_agrees_mono)

text \<open>The ways an edit that was not simply refused can go.\<close>

lemma update_outcomes:
  assumes run: "update_caddie_shift ck reply cal walk True reads tenant cid d edit by_whom saved_at linked_at (rows, calls)
      = (res, rows', calls')"
    and other: "\<not> (rows' = rows \<and> isl res)"
  obtains s roster defaults hours link where "accepted_edit reads edit cid d by_whom s"
    "ef_roster reads = Inr roster" "ef_defaults reads = Inr defaults"
    "opening_hours walk (ef_resources reads) (ef_schedule reads) (set_option (sh_course s)) = Inr hours"
    "mirror_shift reply cal (staff_of roster cid) s (existing_link cid d (field_shift_links ck tenant d d rows))
      defaults hours calls = (Inr link, calls')"
    "(\<exists>e. res = Inl e \<and> ef_stored reads = Inl e) \<and> rows' = save_shift ck tenant saved_at s rows
     \<or> res = Inr s \<and> rows' = set_links ck tenant linked_at [link] (save_shift ck tenant saved_at s rows)"
proof -
  note run = run [unfolded update_caddie_shift_def Let_def prod.case]
  obtain p where p: "ef_permitted reads = Inr p" using run other by (cases "ef_permitted reads") auto
  obtain ws where ws: "ef_workable reads = Inr ws" using run other p by (cases "ef_workable reads") auto
  obtain filed where filed: "ef_filed reads = Inr filed" using run other p ws by (cases "ef_filed reads") auto
  let ?f = "map_option av_status (find (\<lambda>a. av_date a = d) filed)"
  have "\<not> isl (shift_edit_apply edit cid d ws ?f by_whom)"
  proof
    assume "isl (shift_edit_apply edit cid d ws ?f by_whom)"
    then obtain e where refused: "shift_edit_apply edit cid d ws ?f by_whom = Inl e" by (auto simp: isl_def)
    have "(res, rows', calls') = (Inl e, rows, calls)"
      using run unfolding p ws filed sum.case refused by (rule sym)
    then show False using other by simp
  qed
  then obtain s where s: "shift_edit_apply edit cid d ws ?f by_whom = Inr s"
    by (cases "shift_edit_apply edit cid d ws ?f by_whom") auto
  note so_far = p ws filed s
  obtain roster where roster: "ef_roster reads = Inr roster" using run other so_far by (cases "ef_roster reads") auto
  obtain l where l: "ef_linked reads = Inr l" using run other so_far roster by (cases "ef_linked reads") auto
  obtain defaults where defaults: "ef_defaults reads = Inr defaults"
    using run other so_far roster l by (cases "ef_defaults reads") auto
  let ?hours = "opening_hours walk (ef_resources reads) (ef_schedule reads) (set_option (sh_course s))"
  obtain hours where hours: "?hours = Inr hours" using run other so_far roster l defaults by (cases ?hours) auto
  let ?mirror = "mirror_shift reply cal (staff_of roster cid) s (existing_link cid d (field_shift_links ck tenant d d rows))
      defaults hours calls"
  note so_far = so_far roster l defaults hours
  obtain link calls'' where link: "?mirror = (Inr link, calls'')"
    using run other so_far by (cases ?mirror; cases "fst ?mirror") auto
  obtain x where x: "ef_saved reads = Inr x"
    using run other so_far link by (cases "ef_saved reads") (auto simp: save_one)
  have "calls'' = calls' \<and> ((\<exists>e. res = Inl e \<and> ef_stored reads = Inl e) \<and> rows' = save_shift ck tenant saved_at s rows
      \<or> res = Inr s \<and> rows' = set_links ck tenant linked_at [link] (save_shift ck tenant saved_at s rows))"
    using run so_far link x by (cases "ef_stored reads") (auto simp: save_one link_one)
  moreover have "accepted_edit reads edit cid d by_whom s" unfolding accepted_edit_def using ws filed s by blast
  ultimately show thesis using that roster defaults hours link by blast
qed

text \<open>A day that was saved and whose link was not: it has the link and the stamp it had.\<close>

lemma unlinked_day:
  assumes "shifts_once ck rows" "rows' = save_shift ck tenant saved_at s rows" "sh_caddie s = cid" "sh_date s = d"
  obtains r where "filter (is_day ck tenant cid d) rows' = [r]" "holds_shift s r" "hw_updated_at r = saved_at"
    "case filter (is_day ck tenant cid d) rows of
        [] \<Rightarrow> hw_field_shift r = None \<and> hw_synced_at r = None
      | r0 # _ \<Rightarrow> hw_field_shift r = hw_field_shift r0 \<and> hw_synced_at r = hw_synced_at r0"
    "(\<forall>r0 stamp. r0 \<in> set rows \<and> is_day ck tenant cid d r0 \<and> hw_synced_at r0 = Some stamp \<longrightarrow> stamp < saved_at)
      \<longrightarrow> behind_field r"
    "filter (\<lambda>r. \<not> is_day ck tenant cid d r) rows' = filter (\<lambda>r. \<not> is_day ck tenant cid d r) rows"
proof -
  note saved = save_shift_day [OF assms(1), where tenant = tenant and s = s and t = saved_at]
  obtain r where r: "filter (is_day ck tenant cid d) rows' = [r]" "holds_shift s r" "hw_updated_at r = saved_at"
    using saved(1) assms(2-4) by auto
  have link: "case filter (is_day ck tenant cid d) rows of
      [] \<Rightarrow> hw_field_shift r = None \<and> hw_synced_at r = None
    | r0 # _ \<Rightarrow> hw_field_shift r = hw_field_shift r0 \<and> hw_synced_at r = hw_synced_at r0"
    using save_shift_link [OF assms(1), of tenant s saved_at r] r(1) assms(2-4) by simp
  have queued: "behind_field r" if earlier: "\<forall>r0 stamp. r0 \<in> set rows \<and> is_day ck tenant cid d r0
      \<and> hw_synced_at r0 = Some stamp \<longrightarrow> stamp < saved_at"
  proof (cases "filter (is_day ck tenant cid d) rows")
    case Nil
    then show ?thesis using link by (simp add: behind_field_def)
  next
    case (Cons r0 rest)
    then have "r0 \<in> set rows" "is_day ck tenant cid d r0" by (auto simp: filter_eq_Cons_iff)
    then show ?thesis using earlier link Cons r(3) by (auto simp: behind_field_def split: option.splits)
  qed
  have "filter (\<lambda>r. \<not> is_day ck tenant cid d r) rows' = filter (\<lambda>r. \<not> is_day ck tenant cid d r) rows"
    using saved(2) assms(2-4) by simp
  then show thesis using that r link queued by blast
qed

lemma linked_day:
  assumes "shifts_once ck rows" "sh_caddie s = cid" "sh_date s = d" "fl_caddie link = cid" "fl_date link = d"
    and "rows' = set_links ck tenant linked_at [link] (save_shift ck tenant saved_at s rows)"
  obtains r where "filter (is_day ck tenant cid d) rows' = [r]" "holds_shift s r" "hw_updated_at r = saved_at"
    "hw_field_shift r = fl_field_shift link" "hw_synced_at r = Some linked_at" "saved_at \<le> linked_at \<longrightarrow> \<not> behind_field r"
    "filter (\<lambda>r. \<not> is_day ck tenant cid d r) rows' = filter (\<lambda>r. \<not> is_day ck tenant cid d r) rows"
proof -
  obtain r where r: "filter (is_day ck tenant cid d) rows' = [r]" "written_row saved_at linked_at s (fl_field_shift link) r"
      "filter (\<lambda>r. \<not> is_day ck tenant cid d r) rows' = filter (\<lambda>r. \<not> is_day ck tenant cid d r) rows"
    using save_and_link [OF assms(1), of link s tenant linked_at saved_at] assms(2-6) by auto
  moreover have "saved_at \<le> linked_at \<Longrightarrow> \<not> behind_field r"
    using r(2) by (auto simp: written_row_def behind_field_def)
  ultimately show thesis using that unfolding written_row_def by blast
qed

text \<open>
  C21. With the write-back on, the desk's edit tells Field first. An edit that is accepted leaves exactly one row
  for the day, holding the edited shift it answers with; Field had agreed to that very day (it filed the hours of
  its span, in the course's opening bands or the club's defaults, and gave the id now stored, or withdrew the
  shift, or the caddie has nobody to be filed under); the day is off the queue unless the clock ran backwards; and
  every other row of the table is as it was. An edit that fails stores nothing, but for one case: Field was told,
  the day was saved and only its link could not be stored. Then the day's one row holds the edited shift with the
  link and the stamp it had before, so it is still queued (unless it was stamped at or after the moment it was
  saved), and every other row is as it was.
\<close>

theorem desk_edit_tells_field_first:
  assumes "shifts_once ck rows"
    and "update_caddie_shift ck reply cal walk True reads tenant cid d edit by_whom saved_at linked_at (rows, calls)
      = (res, rows', calls')"
  shows "case res of
      Inl e \<Rightarrow> rows' = rows
        \<or> ef_stored reads = Inl e
          \<and> (\<exists>s r agreed. accepted_edit reads edit cid d by_whom s
               \<and> field_was_told ck reply cal walk reads tenant rows s calls calls' agreed
               \<and> filter (is_day ck tenant cid d) rows' = [r] \<and> holds_shift s r \<and> hw_updated_at r = saved_at
               \<and> (case filter (is_day ck tenant cid d) rows of
                    [] \<Rightarrow> hw_field_shift r = None \<and> hw_synced_at r = None
                  | r0 # _ \<Rightarrow> hw_field_shift r = hw_field_shift r0 \<and> hw_synced_at r = hw_synced_at r0)
               \<and> ((\<forall>r0 stamp. r0 \<in> set rows \<and> is_day ck tenant cid d r0 \<and> hw_synced_at r0 = Some stamp
                     \<longrightarrow> stamp < saved_at) \<longrightarrow> behind_field r))
          \<and> filter (\<lambda>r. \<not> is_day ck tenant cid d r) rows' = filter (\<lambda>r. \<not> is_day ck tenant cid d r) rows
    | Inr s \<Rightarrow> accepted_edit reads edit cid d by_whom s \<and> shift_ok s \<and> sh_caddie s = cid \<and> sh_date s = d
        \<and> (\<exists>r stored. filter (is_day ck tenant cid d) rows' = [r] \<and> holds_shift s r
             \<and> hw_updated_at r = saved_at \<and> hw_field_shift r = stored \<and> hw_synced_at r = Some linked_at
             \<and> field_was_told ck reply cal walk reads tenant rows s calls calls' stored
             \<and> (saved_at \<le> linked_at \<longrightarrow> \<not> behind_field r))
        \<and> filter (\<lambda>r. \<not> is_day ck tenant cid d r) rows' = filter (\<lambda>r. \<not> is_day ck tenant cid d r) rows"
proof (cases "rows' = rows \<and> isl res")
  case True
  then show ?thesis by (cases res) simp_all
next
  case False
  obtain s roster defaults hours link where accepted: "accepted_edit reads edit cid d by_whom s"
      and read: "ef_roster reads = Inr roster" "ef_defaults reads = Inr defaults"
        "opening_hours walk (ef_resources reads) (ef_schedule reads) (set_option (sh_course s)) = Inr hours"
      and mirror: "mirror_shift reply cal (staff_of roster cid) s (existing_link cid d (field_shift_links ck tenant d d rows))
        defaults hours calls = (Inr link, calls')"
      and stored: "(\<exists>e. res = Inl e \<and> ef_stored reads = Inl e) \<and> rows' = save_shift ck tenant saved_at s rows
        \<or> res = Inr s \<and> rows' = set_links ck tenant linked_at [link] (save_shift ck tenant saved_at s rows)"
    by (rule update_outcomes [OF assms(2) False]) (rule that)
  have s: "sh_caddie s = cid" "sh_date s = d" "shift_ok s" using accepted_edit_named [OF accepted] by blast+
  have told: "fl_caddie link = cid" "fl_date link = d"
      "field_was_told ck reply cal walk reads tenant rows s calls calls' (fl_field_shift link)"
    using mirror_told [OF mirror read accepted_edit_named [OF accepted]] s by auto
  from stored show ?thesis
  proof (elim disjE conjE exE)
    fix e assume e: "res = Inl e" "ef_stored reads = Inl e" "rows' = save_shift ck tenant saved_at s rows"
    show ?thesis
      unfolding e(1) sum.case
      by (rule unlinked_day [OF assms(1) e(3) s(1,2)], rule disjI2) (use e(2) accepted told(3) in blast)
  next
    assume linked: "res = Inr s" "rows' = set_links ck tenant linked_at [link] (save_shift ck tenant saved_at s rows)"
    show ?thesis
      unfolding linked(1) sum.case
      by (rule linked_day [OF assms(1) s(1,2) told(1,2) linked(2)]) (use accepted s told(3) in blast)
  qed
qed

text \<open>At the desk: Field is told, and then the link cannot be stored. The day stays queued.\<close>

definition morning_edit :: shift_edit where
  "morning_edit = \<lparr>se_working = True, se_span = Morning, se_rounds = 1, se_course = Some ''east'', se_pinned = True,
     se_note = None\<rparr>"

definition unlinked_run :: "caddie_shift result \<times> shift_table \<times> field_call list" where
  "unlinked_run = update_caddie_shift letters_of filing_field utc_calendar no_walk True
     (edit_all\<lparr>ef_stored := Inl (Provider ''lost'')\<rparr>) ''t'' ''a'' 20655 morning_edit (Some ''desk'') 300 310 (desk_table, [])"

theorem desk_edit_tells_field_first_witness:
  "\<exists>r. filter (is_day letters_of ''t'' ''a'' 20655) (fst (snd unlinked_run)) = [r] \<and> hw_span r = ''morning''
     \<and> hw_updated_at r = 300 \<and> behind_field r"
proof -
  have lost: "fst unlinked_run = Inl (Provider ''lost'')" by code_simp
  then have run: "unlinked_run = (Inl (Provider ''lost''), fst (snd unlinked_run), snd (snd unlinked_run))"
    by (metis prod.collapse)
  have moved: "fst (snd unlinked_run) \<noteq> desk_table" by code_simp
  have stamps: "r0 \<in> set desk_table \<and> is_day letters_of ''t'' ''a'' 20655 r0 \<and> hw_synced_at r0 = Some stamp \<longrightarrow> stamp < 300"
    for r0 stamp
  proof -
    have "list_all (\<lambda>r. case hw_synced_at r of None \<Rightarrow> True | Some t \<Rightarrow> t < 300) desk_table" by code_simp
    then show ?thesis by (auto simp: list_all_iff split: option.splits)
  qed
  obtain s r where r: "accepted_edit (edit_all\<lparr>ef_stored := Inl (Provider ''lost'')\<rparr>) morning_edit ''a'' 20655 (Some ''desk'') s"
      "filter (is_day letters_of ''t'' ''a'' 20655) (fst (snd unlinked_run)) = [r]" "holds_shift s r"
      "hw_updated_at r = 300" "behind_field r"
    using desk_edit_tells_field_first [OF desk_once run [unfolded unlinked_run_def], folded unlinked_run_def] moved stamps
    by auto
  have "sh_span s = Morning"
    using r(1) by (auto simp: accepted_edit_def shift_edit_apply_def morning_edit_def Let_def split: if_splits)
  then show ?thesis using r(2-5) by (auto simp: holds_shift_def)
qed

end
