(* ===== verification/MonthRunCorrect.thy ===== *)
theory MonthRunCorrect
  imports MonthRun ShiftMirrorCorrect
begin

text \<open>
  A confirmed month is the month the desk read: what a run writes, and what it leaves alone.
\<close>

section \<open>Writing many days\<close>

lemma save_chunks_fold:
  "\<exists>ts. map snd ts = concat cs \<and> save_chunks ck tenant now i cs rows = fold (\<lambda>(t, s). save_shift ck tenant t s) ts rows"
proof (induction cs arbitrary: i rows)
  case (Cons c cs)
  obtain ts where ts: "map snd ts = concat cs"
    "save_chunks ck tenant now (Suc i) cs (fold (save_shift ck tenant (now i)) c rows)
      = fold (\<lambda>(t, s). save_shift ck tenant t s) ts (fold (save_shift ck tenant (now i)) c rows)"
    using Cons.IH by blast
  have "fold (save_shift ck tenant (now i)) c rows = fold (\<lambda>(t, s). save_shift ck tenant t s) (map (Pair (now i)) c) rows"
    by (induction c arbitrary: rows) auto
  then show ?case using ts by (intro exI [of _ "map (Pair (now i)) c @ ts"]) (simp add: comp_def)
qed simp

lemma save_shifts_fold:
  assumes "save_shifts ck tenant now committed shifts rows = (Inr n, rows')"
  obtains ts where "map snd ts = shifts" "rows' = fold (\<lambda>(t, s). save_shift ck tenant t s) ts rows" "n = length shifts"
proof (cases "shifts = []")
  case True
  then show ?thesis using assms that [of "[]"] by (simp add: save_shifts_def)
next
  case False
  then have "rows' = save_chunks ck tenant now 0 (chunks WRITE_CHUNK shifts) rows" "n = length shifts"
    using assms by (auto simp: save_shifts_def split: sum.splits)
  then show ?thesis
    using that save_chunks_fold [of "chunks WRITE_CHUNK shifts" ck tenant now 0 rows]
    by (auto simp: chunks_join WRITE_CHUNK_def)
qed

text \<open>The unique key of a shift, and what a run of writes leaves.\<close>

definition shift_day :: "collation \<Rightarrow> caddie_shift \<Rightarrow> date \<times> nat list" where
  "shift_day ck s = (sh_date s, ck (sh_caddie s))"

lemma day_of_same: "shift_day ck a = shift_day ck b \<Longrightarrow> day_of ck tenant a = day_of ck tenant b"
  by (auto simp: shift_day_def is_day_def same_text_def fun_eq_iff)

lemma day_of_other: "shift_day ck a \<noteq> shift_day ck b \<Longrightarrow> day_of ck tenant a r \<Longrightarrow> \<not> day_of ck tenant b r"
  by (auto simp: shift_day_def is_day_def same_text_def)

lemma filter_of_others:
  "(\<And>r. P r \<Longrightarrow> \<not> Q r) \<Longrightarrow> filter P rows = filter P (filter (\<lambda>r. \<not> Q r) rows)"
  by (induction rows) auto

lemma saves_leave:
  assumes "shifts_once ck rows" "distinct (map (shift_day ck) (map snd ts))"
  shows "shifts_once ck (fold (\<lambda>(t, s). save_shift ck tenant t s) ts rows)
    \<and> (\<forall>s \<in> set (map snd ts). \<exists>r. filter (day_of ck tenant s) (fold (\<lambda>(t, s). save_shift ck tenant t s) ts rows) = [r]
        \<and> holds_shift s r)
    \<and> filter (\<lambda>r. \<forall>s \<in> set (map snd ts). \<not> day_of ck tenant s r) (fold (\<lambda>(t, s). save_shift ck tenant t s) ts rows)
        = filter (\<lambda>r. \<forall>s \<in> set (map snd ts). \<not> day_of ck tenant s r) rows"
  using assms
proof (induction ts rule: rev_induct)
  case (snoc x ts)
  obtain t s where x: "x = (t, s)" by (cases x)
  let ?before = "fold (\<lambda>(t, s). save_shift ck tenant t s) ts rows"
  let ?after = "save_shift ck tenant t s ?before"
  have IH: "shifts_once ck ?before"
    "\<And>s'. s' \<in> set (map snd ts) \<Longrightarrow> \<exists>r. filter (day_of ck tenant s') ?before = [r] \<and> holds_shift s' r"
    "filter (\<lambda>r. \<forall>s' \<in> set (map snd ts). \<not> day_of ck tenant s' r) ?before
      = filter (\<lambda>r. \<forall>s' \<in> set (map snd ts). \<not> day_of ck tenant s' r) rows"
    using snoc by auto
  note saved = save_shift_day [OF IH(1), where tenant = tenant and s = s and t = t]
  have kept: "filter P ?after = filter P ?before" if "\<And>r. P r \<Longrightarrow> \<not> day_of ck tenant s r" for P
  proof -
    have "filter P ?after = filter P (filter (\<lambda>r. \<not> day_of ck tenant s r) ?after)" by (rule filter_of_others [OF that])
    also have "\<dots> = filter P (filter (\<lambda>r. \<not> day_of ck tenant s r) ?before)" by (simp only: saved(2))
    also have "\<dots> = filter P ?before" by (rule filter_of_others [OF that, symmetric])
    finally show ?thesis .
  qed
  have "\<exists>r. filter (day_of ck tenant s') ?after = [r] \<and> holds_shift s' r" if s': "s' \<in> set (map snd ts)" for s'
  proof -
    have "shift_day ck s' \<noteq> shift_day ck s" using snoc.prems(2) s' by (force simp: x)
    then have "filter (day_of ck tenant s') ?after = filter (day_of ck tenant s') ?before"
      by (intro kept day_of_other)
    then show ?thesis using IH(2) [OF s'] by simp
  qed
  moreover have "filter (\<lambda>r. \<not> day_of ck tenant s r \<and> (\<forall>s' \<in> set (map snd ts). \<not> day_of ck tenant s' r)) ?after
      = filter (\<lambda>r. \<not> day_of ck tenant s r \<and> (\<forall>s' \<in> set (map snd ts). \<not> day_of ck tenant s' r)) rows"
  proof -
    have "filter (\<lambda>r. \<not> day_of ck tenant s r \<and> (\<forall>s' \<in> set (map snd ts). \<not> day_of ck tenant s' r)) ?before
        = filter (\<lambda>r. \<not> day_of ck tenant s r) (filter (\<lambda>r. \<forall>s' \<in> set (map snd ts). \<not> day_of ck tenant s' r) ?before)"
      by (simp add: conj_comms)
    also have "\<dots> = filter (\<lambda>r. \<not> day_of ck tenant s r \<and> (\<forall>s' \<in> set (map snd ts). \<not> day_of ck tenant s' r)) rows"
      unfolding IH(3) by (simp add: conj_comms)
    finally show ?thesis by (subst kept) auto
  qed
  moreover have "set (map snd (ts @ [x])) = insert s (set (map snd ts))" by (auto simp: x)
  moreover have "fold (\<lambda>(t, s). save_shift ck tenant t s) (ts @ [x]) rows = ?after" by (simp add: x)
  ultimately show ?case using saved(1,3) by (simp only: ball_simps) blast
qed simp

section \<open>Confirming what was read\<close>

lemma dates_of_day_row: "map sh_date (day_row policy held dates si) = dates"
  if "\<And>k p. held k = Some p \<Longrightarrow> shift_key p = k"
  using that by (auto simp: day_row_def comp_def day_shift_def shift_key_def intro!: map_idI split: option.split)

lemma month_keys:
  assumes "policy_ok policy"
  shows "map shift_key (mp_shifts (plan_month_shifts cal dates seeds existing policy))
    = concat (map (\<lambda>seed. map (Pair (sd_caddie seed)) dates) seeds)"
  using month_covers_roster [OF assms] by blast

lemma shift_seeds_caddies [simp]: "map sd_caddie (shift_seeds mains requests cs) = map cd_id cs"
  by (induction cs arbitrary: requests) auto

lemma plan_days_distinct:
  assumes "policy_ok policy" "distinct (map (\<lambda>seed. ck (sd_caddie seed)) seeds)" "distinct dates"
  shows "distinct (map (shift_day ck) (mp_shifts (plan_month_shifts cal dates seeds existing policy)))"
proof -
  have "map (shift_day ck) shifts = map (\<lambda>(cid, d). (d, ck cid)) (map shift_key shifts)" for shifts
    by (simp add: shift_day_def shift_key_def)
  from this [of "mp_shifts (plan_month_shifts cal dates seeds existing policy)"]
  have "map (shift_day ck) (mp_shifts (plan_month_shifts cal dates seeds existing policy))
      = concat (map (\<lambda>seed. map (\<lambda>d. (d, ck (sd_caddie seed))) dates) seeds)"
    unfolding month_keys [OF assms(1)] by (simp add: map_concat comp_def)
  also have "distinct \<dots>" using assms(2,3)
  proof (induction seeds)
    case (Cons seed seeds)
    then show ?case by (auto simp: distinct_map inj_on_def)
  qed simp
  finally show ?thesis .
qed

text \<open>What an answered run has read and what it did.\<close>

definition month_plan_of ::
  "collation \<Rightarrow> calendar \<Rightarrow> month_reads \<Rightarrow> rules_table \<Rightarrow> str \<Rightarrow> date \<times> date \<Rightarrow> shift_table \<Rightarrow> caddie list
    \<Rightarrow> availability list \<Rightarrow> (caddie_id \<rightharpoonup> course_membership list) \<Rightarrow> month_plan" where
  "month_plan_of ck cal reads rules tenant month rows roster filed memberships =
     plan_month_shifts cal (month_dates (fst month) (snd month))
       (shift_seeds (main_courses memberships) (requests_by_caddie filed) roster)
       (list_shifts ck tenant (fst month - MAX_CONSECUTIVE_WORK_DAYS) (snd month) rows) (get_shift_policy rules tenant)"

lemma run_answered:
  assumes "generate_caddie_shifts ck cal reads rules tenant ym mode now rows = Some (Inr g, rows')"
  shows "\<exists>today month roster filed memberships deadline plan. mr_today reads = Inr today
    \<and> year_month_bounds cal ym = Some month \<and> mr_roster reads = Inr roster \<and> mr_filed reads = Inr filed
    \<and> mr_memberships reads (map cd_id roster) = Inr memberships \<and> mr_deadline reads = Inr deadline
    \<and> plan = month_plan_of ck cal reads rules tenant month rows roster filed memberships
    \<and> (case mode of Apply \<Rightarrow> save_shifts ck tenant now (mr_saved reads) (mp_shifts plan) rows
       | Preview \<Rightarrow> (Inr (length (mp_shifts plan)), rows)) = (Inr (gm_days_written g), rows')
    \<and> g = \<lparr>gm_month = ym, gm_days_written = gm_days_written g, gm_pinned_kept = mp_pinned_kept plan,
        gm_unplaced = mp_unplaced plan, gm_statutory = mp_statutory_rest plan, gm_overworked = mp_overworked plan,
        gm_warning = unsubmitted_warning deadline today
          (shift_seeds (main_courses memberships) (requests_by_caddie filed) roster) filed,
        gm_shifts = mp_shifts plan\<rparr>"
proof -
  from assms obtain today where today: "mr_today reads = Inr today" "mr_permitted reads = Inr ()"
    by (auto simp: generate_caddie_shifts_def split: sum.splits)
  with assms obtain first final where month: "year_month_bounds cal ym = Some (first, final)"
    by (auto simp: generate_caddie_shifts_def split: option.splits)
  with assms today obtain roster filed where read: "mr_roster reads = Inr roster" "mr_filed reads = Inr filed"
      "mr_existing reads = Inr ()" "mr_policy reads = Inr ()"
    by (auto simp: generate_caddie_shifts_def split: sum.splits)
  with assms today month obtain memberships where members: "mr_memberships reads (map cd_id roster) = Inr memberships"
    by (auto simp: generate_caddie_shifts_def split: sum.splits)
  define plan where "plan = month_plan_of ck cal reads rules tenant (first, final) rows roster filed memberships"
  have plan': "plan_month_shifts cal (month_dates first final)
      (shift_seeds (main_courses memberships) (requests_by_caddie filed) roster)
      (list_shifts ck tenant (first - MAX_CONSECUTIVE_WORK_DAYS) final rows) (get_shift_policy rules tenant) = plan"
    by (simp add: plan_def month_plan_of_def)
  obtain written rows1 where written: "(case mode of Apply \<Rightarrow> save_shifts ck tenant now (mr_saved reads) (mp_shifts plan) rows
       | Preview \<Rightarrow> (Inr (length (mp_shifts plan)), rows)) = (written, rows1)"
    by (cases "case mode of Apply \<Rightarrow> save_shifts ck tenant now (mr_saved reads) (mp_shifts plan) rows
       | Preview \<Rightarrow> (Inr (length (mp_shifts plan)), rows)") auto
  have "(case written of Inl e \<Rightarrow> Some (Inl e, rows1)
      | Inr n \<Rightarrow> (case mr_deadline reads of Inl e \<Rightarrow> Some (Inl e, rows1)
         | Inr deadline \<Rightarrow> Some (Inr \<lparr>gm_month = ym, gm_days_written = n, gm_pinned_kept = mp_pinned_kept plan,
             gm_unplaced = mp_unplaced plan, gm_statutory = mp_statutory_rest plan, gm_overworked = mp_overworked plan,
             gm_warning = unsubmitted_warning deadline today
               (shift_seeds (main_courses memberships) (requests_by_caddie filed) roster) filed,
             gm_shifts = mp_shifts plan\<rparr>, rows1))) = Some (Inr g, rows')"
    using assms unfolding generate_caddie_shifts_def today month read members Let_def sum.case option.case prod.case plan'
    unfolding written by simp
  then show ?thesis using today month read members written plan_def
    by (auto split: sum.splits)
qed

text \<open>
  C23. The desk confirms the month it read. Over the same requests a preview and a confirmation give
  the same month; the preview changes nothing, and after the confirmation the table has exactly one row
  for each day of the month and caddie of the roster, holding that very shift, while every other row of
  the table (other months, other clubs, caddies no longer on the roster) is as it was.
\<close>

theorem confirmed_month_is_the_one_read:
  assumes "shifts_once ck rows" "mr_roster reads = Inr roster" "distinct (map (\<lambda>c. ck (cd_id c)) roster)"
    and "generate_caddie_shifts ck cal reads rules tenant ym Preview now rows = Some (Inr seen, rows1)"
    and "generate_caddie_shifts ck cal reads rules tenant ym Apply now rows = Some (Inr confirmed, rows')"
  shows "confirmed = seen \<and> rows1 = rows \<and> shifts_once ck rows'
    \<and> (\<forall>s \<in> set (gm_shifts seen). \<exists>r. filter (is_day ck tenant (sh_caddie s) (sh_date s)) rows' = [r] \<and> holds_shift s r)
    \<and> filter (\<lambda>r. \<forall>s \<in> set (gm_shifts seen). \<not> is_day ck tenant (sh_caddie s) (sh_date s) r) rows'
        = filter (\<lambda>r. \<forall>s \<in> set (gm_shifts seen). \<not> is_day ck tenant (sh_caddie s) (sh_date s) r) rows"
proof -
  obtain month filed memberships plan1 today deadline where seen: "rows1 = rows"
      "plan1 = month_plan_of ck cal reads rules tenant month rows roster filed memberships"
      "gm_days_written seen = length (mp_shifts plan1)"
    and reads: "mr_today reads = Inr today" "year_month_bounds cal ym = Some month" "mr_filed reads = Inr filed"
      "mr_memberships reads (map cd_id roster) = Inr memberships" "mr_deadline reads = Inr deadline"
    and g1: "seen = \<lparr>gm_month = ym, gm_days_written = gm_days_written seen, gm_pinned_kept = mp_pinned_kept plan1,
        gm_unplaced = mp_unplaced plan1, gm_statutory = mp_statutory_rest plan1, gm_overworked = mp_overworked plan1,
        gm_warning = unsubmitted_warning deadline today
          (shift_seeds (main_courses memberships) (requests_by_caddie filed) roster) filed,
        gm_shifts = mp_shifts plan1\<rparr>"
    using run_answered [OF assms(4)] assms(2) by auto
  have shifts: "gm_shifts seen = mp_shifts plan1" by (subst g1) simp
  have saved: "save_shifts ck tenant now (mr_saved reads) (mp_shifts plan1) rows = (Inr (gm_days_written confirmed), rows')"
    and g2: "confirmed = \<lparr>gm_month = ym, gm_days_written = gm_days_written confirmed, gm_pinned_kept = mp_pinned_kept plan1,
        gm_unplaced = mp_unplaced plan1, gm_statutory = mp_statutory_rest plan1, gm_overworked = mp_overworked plan1,
        gm_warning = unsubmitted_warning deadline today
          (shift_seeds (main_courses memberships) (requests_by_caddie filed) roster) filed,
        gm_shifts = mp_shifts plan1\<rparr>"
    using run_answered [OF assms(5)] assms(2) reads seen(2) by auto
  obtain ts where ts: "map snd ts = gm_shifts seen" "rows' = fold (\<lambda>(t, s). save_shift ck tenant t s) ts rows"
      "gm_days_written confirmed = length (mp_shifts plan1)"
    using save_shifts_fold [OF saved] shifts by metis
  have same: "confirmed = seen" by (subst g1, subst g2) (simp add: seen(3) ts(3))
  have "distinct (map (\<lambda>seed. ck (sd_caddie seed)) (shift_seeds (main_courses memberships) (requests_by_caddie filed) roster))"
    using assms(3) by (metis (no_types, lifting) list.map_comp map_eq_conv comp_def shift_seeds_caddies)
  then have "distinct (map (shift_day ck) (gm_shifts seen))"
    unfolding shifts seen(2) month_plan_of_def by (intro plan_days_distinct policy_ok_stored) (simp_all add: month_dates_def)
  then show ?thesis
    using saves_leave [OF assms(1), of ts tenant] seen(1) same unfolding ts(1,2) by auto
qed

definition july_calendar :: calendar where
  "july_calendar = utc_calendar\<lparr>cal_ymd := (\<lambda>y m d. if m = 7 then Some (20635 + d - 1) else Some (20638 + d - 1))\<rparr>"

definition july_reads :: month_reads where
  "july_reads = \<lparr>mr_permitted = Inr (), mr_today = Inr 20600, mr_roster = Inr [desk_caddie], mr_filed = Inr [], mr_existing = Inr (),
     mr_policy = Inr (), mr_memberships = (\<lambda>_. Inr Map.empty), mr_saved = Inr (), mr_deadline = Inr None\<rparr>"

definition july_run :: "shift_plan_mode \<Rightarrow> (generated_month result \<times> shift_table) option" where
  "july_run mode = generate_caddie_shifts letters_of july_calendar july_reads Map.empty ''t'' \<lparr>ym_year = 2026, ym_month = 7\<rparr>
     mode (\<lambda>_. 400) desk_table"

theorem confirmed_month_is_the_one_read_witness:
  "\<exists>g rows'. july_run Preview = Some (Inr g, desk_table) \<and> july_run Apply = Some (Inr g, rows') \<and> shifts_once letters_of rows'"
proof -
  have "\<exists>g rows1. july_run Preview = Some (Inr g, rows1)"
  proof -
    have "(case july_run Preview of None \<Rightarrow> False | Some (r, _) \<Rightarrow> \<not> isl r)" by code_simp
    then show ?thesis by (auto split: option.splits) (metis sum.collapse(2))
  qed
  moreover have "\<exists>g rows'. july_run Apply = Some (Inr g, rows')"
  proof -
    have "(case july_run Apply of None \<Rightarrow> False | Some (r, _) \<Rightarrow> \<not> isl r)" by code_simp
    then show ?thesis by (auto split: option.splits) (metis sum.collapse(2))
  qed
  ultimately obtain g rows1 c rows' where runs: "july_run Preview = Some (Inr g, rows1)" "july_run Apply = Some (Inr c, rows')"
    by blast
  have "mr_roster july_reads = Inr [desk_caddie]" by (simp add: july_reads_def)
  from confirmed_month_is_the_one_read [OF desk_once this _ runs(1) [unfolded july_run_def] runs(2) [unfolded july_run_def]]
  show ?thesis using runs by auto
qed

end
