(* ===== verification/ShiftTyped.thy ===== *)
theory ShiftTyped
  imports MonthRunCorrect
begin

text \<open>
  The table of confirmed days only ever holds well-formed ones, whatever the desk edits, the runs confirm
  and the pushes record. \<open>shift_history\<close> is everything that happens to the table.
\<close>

section \<open>What the table may hold\<close>

text \<open>
  A well-typed row: its tokens are the ones the program writes, its texts are trimmed, and it reads as
  a well-formed shift.
\<close>

definition row_typed :: "shift_row \<Rightarrow> bool" where
  "row_typed r \<longleftrightarrow> span_as_str (span_parse (hw_span r)) = hw_span r
     \<and> origin_as_str (origin_parse (hw_origin r)) = hw_origin r
     \<and> shift_ok (to_shift r) \<and> sh_rounds (to_shift r) = hw_rounds r
     \<and> trimmed (hw_note r) = hw_note r \<and> trimmed (hw_updated_by r) = hw_updated_by r
     \<and> trimmed (hw_field_shift r) = hw_field_shift r"

definition shift_clean :: "caddie_shift \<Rightarrow> bool" where
  "shift_clean s \<longleftrightarrow> shift_ok s \<and> trimmed (sh_note s) = sh_note s \<and> trimmed (sh_updated_by s) = sh_updated_by s"

lemma read_clean: "row_typed r \<Longrightarrow> shift_clean (to_shift r)"
  by (auto simp: row_typed_def shift_clean_def to_shift_def shift_reconstitute_def)

lemma clean_written:
  assumes "shift_clean s"
  shows "row_typed (new_row tenant t s)" and "row_typed r \<Longrightarrow> row_typed (overwrite_row t s r)"
proof -
  have "id_from_optional None = None" by (simp add: id_from_optional_def)
  then show "row_typed (new_row tenant t s)" "row_typed r \<Longrightarrow> row_typed (overwrite_row t s r)"
    using assms by (auto simp: row_typed_def new_row_def overwrite_row_def to_shift_def shift_reconstitute_def
        span.parse_as_str origin.parse_as_str shift_clean_def shift_ok_def trimmed_def split: if_splits)
qed

lemma save_shift_typed:
  "shift_clean s \<Longrightarrow> \<forall>r \<in> set rows. row_typed r \<Longrightarrow> \<forall>r \<in> set (save_shift ck tenant t s rows). row_typed r"
  by (auto simp: save_shift_def clean_written)

lemma saves_typed:
  assumes "\<forall>s \<in> set shifts. shift_clean s" "\<forall>r \<in> set rows. row_typed r"
    and "save_shifts ck tenant now committed shifts rows = (res, rows')"
  shows "\<forall>r \<in> set rows'. row_typed r"
proof (cases res)
  case (Inl e)
  then have "rows' = rows" using assms(3) by (auto simp: save_shifts_def split: sum.splits if_splits)
  then show ?thesis using assms(2) by simp
next
  case (Inr n)
  obtain ts where ts: "map snd ts = shifts" "rows' = fold (\<lambda>(t, s). save_shift ck tenant t s) ts rows"
    using save_shifts_fold assms(3) unfolding Inr by metis
  have "\<forall>r \<in> set (fold (\<lambda>(t, s). save_shift ck tenant t s) ts rows). row_typed r"
    if "\<forall>s \<in> set (map snd ts). shift_clean s" "\<forall>r \<in> set rows. row_typed r" for ts rows
    using that
  proof (induction ts arbitrary: rows)
    case (Cons x ts)
    obtain t s where x: "x = (t, s)" by (cases x)
    have "\<forall>r \<in> set (save_shift ck tenant t s rows). row_typed r"
      using Cons.prems by (intro save_shift_typed) (auto simp: x)
    then show ?case using Cons.IH [of "save_shift ck tenant t s rows"] Cons.prems by (simp add: x)
  qed simp
  then show ?thesis using assms(1,2) ts by metis
qed

lemma set_links_typed:
  "\<forall>l \<in> set ls. trimmed (fl_field_shift l) = fl_field_shift l \<Longrightarrow> \<forall>r \<in> set rows. row_typed r
    \<Longrightarrow> \<forall>r \<in> set (set_links ck tenant t ls rows). row_typed r"
  by (auto simp: set_links_def row_typed_def to_shift_def find_Some_iff split: option.splits)

lemma links_typed:
  assumes "\<forall>l \<in> set links. trimmed (fl_field_shift l) = fl_field_shift l" "\<forall>r \<in> set rows. row_typed r"
    and "set_field_shift_links ck tenant now committed links rows = (res, rows')"
  shows "\<forall>r \<in> set rows'. row_typed r"
proof -
  have "\<forall>r \<in> set (set_link_chunks ck tenant now i cs rows). row_typed r"
    if "\<forall>l \<in> set (concat cs). trimmed (fl_field_shift l) = fl_field_shift l" "\<forall>r \<in> set rows. row_typed r" for cs i rows
    using that
  proof (induction cs arbitrary: i rows)
    case (Cons c cs)
    have "\<forall>r \<in> set (set_links ck tenant (now i) c rows). row_typed r"
      by (rule set_links_typed) (use Cons.prems in simp_all)
    then show ?case using Cons.IH Cons.prems(1) by simp
  qed simp
  from this [of "chunks WRITE_CHUNK links" rows 0] show ?thesis
    using assms by (auto simp: set_field_shift_links_def chunks_join WRITE_CHUNK_def split: sum.splits if_splits)
qed

lemma links_trimmed:
  assumes "fst (mirror_shift reply cal staff s f defaults hours calls) = Inr l"
  shows "trimmed (fl_field_shift l) = fl_field_shift l"
proof -
  have "\<exists>f'. l = field_shift_link_new (sh_caddie s) (sh_date s) f'"
  proof (cases "present staff")
    case None
    then show ?thesis using assms by (auto simp: mirror_shift_def)
  next
    case (Some st)
    then show ?thesis
    proof (cases "intent_for cal s defaults hours")
      case (Inr what)
      show ?thesis using assms Some Inr
        by (cases what; cases f) (auto simp: mirror_shift_def Let_def split: sum.splits prod.splits)
    qed (use assms Some in \<open>auto simp: mirror_shift_def\<close>)
  qed
  then show ?thesis by (auto simp: field_shift_link_new_def)
qed

lemma pushed_links_trimmed:
  assumes "\<And>st en before l. fst (mirror st en before) = Inr l \<Longrightarrow> trimmed (fl_field_shift l) = fl_field_shift l"
    and "\<forall>l \<in> set links. trimmed (fl_field_shift l) = fl_field_shift l"
  shows "\<forall>l \<in> set (fst (fold (push_day mirror staff) batch (links, counts, calls))). trimmed (fl_field_shift l) = fl_field_shift l"
  using assms(2)
proof (induction batch arbitrary: links counts calls)
  case (Cons en batch)
  obtain links' counts' calls' where step: "push_day mirror staff en (links, counts, calls) = (links', counts', calls')"
    by (cases "push_day mirror staff en (links, counts, calls)") auto
  have "\<forall>l \<in> set links'. trimmed (fl_field_shift l) = fl_field_shift l"
    using step Cons.prems assms(1) [of "staff (sh_caddie (us_shift en))" en calls]
    by (auto simp: push_day_def Let_def field_shift_link_new_def split: sum.splits prod.splits if_splits)
  then show ?case using Cons.IH [of links' counts' calls'] by (simp add: step)
qed simp

lemma plan_clean:
  assumes "policy_ok policy" "\<forall>s \<in> set existing. shift_clean s" "s \<in> set (mp_shifts (plan_month_shifts cal dates seeds existing policy))"
  shows "shift_clean s"
proof -
  have max: "1 \<le> sp_max_consecutive policy" using assms(1) by (simp add: policy_ok_def)
  obtain rests where "mp_shifts (plan_month_shifts cal dates seeds existing policy)
      = concat (map (day_row policy (held_days_of existing) dates) (zip seeds rests))"
    using plan_rows [OF max] by metis
  then obtain seed ins d where s: "s = day_shift policy (held_days_of existing) seed ins d"
    using assms(3) by (auto simp: day_row_def)
  show ?thesis
  proof (cases "held_days_of existing (sd_caddie seed, d)")
    case (Some p)
    then have "p \<in> set existing" by (auto simp: held_days_of_def dest!: collect_map_Some)
    then show ?thesis using s Some assms(2) by (simp add: day_shift_def)
  next
    case None
    have "sh_note (plan_one_day seed d policy) = None \<and> sh_updated_by (plan_one_day seed d policy) = None"
      by (auto simp: plan_one_day_def shift_off_def Let_def split: option.splits)
    then show ?thesis using day_shift_facts(2) [OF assms(1), of existing seed ins d] None s
      by (auto simp: shift_clean_def day_shift_def shift_off_def trimmed_def split: if_splits)
  qed
qed

lemma edit_clean: "shift_edit_apply e cid d ws f who = Inr s \<Longrightarrow> shift_clean s"
proof -
  assume run: "shift_edit_apply e cid d ws f who = Inr s"
  then have "trimmed (sh_note s) = sh_note s \<and> trimmed (sh_updated_by s) = sh_updated_by s"
    by (auto simp: shift_edit_apply_def Let_def split: if_splits) (metis trimmed_idem)+
  then show ?thesis using shift_edit_ok [OF run] by (simp add: shift_clean_def)
qed

text \<open>Everything that happens to the table, in any order and by any club.\<close>

inductive shift_history :: "collation \<Rightarrow> shift_table \<Rightarrow> shift_table \<Rightarrow> bool" for ck where
  began: "shift_history ck rows rows"
| edited: "shift_history ck rows0 rows \<Longrightarrow>
    update_caddie_shift ck reply cal walk mirror_on reads tenant cid d edit who saved_at linked_at (rows, calls) = (res, rows', calls')
    \<Longrightarrow> shift_history ck rows0 rows'"
| confirmed: "shift_history ck rows0 rows \<Longrightarrow>
    generate_caddie_shifts ck cal mreads rules tenant ym mode now rows = Some (gres, rows') \<Longrightarrow> shift_history ck rows0 rows'"
| pushed: "shift_history ck rows0 rows \<Longrightarrow> \<forall>rows1. shift_history ck rows1 (meanwhile rows1) \<Longrightarrow>
    sync_caddie_shifts ck reply cal walk mirror_on sreads tenant month resend now meanwhile (rows, calls) = (pres, rows', calls')
    \<Longrightarrow> shift_history ck rows0 rows'"

text \<open>The table an edit leaves, and the one a push leaves.\<close>

lemma edit_table:
  assumes "update_caddie_shift ck reply cal walk mirror_on reads tenant cid d edit who saved_at linked_at (rows, calls)
      = (res, rows', calls')"
  shows "rows' = rows \<or> (\<exists>s ws f. shift_edit_apply edit cid d ws f who = Inr s
    \<and> (rows' = save_shift ck tenant saved_at s rows
       \<or> (\<exists>link staff ex defaults hours. fst (mirror_shift reply cal staff s ex defaults hours calls) = Inr link
            \<and> rows' = set_links ck tenant linked_at [link] (save_shift ck tenant saved_at s rows))))"
proof (cases mirror_on)
  case False
  then show ?thesis using assms unfolding update_caddie_shift_def
    by (simp add: Let_def save_one split: sum.splits prod.splits) metis
next
  case True
  show ?thesis using assms True unfolding update_caddie_shift_def
    by (simp add: Let_def save_one link_one split: sum.splits prod.splits) (metis fst_conv)+
qed

lemma run_table:
  assumes "generate_caddie_shifts ck cal reads rules tenant ym mode now rows = Some (res, rows')"
    and typed: "\<forall>r \<in> set rows. row_typed r"
  shows "\<forall>r \<in> set rows'. row_typed r"
proof -
  have clean: "\<forall>s \<in> set (mp_shifts (plan_month_shifts cal dates seeds (list_shifts ck tenant a b rows) (get_shift_policy rules tenant))).
      shift_clean s" for dates seeds a b
  proof -
    have "\<forall>s \<in> set (list_shifts ck tenant a b rows). shift_clean s"
      using read_clean typed by (auto simp: list_shifts_def)
    then show ?thesis using plan_clean [OF policy_ok_stored] by blast
  qed
  have saved: "save_shifts ck tenant now (mr_saved reads) (mp_shifts (plan_month_shifts cal dates seeds
        (list_shifts ck tenant a b rows) (get_shift_policy rules tenant))) rows = (out, rows2) \<Longrightarrow> \<forall>r \<in> set rows2. row_typed r"
    for dates seeds a b out rows2
    by (rule saves_typed [OF clean typed])
  show ?thesis
  proof (cases "rows' = rows")
    case False
    then have "\<exists>dates seeds a b out. save_shifts ck tenant now (mr_saved reads) (mp_shifts (plan_month_shifts cal dates seeds
        (list_shifts ck tenant a b rows) (get_shift_policy rules tenant))) rows = (out, rows')"
      using assms(1) unfolding generate_caddie_shifts_def Let_def
      by (simp split: sum.splits option.splits prod.splits shift_plan_mode.splits) blast+
    then show ?thesis using saved by blast
  qed (use typed in simp)
qed

lemma push_table:
  assumes "sync_caddie_shifts ck reply cal walk mirror_on reads tenant month resend now meanwhile (rows, calls)
      = (res, rows', calls')"
  shows "\<exists>rows1. (rows1 = rows \<or> rows1 = mark_month_unsynced ck tenant (fst month) (snd month) rows)
    \<and> (rows' = rows1 \<or> (\<exists>links res2. (\<forall>l \<in> set links. trimmed (fl_field_shift l) = fl_field_shift l)
         \<and> set_field_shift_links ck tenant now (yf_stored reads) links (meanwhile rows1) = (res2, rows')))"
proof -
  obtain first final where month: "month = (first, final)" by (cases month)
  define rows1 where "rows1 = (if resend then mark_month_unsynced ck tenant first final rows else rows)"
  have links: "\<forall>l \<in> set links. trimmed (fl_field_shift l) = fl_field_shift l"
    if "fold (push_day (\<lambda>staff entry. mirror_shift reply cal staff (us_shift entry) (us_field_shift entry) defaults hours)
          (linked_staff roster)) batch ([], nothing_to_do, calls) = (links, counts, calls')"
    for batch links counts calls' roster defaults hours
    using pushed_links_trimmed [where mirror = "\<lambda>staff entry. mirror_shift reply cal staff (us_shift entry) (us_field_shift entry) defaults hours"
        and links = "[]" and batch = batch and staff = "linked_staff roster" and counts = nothing_to_do and calls = calls,
        OF links_trimmed] that by simp
  have "rows' = rows \<or> rows' = rows1 \<or> (\<exists>links res2. (\<forall>l \<in> set links. trimmed (fl_field_shift l) = fl_field_shift l)
      \<and> set_field_shift_links ck tenant now (yf_stored reads) links (meanwhile rows1) = (res2, rows'))"
    using assms unfolding sync_caddie_shifts_def month prod.case Let_def rows1_def [symmetric]
    by (simp split: sum.splits prod.splits if_splits) (use links in blast)+
  moreover have "rows1 = rows \<or> rows1 = mark_month_unsynced ck tenant (fst month) (snd month) rows"
    by (simp add: rows1_def month)
  ultimately show ?thesis by blast
qed

text \<open>
  C24. The table only ever holds well-formed days. Whatever the desk edits, the month runs confirm and
  the pushes to Field record, in any order and with other requests in between, every row keeps the
  tokens and trimmed texts the program writes, and reads as a shift that is off and placed nowhere or
  at work for one or two rounds, half a day being one.
\<close>

theorem confirmed_days_stay_typed:
  assumes "shift_history ck rows0 rows" "\<forall>r \<in> set rows0. row_typed r"
  shows "(\<forall>r \<in> set rows. row_typed r) \<and> (\<forall>s \<in> set (list_shifts ck tenant first final rows). shift_ok s)"
proof -
  have "\<forall>r \<in> set rows. row_typed r" using assms
  proof (induction rule: shift_history.induct)
    case (edited rows0 rows reply cal walk mirror_on reads tenant cid d edit who saved_at linked_at calls res rows' calls')
    then have IH: "\<forall>r \<in> set rows. row_typed r" by blast
    show ?case
    proof (cases "rows' = rows")
      case False
      then obtain s where clean: "shift_clean s" and rows': "rows' = save_shift ck tenant saved_at s rows
          \<or> (\<exists>link. trimmed (fl_field_shift link) = fl_field_shift link
               \<and> rows' = set_links ck tenant linked_at [link] (save_shift ck tenant saved_at s rows))"
        using edit_table [OF edited(2)] edit_clean links_trimmed by metis
      have "\<forall>r \<in> set (save_shift ck tenant saved_at s rows). row_typed r" by (rule save_shift_typed [OF clean IH])
      then show ?thesis using rows' set_links_typed [where ls = "[_]"] by auto
    qed (use IH in simp)
  next
    case (confirmed rows0 rows cal mreads rules tenant ym mode now gres rows')
    then have IH: "\<forall>r \<in> set rows. row_typed r" by blast
    show ?case using run_table [OF confirmed(2) IH] by blast
  next
    case (pushed rows0 rows meanwhile reply cal walk mirror_on sreads tenant month resend now calls pres rows' calls')
    then have IH: "\<forall>r \<in> set rows. row_typed r" by blast
    obtain rows1 where rows1: "rows1 = rows \<or> rows1 = mark_month_unsynced ck tenant (fst month) (snd month) rows"
      and rows': "rows' = rows1 \<or> (\<exists>links res2. (\<forall>l \<in> set links. trimmed (fl_field_shift l) = fl_field_shift l)
         \<and> set_field_shift_links ck tenant now (yf_stored sreads) links (meanwhile rows1) = (res2, rows'))"
      using push_table [of ck reply cal walk mirror_on sreads tenant month resend now meanwhile rows calls pres rows' calls']
        pushed.hyps by blast
    have one: "\<forall>r \<in> set rows1. row_typed r"
      using rows1 IH by (auto simp: mark_month_unsynced_def row_typed_def to_shift_def)
    then have "\<forall>r \<in> set (meanwhile rows1). row_typed r" using pushed by blast
    then show ?case using rows' one links_typed by metis
  qed
  then show ?thesis by (auto simp: list_shifts_def row_typed_def)
qed

theorem confirmed_days_stay_typed_witness:
  "\<exists>rows. shift_history letters_of desk_table rows \<and> length rows = 5
    \<and> list_all row_typed rows \<and> list_all shift_ok (list_shifts letters_of ''t'' 20635 20637 rows)"
proof -
  obtain g rows' where run: "july_run Apply = Some (g, rows')" "length rows' = 5"
  proof -
    have "(case july_run Apply of None \<Rightarrow> False | Some (_, rows') \<Rightarrow> length rows' = 5)" by code_simp
    then show ?thesis using that by (auto split: option.splits)
  qed
  have history: "shift_history letters_of desk_table rows'"
    by (rule shift_history.confirmed [OF shift_history.began run(1) [unfolded july_run_def]])
  have "list_all row_typed desk_table" by code_simp
  then show ?thesis
    using confirmed_days_stay_typed [OF history, of "''t''" 20635 20637] run(2) history by (auto simp: list_all_iff)
qed

section \<open>What the model shows besides\<close>

text \<open>
  An edit that is stored while a push is under way is stamped by that push as told to Field, though Field
  was sent the day as it was before: the day is off the queue and nothing sends it again.
\<close>

lemma edit_during_push_counts_as_told:
  "let during = save_shift letters_of ''t'' 350 (shift_off ''a'' 20654 Edited);
       (_, rows, calls) = sync_caddie_shifts letters_of filing_field utc_calendar no_walk True sync_all ''t'' (20635, 20665)
         False (\<lambda>_. 400) during (desk_table, [])
   in count_unsynced letters_of ''t'' 20635 20665 rows = 0
      \<and> map hw_working (filter (is_day letters_of ''t'' ''a'' 20654) rows) = [False]
      \<and> map hw_field_shift (filter (is_day letters_of ''t'' ''a'' 20654) rows) = [Some ''f0'']
      \<and> calls ! 0 = PostShift ''st1'' \<lparr>fi_date = 20654, fi_start = ''07:00'', fi_end = ''17:00'', fi_type = None, fi_notes = None\<rparr>"
  by code_simp

text \<open>A confirmation whose read of the deadline fails answers with that error after the month was written.\<close>

lemma confirmed_month_answered_as_failed:
  "case generate_caddie_shifts letters_of july_calendar (july_reads\<lparr>mr_deadline := Inl (Provider ''gone'')\<rparr>) Map.empty ''t''
      \<lparr>ym_year = 2026, ym_month = 7\<rparr> Apply (\<lambda>_. 400) desk_table of
     Some (Inl e, rows) \<Rightarrow> e = Provider ''gone'' \<and> length rows = 5 | _ \<Rightarrow> False"
  by code_simp

text \<open>A batch of days Field cannot answer for leaves no link: the next call reads the same days again.\<close>

lemma unanswered_days_keep_their_place:
  assumes "\<And>st en before. en \<in> set batch \<Longrightarrow> \<not> dealt_with (mirror st en before) (us_shift en)"
    and "\<And>st en before l. fst (mirror st en before) = Inr l \<Longrightarrow> fl_caddie l = sh_caddie (us_shift en) \<and> fl_date l = sh_date (us_shift en)"
  shows "fst (fold (push_day mirror staff) batch (links, counts, calls)) = links"
  using assms(1)
proof (induction batch arbitrary: counts calls)
  case (Cons en batch)
  obtain e calls' where failed: "mirror (staff (sh_caddie (us_shift en))) en calls = (Inl e, calls')" "\<not> is_permanent e"
    using Cons.prems [of en "staff (sh_caddie (us_shift en))" calls] assms(2) [of "staff (sh_caddie (us_shift en))" en calls]
    by (cases "mirror (staff (sh_caddie (us_shift en))) en calls"; cases "fst (mirror (staff (sh_caddie (us_shift en))) en calls)")
      (auto simp: dealt_with_def)
  then show ?case using Cons by (simp add: push_day_def Let_def)
qed simp

end
