(* ===== verification/Actions.thy ===== *)
theory Actions
  imports Prelude
begin

text \<open>
  The permissions the club's own operations require, by the names of the platform's auth manifest:
  \<open>src/course/domain/actions.rs\<close>. \<open>READ_ONLY\<close> is what an outage of the policy store may leave open.
\<close>

definition LIST_TEE_SHEET :: str where "LIST_TEE_SHEET = ''field_extension_golf:ListTeeSheet''"
definition MANAGE_RESERVATIONS :: str where "MANAGE_RESERVATIONS = ''field_extension_golf:ManageReservations''"
definition LIST_SLOT_OVERRIDES :: str where "LIST_SLOT_OVERRIDES = ''field_extension_golf:ListSlotOverrides''"
definition MANAGE_SLOT_OVERRIDES :: str where "MANAGE_SLOT_OVERRIDES = ''field_extension_golf:ManageSlotOverrides''"
definition LIST_COURSES :: str where "LIST_COURSES = ''field_extension_golf:ListCourses''"
definition MANAGE_COURSES :: str where "MANAGE_COURSES = ''field_extension_golf:ManageCourses''"
definition LIST_PRODUCTS :: str where "LIST_PRODUCTS = ''field_extension_golf:ListProducts''"
definition MANAGE_PRODUCTS :: str where "MANAGE_PRODUCTS = ''field_extension_golf:ManageProducts''"
definition LIST_RESERVATION_POLICY :: str where "LIST_RESERVATION_POLICY = ''field_extension_golf:ListReservationPolicy''"
definition MANAGE_RESERVATION_POLICY :: str where "MANAGE_RESERVATION_POLICY = ''field_extension_golf:ManageReservationPolicy''"
definition LIST_CUSTOMERS :: str where "LIST_CUSTOMERS = ''field_extension_golf:ListCustomers''"
definition MANAGE_CUSTOMERS :: str where "MANAGE_CUSTOMERS = ''field_extension_golf:ManageCustomers''"
definition LIST_MEMBERSHIP :: str where "LIST_MEMBERSHIP = ''field_extension_golf:ListMembership''"
definition MANAGE_MEMBERSHIP_PLANS :: str where "MANAGE_MEMBERSHIP_PLANS = ''field_extension_golf:ManageMembershipPlans''"
definition ASSIGN_MEMBERSHIP :: str where "ASSIGN_MEMBERSHIP = ''field_extension_golf:AssignMembership''"
definition LIST_CADDIES :: str where "LIST_CADDIES = ''field_extension_golf:ListCaddies''"
definition MANAGE_CADDIES :: str where "MANAGE_CADDIES = ''field_extension_golf:ManageCaddies''"
definition LIST_CADDIE_ASSIGNMENTS :: str where "LIST_CADDIE_ASSIGNMENTS = ''field_extension_golf:ListCaddieAssignments''"
definition MANAGE_CADDIE_ASSIGNMENTS :: str where "MANAGE_CADDIE_ASSIGNMENTS = ''field_extension_golf:ManageCaddieAssignments''"
definition LIST_CADDIE_AVAILABILITY :: str where "LIST_CADDIE_AVAILABILITY = ''field_extension_golf:ListCaddieAvailability''"
definition MANAGE_CADDIE_AVAILABILITY :: str where "MANAGE_CADDIE_AVAILABILITY = ''field_extension_golf:ManageCaddieAvailability''"
definition LIST_SHIFTS :: str where "LIST_SHIFTS = ''field_extension_golf:ListShifts''"
definition MANAGE_SHIFTS :: str where "MANAGE_SHIFTS = ''field_extension_golf:ManageShifts''"
definition LIST_CADDIE_INSIGHTS :: str where "LIST_CADDIE_INSIGHTS = ''field_extension_golf:ListCaddieInsights''"
definition LIST_CADDIE_RANK_FEES :: str where "LIST_CADDIE_RANK_FEES = ''field_extension_golf:ListCaddieRankFees''"
definition MANAGE_CADDIE_RANK_FEES :: str where "MANAGE_CADDIE_RANK_FEES = ''field_extension_golf:ManageCaddieRankFees''"
definition LIST_PAYROLL :: str where "LIST_PAYROLL = ''field_extension_golf:ListPayroll''"
definition LIST_SETTLEMENT :: str where "LIST_SETTLEMENT = ''field_extension_golf:ListSettlement''"
definition LIST_BUDGETS :: str where "LIST_BUDGETS = ''field_extension_golf:ListBudgets''"
definition MANAGE_BUDGETS :: str where "MANAGE_BUDGETS = ''field_extension_golf:ManageBudgets''"
definition CALCULATE_FEES :: str where "CALCULATE_FEES = ''field_extension_golf:CalculateFees''"
definition FIELD_MANAGE_CANCELLATION_FEES :: str where "FIELD_MANAGE_CANCELLATION_FEES = ''field:ManageCancellationFees''"
definition LIST_RESERVATION_REPORTS :: str where "LIST_RESERVATION_REPORTS = ''field_extension_golf:ListReservationReports''"
definition IMPORT_RESERVATION_REPORTS :: str where "IMPORT_RESERVATION_REPORTS = ''field_extension_golf:ImportReservationReports''"
definition LIST_EXTENSION_STATUS :: str where "LIST_EXTENSION_STATUS = ''field_extension_golf:ListExtensionStatus''"
definition CALCULATE_TAX :: str where "CALCULATE_TAX = ''field_extension_golf:CalculateTax''"
definition SEED_DEMO_BOARD :: str where "SEED_DEMO_BOARD = ''field_extension_golf:SeedDemoBoard''"
definition READ_ONLY :: "str list" where
  "READ_ONLY = [LIST_TEE_SHEET, LIST_SLOT_OVERRIDES, LIST_COURSES, LIST_PRODUCTS, LIST_RESERVATION_POLICY, LIST_CUSTOMERS,
     LIST_MEMBERSHIP, LIST_CADDIES, LIST_CADDIE_ASSIGNMENTS, LIST_CADDIE_AVAILABILITY, LIST_SHIFTS,
     LIST_CADDIE_INSIGHTS, LIST_CADDIE_RANK_FEES, LIST_PAYROLL, LIST_SETTLEMENT, LIST_BUDGETS,
     LIST_RESERVATION_REPORTS, LIST_EXTENSION_STATUS, CALCULATE_FEES]"
definition ALL_ACTIONS :: "str list" where
  "ALL_ACTIONS = [LIST_TEE_SHEET, MANAGE_RESERVATIONS, LIST_SLOT_OVERRIDES, MANAGE_SLOT_OVERRIDES, LIST_COURSES, MANAGE_COURSES,
     LIST_PRODUCTS, MANAGE_PRODUCTS, LIST_RESERVATION_POLICY, MANAGE_RESERVATION_POLICY, LIST_CUSTOMERS,
     MANAGE_CUSTOMERS, LIST_MEMBERSHIP, MANAGE_MEMBERSHIP_PLANS, ASSIGN_MEMBERSHIP, LIST_CADDIES, MANAGE_CADDIES,
     LIST_CADDIE_ASSIGNMENTS, MANAGE_CADDIE_ASSIGNMENTS, LIST_CADDIE_AVAILABILITY, MANAGE_CADDIE_AVAILABILITY,
     LIST_SHIFTS, MANAGE_SHIFTS, LIST_CADDIE_INSIGHTS, LIST_CADDIE_RANK_FEES, MANAGE_CADDIE_RANK_FEES,
     LIST_PAYROLL, LIST_SETTLEMENT, LIST_BUDGETS, MANAGE_BUDGETS, CALCULATE_FEES, LIST_RESERVATION_REPORTS,
     IMPORT_RESERVATION_REPORTS, LIST_EXTENSION_STATUS, SEED_DEMO_BOARD]"

definition is_read_only :: "str \<Rightarrow> bool" where
  "is_read_only action \<longleftrightarrow> action \<in> set READ_ONLY"

end
