(* ===== verification/RouteTable.thy ===== *)
theory RouteTable
  imports Actions
begin

text \<open>
  What each route needs before its handler runs, and the routes the server registers:
  \<open>ROUTES\<close> of \<open>src/course_authz.rs\<close> in its order, cut into pieces, and \<open>build_router\<close> of \<open>src/lib.rs\<close>,
  a row per \<open>route\<close> call with its methods and whether it carries the token layer.
\<close>

section \<open>The classifier's table\<close>

datatype route_authorization =
    Public
  | AuthenticatedOnly
  | UpstreamEnforced
  | Action str
  | HandlerEnforced

text \<open>Method (\<open>*\<close> for every one), pattern, standing.\<close>

type_synonym route = "str \<times> str \<times> route_authorization"

definition ROUTES_1 :: "route list" where
  "ROUTES_1 = [
     (''GET'', ''/v1/course/weather-observations'', Action LIST_BUDGETS),
     (''POST'', ''/v1/course/weather-observations'', Action MANAGE_BUDGETS),
     (''GET'', ''/v1/course/data-exports/objects'', HandlerEnforced),
     (''GET'', ''/v1/course/data-exports/:source_key/rows'', HandlerEnforced),
     (''*'', ''/v1/course/data-imports/*path'', HandlerEnforced),
     (''POST'', ''/v1/course/common-import-owner/:operation'', Action IMPORT_RESERVATION_REPORTS),
     (''POST'', ''/calculate'', HandlerEnforced),
     (''POST'', ''/simulate/range'', HandlerEnforced),
     (''POST'', ''/v1/course/simulator/calculate'', Action CALCULATE_FEES),
     (''POST'', ''/v1/course/insights/layout'', Action LIST_TEE_SHEET),
     (''POST'', ''/v1/course/simulator/simulate/range'', Action CALCULATE_FEES),
     (''GET'', ''/v1/course/pricing-settings'', Action CALCULATE_FEES),
     (''PUT'', ''/v1/course/pricing-settings'', Action MANAGE_RESERVATION_POLICY),
     (''GET'', ''/v1/course/player-tag-options'', Action LIST_TEE_SHEET),
     (''PUT'', ''/v1/course/player-tag-options'', Action MANAGE_RESERVATION_POLICY),
     (''POST'', ''/cancellation-fee-collections'', HandlerEnforced),
     (''GET'', ''/v1/course/slot-overrides'', Action LIST_SLOT_OVERRIDES),
     (''PUT'', ''/v1/course/slot-overrides'', Action MANAGE_SLOT_OVERRIDES),
     (''DELETE'', ''/v1/course/slot-overrides'', Action MANAGE_SLOT_OVERRIDES),
     (''POST'', ''/v1/course/caddie-assignments/release-day'', Action MANAGE_CADDIE_ASSIGNMENTS),
     (''PUT'', ''/v1/course/caddie-assignments/:assignment_id/reassignment'', Action MANAGE_CADDIE_ASSIGNMENTS),
     (''GET'', ''/v1/course/caddie-duties'', Action LIST_CADDIE_ASSIGNMENTS),
     (''PUT'', ''/v1/course/caddie-duties'', Action MANAGE_CADDIE_ASSIGNMENTS),
     (''GET'', ''/v1/course/caddie-duty-assignments'', Action LIST_CADDIE_ASSIGNMENTS),
     (''POST'', ''/v1/course/caddie-duty-assignments'', Action MANAGE_CADDIE_ASSIGNMENTS),
     (''DELETE'', ''/v1/course/caddie-duty-assignments/:duty_id'', Action MANAGE_CADDIE_ASSIGNMENTS),
     (''GET'', ''/v1/course/caddie-shift-rules'', Action LIST_SHIFTS)]"

definition ROUTES_2 :: "route list" where
  "ROUTES_2 = [
     (''PUT'', ''/v1/course/caddie-shift-rules'', Action MANAGE_SHIFTS),
     (''GET'', ''/v1/course/caddie-shifts'', Action LIST_SHIFTS),
     (''PUT'', ''/v1/course/caddie-shifts/:caddie_profile_id/:date'', Action MANAGE_SHIFTS),
     (''POST'', ''/v1/course/caddie-shift-plans/:year_month'', Action MANAGE_SHIFTS),
     (''POST'', ''/v1/course/caddie-shift-plans/:year_month/preview'', Action MANAGE_SHIFTS),
     (''GET'', ''/v1/course/caddie-shift-plans/:year_month/field-sync'', Action LIST_SHIFTS),
     (''POST'', ''/v1/course/caddie-shift-plans/:year_month/field-sync'', Action MANAGE_SHIFTS),
     (''GET'', ''/v1/course/caddie-availability-deadlines/:year_month'', Action LIST_CADDIE_AVAILABILITY),
     (''PUT'', ''/v1/course/caddie-availability-deadlines/:year_month'', Action MANAGE_CADDIE_AVAILABILITY),
     (''POST'', ''/v1/course/demo-seed'', Action SEED_DEMO_BOARD),
     (''GET'', ''/admin'', AuthenticatedOnly),
     (''GET'', ''/v1/me'', AuthenticatedOnly),
     (''POST'', ''/v1/course/feature-flags/evaluate'', AuthenticatedOnly),
     (''POST'', ''/v1/course/feature-deliveries/evaluate'', AuthenticatedOnly),
     (''*'', ''/admin/caddies'', UpstreamEnforced),
     (''*'', ''/admin/caddies/:id'', UpstreamEnforced),
     (''*'', ''/admin/shifts'', UpstreamEnforced),
     (''*'', ''/admin/shifts/:id'', UpstreamEnforced),
     (''*'', ''/admin/shifts/:id/cancel'', UpstreamEnforced),
     (''*'', ''/admin/reservations'', UpstreamEnforced),
     (''*'', ''/admin/reservations/:reservation_id/assign'', UpstreamEnforced),
     (''*'', ''/admin/reservations/:reservation_id/unassign'', UpstreamEnforced),
     (''*'', ''/admin/dispatch'', UpstreamEnforced),
     (''*'', ''/field-api/*'', UpstreamEnforced),
     (''POST'', ''/v1/course/agent/sessions'', UpstreamEnforced),
     (''POST'', ''/v1/course/agent/sessions/:session/execute-request'', UpstreamEnforced),
     (''POST'', ''/v1/course/agent/sessions/:session/execute'', UpstreamEnforced),
     (''POST'', ''/v1/course/agent/sessions/:session/:operation'', UpstreamEnforced),
     (''GET'', ''/v1/course/agent/operations'', UpstreamEnforced),
     (''*'', ''/v1/field/client-capabilities'', UpstreamEnforced),
     (''*'', ''/v1/course/tee-sheet'', UpstreamEnforced),
     (''*'', ''/v1/course/tee-ledger'', UpstreamEnforced),
     (''*'', ''/v1/course/reservations/start-ledger/jobs'', UpstreamEnforced)]"

definition ROUTES_3 :: "route list" where
  "ROUTES_3 = [
     (''*'', ''/v1/course/reservations/start-ledger/jobs/:job_id'', UpstreamEnforced),
     (''*'', ''/v1/course/reservations/start-ledger/jobs/:job_id/confirm'', UpstreamEnforced),
     (''*'', ''/v1/course/reservations/start-ledger/jobs/:job_id/advance'', UpstreamEnforced),
     (''*'', ''/v1/course/reservations/start-ledger/context'', UpstreamEnforced),
     (''*'', ''/v1/course/reservations/start-ledger/import'', UpstreamEnforced),
     (''*'', ''/v1/course/reservations'', UpstreamEnforced),
     (''*'', ''/v1/course/reservations/:reservation_id'', UpstreamEnforced),
     (''*'', ''/v1/course/reservations/:reservation_id/cancel'', UpstreamEnforced),
     (''*'', ''/v1/course/reservations/:reservation_id/party'', UpstreamEnforced),
     (''GET'', ''/v1/course/reservations/:reservation_id/checkins'', Action LIST_TEE_SHEET),
     (''POST'', ''/v1/course/reservations/:reservation_id/checkins'', Action MANAGE_RESERVATIONS),
     (''*'', ''/v1/course/reservations/:reservation_id/plan'', UpstreamEnforced),
     (''GET'', ''/v1/course/course-order'', Action LIST_COURSES),
     (''PUT'', ''/v1/course/course-order'', Action MANAGE_COURSES),
     (''*'', ''/v1/course/courses'', UpstreamEnforced),
     (''*'', ''/v1/course/courses/:id'', UpstreamEnforced),
     (''*'', ''/v1/course/courses/:id/resource'', UpstreamEnforced),
     (''*'', ''/v1/course/courses/:id/schedule'', UpstreamEnforced),
     (''*'', ''/v1/course/courses/:id/time-slots/generate'', UpstreamEnforced),
     (''*'', ''/v1/course/booking-horizon'', UpstreamEnforced),
     (''*'', ''/v1/course/resources'', UpstreamEnforced),
     (''*'', ''/v1/course/reservation-products'', UpstreamEnforced),
     (''*'', ''/v1/course/reservation-products/:service_id'', UpstreamEnforced),
     (''*'', ''/v1/course/reservation-products/:service_id/slots'', UpstreamEnforced),
     (''*'', ''/v1/course/customers'', UpstreamEnforced),
     (''*'', ''/v1/course/customer-consent-items'', Action MANAGE_CUSTOMERS),
     (''*'', ''/v1/course/customer-consent-items/:consent_item_id'', Action MANAGE_CUSTOMERS),
     (''GET'', ''/v1/course/customer-reception-fields'', Action LIST_CUSTOMERS)]"

definition ROUTES_4 :: "route list" where
  "ROUTES_4 = [
     (''PUT'', ''/v1/course/customer-reception-fields'', Action MANAGE_CUSTOMERS),
     (''POST'', ''/v1/course/customer-reception-fields/analysis'', UpstreamEnforced),
     (''*'', ''/v1/course/customers/reception-draft'', UpstreamEnforced),
     (''*'', ''/v1/course/customers/reception-draft/jobs'', UpstreamEnforced),
     (''*'', ''/v1/course/customers/reception-draft/jobs/:job_id'', UpstreamEnforced),
     (''*'', ''/v1/course/customers/reception-draft/jobs/:job_id/confirm'', UpstreamEnforced),
     (''*'', ''/v1/course/customers/reception-draft/jobs/:job_id/advance'', UpstreamEnforced),
     (''*'', ''/v1/course/customers/:customer_id'', UpstreamEnforced),
     (''PUT'', ''/v1/course/customers/:customer_id/reception-values'', Action MANAGE_CUSTOMERS),
     (''*'', ''/v1/course/customers/:customer_id/visits'', UpstreamEnforced),
     (''*'', ''/v1/course/customers/:customer_id/membership-activities'', UpstreamEnforced),
     (''*'', ''/v1/course/customers/:customer_id/registration'', Action LIST_CUSTOMERS),
     (''*'', ''/v1/course/customers/:customer_id/member-number'', UpstreamEnforced),
     (''*'', ''/v1/course/customers/:customer_id/membership'', UpstreamEnforced),
     (''GET'', ''/v1/course/customer-summaries'', Action LIST_CUSTOMERS),
     (''GET'', ''/v1/course/reservation-cancellations'', Action LIST_CUSTOMERS),
     (''POST'', ''/v1/course/reservation-cancellations/fees'', Action FIELD_MANAGE_CANCELLATION_FEES),
     (''GET'', ''/v1/course/customer-grade-rules'', Action LIST_CUSTOMERS),
     (''PUT'', ''/v1/course/customer-grade-rules'', Action MANAGE_CUSTOMERS),
     (''GET'', ''/v1/course/membership-discounts'', Action LIST_MEMBERSHIP),
     (''PUT'', ''/v1/course/membership-discounts'', Action MANAGE_MEMBERSHIP_PLANS),
     (''GET'', ''/v1/course/membership-play-windows'', Action LIST_MEMBERSHIP),
     (''PUT'', ''/v1/course/membership-play-windows'', Action MANAGE_MEMBERSHIP_PLANS),
     (''*'', ''/v1/course/membership-plans'', UpstreamEnforced),
     (''*'', ''/v1/course/membership-plans/:plan_id'', UpstreamEnforced),
     (''*'', ''/v1/course/reservation-report-imports'', UpstreamEnforced),
     (''*'', ''/v1/course/reservation-report-imports/preview'', UpstreamEnforced)]"

definition ROUTES_5 :: "route list" where
  "ROUTES_5 = [
     (''*'', ''/v1/course/reservation-report-entries'', UpstreamEnforced),
     (''*'', ''/v1/course/reservation-report-migration'', UpstreamEnforced),
     (''*'', ''/v1/course/caddie-profiles'', UpstreamEnforced),
     (''*'', ''/v1/course/caddie-profiles/:id'', UpstreamEnforced),
     (''*'', ''/v1/course/caddie-profiles/:id/courses'', UpstreamEnforced),
     (''*'', ''/v1/course/caddie-assignments'', UpstreamEnforced),
     (''*'', ''/v1/course/caddie-assignments/:id'', UpstreamEnforced),
     (''*'', ''/v1/course/caddie-availabilities'', UpstreamEnforced),
     (''*'', ''/v1/course/caddie-availabilities/:caddie_id/:date'', UpstreamEnforced),
     (''*'', ''/v1/course/caddie-availability-submissions/:year_month'', UpstreamEnforced),
     (''*'', ''/v1/course/caddie-recommendations'', UpstreamEnforced),
     (''*'', ''/v1/course/caddie-attendance-snapshot'', UpstreamEnforced),
     (''*'', ''/v1/course/caddie-attendance-snapshots'', UpstreamEnforced),
     (''*'', ''/v1/course/caddie-supply'', UpstreamEnforced),
     (''*'', ''/v1/course/caddie-auto-assignments'', UpstreamEnforced),
     (''*'', ''/v1/course/caddie-course-supply'', UpstreamEnforced),
     (''*'', ''/v1/course/caddie-reinforcements'', UpstreamEnforced),
     (''*'', ''/v1/course/caddie-ratings'', UpstreamEnforced),
     (''GET'', ''/v1/course/caddie-rank-fees'', Action LIST_CADDIE_RANK_FEES),
     (''GET'', ''/v1/course/caddie-rank-fees/history'', Action LIST_CADDIE_RANK_FEES),
     (''PUT'', ''/v1/course/caddie-rank-fees'', Action MANAGE_CADDIE_RANK_FEES),
     (''GET'', ''/v1/course/caddie-fee-alignment'', Action LIST_CADDIE_RANK_FEES),
     (''POST'', ''/v1/course/caddie-fee-alignment'', Action MANAGE_CADDIE_RANK_FEES),
     (''*'', ''/v1/course/caddie-payroll-summary'', UpstreamEnforced),
     (''*'', ''/v1/course/caddie-payroll-summary/export.csv'', UpstreamEnforced),
     (''*'', ''/v1/course/reservation-policy'', UpstreamEnforced),
     (''*'', ''/v1/course/daily-budgets'', UpstreamEnforced)]"

definition ROUTES_6 :: "route list" where
  "ROUTES_6 = [
     (''*'', ''/v1/course/daily-budgets/achievement'', UpstreamEnforced),
     (''*'', ''/v1/course/daily-budgets/import'', UpstreamEnforced),
     (''*'', ''/v1/course/monthly-settlement'', UpstreamEnforced),
     (''*'', ''/v1/course/monthly-settlement/export.csv'', UpstreamEnforced),
     (''*'', ''/v1/course/extension-status'', UpstreamEnforced),
     (''GET'', ''/v1/course/tenant-timezone'', UpstreamEnforced),
     (''*'', ''/v1/course/config'', UpstreamEnforced)]"

definition ROUTES :: "route list" where
  "ROUTES = ROUTES_1 @ ROUTES_2 @ ROUTES_3 @ ROUTES_4 @ ROUTES_5 @ ROUTES_6"

definition PUBLIC_PREFIXES :: "str list" where
  "PUBLIC_PREFIXES = [''/ui'', ''/swagger-ui'', ''/public/'']"

definition PUBLIC_EXACT :: "str list" where
  "PUBLIC_EXACT = [''/'', ''/healthz'', ''/openapi.json'']"

definition PROTECTED_PREFIXES :: "str list" where
  "PROTECTED_PREFIXES =
     [''/v1/'', ''/admin'', ''/calculate'', ''/simulate'', ''/cancellation-fee-collections'', ''/field-api'']"

section \<open>The router\<close>

record registered =
  rg_path :: str
  rg_methods :: "str list"
  rg_token :: bool

abbreviation registers :: "str \<Rightarrow> str list \<Rightarrow> bool \<Rightarrow> registered" where
  "registers path methods token \<equiv> \<lparr>rg_path = path, rg_methods = methods, rg_token = token\<rparr>"

definition router_1 :: "registered list" where
  "router_1 = [
     registers ''/'' [''GET''] False,
     registers ''/healthz'' [''GET''] False,
     registers ''/admin'' [''GET''] True,
     registers ''/admin/caddies'' [''GET'', ''POST''] True,
     registers ''/admin/caddies/:id'' [''POST''] True,
     registers ''/admin/shifts'' [''POST''] True,
     registers ''/admin/shifts/:id'' [''POST''] True,
     registers ''/admin/shifts/:id/cancel'' [''POST''] True,
     registers ''/admin/reservations'' [''GET''] True,
     registers ''/admin/dispatch'' [''GET''] True,
     registers ''/admin/reservations/:reservation_id/assign'' [''POST''] True,
     registers ''/admin/reservations/:reservation_id/unassign'' [''POST''] True,
     registers ''/calculate'' [''POST''] True,
     registers ''/simulate/range'' [''POST''] True,
     registers ''/cancellation-fee-collections'' [''POST''] True,
     registers ''/v1/course/tee-sheet'' [''GET''] True,
     registers ''/v1/course/tee-ledger'' [''GET''] True,
     registers ''/v1/course/reservations/start-ledger/jobs'' [''POST''] True,
     registers ''/v1/course/reservations/start-ledger/jobs/:job_id'' [''GET'', ''DELETE''] True,
     registers ''/v1/course/reservations/start-ledger/jobs/:job_id/confirm'' [''POST''] True,
     registers ''/v1/course/reservations/start-ledger/jobs/:job_id/advance'' [''POST''] True]"

definition router_2 :: "registered list" where
  "router_2 = [
     registers ''/v1/course/reservations/start-ledger/context'' [''GET''] True,
     registers ''/v1/course/reservations/start-ledger/import'' [''POST''] True,
     registers ''/v1/course/reservations'' [''POST''] True,
     registers ''/v1/course/customer-consent-items'' [''GET'', ''POST''] True,
     registers ''/v1/course/customer-consent-items/:consent_item_id'' [''PUT'', ''DELETE''] True,
     registers ''/v1/course/data-exports/objects'' [''GET''] True,
     registers ''/v1/course/data-exports/:source_key/rows'' [''GET''] True,
     registers ''/v1/course/customer-reception-fields'' [''GET'', ''PUT''] True,
     registers ''/v1/course/customer-reception-fields/analysis'' [''POST''] True,
     registers ''/v1/course/customers'' [''GET'', ''POST''] True,
     registers ''/v1/course/customers/reception-draft'' [''POST''] True,
     registers ''/v1/course/customers/reception-draft/jobs'' [''POST''] True,
     registers ''/v1/course/customers/reception-draft/jobs/:job_id'' [''GET'', ''DELETE''] True,
     registers ''/v1/course/customers/reception-draft/jobs/:job_id/confirm'' [''POST''] True,
     registers ''/v1/course/customers/reception-draft/jobs/:job_id/advance'' [''POST''] True,
     registers ''/v1/course/customers/:customer_id'' [''GET'', ''DELETE''] True,
     registers ''/v1/course/customers/:customer_id/reception-values'' [''PUT''] True,
     registers ''/v1/course/customers/:customer_id/visits'' [''GET''] True]"

definition router_3 :: "registered list" where
  "router_3 = [
     registers ''/v1/course/customers/:customer_id/membership-activities'' [''GET''] True,
     registers ''/v1/course/customers/:customer_id/registration'' [''GET''] True,
     registers ''/v1/course/customers/:customer_id/member-number'' [''PUT''] True,
     registers ''/v1/course/customers/:customer_id/membership'' [''GET'', ''POST''] True,
     registers ''/v1/course/customer-summaries'' [''GET''] True,
     registers ''/v1/course/reservation-cancellations'' [''GET''] True,
     registers ''/v1/course/reservation-cancellations/fees'' [''POST''] True,
     registers ''/v1/course/customer-grade-rules'' [''GET'', ''PUT''] True,
     registers ''/v1/course/membership-discounts'' [''GET'', ''PUT''] True,
     registers ''/v1/course/membership-play-windows'' [''GET'', ''PUT''] True,
     registers ''/v1/course/membership-plans'' [''GET'', ''POST''] True,
     registers ''/v1/course/membership-plans/:plan_id'' [''PATCH''] True,
     registers ''/v1/course/reservations/:reservation_id/cancel'' [''POST''] True,
     registers ''/v1/course/reservations/:reservation_id'' [''PATCH''] True,
     registers ''/v1/course/reservations/:reservation_id/checkins'' [''GET'', ''POST''] True,
     registers ''/v1/course/reservations/:reservation_id/party'' [''PATCH''] True,
     registers ''/v1/course/reservations/:reservation_id/plan'' [''PATCH''] True,
     registers ''/v1/course/data-imports/*path'' [''GET'', ''POST''] True]"

definition router_4 :: "registered list" where
  "router_4 = [
     registers ''/v1/course/common-import-owner/:operation'' [''POST''] True,
     registers ''/v1/course/reservation-report-imports/preview'' [''POST''] True,
     registers ''/v1/course/reservation-report-imports'' [''POST''] True,
     registers ''/v1/course/reservation-report-entries'' [''GET''] True,
     registers ''/v1/course/reservation-report-migration'' [''POST''] True,
     registers ''/v1/course/demo-seed'' [''POST''] True,
     registers ''/v1/course/course-order'' [''GET'', ''PUT''] True,
     registers ''/v1/course/slot-overrides'' [''GET'', ''PUT'', ''DELETE''] True,
     registers ''/v1/course/courses'' [''GET'', ''POST''] True,
     registers ''/v1/course/courses/:id'' [''PATCH'', ''DELETE''] True,
     registers ''/v1/course/courses/:id/schedule'' [''GET'', ''PUT''] True,
     registers ''/v1/course/courses/:id/resource'' [''POST''] True,
     registers ''/v1/course/courses/:id/time-slots/generate'' [''POST''] True,
     registers ''/v1/course/booking-horizon'' [''GET'', ''PUT''] True,
     registers ''/v1/course/resources'' [''GET''] True,
     registers ''/v1/course/reservation-products'' [''GET''] True,
     registers ''/v1/course/reservation-products/:service_id'' [''POST''] True]"

definition router_5 :: "registered list" where
  "router_5 = [
     registers ''/v1/course/reservation-products/:service_id/slots'' [''GET'', ''PUT''] True,
     registers ''/v1/course/caddie-profiles'' [''GET'', ''POST''] True,
     registers ''/v1/course/caddie-profiles/:id'' [''PATCH'', ''DELETE''] True,
     registers ''/v1/course/caddie-profiles/:id/courses'' [''GET'', ''PUT''] True,
     registers ''/v1/course/caddie-assignments'' [''GET'', ''POST''] True,
     registers ''/v1/course/caddie-assignments/release-day'' [''POST''] True,
     registers ''/v1/course/caddie-assignments/:id'' [''PATCH''] True,
     registers ''/v1/course/caddie-availabilities'' [''GET'', ''POST''] True,
     registers ''/v1/course/caddie-availabilities/:caddie_id/:date'' [''DELETE''] True,
     registers ''/v1/course/caddie-recommendations'' [''GET''] True,
     registers ''/v1/course/caddie-attendance-snapshot'' [''GET''] True,
     registers ''/v1/course/caddie-attendance-snapshots'' [''GET''] True,
     registers ''/v1/course/caddie-supply'' [''GET''] True,
     registers ''/v1/course/caddie-auto-assignments'' [''POST''] True,
     registers ''/v1/course/caddie-course-supply'' [''GET''] True,
     registers ''/v1/course/caddie-reinforcements'' [''GET''] True,
     registers ''/v1/course/caddie-assignments/:assignment_id/reassignment'' [''PUT''] True,
     registers ''/v1/course/caddie-duties'' [''GET'', ''PUT''] True,
     registers ''/v1/course/caddie-duty-assignments'' [''GET'', ''POST''] True,
     registers ''/v1/course/caddie-duty-assignments/:duty_id'' [''DELETE''] True]"

definition router_6 :: "registered list" where
  "router_6 = [
     registers ''/v1/course/caddie-shift-rules'' [''GET'', ''PUT''] True,
     registers ''/v1/course/caddie-shifts'' [''GET''] True,
     registers ''/v1/course/caddie-shifts/:caddie_profile_id/:date'' [''PUT''] True,
     registers ''/v1/course/caddie-shift-plans/:year_month'' [''POST''] True,
     registers ''/v1/course/caddie-shift-plans/:year_month/field-sync'' [''GET'', ''POST''] True,
     registers ''/v1/course/caddie-shift-plans/:year_month/preview'' [''POST''] True,
     registers ''/v1/course/caddie-availability-deadlines/:year_month'' [''GET'', ''PUT''] True,
     registers ''/v1/course/caddie-availability-submissions/:year_month'' [''GET''] True,
     registers ''/v1/course/caddie-rank-fees/history'' [''GET''] True,
     registers ''/v1/course/caddie-rank-fees'' [''GET'', ''PUT''] True,
     registers ''/v1/course/caddie-fee-alignment'' [''GET'', ''POST''] True,
     registers ''/v1/course/caddie-payroll-summary'' [''GET''] True,
     registers ''/v1/course/caddie-payroll-summary/export.csv'' [''GET''] True,
     registers ''/v1/course/caddie-ratings'' [''GET''] True,
     registers ''/v1/course/reservation-policy'' [''GET'', ''PATCH''] True,
     registers ''/v1/course/daily-budgets/achievement'' [''GET''] True,
     registers ''/v1/course/daily-budgets/import'' [''POST''] True,
     registers ''/v1/course/weather-observations'' [''GET'', ''POST''] True,
     registers ''/v1/course/daily-budgets'' [''GET'', ''POST''] True,
     registers ''/v1/course/monthly-settlement'' [''GET''] True]"

definition router_7 :: "registered list" where
  "router_7 = [
     registers ''/v1/course/monthly-settlement/export.csv'' [''GET''] True,
     registers ''/v1/course/insights/layout'' [''POST''] True,
     registers ''/v1/course/simulator/calculate'' [''POST''] True,
     registers ''/v1/course/simulator/simulate/range'' [''POST''] True,
     registers ''/v1/course/pricing-settings'' [''GET'', ''PUT''] True,
     registers ''/v1/course/player-tag-options'' [''GET'', ''PUT''] True,
     registers ''/v1/course/extension-status'' [''GET''] True,
     registers ''/v1/course/tenant-timezone'' [''GET''] True,
     registers ''/v1/course/config'' [''PATCH''] True,
     registers ''/v1/course/feature-flags/evaluate'' [''POST''] True,
     registers ''/v1/course/feature-deliveries/evaluate'' [''POST''] True,
     registers ''/v1/field/client-capabilities'' [''GET''] True,
     registers ''/v1/course/agent/sessions'' [''POST''] True,
     registers ''/v1/course/agent/sessions/:session/execute-request'' [''POST''] True,
     registers ''/v1/course/agent/sessions/:session/execute'' [''POST''] True,
     registers ''/v1/course/agent/sessions/:session/:operation'' [''POST''] True,
     registers ''/v1/course/agent/operations'' [''GET''] True,
     registers ''/field-api/*path'' [''GET'', ''POST'', ''PATCH'', ''PUT'', ''DELETE''] True,
     registers ''/public/cancellation-fees/:token'' [''GET''] False,
     registers ''/public/cancellation-fees/:token/stripe-payment-intent'' [''POST''] False,
     registers ''/public/cancellation-fees/:token/confirm'' [''POST''] False,
     registers ''/v1/me'' [''GET''] True]"

text \<open>The caller's profile is registered only where the client for it is configured.\<close>

definition build_router :: "registered list" where
  "build_router = router_1 @ router_2 @ router_3 @ router_4 @ router_5 @ router_6 @ router_7"

end
