(* ===== verification/Authz.thy ===== *)
theory Authz
  imports RouteTable
begin

text \<open>
  Who may run what: \<open>src/course_authz.rs\<close>. The route classifier, the batch query behind the navigation,
  the cache of allowances with its windows, and the gate every request passes. The policy store is a
  parameter: what it answers, and when.
\<close>

section \<open>Classifying a request\<close>

fun starts_with :: "str \<Rightarrow> str \<Rightarrow> bool" where
  "starts_with s [] = True"
| "starts_with [] (c # cs) = False"
| "starts_with (x # s) (c # cs) = (x = c \<and> starts_with s cs)"

definition segments :: "str \<Rightarrow> str list" where
  "segments path = filter (\<lambda>s. s \<noteq> []) (split_on (CHR ''/'') path)"

fun segments_match :: "str list \<Rightarrow> str list \<Rightarrow> bool" where
  "segments_match [] [] = True"
| "segments_match (q # qs) ps =
     (if starts_with q ''*'' then True
      else case ps of [] \<Rightarrow> False
        | p # ps' \<Rightarrow> (starts_with q '':'' \<or> q = p) \<and> segments_match qs ps')"
| "segments_match [] (p # ps) = False"

definition pattern_matches :: "str \<Rightarrow> str \<Rightarrow> bool" where
  "pattern_matches pattern path = segments_match (segments pattern) (segments path)"

text \<open>\<open>HEAD\<close> is answered by the handler of \<open>GET\<close>.\<close>

definition answered_as :: "str \<Rightarrow> str" where
  "answered_as m = (if m = ''HEAD'' then ''GET'' else m)"

definition route_applies :: "str \<Rightarrow> str \<Rightarrow> route \<Rightarrow> bool" where
  "route_applies m path r \<longleftrightarrow> (fst r = ''*'' \<or> fst r = m) \<and> pattern_matches (fst (snd r)) path"

definition matching_route :: "str \<Rightarrow> str \<Rightarrow> (str \<times> str) option" where
  "matching_route m path =
     map_option (\<lambda>r. (fst r, fst (snd r))) (find (route_applies (answered_as m) path) ROUTES)"

definition classify_route :: "str \<Rightarrow> str \<Rightarrow> route_authorization option" where
  "classify_route m path =
     (case find (route_applies (answered_as m) path) ROUTES of
        Some (_, _, standing) \<Rightarrow> Some standing
      | None \<Rightarrow>
          if path \<in> set PUBLIC_EXACT \<or> list_ex (starts_with path) PUBLIC_PREFIXES then Some Public
          else if list_ex (starts_with path) PROTECTED_PREFIXES then None
          else Some Public)"

section \<open>What the policy store says\<close>

datatype decision = Allowed | Denied

datatype check_error = CheckUnauthorized | TenantRejected | CheckProvider str

type_synonym check_answer = "check_error + decision"

text \<open>The caller's bearer, the tenant, the platform and the action.\<close>

type_synonym cache_key = "str \<times> str \<times> str option \<times> str"

record check_outcome =
  co_action :: str
  co_allowed :: bool
  co_error :: "str option"

datatype check_reply = Unreachable str | Answered nat "check_outcome list" | Undecodable nat str

text \<open>\<open>show_status\<close> is how the client library writes a status.\<close>

definition tachyon_check :: "(nat \<Rightarrow> str) \<Rightarrow> bool \<Rightarrow> check_reply \<Rightarrow> str \<Rightarrow> check_answer" where
  "tachyon_check show_status url_ok reply action =
     (if \<not> url_ok then Inl (CheckProvider ''tachyon api base URL is invalid'')
      else case reply of
        Unreachable e \<Rightarrow> Inl (CheckProvider (''policy check request failed: '' @ e))
      | Answered code results \<Rightarrow>
          if code = 401 then Inl CheckUnauthorized
          else if code = 403 then Inl TenantRejected
          else if \<not> (200 \<le> code \<and> code \<le> 299) then Inl (CheckProvider (''policy check answered '' @ show_status code))
          else Inr (if list_ex (\<lambda>co. co_action co = action \<and> co_error co = None \<and> co_allowed co) results
                    then Allowed else Denied)
      | Undecodable code e \<Rightarrow>
          if code = 401 then Inl CheckUnauthorized
          else if code = 403 then Inl TenantRejected
          else if \<not> (200 \<le> code \<and> code \<le> 299) then Inl (CheckProvider (''policy check answered '' @ show_status code))
          else Inl (CheckProvider (''policy check decode failed: '' @ e)))"

section \<open>The navigation's batch\<close>

type_synonym batch_decisions = "str \<rightharpoonup> bool option"

definition batch_step ::
  "str list \<Rightarrow> check_outcome \<Rightarrow> batch_decisions \<times> str set \<Rightarrow> batch_decisions \<times> str set" where
  "batch_step actions co acc =
     (let (decisions, seen) = acc; a = co_action co in
      if a \<notin> set actions then acc
      else if count_list actions a \<noteq> 1 then (decisions(a \<mapsto> None), seen)
      else if a \<in> seen then (decisions(a \<mapsto> None), seen)
      else (if co_error co = None then decisions(a \<mapsto> Some (co_allowed co)) else decisions, insert a seen))"

definition strict_batch_decisions :: "str list \<Rightarrow> check_outcome list \<Rightarrow> batch_decisions" where
  "strict_batch_decisions actions outcomes =
     fst (fold (batch_step actions) outcomes (\<lambda>a. if a \<in> set actions then Some None else None, {}))"

definition FIELD_NAVIGATION_ACTIONS :: "str list" where
  "FIELD_NAVIGATION_ACTIONS =
     [''field:ListReservations'', ''field:ManageReservations'', ''field:ListHrm'', ''field:ManageHrm'',
      ''field:ListCustomers'', ''field:ManageCustomers'', ''field:ListMembership'', ''field:ManageMembership'',
      ''field:RegisterMembership'', ''field:ListExtensions'', ''field:ManageExtensions'', ''field:ManageUsers'',
      ''field:ListBridgeDefinitions'', ''field:ManageBridgeDefinitions'', ''field:PreviewBridgeRun'',
      ''field:ExecuteBridgeDrafts'', ''field:RunBridgeAction'', ''field:ListBridgeExportDefinitions'',
      ''field:ManageBridgeExportDefinitions'', ''field:ExportBridgeDefinition'', ''field:ListAccounting'',
      ''field:ManageAccounting'']"

definition navigation_action_set :: "str list" where
  "navigation_action_set =
     filter (\<lambda>a. a \<noteq> SEED_DEMO_BOARD \<and> a \<noteq> CALCULATE_TAX) ALL_ACTIONS @ FIELD_NAVIGATION_ACTIONS"

definition unknown_snapshot :: "str list \<Rightarrow> batch_decisions" where
  "unknown_snapshot actions a = (if a \<in> set actions then Some None else None)"

definition fresh_navigation_snapshot ::
  "(check_error + batch_decisions) \<Rightarrow> str list \<Rightarrow> check_error + batch_decisions" where
  "fresh_navigation_snapshot answer actions =
     (case answer of Inr decisions \<Rightarrow> Inr decisions
      | Inl (CheckProvider _) \<Rightarrow> Inr (unknown_snapshot actions)
      | Inl e \<Rightarrow> Inl e)"

definition disabled_batch :: "str list \<Rightarrow> check_error + batch_decisions" where
  "disabled_batch actions = Inr (\<lambda>a. if a \<in> set actions then Some (Some True) else None)"

definition tachyon_check_batch ::
  "(nat \<Rightarrow> str) \<Rightarrow> bool \<Rightarrow> check_reply \<Rightarrow> str list \<Rightarrow> check_error + batch_decisions" where
  "tachyon_check_batch show_status url_ok reply actions =
     (if \<not> url_ok then Inl (CheckProvider ''tachyon api base URL is invalid'')
      else case reply of
        Unreachable e \<Rightarrow> Inl (CheckProvider (''policy batch check request failed: '' @ e))
      | Answered code results \<Rightarrow>
          if code = 401 then Inl CheckUnauthorized
          else if code = 403 then Inl TenantRejected
          else if \<not> (200 \<le> code \<and> code \<le> 299)
          then Inl (CheckProvider (''policy batch check answered '' @ show_status code))
          else Inr (strict_batch_decisions actions results)
      | Undecodable code e \<Rightarrow>
          if code = 401 then Inl CheckUnauthorized
          else if code = 403 then Inl TenantRejected
          else if \<not> (200 \<le> code \<and> code \<le> 299)
          then Inl (CheckProvider (''policy batch check answered '' @ show_status code))
          else Inl (CheckProvider (''policy batch check decode failed: '' @ e)))"

section \<open>The cache of allowances\<close>

text \<open>Times are seconds of the process's monotonic clock.\<close>

definition CACHE_TTL :: int where "CACHE_TTL = 60"
definition CACHE_GRACE :: int where "CACHE_GRACE = 30 * 60"
definition CACHE_CAP :: nat where "CACHE_CAP = 4096"

type_synonym cache = "(cache_key \<times> int) list"

definition cache_put :: "cache_key \<Rightarrow> int \<Rightarrow> cache \<Rightarrow> cache" where
  "cache_put k t c = (k, t) # filter (\<lambda>e. fst e \<noteq> k) c"

definition invalidate_tenant :: "str \<Rightarrow> cache \<Rightarrow> cache" where
  "invalidate_tenant tenant c = filter (\<lambda>e. fst (snd (fst e)) \<noteq> tenant) c"

definition cache_allowance :: "int \<Rightarrow> cache_key \<Rightarrow> int \<Rightarrow> cache \<Rightarrow> bool \<times> cache" where
  "cache_allowance now k window c =
     (case map_of c k of
        None \<Rightarrow> (False, c)
      | Some granted_at \<Rightarrow>
          if now - granted_at < window then (True, c)
          else (False, if CACHE_GRACE \<le> now - granted_at then filter (\<lambda>e. fst e \<noteq> k) c else c))"

definition remember :: "int \<Rightarrow> cache_key \<Rightarrow> cache \<Rightarrow> cache" where
  "remember now k c = cache_put k now (if CACHE_CAP \<le> length c then [] else c)"

text \<open>
  One check: the cache is asked at \<open>now\<close>, and when it has nothing the store answers by \<open>later\<close>;
  \<open>meanwhile\<close> is what other requests do to the cache in between.
\<close>

definition cached_check ::
  "int \<Rightarrow> int \<Rightarrow> (cache \<Rightarrow> cache) \<Rightarrow> (cache_key \<Rightarrow> check_answer) \<Rightarrow> cache_key \<Rightarrow> cache \<Rightarrow> check_answer \<times> cache" where
  "cached_check now later meanwhile ask k c =
     (let (held, c1) = cache_allowance now k CACHE_TTL c in
      if held then (Inr Allowed, c1)
      else (let c2 = meanwhile c1 in
        case ask k of
          Inr Allowed \<Rightarrow> (Inr Allowed, remember later k c2)
        | Inr Denied \<Rightarrow> (Inr Denied, c2)
        | Inl (CheckProvider message) \<Rightarrow>
            if is_read_only (snd (snd (snd k)))
            then (let (recent, c3) = cache_allowance later k CACHE_GRACE c2
                  in if recent then (Inr Allowed, c3) else (Inl (CheckProvider message), c3))
            else (Inl (CheckProvider message), c2)
        | Inl e \<Rightarrow> (Inl e, c2)))"

section \<open>The gate\<close>

record request =
  rq_method :: str
  rq_path :: str
  rq_headers :: "(str \<times> str) list"

definition header :: "request \<Rightarrow> str \<Rightarrow> str option" where
  "header req name = map_of (rq_headers req) name"

text \<open>\<open>HeaderValue::to_str\<close>: visible ASCII and tabs only.\<close>

definition header_text :: "str \<Rightarrow> str option" where
  "header_text v = (if list_all (\<lambda>c. 32 \<le> byte_of c \<and> byte_of c < 127 \<or> byte_of c = 9) v then Some v else None)"

definition strip_prefix :: "str \<Rightarrow> str \<Rightarrow> str option" where
  "strip_prefix s prefix = (if starts_with s prefix then Some (drop (length prefix) s) else None)"

definition authorization_header :: "request \<Rightarrow> str option" where
  "authorization_header req =
     (case header req ''authorization'' of Some v \<Rightarrow> Some v
      | None \<Rightarrow> header req ''x-courseboard-authorization'')"

definition bearer_from :: "request \<Rightarrow> str option" where
  "bearer_from req =
     (case authorization_header req of None \<Rightarrow> None
      | Some v \<Rightarrow> (case header_text v of None \<Rightarrow> None
        | Some s \<Rightarrow> (case strip_prefix s ''Bearer '' of None \<Rightarrow> None
          | Some t \<Rightarrow> if trim t = [] then None else Some (trim t))))"

definition scope_header :: "request \<Rightarrow> str \<Rightarrow> str option" where
  "scope_header req name =
     (case header req name of None \<Rightarrow> None
      | Some v \<Rightarrow> (case header_text v of None \<Rightarrow> None
        | Some s \<Rightarrow> if trim s = [] then None else Some (trim s)))"

datatype gate_answer =
    Passed
  | Forbidden
  | Unauthenticated
  | Refused str str
  | StoreDown str

text \<open>\<open>checker\<close> is \<open>None\<close> where action authorization is switched off.\<close>

definition require_course_authorization ::
  "((cache_key \<Rightarrow> cache \<Rightarrow> check_answer \<times> cache) option) \<Rightarrow> (str \<Rightarrow> bool) \<Rightarrow> request \<Rightarrow> cache \<Rightarrow> gate_answer \<times> cache" where
  "require_course_authorization checker verified req c =
     (case classify_route (rq_method req) (rq_path req) of
        None \<Rightarrow> (Forbidden, c)
      | Some (Action action) \<Rightarrow>
          (case checker of None \<Rightarrow> (Passed, c)
           | Some check \<Rightarrow>
             (case bearer_from req of None \<Rightarrow> (Unauthenticated, c)
              | Some bearer \<Rightarrow>
                 if \<not> verified bearer then (Unauthenticated, c)
                 else (case scope_header req ''x-operator-id'' of
                     None \<Rightarrow> (Refused ''tenant'' ''x-operator-id is required for this operation'', c)
                   | Some operator \<Rightarrow>
                     (case check (bearer, operator, scope_header req ''x-platform-id'', action) c of
                        (Inr Allowed, c') \<Rightarrow> (Passed, c')
                      | (Inr Denied, c') \<Rightarrow> (Refused ''action'' (''this operation requires '' @ action), c')
                      | (Inl CheckUnauthorized, c') \<Rightarrow> (Unauthenticated, c')
                      | (Inl TenantRejected, c') \<Rightarrow>
                          (Refused ''tenant'' ''the tenant scope was refused for this caller'', c')
                      | (Inl (CheckProvider message), c') \<Rightarrow> (StoreDown message, c')))))
      | Some _ \<Rightarrow> (Passed, c))"

text \<open>The token layer of a single route (\<open>require_valid_token\<close>): it verifies the text as it stands.\<close>

definition require_valid_token :: "(str \<Rightarrow> bool) \<Rightarrow> request \<Rightarrow> bool" where
  "require_valid_token verified req =
     (case authorization_header req of None \<Rightarrow> False
      | Some v \<Rightarrow> (case header_text v of None \<Rightarrow> False
        | Some s \<Rightarrow> (case strip_prefix s ''Bearer '' of None \<Rightarrow> False
          | Some t \<Rightarrow> trim t \<noteq> [] \<and> verified t)))"

end
