(* ===== verification/AuthzCorrect.thy ===== *)
theory AuthzCorrect
  imports Authz
begin

text \<open>
  What the gate lets through. The router belongs to the server library; \<open>fits\<close> is what it documents of its
  patterns, and a request it delivers to a registration is asked to fit it, no more. The cache is watched by
  a history of its steps with a log of grants and revocations beside it.
\<close>

section \<open>What a pattern of the router takes\<close>

fun fits_segments :: "str list \<Rightarrow> str list \<Rightarrow> bool" where
  "fits_segments [] ps = (ps = [])"
| "fits_segments (q # qs) ps =
     (case ps of [] \<Rightarrow> False
      | p # ps' \<Rightarrow>
          if starts_with q ''*'' then list_ex (\<lambda>s. s \<noteq> []) ps
          else (if starts_with q '':'' then p \<noteq> [] else p = q) \<and> fits_segments qs ps')"

definition fits :: "str \<Rightarrow> str \<Rightarrow> bool" where
  "fits pattern path = fits_segments (split_on (CHR ''/'') pattern) (split_on (CHR ''/'') path)"

section \<open>The classifier covers the router\<close>

lemma starts_with_nil [simp]: "starts_with [] (c # cs) = False"
  by simp

lemma fits_segments_match:
  "fits_segments qs ps \<Longrightarrow> segments_match (filter (\<lambda>s. s \<noteq> []) qs) (filter (\<lambda>s. s \<noteq> []) ps)"
proof (induction qs ps rule: fits_segments.induct)
  case (2 q qs ps)
  obtain p ps' where ps: "ps = p # ps'" using 2(2) by (cases ps) auto
  show ?case
  proof (cases "starts_with q ''*''")
    case True
    then have "q \<noteq> []" by auto
    then show ?thesis using True by simp
  next
    case False
    then have rest: "segments_match (filter (\<lambda>s. s \<noteq> []) qs) (filter (\<lambda>s. s \<noteq> []) ps')"
      and here: "if starts_with q '':'' then p \<noteq> [] else p = q"
      using 2 ps by auto
    show ?thesis
    proof (cases "q = []")
      case True
      then show ?thesis using rest here ps by simp
    next
      case nonempty: False
      then have "p \<noteq> []" using here by (auto split: if_splits)
      then show ?thesis using rest here ps False nonempty by (auto split: if_splits)
    qed
  qed
qed simp

lemma fits_matches: "fits pattern path \<Longrightarrow> pattern_matches pattern path"
  unfolding fits_def pattern_matches_def segments_def by (rule fits_segments_match)


definition takes :: "str \<Rightarrow> str \<Rightarrow> bool" where
  "takes pattern entry \<longleftrightarrow> (\<forall>path. fits pattern path \<longrightarrow> pattern_matches entry path)"

definition listed :: "str \<Rightarrow> str \<Rightarrow> bool" where
  "listed m pattern \<longleftrightarrow> (\<exists>r\<in>set ROUTES. (fst r = ''*'' \<or> fst r = m) \<and> takes pattern (fst (snd r)))"

text \<open>Where the row of each guarded registration stands: the piece of the table and the place in it.\<close>

definition route_piece :: "nat \<Rightarrow> route list" where
  "route_piece k = [ROUTES_1, ROUTES_2, ROUTES_3, ROUTES_4, ROUTES_5, ROUTES_6] ! k"

definition places_1 :: "(nat \<times> nat) list list" where
  "places_1 =
     [[(1, 10)], [(1, 14), (1, 14)], [(1, 15)], [(1, 16)], [(1, 17)], [(1, 18)], [(1, 19)], [(1, 22)],
     [(1, 20)], [(1, 21)], [(0, 6)], [(0, 7)], [(0, 15)], [(1, 30)], [(1, 31)], [(1, 32)], [(2, 0), (2,
     0)], [(2, 1)], [(2, 2)]]"

definition places_2 :: "(nat \<times> nat) list list" where
  "places_2 =
     [[(2, 3)], [(2, 4)], [(2, 5)], [(2, 25), (2, 25)], [(2, 26), (2, 26)], [(0, 2)], [(0, 3)], [(2, 27),
     (3, 0)], [(3, 1)], [(2, 24), (2, 24)], [(3, 2)], [(3, 3)], [(3, 4), (3, 4)], [(3, 5)], [(3, 6)],
     [(3, 7), (3, 7)], [(3, 8)], [(3, 9)]]"

definition places_3 :: "(nat \<times> nat) list list" where
  "places_3 =
     [[(3, 10)], [(3, 11)], [(3, 12)], [(3, 13), (3, 13)], [(3, 14)], [(3, 15)], [(3, 16)], [(3, 17), (3,
     18)], [(3, 19), (3, 20)], [(3, 21), (3, 22)], [(3, 23), (3, 23)], [(3, 24)], [(2, 7)], [(2, 6)],
     [(2, 9), (2, 10)], [(2, 8)], [(2, 11)], [(0, 4), (0, 4)]]"

definition places_4 :: "(nat \<times> nat) list list" where
  "places_4 =
     [[(0, 5)], [(3, 26)], [(3, 25)], [(4, 0)], [(4, 1)], [(1, 9)], [(2, 12), (2, 13)], [(0, 16), (0, 17),
     (0, 18)], [(2, 14), (2, 14)], [(2, 15), (2, 15)], [(2, 17), (2, 17)], [(2, 16)], [(2, 18)], [(2,
     19), (2, 19)], [(2, 20)], [(2, 21)], [(2, 22)]]"

definition places_5 :: "(nat \<times> nat) list list" where
  "places_5 =
     [[(2, 23), (2, 23)], [(4, 2), (4, 2)], [(4, 3), (4, 3)], [(4, 4), (4, 4)], [(4, 5), (4, 5)], [(0,
     19)], [(4, 6)], [(4, 7), (4, 7)], [(4, 8)], [(4, 10)], [(4, 11)], [(4, 12)], [(4, 13)], [(4, 14)],
     [(4, 15)], [(4, 16)], [(0, 20)], [(0, 21), (0, 22)], [(0, 23), (0, 24)], [(0, 25)]]"

definition places_6 :: "(nat \<times> nat) list list" where
  "places_6 =
     [[(0, 26), (1, 0)], [(1, 1)], [(1, 2)], [(1, 3)], [(1, 5), (1, 6)], [(1, 4)], [(1, 7), (1, 8)], [(4,
     9)], [(4, 19)], [(4, 18), (4, 20)], [(4, 21), (4, 22)], [(4, 23)], [(4, 24)], [(4, 17)], [(4, 25),
     (4, 25)], [(5, 0)], [(5, 1)], [(0, 0), (0, 1)], [(4, 26), (4, 26)], [(5, 2)]]"

definition places_7 :: "(nat \<times> nat) list list" where
  "places_7 =
     [[(5, 3)], [(0, 9)], [(0, 8)], [(0, 10)], [(0, 11), (0, 12)], [(0, 13), (0, 14)], [(5, 4)], [(5, 5)],
     [(5, 6)], [(1, 12)], [(1, 13)], [(1, 29)], [(1, 24)], [(1, 25)], [(1, 26)], [(1, 27)], [(1, 28)],
     [(1, 11)]]"

definition listed_at :: "registered \<Rightarrow> str \<Rightarrow> nat \<times> nat \<Rightarrow> bool" where
  "listed_at r m place \<longleftrightarrow>
     fst place < 6 \<and> snd place < length (route_piece (fst place)) \<and>
     (let row = route_piece (fst place) ! snd place in (fst row = ''*'' \<or> fst row = m) \<and> fst (snd row) = rg_path r)"

definition all_listed :: "registered list \<Rightarrow> (nat \<times> nat) list list \<Rightarrow> bool" where
  "all_listed rs places = list_all2 (\<lambda>r. list_all2 (listed_at r) (rg_methods r)) rs places"

definition own_rows :: "registered list \<Rightarrow> registered list" where
  "own_rows rs = filter (\<lambda>r. rg_token r \<and> rg_path r \<noteq> ''/field-api/*path'') rs"

lemma own_rows_1: "all_listed (own_rows router_1) places_1"
  by code_simp

lemma own_rows_2: "all_listed (own_rows router_2) places_2"
  by code_simp

lemma own_rows_3: "all_listed (own_rows router_3) places_3"
  by code_simp

lemma own_rows_4: "all_listed (own_rows router_4) places_4"
  by code_simp

lemma own_rows_5: "all_listed (own_rows router_5) places_5"
  by code_simp

lemma own_rows_6: "all_listed (own_rows router_6) places_6"
  by code_simp

lemma own_rows_7: "all_listed (own_rows router_7) places_7"
  by code_simp

lemma takes_same: "takes pattern pattern"
  unfolding takes_def using fits_matches by blast

lemma takes_field_api: "takes ''/field-api/*path'' ''/field-api/*''"
proof -
  have entry: "segments ''/field-api/*'' = [''field-api'', ''*'']" by code_simp
  have cut: "split_on (CHR ''/'') ''/field-api/*path'' = [[], ''field-api'', ''*path'']" by code_simp
  show ?thesis
    unfolding takes_def fits_def pattern_matches_def cut entry
    by (auto simp: segments_def split: list.splits)
qed

lemma route_piece_in: "k < 6 \<Longrightarrow> set (route_piece k) \<subseteq> set ROUTES"
  unfolding route_piece_def ROUTES_def
  by (auto simp: less_Suc_eq numeral_eq_Suc)

lemma listed_at_listed:
  assumes "listed_at r m place"
  shows "listed m (rg_path r)"
proof -
  let ?row = "route_piece (fst place) ! snd place"
  have facts: "fst place < 6" "snd place < length (route_piece (fst place))"
      "fst ?row = ''*'' \<or> fst ?row = m" "fst (snd ?row) = rg_path r"
    using assms unfolding listed_at_def Let_def by blast+
  have "?row \<in> set ROUTES" using route_piece_in [OF facts(1)] nth_mem [OF facts(2)] by blast
  then show ?thesis unfolding listed_def using facts(3,4) takes_same by metis
qed

lemma list_all2_left: "list_all2 P xs ys \<Longrightarrow> x \<in> set xs \<Longrightarrow> \<exists>y. P x y"
  by (auto simp: list_all2_conv_all_nth in_set_conv_nth)

lemma all_listed_listed:
  assumes "all_listed (own_rows rs) places" "r \<in> set rs" "rg_token r" "rg_path r \<noteq> ''/field-api/*path''"
    "m \<in> set (rg_methods r)"
  shows "listed m (rg_path r)"
proof -
  have "r \<in> set (own_rows rs)" using assms(2,3,4) unfolding own_rows_def by simp
  then obtain ps where "list_all2 (listed_at r) (rg_methods r) ps"
    using list_all2_left assms(1) unfolding all_listed_def by meson
  then obtain place where "listed_at r m place" using list_all2_left assms(5) by meson
  then show ?thesis by (rule listed_at_listed)
qed

lemma field_api_row: "route_piece 1 ! 23 = (''*'', ''/field-api/*'', UpstreamEnforced)"
  by code_simp

lemma field_api_listed: "listed m ''/field-api/*path''"
proof -
  have "23 < length (route_piece 1)" by code_simp
  then have "route_piece 1 ! 23 \<in> set (route_piece 1)" by (rule nth_mem)
  moreover have "set (route_piece 1) \<subseteq> set ROUTES" by (rule route_piece_in) simp
  ultimately have "(''*'', ''/field-api/*'', UpstreamEnforced) \<in> set ROUTES" unfolding field_api_row by (rule rev_subsetD)
  then show ?thesis unfolding listed_def using takes_field_api by (intro bexI [rotated]) auto
qed

lemma guarded_listed:
  assumes "r \<in> set build_router" "rg_token r" "m \<in> set (rg_methods r)"
  shows "listed m (rg_path r)"
proof (cases "rg_path r = ''/field-api/*path''")
  case True
  then show ?thesis using field_api_listed by simp
next
  case False
  note row = all_listed_listed [OF _ _ assms(2) False assms(3)]
  show ?thesis
    using assms(1) row [OF own_rows_1] row [OF own_rows_2] row [OF own_rows_3] row [OF own_rows_4]
      row [OF own_rows_5] row [OF own_rows_6] row [OF own_rows_7]
    unfolding build_router_def by auto
qed

lemma no_row_is_public: "list_all (\<lambda>row. snd (snd row) \<noteq> Public) ROUTES"
  unfolding ROUTES_def ROUTES_1_def ROUTES_2_def ROUTES_3_def ROUTES_4_def ROUTES_5_def ROUTES_6_def
  by simp

text \<open>Whether a row of the table may take a path by its first segment: none takes the root or one under \<open>/public\<close>.\<close>

definition opens_with :: "str list \<Rightarrow> str \<Rightarrow> bool" where
  "opens_with firsts pattern =
     (case segments pattern of [] \<Rightarrow> [] \<in> set firsts
      | s # _ \<Rightarrow> starts_with s ''*'' \<or> starts_with s '':'' \<or> s \<in> set firsts)"

lemma opens_with_match:
  "pattern_matches pattern path \<Longrightarrow> (case segments path of [] \<Rightarrow> [] | s # _ \<Rightarrow> s) \<in> set firsts \<Longrightarrow>
     opens_with firsts pattern"
  unfolding pattern_matches_def opens_with_def
  by (cases "segments pattern"; cases "segments path") (auto split: if_splits)

lemma open_paths_unlisted:
  "list_all (\<lambda>row. \<not> opens_with [[], ''healthz'', ''public''] (fst (snd row))) ROUTES"
  by code_simp

lemma join_split: "join_with c (split_on c s) = s"
proof (induction s)
  case (Cons x xs)
  obtain w ws where cut: "split_on c xs = w # ws" by (cases "split_on c xs") auto
  then show ?case using Cons by (cases ws) auto
qed simp

lemma unlisted_path:
  assumes "(case segments path of [] \<Rightarrow> [] | s # _ \<Rightarrow> s) \<in> set [[], ''healthz'', ''public'']"
    and "path \<in> set PUBLIC_EXACT \<or> list_ex (starts_with path) PUBLIC_PREFIXES"
  shows "classify_route m path = Some Public"
proof -
  have "\<not> route_applies (answered_as m) path row" if "row \<in> set ROUTES" for row
    using opens_with_match [OF _ assms(1)] open_paths_unlisted that unfolding route_applies_def list_all_iff by blast
  then have "find (route_applies (answered_as m) path) ROUTES = None" by (simp add: find_None_iff)
  then show ?thesis unfolding classify_route_def using assms(2) by auto
qed

lemma open_registrations:
  "map rg_path (filter (\<lambda>r. \<not> rg_token r) build_router) =
     [''/'', ''/healthz'', ''/public/cancellation-fees/:token'',
      ''/public/cancellation-fees/:token/stripe-payment-intent'', ''/public/cancellation-fees/:token/confirm'']"
  by code_simp

lemma fits_cut:
  assumes "fits pattern path" "split_on (CHR ''/'') pattern = q # qs" "\<not> starts_with q ''*''" "\<not> starts_with q '':''"
  obtains ps where "split_on (CHR ''/'') path = q # ps" "fits_segments qs ps"
  using assms unfolding fits_def by (cases "split_on (CHR ''/'') path") auto

lemma root_path: "fits ''/'' path \<Longrightarrow> path = ''/''"
proof -
  assume "fits ''/'' path"
  moreover have "split_on (CHR ''/'') ''/'' = [[], []]" by code_simp
  ultimately have "split_on (CHR ''/'') path = [[], []]" unfolding fits_def by (auto split: list.splits)
  then show ?thesis using join_split [of "CHR ''/''" path] by simp
qed

lemma healthz_path: "fits ''/healthz'' path \<Longrightarrow> path = ''/healthz''"
proof -
  assume "fits ''/healthz'' path"
  moreover have "split_on (CHR ''/'') ''/healthz'' = [[], ''healthz'']" by code_simp
  ultimately have "split_on (CHR ''/'') path = [[], ''healthz'']" unfolding fits_def by (auto split: list.splits)
  then show ?thesis using join_split [of "CHR ''/''" path] by simp
qed

lemma public_path:
  assumes "fits pattern path" "split_on (CHR ''/'') pattern = [] # ''public'' # q # qs"
  shows "list_ex (starts_with path) PUBLIC_PREFIXES" "\<exists>rest. segments path = ''public'' # rest"
proof -
  obtain ps where one: "split_on (CHR ''/'') path = [] # ps" "fits_segments (''public'' # q # qs) ps"
    using fits_cut [OF assms] by auto
  then obtain ps' where two: "ps = ''public'' # ps'" "fits_segments (q # qs) ps'" by (auto split: list.splits)
  then have "ps' \<noteq> []" by (cases ps') auto
  then obtain w ws where "ps' = w # ws" by (cases ps') auto
  then have "path = ''/public/'' @ join_with (CHR ''/'') (w # ws)"
    using join_split [of "CHR ''/''" path] one(1) two(1) by simp
  then show "list_ex (starts_with path) PUBLIC_PREFIXES" unfolding PUBLIC_PREFIXES_def by simp
  show "\<exists>rest. segments path = ''public'' # rest" unfolding segments_def one(1) two(1) by simp
qed

lemma open_paths_public:
  assumes "r \<in> set build_router" "\<not> rg_token r" "fits (rg_path r) path"
  shows "classify_route m path = Some Public"
proof -
  have "rg_path r \<in> set (map rg_path (filter (\<lambda>r. \<not> rg_token r) build_router))" using assms(1,2) by auto
  then consider "rg_path r = ''/''" | "rg_path r = ''/healthz''"
    | "rg_path r = ''/public/cancellation-fees/:token''"
    | "rg_path r = ''/public/cancellation-fees/:token/stripe-payment-intent''"
    | "rg_path r = ''/public/cancellation-fees/:token/confirm''"
    unfolding open_registrations by auto
  then have "(path \<in> set PUBLIC_EXACT \<or> list_ex (starts_with path) PUBLIC_PREFIXES) \<and>
      (case segments path of [] \<Rightarrow> [] | s # _ \<Rightarrow> s) \<in> set [[], ''healthz'', ''public'']"
  proof cases
    case 1
    then have "path = ''/''" using assms(3) root_path by simp
    then show ?thesis by (simp add: PUBLIC_EXACT_def segments_def)
  next
    case 2
    then have "path = ''/healthz''" using assms(3) healthz_path by simp
    then show ?thesis by (simp add: PUBLIC_EXACT_def segments_def)
  next
    case 3
    note fit = assms(3) [unfolded 3]
    have "split_on (CHR ''/'') ''/public/cancellation-fees/:token'' = [[], ''public'', ''cancellation-fees'', '':token'']"
      by code_simp
    from public_path [OF fit this] show ?thesis by auto
  next
    case 4
    note fit = assms(3) [unfolded 4]
    have "split_on (CHR ''/'') ''/public/cancellation-fees/:token/stripe-payment-intent'' =
        [[], ''public'', ''cancellation-fees'', '':token'', ''stripe-payment-intent'']"
      by code_simp
    from public_path [OF fit this] show ?thesis by auto
  next
    case 5
    note fit = assms(3) [unfolded 5]
    have "split_on (CHR ''/'') ''/public/cancellation-fees/:token/confirm'' =
        [[], ''public'', ''cancellation-fees'', '':token'', ''confirm'']"
      by code_simp
    from public_path [OF fit this] show ?thesis by auto
  qed
  then show ?thesis using unlisted_path by blast
qed

lemma listed_standing:
  assumes "listed (answered_as m) pattern" "fits pattern path"
  obtains standing where "classify_route m path = Some standing" "standing \<noteq> Public"
proof -
  obtain row where "row \<in> set ROUTES" "route_applies (answered_as m) path row"
    using assms unfolding listed_def takes_def route_applies_def by blast
  then have "find (route_applies (answered_as m) path) ROUTES \<noteq> None" unfolding find_None_iff by blast
  then obtain found where found: "find (route_applies (answered_as m) path) ROUTES = Some found" by blast
  then have "found \<in> set ROUTES" by (auto simp: find_Some_iff)
  then have "snd (snd found) \<noteq> Public" using no_row_is_public by (simp add: list_all_iff)
  then show thesis using that [of "snd (snd found)"] found
    by (cases found) (simp add: classify_route_def)
qed

text \<open>
  C10. The classifier and the router agree on every request: whatever path the server delivers to a registration
  with one of its methods (HEAD as GET) gets a standing, so the gate refuses no registered route as unclassified,
  and that standing is Public for exactly the registrations without the token layer. \<open>delivers\<close> is the server
  library's matching, which is only asked to fit the pattern.
\<close>

theorem router_and_gate_agree:
  assumes "\<And>pattern path. delivers pattern path \<Longrightarrow> fits pattern path"
    and "r \<in> set build_router" "answered_as m \<in> set (rg_methods r)" "delivers (rg_path r) path"
  shows "\<exists>standing. classify_route m path = Some standing \<and> (standing = Public \<longleftrightarrow> \<not> rg_token r)"
proof -
  have fit: "fits (rg_path r) path" using assms(1,4) by blast
  show ?thesis
  proof (cases "rg_token r")
    case True
    obtain standing where "classify_route m path = Some standing" "standing \<noteq> Public"
      by (rule listed_standing [OF guarded_listed [OF assms(2) True assms(3)] fit])
    then show ?thesis using True by blast
  next
    case False
    then show ?thesis using open_paths_public [OF assms(2) False fit] by blast
  qed
qed

theorem router_and_gate_agree_witness:
  "\<exists>standing. classify_route ''HEAD'' ''/v1/course/courses/c1/schedule'' = Some standing \<and>
     (standing = Public \<longleftrightarrow> \<not> rg_token (registers ''/v1/course/courses/:id/schedule'' [''GET'', ''PUT''] True))"
proof (rule router_and_gate_agree [of fits])
  show "registers ''/v1/course/courses/:id/schedule'' [''GET'', ''PUT''] True \<in> set build_router"
    unfolding build_router_def router_4_def set_append by simp
  show "answered_as ''HEAD'' \<in> set (rg_methods (registers ''/v1/course/courses/:id/schedule'' [''GET'', ''PUT''] True))"
    by (simp add: answered_as_def)
  show "fits (rg_path (registers ''/v1/course/courses/:id/schedule'' [''GET'', ''PUT''] True)) ''/v1/course/courses/c1/schedule''"
    by code_simp
qed

end
