(* ===== verification/AuthzCache.thy ===== *)
theory AuthzCache
  imports Authz
begin

text \<open>
  What the gate and the navigation go by: an allowance is used only while a grant of the store stands behind
  it, and the batch answer says of each action no more than the store did. Other requests work on the same cache
  while one waits for the store, so the cache is followed through a history of its steps, with a log of what the
  store answered, whatever it was, and of the tenants forgotten, latest first.
\<close>

section \<open>The history of the cache\<close>

datatype cache_event = Answered cache_key check_answer int | Forgotten str

abbreviation tenant_of :: "cache_key \<Rightarrow> str" where "tenant_of k \<equiv> fst (snd k)"

text \<open>The store granted it at that time, and the tenant was not forgotten since.\<close>

fun stands :: "cache_event list \<Rightarrow> cache_key \<Rightarrow> int \<Rightarrow> bool" where
  "stands [] k t = False"
| "stands (Answered k' answer t' # events) k t = ((k' = k \<and> answer = Inr Allowed \<and> t' = t) \<or> stands events k t)"
| "stands (Forgotten tenant # events) k t = (tenant_of k \<noteq> tenant \<and> stands events k t)"

text \<open>
  The steps are those of the checks themselves: one answered from the cache, one that finds nothing there and
  goes to wait, and one that comes back at \<open>t\<close> with whatever the store said, to the cache as it is by then.
\<close>

inductive cache_history :: "int \<Rightarrow> cache_event list \<Rightarrow> cache \<Rightarrow> bool" where
  Fresh: "cache_history t [] []"
| Later: "cache_history t events c \<Longrightarrow> t \<le> t' \<Longrightarrow> cache_history t' events c"
| Hits: "cache_history t events c \<Longrightarrow> fst (cache_allowance t k CACHE_TTL c)
    \<Longrightarrow> cache_history t events (snd (cached_check t later meanwhile ask k c))"
| Misses: "cache_history t events c \<Longrightarrow> \<not> fst (cache_allowance t k CACHE_TTL c)
    \<Longrightarrow> cache_history t events (snd (cache_allowance t k CACHE_TTL c))"
| Returns: "cache_history t events c \<Longrightarrow> \<not> fst (cache_allowance asked_at k CACHE_TTL c0)
    \<Longrightarrow> cache_history t (Answered k (ask k) t # events) (snd (cached_check asked_at t (\<lambda>_. c) ask k c0))"
| Revokes: "cache_history t events c \<Longrightarrow> cache_history t (Forgotten tenant # events) (invalidate_tenant tenant c)"

lemma cache_allowance_kept: "set (snd (cache_allowance now k window c)) \<subseteq> set c"
  unfolding cache_allowance_def by (auto split: option.splits if_splits)

lemma remember_kept: "e \<in> set (remember now k c) \<Longrightarrow> e = (k, now) \<or> e \<in> set c"
  unfolding remember_def cache_put_def by (auto split: if_splits)

lemma check_hit: "fst (cache_allowance now k CACHE_TTL c)
    \<Longrightarrow> snd (cached_check now later meanwhile ask k c) = snd (cache_allowance now k CACHE_TTL c)"
  unfolding cached_check_def by (simp add: Let_def case_prod_beta)

text \<open>A check that returns adds the grant it was given, and nothing else.\<close>

lemma check_returned:
  assumes "\<not> fst (cache_allowance now k CACHE_TTL c0)" "e \<in> set (snd (cached_check now t (\<lambda>_. c) ask k c0))"
  shows "e = (k, t) \<and> ask k = Inr Allowed \<or> e \<in> set c"
  using assms remember_kept [of e t k c] cache_allowance_kept [of t k CACHE_GRACE c] unfolding cached_check_def
  by (auto simp: Let_def case_prod_beta split: sum.splits decision.splits check_error.splits if_splits)

lemma cache_entries_stand: "cache_history t events c \<Longrightarrow> (k, g) \<in> set c \<Longrightarrow> stands events k g"
proof (induction arbitrary: k g rule: cache_history.induct)
  case (Hits t events c k' later meanwhile ask)
  show ?case
    by (rule Hits.IH [OF subsetD [OF cache_allowance_kept Hits.prems [unfolded check_hit [OF Hits.hyps(2)]]]])
next
  case (Misses t events c k')
  show ?case by (rule Misses.IH [OF subsetD [OF cache_allowance_kept Misses.prems]])
next
  case (Returns t events c asked_at k' c0 ask)
  from check_returned [OF Returns.hyps(2) Returns.prems] show ?case using Returns.IH by (elim disjE) auto
next
  case (Revokes t events c tenant)
  then show ?case by (auto simp: invalidate_tenant_def)
qed auto

lemma allowance_stands:
  assumes "cache_history t events c" "fst (cache_allowance now k window c)"
  shows "\<exists>g. stands events k g \<and> now - g < window"
proof -
  obtain g where "map_of c k = Some g" "now - g < window"
    using assms(2) unfolding cache_allowance_def by (auto split: option.splits if_splits)
  then show ?thesis using cache_entries_stand [OF assms(1)] map_of_SomeD by fastforce
qed

text \<open>What an answer of \<open>Allowed\<close> rests on.\<close>

definition backed ::
  "(cache_key \<Rightarrow> check_answer) \<Rightarrow> cache_key \<Rightarrow> int \<Rightarrow> cache_event list \<Rightarrow> int \<Rightarrow> cache_event list \<Rightarrow> bool" where
  "backed ask k now events later events' \<longleftrightarrow>
     ask k = Inr Allowed
     \<or> (\<exists>g. stands events k g \<and> now - g < 60)
     \<or> (is_read_only (snd (snd (snd k))) \<and> (\<exists>message. ask k = Inl (CheckProvider message))
        \<and> (\<exists>g. stands events' k g \<and> later - g < 1800))"

lemma cached_check_backed:
  assumes "cache_history now events c"
    and "\<And>c'. cache_history now events c' \<Longrightarrow> cache_history later events' (meanwhile c')"
    and "fst (cached_check now later meanwhile ask k c) = Inr Allowed"
  shows "backed ask k now events later events'"
proof (cases "fst (cache_allowance now k CACHE_TTL c)")
  case True
  then show ?thesis using allowance_stands [OF assms(1)] unfolding backed_def CACHE_TTL_def by blast
next
  case False
  let ?c = "meanwhile (snd (cache_allowance now k CACHE_TTL c))"
  have waited: "cache_history later events' ?c" by (rule assms(2) [OF cache_history.Misses [OF assms(1) False]])
  have given: "ask k = Inr Allowed \<or> (\<exists>message. ask k = Inl (CheckProvider message)) \<and>
      is_read_only (snd (snd (snd k))) \<and> fst (cache_allowance later k CACHE_GRACE ?c)"
    using assms(3) False unfolding cached_check_def
    by (auto simp: Let_def case_prod_beta split: sum.splits decision.splits check_error.splits if_splits)
  show ?thesis
    using given allowance_stands [OF waited, of later k CACHE_GRACE] unfolding backed_def CACHE_GRACE_def by auto
qed

lemma gate_passed:
  assumes "fst (require_course_authorization (Some check) verified req c) = Passed"
    and "classify_route (rq_method req) (rq_path req) = Some (Action action)"
  obtains bearer operator where "bearer_from req = Some bearer" "verified bearer"
    "scope_header req ''x-operator-id'' = Some operator"
    "fst (check (bearer, operator, scope_header req ''x-platform-id'', action) c) = Inr Allowed"
proof -
  obtain bearer where bearer: "bearer_from req = Some bearer"
    using assms unfolding require_course_authorization_def by (auto split: option.splits)
  have verified: "verified bearer"
    using assms bearer unfolding require_course_authorization_def by (auto split: if_splits)
  obtain operator where operator: "scope_header req ''x-operator-id'' = Some operator"
    using assms bearer verified unfolding require_course_authorization_def by (auto split: option.splits)
  have "fst (check (bearer, operator, scope_header req ''x-platform-id'', action) c) = Inr Allowed"
    using assms bearer verified operator unfolding require_course_authorization_def
    by (auto split: prod.splits sum.splits decision.splits check_error.splits)
  then show thesis using that bearer verified operator by blast
qed

text \<open>
  C11. A route under an action opens only on a grant of that action by the store: when the gate lets a request
  through, its bearer is verified, it names a tenant, and for exactly that bearer, tenant, platform and action
  either the store grants it now, or the store granted it less than a minute ago and the tenant was not
  forgotten since (its permissions changed), or, for an action that only reads and while the store cannot be
  reached, the store granted it less than half an hour ago and the tenant was not forgotten since. A time
  counts from when the answer came in, and only an answer of \<open>Allowed\<close> counts: no refusal and no failure is
  ever remembered as a grant. Other requests may use the cache while this one waits.
\<close>

theorem gate_opens_only_on_a_grant:
  assumes "cache_history now events c"
    and "\<And>c'. cache_history now events c' \<Longrightarrow> cache_history later events' (meanwhile c')"
    and "classify_route (rq_method req) (rq_path req) = Some (Action action)"
    and "fst (require_course_authorization (Some (cached_check now later meanwhile ask)) verified req c) = Passed"
  shows "\<exists>bearer operator. bearer_from req = Some bearer \<and> verified bearer \<and>
     scope_header req ''x-operator-id'' = Some operator \<and>
     backed ask (bearer, operator, scope_header req ''x-platform-id'', action) now events later events'"
proof -
  obtain bearer operator where gate: "bearer_from req = Some bearer" "verified bearer"
      "scope_header req ''x-operator-id'' = Some operator"
      "fst (cached_check now later meanwhile ask (bearer, operator, scope_header req ''x-platform-id'', action) c) = Inr Allowed"
    by (rule gate_passed [OF assms(4,3)])
  show ?thesis using gate cached_check_backed [OF assms(1,2) gate(4)] by blast
qed

text \<open>At the desk: the store is down, and a read granted ten minutes before still opens.\<close>

definition desk_request :: request where
  "desk_request = \<lparr>rq_method = ''GET'', rq_path = ''/v1/course/weather-observations'',
     rq_headers = [(''authorization'', ''Bearer t1''), (''x-operator-id'', '' club '')]\<rparr>"

definition desk_key :: cache_key where
  "desk_key = (''t1'', ''club'', None, LIST_BUDGETS)"

definition store_down :: "cache_key \<Rightarrow> check_answer" where
  "store_down k = Inl (CheckProvider ''timed out'')"

lemma desk_history: "cache_history 600 [Answered desk_key (Inr Allowed) 0] [(desk_key, 0)]"
proof -
  have "cache_history 0 [Answered desk_key (Inr Allowed) 0]
      (snd (cached_check 0 0 (\<lambda>_. []) (\<lambda>_. Inr Allowed) desk_key []))"
    by (rule cache_history.Returns [OF cache_history.Fresh, where ask = "\<lambda>_. Inr Allowed"]) code_simp
  moreover have "snd (cached_check 0 0 (\<lambda>_. []) (\<lambda>_. Inr Allowed) desk_key []) = [(desk_key, 0)]"
    by code_simp
  ultimately show ?thesis by (auto intro: cache_history.Later)
qed

theorem gate_opens_only_on_a_grant_witness:
  "\<exists>bearer operator. bearer_from desk_request = Some bearer \<and> (bearer = ''t1'') \<and>
     scope_header desk_request ''x-operator-id'' = Some operator \<and>
     backed store_down (bearer, operator, scope_header desk_request ''x-platform-id'', LIST_BUDGETS)
       600 [Answered desk_key (Inr Allowed) 0] 605 [Answered desk_key (Inr Allowed) 0]"
proof (rule gate_opens_only_on_a_grant [where meanwhile = id and c = "[(desk_key, 0)]"])
  show "cache_history 600 [Answered desk_key (Inr Allowed) 0] [(desk_key, 0)]" by (rule desk_history)
  show "cache_history 605 [Answered desk_key (Inr Allowed) 0] (id c')" if "cache_history 600 [Answered desk_key (Inr Allowed) 0] c'" for c'
    unfolding id_apply by (rule cache_history.Later [OF that]) simp
  show "classify_route (rq_method desk_request) (rq_path desk_request) = Some (Action LIST_BUDGETS)"
    by code_simp
  show "fst (require_course_authorization (Some (cached_check 600 605 id store_down)) (\<lambda>bearer. bearer = ''t1'') desk_request
      [(desk_key, 0)]) = Passed"
    by code_simp
qed

text \<open>
  A grant the store gave before the tenant was forgotten is remembered after it: the check was on its way. The
  permission taken away is used for another minute, against the comment of \<open>invalidate_tenant\<close>.
\<close>

lemma revoked_while_asking:
  "let after = snd (cached_check 0 2 (invalidate_tenant ''club'') (\<lambda>_. Inr Allowed) desk_key [])
   in fst (cached_check 50 51 id (\<lambda>_. Inr Denied) desk_key after) = Inr Allowed"
  by code_simp

text \<open>
  A refusal takes nothing back: the store grants a read, refuses it a minute later, and cannot be reached after
  that. The outage serves the allowance from before the refusal.
\<close>

lemma refused_then_served:
  "let granted = snd (cached_check 0 0 id (\<lambda>_. Inr Allowed) desk_key []);
       refused = cached_check 70 70 id (\<lambda>_. Inr Denied) desk_key granted
   in fst refused = Inr Denied \<and> fst (cached_check 80 81 id store_down desk_key (snd refused)) = Inr Allowed"
  by code_simp

section \<open>The batch\<close>

text \<open>What the answers say of one action: one answer without an error, or nothing.\<close>

definition said :: "check_outcome list \<Rightarrow> str \<Rightarrow> bool option" where
  "said outcomes a =
     (case filter (\<lambda>co. co_action co = a) outcomes of
        [co] \<Rightarrow> if co_error co = None then Some (co_allowed co) else None
      | _ \<Rightarrow> None)"

lemma batch_fold:
  "fold (batch_step actions) outcomes (\<lambda>a. if a \<in> set actions then Some None else None, {}) =
     (\<lambda>a. if a \<in> set actions then Some (if count_list actions a = 1 then said outcomes a else None) else None,
      {a. a \<in> set actions \<and> count_list actions a = 1 \<and> a \<in> co_action ` set outcomes})"
proof (induction outcomes rule: rev_induct)
  case Nil
  then show ?case by (auto simp: said_def)
next
  case (snoc co outcomes)
  let ?a = "co_action co"
  have apart: "said (outcomes @ [co]) a = said outcomes a" if "a \<noteq> ?a" for a
    using that by (simp add: said_def)
  have first: "said (outcomes @ [co]) ?a = (if co_error co = None then Some (co_allowed co) else None)"
      "said outcomes ?a = None" if "?a \<notin> co_action ` set outcomes"
  proof -
    have none: "filter (\<lambda>co'. co_action co' = ?a) outcomes = []" using that by (auto simp: filter_empty_conv image_iff)
    show "said (outcomes @ [co]) ?a = (if co_error co = None then Some (co_allowed co) else None)"
      unfolding said_def filter_append none by simp
    show "said outcomes ?a = None" unfolding said_def none by simp
  qed
  have again: "said (outcomes @ [co]) ?a = None" if "?a \<in> co_action ` set outcomes"
  proof -
    have "filter (\<lambda>co'. co_action co' = ?a) outcomes \<noteq> []" using that by (auto simp: filter_empty_conv image_iff)
    then show ?thesis unfolding said_def
      by (cases "filter (\<lambda>co'. co_action co' = ?a) outcomes") (auto split: list.splits)
  qed
  have more: "said (outcomes @ [co]) x =
      (if x \<noteq> ?a then said outcomes x
       else if ?a \<in> co_action ` set outcomes then None
       else if co_error co = None then Some (co_allowed co) else None)" for x
    using apart first(1) again by auto
  have none: "said outcomes ?a = None" if "?a \<notin> co_action ` set outcomes"
    by (rule first(2) [OF that])
  have step: "batch_step actions co
      (\<lambda>a. if a \<in> set actions then Some (if count_list actions a = 1 then said outcomes a else None) else None,
       {a. a \<in> set actions \<and> count_list actions a = 1 \<and> a \<in> co_action ` set outcomes}) =
     (\<lambda>a. if a \<in> set actions then Some (if count_list actions a = 1 then said (outcomes @ [co]) a else None) else None,
      {a. a \<in> set actions \<and> count_list actions a = 1 \<and> a \<in> co_action ` set (outcomes @ [co])})"
  proof -
    define earlier where "earlier = co_action ` set outcomes"
    have answered: "co_action ` set (outcomes @ [co]) = insert ?a earlier" unfolding earlier_def by simp
    have unsaid: "?a \<notin> earlier \<Longrightarrow> said outcomes ?a = None" unfolding earlier_def by (rule none)
    show ?thesis
      unfolding batch_step_def Let_def prod.case more answered earlier_def [symmetric]
      by (cases "?a \<in> earlier"; cases "?a \<in> set actions"; cases "count_list actions ?a = 1")
        (auto simp: fun_eq_iff unsaid)
  qed
  show ?case unfolding fold_append snoc comp_apply fold_simps id_apply by (rule step)
qed

text \<open>
  C12. The navigation shows an action as granted or refused only where the store said so once: for any batch of
  actions and any answer, an action asked for once with exactly one outcome and no error gets that outcome, and
  every other action asked for (missing, repeated in the question or in the answer, failed) stays unknown.
\<close>

theorem navigation_claims_what_was_said:
  "strict_batch_decisions actions outcomes =
     (\<lambda>a. if a \<in> set actions then Some (if count_list actions a = 1 then said outcomes a else None) else None)"
  unfolding strict_batch_decisions_def batch_fold by simp

end
