(* ===== verification/FieldProxy.thy ===== *)
theory FieldProxy
  imports Authz
begin

text \<open>
  What the browser may reach of \<open>Field\<close> through the proxy: \<open>src/field_proxy.rs\<close>. The tests of a path, the
  methods each takes, whose bearer goes along, and which calls change who may do what. Sending the call is
  the HTTP client's: what it answers is a parameter.
\<close>

section \<open>Paths\<close>

















section \<open>Methods\<close>


section \<open>One call\<close>










section \<open>What the proxy lets change\<close>











end
