(* ===== verification/Spec2Isabelle.thy ===== *)
theory Spec2Isabelle
  imports ShiftPlanCorrect DayPlanCorrect CourseSupplyCorrect PayrollCorrect FeeSimulator
    Membership ShiftHours SettlementCorrect CancellationsCorrect TeeLedgerCorrect AutoAssignCorrect SlotMarks
    CourseScheduleCorrect BookingsCorrect CustomerSummariesCorrect ShiftTyped
    AuthzCorrect AuthzCache FieldProxy
begin

text \<open>
  A verification library for Course Board, the desk application of a golf club: it sells tee times,
  staffs them with caddies, bills what was played and keeps the club's own tables beside \<open>Field\<close>, the
  system upstream that owns reservations, products, staff and customers. The server is written in Rust
  under \<open>src/src/\<close>; the core is \<open>course/domain\<close> (data and pure rules), \<open>course/usecase\<close> (operations),
  and \<open>course/infrastructure\<close> (the club's MySQL tables and the calls to Field).

  \<^bold>\<open>How the program is modelled.\<close> A struct is a record, an enum a datatype, a pure function a HOL
  function with the source's name and branches. A failing function returns \<open>course_error + 'a\<close>, the
  constructors being those of \<open>domain/error.rs\<close>; a panic is an error value of its own where the code
  can reach one. A use case is a function from the answers of its reads (a record with one field per
  await, each a result) to its result and the state it leaves: the rows of the club's tables, and a
  log of the calls made upstream. The order of the reads, and which failure is seen first, is the
  code's. Integers are kept at their width where a sum can leave it (\<open>i64\<close> money and \<open>i32\<close> quantities
  wrap or saturate as the code does); text is a list of bytes, as in Rust.

  \<^bold>\<open>Parameters.\<close> What is not under \<open>src/\<close> is an argument: the calendar and the time zone database
  (\<open>calendar\<close>, \<open>zone_texts\<close>, \<open>local_times\<close>), the collation of the database (a key function \<open>ck\<close>) and its
  clock, whether a transaction commits, the order in which a hash map is walked, what upstream
  answers (\<open>reply\<close>, given the calls that went before), and \<open>powf\<close>. A property that needs more of one of
  them than that says so as a hypothesis, and its witness instantiates it.

  \<^bold>\<open>Theories, from the bottom.\<close>
  \<^item> \<open>Prelude\<close>: strings, errors, machine integers, sorting, hash maps, pages and chunks, and the
    shared contracts: \<open>comparator\<close> (what \<open>sort_by\<close> and \<open>ORDER BY\<close> promise, with \<open>pages_complete\<close>),
    \<open>wire_enum\<close> and \<open>wire_code\<close> (a token is read back as what wrote it), \<open>running_total\<close> (a loop that
    adds up does not depend on the order). \<open>Float64\<close>: the \<open>f64\<close> of the domain. \<open>TextFormats\<close>: decimal
    numbers and CSV, with a reader the exported files are checked against.
  \<^item> \<open>CaddieModel\<close> (\<open>caddie.rs\<close>, \<open>ids.rs\<close>, \<open>caddie_ops.rs\<close>, \<open>update_caddie.rs\<close>): the roster's data, the
    stored-profile merge and the update path that skips it.
  \<^item> Shifts. \<open>CaddieShift\<close>, \<open>ShiftPlan\<close>, \<open>ShiftPlanCorrect\<close> (\<open>caddie_shift.rs\<close>): the policy, the desk's
    edit of a day, and the monthly run; its rows respect the limit on consecutive days and give the
    promised days off. \<open>ShiftHours\<close> (\<open>shift_hours.rs\<close>): the clock times of a span. \<open>ShiftStore\<close>
    (\<open>caddie_shift_repository.rs\<close>) and \<open>ShiftMirror\<close> (\<open>mirror_shift_to_field.rs\<close>, \<open>update_caddie_shift.rs\<close>,
    \<open>sync_caddie_shifts_to_field.rs\<close>, \<open>field_staff_shift_gateway.rs\<close>): the stored days and how Field hears
    of them; \<open>ShiftMirrorCorrect\<close> proves that Field is told before an edit is stored, what is left when only the link is lost, and that a push ends.
    \<open>MonthRun\<close> and \<open>MonthRunCorrect\<close> (\<open>generate_caddie_shifts.rs\<close>, \<open>shift_rules_repository.rs\<close>): a confirmed
    month is the one that was read. \<open>ShiftTyped\<close>: over any history (\<open>shift_history\<close>) the stored days are
    well formed. \<open>FilingDeadline\<close> (\<open>availability_deadline.rs\<close>): until when a request may be filed.
  \<^item> The day's work. \<open>Ranking\<close> (\<open>caddie_ranking.rs\<close>), \<open>DayPlan\<close> and \<open>DayPlanCorrect\<close> (\<open>caddie_plan.rs\<close>):
    who takes which round; the planner is an instance of the locale \<open>bookable\<close>. \<open>CaddieDuty\<close>
    (\<open>caddie_duty.rs\<close>): other work, against the set of minutes it covers. \<open>Supply\<close>
    (\<open>get_caddie_supply.rs\<close>), \<open>CourseSupply\<close> and \<open>CourseSupplyCorrect\<close> (\<open>course_supply.rs\<close>,
    \<open>get_course_caddie_supply.rs\<close>): how many groups can be sold with a caddie, per course, with the
    invariant of the coverage loop.
  \<^item> Naming caddies. \<open>AssignmentOps\<close> (the guards and the manual use cases), \<open>AssignmentBoard\<close> (the board
    they leave, as a step relation, beside a log of the lengths the guards were asked for), \<open>AutoAssign\<close> and
    \<open>AutoAssignCorrect\<close> (\<open>auto_assign_caddies.rs\<close>): one use case after the other, by hand or by machine, no
    write of a day puts a caddie on a round that overlaps another of theirs. A write carries no length, so
    nothing is assumed of the length Field reports; the claim is over the lengths asked for.
  \<^item> Selling. \<open>Catalog\<close> (courses, products, resources, schedules, marks), \<open>TeeSheet\<close>, \<open>TeeLedger\<close> and
    \<open>TeeLedgerCorrect\<close> (\<open>tee_sheet.rs\<close>, \<open>tee_ledger.rs\<close> and their use cases), \<open>SlotMarks\<close>
    (\<open>slot_overrides.rs\<close>), \<open>CourseSchedule\<close> and \<open>CourseScheduleCorrect\<close> (\<open>course_schedule.rs\<close>),
    \<open>Party\<close> (\<open>party.rs\<close>, \<open>reservation.rs\<close>), \<open>Bookings\<close> and \<open>BookingsCorrect\<close> (taking and correcting a
    booking), \<open>Cancellations\<close> and \<open>CancellationsCorrect\<close>.
  \<^item> Money. \<open>FeeSimulator\<close> (\<open>simulator.rs\<close>), \<open>Membership\<close>, \<open>Payroll\<close> and \<open>PayrollCorrect\<close>, \<open>Settlement\<close>
    and \<open>SettlementCorrect\<close>: sums against specifications written with sets and counts, and files that
    read back as the screen.
  \<^item> Customers. \<open>CustomerVisits\<close>, \<open>CustomerVisitsCorrect\<close>, \<open>CustomerSummaries\<close>,
    \<open>CustomerSummariesCorrect\<close>: what a customer's play adds up to, the nightly sweep, the ladder of
    grades and the call list.
  \<^item> Access. \<open>Actions\<close> (\<open>actions.rs\<close>) and \<open>RouteTable\<close> (the two tables of routes: the classifier's in
    \<open>course_authz.rs\<close> and the router's registrations in \<open>lib.rs\<close>), \<open>Authz\<close> (\<open>course_authz.rs\<close>: the classifier,
    the questions to the policy store, the cache of allowances, the gate). \<open>AuthzCorrect\<close>: the two tables
    agree on every path. \<open>AuthzCache\<close>: the gate opens only on what the store granted, over a history of the
    cache with a log of the store's answers. \<open>FieldProxy\<close> (\<open>field_proxy.rs\<close>): what the browser reaches of
    Field, and when a change of members forgets what was allowed.

  \<^bold>\<open>Loops and bounds.\<close> Loops over the rows of an answer are structural recursion or folds. The one
  loop whose end depends on upstream is the paged read of a customer's bookings (\<open>read_pages\<close>, a
  \<open>partial_function\<close>): \<open>visit_reads_end\<close> proves that it ends whatever upstream answers, because the code
  stops after a fixed number of pages. No definition takes fuel. Counters that the code keeps as
  \<open>u64\<close> or \<open>usize\<close> and that count rows in memory are \<open>nat\<close>: they stay far below their width.

  \<^bold>\<open>Interleaving.\<close> Where several requests meet in one store the model says so: \<open>board_step\<close>,
  \<open>staff_step\<close>, \<open>desk_step\<close>, \<open>sale_step\<close> and \<open>cache_history\<close> are step relations over which the invariants are
  proved (the board's steps each read and write before the next one does; \<open>concurrent_naming_double_books\<close>
  shows what happens otherwise), and the batch push and the check against the policy store take an argument
  \<open>meanwhile\<close> for what other requests do while they wait. Calls that the code
  starts together are made in the order of the list they come from.

  \<^bold>\<open>Not modelled.\<close> HTTP, JSON and SQL text as such (\<open>interfaces/\<close>, \<open>field_gateway.rs\<close>, \<open>lib.rs\<close> beyond
  the route table): they carry the values the definitions take and return. The start-ledger
  reader and its job queue, the reservation report import, reception forms and consent, the collection
  of cancellation fees over a payment provider, feature delivery, the demo data and the
  desktop client are not modelled; each is listed with its reason in the component list.
\<close>

end
